(* ===== verification/GoPrelude.thy ===== *)
theory GoPrelude
  imports "HOL-Library.Word" "HOL-Library.Signed_Division" "HOL-Library.Sublist"
begin

text \<open>
  Prelude of the development: the Go types, errors, contexts and string functions that the
  components share, with the generic lemmas about them.

  \<^item> Go's fixed-width integers are words of that width; \<open>sint\<close> reads them as signed. Go's
    \<open>int\<close> and lengths, on which the code does no wrapping arithmetic, are \<open>int\<close> and \<open>nat\<close>.
  \<^item> A \<open>[]byte\<close> is a list of 8-bit words, a Go string a list of bytes (\<open>char\<close>).
  \<^item> An \<open>error\<close> value is a \<open>goerr\<close>: a sentinel, an error made by code outside the repository,
    or a \<open>fmt.Errorf\<close> wrapping with \<open>%w\<close>; \<open>errors.Is\<close> is \<open>err_is\<close>.
  \<^item> A \<open>(T, error)\<close> result is \<open>goerr + 'a\<close>, an \<open>error\<close> result is \<open>goerr option\<close> (\<open>None\<close> is nil).
\<close>

type_synonym int32 = "32 word"
type_synonym int64 = "64 word"
type_synonym uint32 = "32 word"
type_synonym uint64 = "64 word"
type_synonym byte = "8 word"
type_synonym bytes = "8 word list"

named_theorems go_defs "definitions that unfold to expose the code of an operation"
named_theorems go_str "facts about Go's string functions"

section \<open>Errors\<close>

datatype sentinel =
    ErrAggregateNotFound | ErrUnhandledCommand | ErrUnhandledEvent | ErrAlreadyCreated
  | ErrNotCreatedYet | ErrNilCommand | ErrEmptyAggregateId | ErrValidationFailed
  | ErrStateNotAllowed | ErrSkip
  | ErrUnauthenticated | ErrForbidden
  | ErrNotFound
  | ErrItemAlreadyPresent

primrec sentinel_text :: "sentinel \<Rightarrow> string" where
  "sentinel_text ErrAggregateNotFound = ''aggregate not found''"
| "sentinel_text ErrUnhandledCommand = ''unhandled command''"
| "sentinel_text ErrUnhandledEvent = ''unhandled event''"
| "sentinel_text ErrAlreadyCreated = ''aggregate already created''"
| "sentinel_text ErrNotCreatedYet = ''aggregate not created yet''"
| "sentinel_text ErrNilCommand = ''command is nil''"
| "sentinel_text ErrEmptyAggregateId = ''aggregate id is empty''"
| "sentinel_text ErrValidationFailed = ''command validation failed''"
| "sentinel_text ErrStateNotAllowed = ''command not allowed in current aggregate state''"
| "sentinel_text ErrSkip = ''command skipped''"
| "sentinel_text ErrUnauthenticated = ''authz: unauthenticated''"
| "sentinel_text ErrForbidden = ''authz: forbidden''"
| "sentinel_text ErrNotFound = ''opaquedata: not found''"
| "sentinel_text ErrItemAlreadyPresent = ''order: item already present''"

text \<open>
  \<open>Foreign\<close> is an error value made outside the repository, identified by its message.
  \<open>Coded T n msg\<close> is a value of an error struct type \<open>T\<close> with a status code \<open>n\<close> and text \<open>msg\<close>.
  \<open>Wrapped msg es\<close> is what \<open>fmt.Errorf\<close> returns: its text is \<open>msg\<close> and it unwraps to \<open>es\<close>.
\<close>

datatype goerr = Sentinel sentinel | Foreign string | Coded string int string | Wrapped string "goerr list"

primrec err_text :: "goerr \<Rightarrow> string" where
  "err_text (Sentinel s) = sentinel_text s"
| "err_text (Foreign m) = m"
| "err_text (Coded T n m) = m"
| "err_text (Wrapped m es) = m"

fun err_is :: "goerr \<Rightarrow> sentinel \<Rightarrow> bool" where
  "err_is (Sentinel s) t = (s = t)"
| "err_is (Foreign m) t = False"
| "err_is (Coded T n m) t = False"
| "err_is (Wrapped m es) t = (\<exists>e \<in> set es. err_is e t)"

text \<open>\<open>errors.As\<close> for a struct type: the status code of the first error of that type in the tree.\<close>

fun err_as :: "string \<Rightarrow> goerr \<Rightarrow> int option" and errs_as :: "string \<Rightarrow> goerr list \<Rightarrow> int option" where
  "err_as T (Sentinel t) = None"
| "err_as T (Foreign m) = None"
| "err_as T (Coded T' n m) = (if T' = T then Some n else None)"
| "err_as T (Wrapped m es) = errs_as T es"
| "errs_as T [] = None"
| "errs_as T (e # es) = (case err_as T e of None \<Rightarrow> errs_as T es | Some n \<Rightarrow> Some n)"

text \<open>\<open>fmt.Errorf("prefix%w", err)\<close>: the text is the prefix followed by the wrapped text.\<close>

definition errorf :: "string \<Rightarrow> goerr \<Rightarrow> goerr" where
  "errorf pre e = Wrapped (pre @ err_text e) [e]"

lemma err_is_errorf [simp]: "err_is (errorf p e) t = err_is e t"
  by (simp add: errorf_def)

lemma err_as_errorf [simp]: "err_as T (errorf p e) = err_as T e"
  by (simp add: errorf_def split: option.split)

lemma err_text_errorf [simp]: "err_text (errorf p e) = p @ err_text e"
  by (simp add: errorf_def)

section \<open>Contexts\<close>

text \<open>
  A context answers \<open>ctx.Err()\<close>, and the answer may change while a call runs (a cancellation
  or a deadline): \<open>ctx_err c p\<close> is the answer at the point \<open>p\<close> of the call. It also carries
  the values that the authorizer stores under the keys of package authz.
\<close>

datatype ctx_point = AtEntry | AtLoad | AtSave | AtMaterialize nat

record ctx =
  ctx_err :: "ctx_point \<Rightarrow> goerr option"
  ctx_user_id :: "string option"
  ctx_jwt :: "string option"

definition background :: ctx where
  "background = \<lparr>ctx_err = (\<lambda>_. None), ctx_user_id = None, ctx_jwt = None\<rparr>"

text \<open>
  The clock: \<open>clk_unix\<close> is what \<open>time.Now().Unix()\<close> gives in a call, \<open>clk_micros i\<close> the i-th
  reading of \<open>NowMicros()\<close> in it.
\<close>

record clock =
  clk_unix :: int64
  clk_micros :: "nat \<Rightarrow> int64"

section \<open>Strings\<close>

text \<open>\<open>strings.Split(s, sep)\<close> for a one-byte separator: always at least one part.\<close>

fun split_on :: "char \<Rightarrow> string \<Rightarrow> string list" where
  "split_on c [] = [[]]"
| "split_on c (x # xs) =
     (if x = c then [] # split_on c xs
      else (case split_on c xs of [] \<Rightarrow> [[x]] | p # ps \<Rightarrow> (x # p) # ps))"

text \<open>\<open>strings.Join(parts, sep)\<close>.\<close>

fun join :: "string \<Rightarrow> string list \<Rightarrow> string" where
  "join sep [] = []"
| "join sep [p] = p"
| "join sep (p # q # ps) = p @ sep @ join sep (q # ps)"

text \<open>\<open>strings.ReplaceAll(s, old, new)\<close> for one-byte \<open>old\<close> and \<open>new\<close>.\<close>

definition replace_char :: "char \<Rightarrow> char \<Rightarrow> string \<Rightarrow> string" where
  "replace_char old new s = map (\<lambda>c. if c = old then new else c) s"

text \<open>\<open>strings.HasPrefix\<close>, \<open>strings.HasSuffix\<close>, \<open>strings.TrimPrefix\<close>, \<open>strings.TrimSuffix\<close>.\<close>

definition has_prefix :: "string \<Rightarrow> string \<Rightarrow> bool" where
  "has_prefix s p = (take (length p) s = p)"

definition has_suffix :: "string \<Rightarrow> string \<Rightarrow> bool" where
  "has_suffix s p = (length p \<le> length s \<and> drop (length s - length p) s = p)"

definition trim_prefix :: "string \<Rightarrow> string \<Rightarrow> string" where
  "trim_prefix s p = (if has_prefix s p then drop (length p) s else s)"

definition trim_suffix :: "string \<Rightarrow> string \<Rightarrow> string" where
  "trim_suffix s p = (if has_suffix s p then take (length s - length p) s else s)"

text \<open>\<open>strings.Contains(s, sub)\<close>.\<close>

fun contains_str :: "string \<Rightarrow> string \<Rightarrow> bool" where
  "contains_str [] sub = (sub = [])"
| "contains_str (c # s) sub = (has_prefix (c # s) sub \<or> contains_str s sub)"

text \<open>\<open>strings.ToLower\<close> and \<open>strings.ToUpper\<close> on ASCII strings (header names, identifiers).\<close>

definition char_lower :: "char \<Rightarrow> char" where
  "char_lower c =
     (let n = (of_char c :: nat) in if 65 \<le> n \<and> n \<le> 90 then char_of (n + 32) else c)"

definition char_upper :: "char \<Rightarrow> char" where
  "char_upper c =
     (let n = (of_char c :: nat) in if 97 \<le> n \<and> n \<le> 122 then char_of (n - 32) else c)"

definition to_lower :: "string \<Rightarrow> string" where
  "to_lower s = map char_lower s"

definition to_upper :: "string \<Rightarrow> string" where
  "to_upper s = map char_upper s"

text \<open>Decimal numerals, as \<open>strconv.FormatInt(v, 10)\<close> and \<open>%d\<close> print them.\<close>

definition digit_char :: "nat \<Rightarrow> char" where
  "digit_char d = char_of (48 + d)"

fun dec_nat :: "nat \<Rightarrow> string" where
  "dec_nat n = (if n < 10 then [digit_char n] else dec_nat (n div 10) @ [digit_char (n mod 10)])"

declare dec_nat.simps [simp del]

definition dec_int :: "int \<Rightarrow> string" where
  "dec_int i = (if i < 0 then CHR ''-'' # dec_nat (nat (- i)) else dec_nat (nat i))"

definition dec_int64 :: "int64 \<Rightarrow> string" where
  "dec_int64 v = dec_int (sint v)"

text \<open>Text between literal quotation marks.\<close>

definition quoted :: "string \<Rightarrow> string" where
  "quoted s = [CHR 0x22] @ s @ [CHR 0x22]"

text \<open>
  The verb \<open>%q\<close>: \<open>strconv.Quote\<close> on ASCII strings. A byte above 127 is kept, as those of printable
  characters in UTF-8 are.
\<close>

definition quote_char :: "char \<Rightarrow> string" where
  "quote_char c =
     (let n = (of_char c :: nat)
      in if c = CHR 0x22 \<or> c = CHR 0x5C then [CHR 0x5C, c]
         else (case map_of [(7, CHR ''a''), (8, CHR ''b''), (12, CHR ''f''), (10, CHR ''n''), (13, CHR ''r''),
                            (9, CHR ''t''), (11, CHR ''v'')] n of
             Some e \<Rightarrow> [CHR 0x5C, e]
           | None \<Rightarrow>
               if n < 32 \<or> n = 127
               then (let digit = (\<lambda>d. if d < 10 then digit_char d else char_of (87 + d))
                     in [CHR 0x5C, CHR ''x'', digit (n div 16), digit (n mod 16)])
               else [c]))"

definition Quote :: "string \<Rightarrow> string" where
  "Quote s = [CHR 0x22] @ concat (map quote_char s) @ [CHR 0x22]"

text \<open>Conversions between \<open>[]byte\<close> and \<open>string\<close>.\<close>

definition string_of_bytes :: "bytes \<Rightarrow> string" where
  "string_of_bytes bs = map (\<lambda>b. char_of (unat b)) bs"

definition bytes_of_string :: "string \<Rightarrow> bytes" where
  "bytes_of_string s = map (\<lambda>c. word_of_nat (of_char c)) s"

subsection \<open>Lemmas on strings\<close>

lemma split_on_not_Nil [simp]: "split_on c s \<noteq> []"
  by (cases s) (auto split: list.splits)

lemma split_on_parts: "p \<in> set (split_on c s) \<Longrightarrow> c \<notin> set p"
proof (induction s arbitrary: p)
  case Nil
  then show ?case by simp
next
  case (Cons x s)
  show ?case
  proof (cases "split_on c s")
    case Nil
    then show ?thesis by simp
  next
    case (Cons q qs)
    with Cons.prems Cons.IH show ?thesis by (auto split: if_splits)
  qed
qed

lemma join_split_on: "join [c] (split_on c s) = s"
proof (induction s)
  case Nil
  then show ?case by simp
next
  case (Cons x s)
  show ?case
  proof (cases "split_on c s")
    case Nil
    then show ?thesis by simp
  next
    case (Cons q qs)
    with Cons.IH show ?thesis by (cases qs) auto
  qed
qed

lemma split_on_append_sep:
  "c \<notin> set p \<Longrightarrow> split_on c (p @ c # s) = p # split_on c s"
  by (induction p) auto

lemma split_on_no_sep: "c \<notin> set p \<Longrightarrow> split_on c p = [p]"
  by (induction p) auto

lemma split_on_join:
  "ps \<noteq> [] \<Longrightarrow> \<forall>p \<in> set ps. c \<notin> set p \<Longrightarrow> split_on c (join [c] ps) = ps"
proof (induction "[c]" ps rule: join.induct)
  case 1
  then show ?case by simp
next
  case (2 p)
  then show ?case by (simp add: split_on_no_sep)
next
  case (3 p q ps)
  then show ?case by (simp add: split_on_append_sep)
qed

lemma has_prefix_append [simp]: "has_prefix (p @ s) p"
  by (simp add: has_prefix_def)

lemma has_prefixE: "has_prefix s p \<Longrightarrow> \<exists>t. s = p @ t"
  unfolding has_prefix_def by (metis append_take_drop_id)

lemma trim_prefix_append [simp]: "trim_prefix (p @ s) p = s"
  by (simp add: trim_prefix_def)

lemma has_suffix_append [simp]: "has_suffix (s @ p) p"
  by (simp add: has_suffix_def)

lemma trim_suffix_append [simp]: "trim_suffix (s @ p) p = s"
  by (simp add: trim_suffix_def)

lemma char_lower_idem [simp]: "char_lower (char_lower c) = char_lower c"
proof (cases "65 \<le> (of_char c :: nat) \<and> (of_char c :: nat) \<le> 90")
  case True
  then have "(of_char (char_of (of_char c + 32 :: nat)) :: nat) = of_char c + 32"
    by (simp add: take_bit_eq_mod)
  with True show ?thesis by (simp add: char_lower_def Let_def)
next
  case False
  then show ?thesis by (auto simp: char_lower_def Let_def)
qed

lemma to_lower_idem [simp]: "to_lower (to_lower s) = to_lower s"
  by (simp add: to_lower_def)

lemma bytes_string_roundtrip [simp]: "bytes_of_string (string_of_bytes bs) = bs"
proof -
  have "word_of_nat (of_char (char_of (unat b) :: char)) = b" for b :: "8 word"
  proof -
    have "unat b < 256" using unsigned_less [of b, where ?'a = nat] by simp
    then have "(of_char (char_of (unat b) :: char) :: nat) = unat b"
      by (simp add: take_bit_eq_mod)
    then show ?thesis by simp
  qed
  then show ?thesis by (simp add: bytes_of_string_def string_of_bytes_def comp_def)
qed

lemma string_bytes_roundtrip [simp]: "string_of_bytes (bytes_of_string s) = s"
proof -
  have "char_of (unat (word_of_nat (of_char c) :: byte)) = (c :: char)" for c
  proof -
    have "(of_char c :: nat) < 256" by simp
    then show ?thesis by (simp add: unsigned_of_nat take_bit_nat_eq_self)
  qed
  then show ?thesis by (simp add: bytes_of_string_def string_of_bytes_def comp_def)
qed

lemma bytes_of_string_inj [simp]: "bytes_of_string s = bytes_of_string t \<longleftrightarrow> s = t"
  by (metis string_bytes_roundtrip)

lemma of_char_digit: "d < 10 \<Longrightarrow> (of_char (digit_char d) :: nat) = 48 + d"
  by (simp add: digit_char_def take_bit_eq_mod)

text \<open>A reader for decimal numerals, to show that printing loses nothing.\<close>

definition undec :: "string \<Rightarrow> nat" where
  "undec s = foldl (\<lambda>n c. n * 10 + (of_char c - 48)) 0 s"

lemma undec_snoc: "undec (s @ [c]) = undec s * 10 + (of_char c - 48)"
  by (simp add: undec_def)

lemma undec_dec_nat [simp]: "undec (dec_nat n) = n"
proof (induction n rule: dec_nat.induct)
  case (1 n)
  show ?case
  proof (cases "n < 10")
    case True
    then show ?thesis
      by (subst dec_nat.simps) (simp add: undec_def of_char_digit)
  next
    case False
    with 1 have "undec (dec_nat (n div 10)) = n div 10" by simp
    with False show ?thesis
      by (subst dec_nat.simps) (simp add: undec_snoc of_char_digit)
  qed
qed

lemma dec_nat_inj: "dec_nat m = dec_nat n \<longleftrightarrow> m = n"
  by (metis undec_dec_nat)

lemma dec_nat_digits: "c \<in> set (dec_nat n) \<Longrightarrow> 48 \<le> (of_char c :: nat) \<and> (of_char c :: nat) \<le> 57"
proof (induction n rule: dec_nat.induct)
  case (1 n)
  show ?case
  proof (cases "n < 10")
    case True
    with "1.prems" show ?thesis
      by (subst (asm) dec_nat.simps) (simp add: of_char_digit)
  next
    case False
    from "1.prems" False have "c \<in> set (dec_nat (n div 10)) \<or> c = digit_char (n mod 10)"
      by (subst (asm) dec_nat.simps) auto
    with "1.IH" False show ?thesis by (auto simp: of_char_digit)
  qed
qed

lemma dec_nat_no_minus: "CHR ''-'' \<notin> set (dec_nat n)"
  using dec_nat_digits [of "CHR ''-''" n] by auto

lemma dec_nat_not_Nil [simp]: "dec_nat n \<noteq> []"
  by (subst dec_nat.simps) simp

lemma dec_nat_neq_minus: "dec_nat n \<noteq> CHR ''-'' # s"
  using dec_nat_no_minus [of n] by (metis list.set_intros(1))

lemma dec_int_inj: "dec_int a = dec_int b \<longleftrightarrow> a = b"
proof
  assume eq: "dec_int a = dec_int b"
  show "a = b"
  proof (cases "a < 0"; cases "b < 0")
    assume "a < 0" "b < 0"
    with eq have "nat (- a) = nat (- b)" by (simp add: dec_int_def dec_nat_inj)
    with \<open>a < 0\<close> \<open>b < 0\<close> show "a = b" by simp
  next
    assume "\<not> a < 0" "\<not> b < 0"
    with eq have "nat a = nat b" by (simp add: dec_int_def dec_nat_inj)
    with \<open>\<not> a < 0\<close> \<open>\<not> b < 0\<close> show "a = b" by simp
  next
    assume "a < 0" "\<not> b < 0"
    with eq have "dec_nat (nat b) = CHR ''-'' # dec_nat (nat (- a))" by (simp add: dec_int_def)
    then show "a = b" by (simp add: dec_nat_neq_minus)
  next
    assume "\<not> a < 0" "b < 0"
    with eq have "dec_nat (nat a) = CHR ''-'' # dec_nat (nat (- b))" by (simp add: dec_int_def)
    then show "a = b" by (simp add: dec_nat_neq_minus)
  qed
qed simp

lemma dec_int64_inj: "dec_int64 a = dec_int64 b \<longleftrightarrow> a = b"
  by (simp add: dec_int64_def dec_int_inj flip: word_eq_iff_signed)

section \<open>Machine integers\<close>

text \<open>Go's \<open>%\<close> on signed integers truncates towards zero.\<close>

definition int64_rem :: "int64 \<Rightarrow> int64 \<Rightarrow> int64" where
  "int64_rem a b = word_of_int (sint a smod sint b)"

lemma smod_eq_0_iff: "(a::int) smod b = 0 \<longleftrightarrow> b dvd a"
  by (auto simp: smod_int_alt_def dvd_eq_mod_eq_0 [symmetric] sgn_0_0)

lemma sint64_bounds: "- (2 ^ 63) \<le> sint (v :: int64)" "sint (v :: int64) < 2 ^ 63"
  using sint_greater_eq [of v] sint_less [of v] by simp_all

lemma sint_word_of_int64:
  "- (2 ^ 63) \<le> i \<Longrightarrow> i < 2 ^ 63 \<Longrightarrow> sint (word_of_int i :: int64) = i"
  by (simp add: sint_sbintrunc' signed_take_bit_int_eq_self)

lemma sint64_add:
  "- (2 ^ 63) \<le> sint v + i \<Longrightarrow> sint v + i < 2 ^ 63 \<Longrightarrow> sint (v + word_of_int i :: int64) = sint v + i"
  using sint_word_of_int64 [of "sint v + i"] by (simp add: of_int_add)

lemma sint64_add_nat:
  "0 \<le> sint v \<Longrightarrow> sint v + int n < 2 ^ 63 \<Longrightarrow> sint (v + word_of_nat n :: int64) = sint v + int n"
  using sint64_add [of v "int n"] by simp

lemma sint64_of_nat: "n < 2 ^ 63 \<Longrightarrow> sint (word_of_nat n :: int64) = int n"
  using sint_word_of_int64 [of "int n"] by simp

text \<open>A version divided by a positive constant.\<close>

lemma int64_rem_dvd:
  assumes "n < 2 ^ 63" "sint k = int m" "0 < m"
  shows "int64_rem (word_of_nat n) k = 0 \<longleftrightarrow> m dvd n"
proof -
  have "int n smod int m = int (n mod m)"
    using assms(3) unfolding smod_int_alt_def zmod_int by (cases "n = 0") simp_all
  moreover have "n mod m < 2 ^ 63" using assms(1) by (meson le_less_trans mod_less_eq_dividend)
  then have sw: "sint (word_of_nat (n mod m) :: int64) = int (n mod m)" by (rule sint64_of_nat)
  have "word_of_int (int (n mod m)) = (0 :: int64) \<longleftrightarrow> n mod m = 0"
  proof
    assume "word_of_int (int (n mod m)) = (0 :: int64)"
    then have "sint (word_of_nat (n mod m) :: int64) = 0" by (simp del: of_nat_mod)
    with sw show "n mod m = 0" by simp
  qed simp
  ultimately show ?thesis
    unfolding int64_rem_def assms(2) sint64_of_nat [OF assms(1)] by (simp add: dvd_eq_mod_eq_0)
qed

section \<open>Lists\<close>

text \<open>The last \<open>n\<close> elements, in order.\<close>

definition last_n :: "nat \<Rightarrow> 'a list \<Rightarrow> 'a list" where
  "last_n n xs = drop (length xs - n) xs"

lemma last_n_all: "length xs \<le> n \<Longrightarrow> last_n n xs = xs"
  by (simp add: last_n_def)

lemma length_last_n [simp]: "length (last_n n xs) = min n (length xs)"
  by (simp add: last_n_def)

lemma map_last_n: "map f (last_n n xs) = last_n n (map f xs)"
  by (simp add: last_n_def drop_map)

lemma last_n_split: "xs = take (length xs - n) xs @ last_n n xs"
  by (simp add: last_n_def)

lemma last_n_Nil [simp]: "last_n n [] = []"
  by (simp add: last_n_def)

lemma rev_take_rev: "rev (take n (rev xs)) = last_n n xs"
  by (simp add: last_n_def take_rev)

lemma last_n_eq_Nil [simp]: "last_n n xs = [] \<longleftrightarrow> n = 0 \<or> xs = []"
  by (cases n; cases xs) (auto simp: last_n_def)

lemma set_last_n: "set (last_n n xs) \<subseteq> set xs"
  by (simp add: last_n_def set_drop_subset)

lemma last_last_n: "n > 0 \<Longrightarrow> xs \<noteq> [] \<Longrightarrow> last (last_n n xs) = last xs"
  by (simp add: last_n_def last_drop)

lemma find_unique:
  assumes "x \<in> set xs" "P x" "\<And>y. y \<in> set xs \<Longrightarrow> P y \<Longrightarrow> y = x"
  shows "find P xs = Some x"
proof (cases "find P xs")
  case None
  with assms(1,2) show ?thesis by (auto simp: find_None_iff)
next
  case (Some y)
  then have "P y" "y \<in> set xs" by (auto simp: find_Some_iff)
  with assms(3) Some show ?thesis by simp
qed

section \<open>Command line output\<close>

text \<open>
  What the command line tools under cmd/ print: writes to the two standard streams, in order, and the
  exit code of a run.
\<close>

datatype stream = Stdout | Stderr

type_synonym printed = "(stream \<times> string) list"

type_synonym ended = "int \<times> printed"

abbreviation line_end :: string where
  "line_end \<equiv> [CHR 0x0A]"

text \<open>All that was written to a stream.\<close>

definition written_to :: "stream \<Rightarrow> printed \<Rightarrow> string" where
  "written_to st p = concat (map snd (filter (\<lambda>w. fst w = st) p))"

lemma written_to_simps [simp]:
  "written_to st [] = []" "written_to st (p @ q) = written_to st p @ written_to st q"
  "written_to st ((st', out) # p) = (if st' = st then out else []) @ written_to st p"
  by (simp_all add: written_to_def)

end
