(* ===== verification/Compress.thy ===== *)
theory Compress
  imports GoPrelude
begin

text \<open>
  compress.go: the transparent compression of stored bytes. The codec itself (package
  compress/gzip) is a parameter, the record \<open>gzip\<close>: what writing to a \<open>gzip.Writer\<close> over a
  buffer returns, the bytes the buffer then holds, and what \<open>gzip.NewReader\<close> and
  \<open>io.ReadAll\<close> return. \<open>gzip_laws\<close> states what its documentation promises.
\<close>

record gzip =
  gz_write :: "bytes \<Rightarrow> goerr option"
  gz_close :: "bytes \<Rightarrow> goerr option"
  gz_bytes :: "bytes \<Rightarrow> bytes"
  gz_open :: "bytes \<Rightarrow> goerr option"
  gz_read_all :: "bytes \<Rightarrow> goerr + bytes"

definition DefaultCompressThreshold :: int where
  "DefaultCompressThreshold = 300"

definition IsGzipped :: "bytes \<Rightarrow> bool" where
  "IsGzipped data \<longleftrightarrow> 2 \<le> length data \<and> data ! 0 = 0x1f \<and> data ! 1 = 0x8b"

definition MaybeCompress :: "gzip \<Rightarrow> bytes \<Rightarrow> int \<Rightarrow> goerr + bytes" where
  "MaybeCompress gz data threshold =
     (if threshold \<le> 0 \<or> int (length data) < threshold then Inr data
      else (case gz_write gz data of
          Some e \<Rightarrow> Inl (errorf ''compress: gzip write: '' e)
        | None \<Rightarrow> (case gz_close gz data of
            Some e \<Rightarrow> Inl (errorf ''compress: gzip close: '' e)
          | None \<Rightarrow> Inr (gz_bytes gz data))))"

definition MaybeDecompress :: "gzip \<Rightarrow> bytes \<Rightarrow> goerr + bytes" where
  "MaybeDecompress gz data =
     (if \<not> IsGzipped data then Inr data
      else (case gz_open gz data of
          Some e \<Rightarrow> Inl (errorf ''compress: gzip reader: '' e)
        | None \<Rightarrow> (case gz_read_all gz data of
            Inl e \<Rightarrow> Inl (errorf ''compress: gzip read: '' e)
          | Inr out \<Rightarrow> Inr out)))"

text \<open>
  The documented behaviour of compress/gzip over an in-memory buffer: writing never fails, the
  output starts with the gzip magic bytes, and reading it back gives what was written.
\<close>

definition gzip_laws :: "gzip \<Rightarrow> bool" where
  "gzip_laws gz \<longleftrightarrow>
     (\<forall>d. gz_write gz d = None \<and> gz_close gz d = None \<and> IsGzipped (gz_bytes gz d)
        \<and> gz_open gz (gz_bytes gz d) = None \<and> gz_read_all gz (gz_bytes gz d) = Inr d)"

text \<open>A concrete codec for the examples: the magic bytes, then the data as they are.\<close>

definition plain_gzip :: gzip where
  "plain_gzip = \<lparr>gz_write = (\<lambda>_. None), gz_close = (\<lambda>_. None),
     gz_bytes = (\<lambda>d. 0x1f # 0x8b # d),
     gz_open = (\<lambda>d. if 2 \<le> length d then None else Some (Foreign ''EOF'')),
     gz_read_all = (\<lambda>d. Inr (drop 2 d))\<rparr>"

lemma plain_gzip_laws [simp]: "gzip_laws plain_gzip"
  by (simp add: gzip_laws_def plain_gzip_def IsGzipped_def)

lemma MaybeDecompress_plain [simp]: "\<not> IsGzipped d \<Longrightarrow> MaybeDecompress gz d = Inr d"
  by (simp add: MaybeDecompress_def)

lemma MaybeCompress_cases:
  assumes "gzip_laws gz"
  obtains (plain) "threshold \<le> 0 \<or> int (length d) < threshold" "MaybeCompress gz d threshold = Inr d"
  | (packed) "0 < threshold" "threshold \<le> int (length d)"
      "MaybeCompress gz d threshold = Inr (gz_bytes gz d)"
  using assms by (cases "threshold \<le> 0 \<or> int (length d) < threshold")
    (auto simp: MaybeCompress_def gzip_laws_def)

lemma MaybeDecompress_packed [simp]: "gzip_laws gz \<Longrightarrow> MaybeDecompress gz (gz_bytes gz d) = Inr d"
  by (simp add: MaybeDecompress_def gzip_laws_def)

lemma compress_decodes:
  assumes "gzip_laws gz" "\<not> IsGzipped d" "MaybeCompress gz d threshold = Inr d'"
  shows "MaybeDecompress gz d' = Inr d"
  using assms(1) by (cases rule: MaybeCompress_cases [where d = d and threshold = threshold])
    (use assms in auto)

lemma MaybeCompress_total: "gzip_laws gz \<Longrightarrow> \<exists>d'. MaybeCompress gz d threshold = Inr d'"
  by (cases rule: MaybeCompress_cases [where d = d and threshold = threshold]) auto

text \<open>
  C20. Compression round trip. For every codec with the documented behaviour, every threshold
  and every data, \<open>MaybeCompress\<close> succeeds, and \<open>MaybeDecompress\<close> of its result gives the data
  back, whenever the data is compressed (threshold reached) or does not itself start with the
  gzip magic bytes.
\<close>

theorem compress_roundtrip:
  assumes "gzip_laws gz"
    and "IsGzipped d \<Longrightarrow> 0 < threshold \<and> threshold \<le> int (length d)"
  shows "\<exists>d'. MaybeCompress gz d threshold = Inr d' \<and> MaybeDecompress gz d' = Inr d"
  using assms(1)
proof (cases rule: MaybeCompress_cases [where d = d and threshold = threshold])
  case plain
  with assms(2) have "\<not> IsGzipped d" by auto
  with plain show ?thesis by simp
next
  case packed
  with assms(1) show ?thesis by simp
qed

theorem compress_roundtrip_witness:
  "\<exists>d'. MaybeCompress plain_gzip [0x1f, 0x8b, 7] 3 = Inr d'
     \<and> MaybeDecompress plain_gzip d' = Inr [0x1f, 0x8b, 7]"
proof (rule compress_roundtrip)
  show "gzip_laws plain_gzip" by simp
  show "IsGzipped [0x1f, 0x8b, 7] \<Longrightarrow> (0::int) < 3 \<and> 3 \<le> int (length [0x1f, 0x8b, 7 :: byte])"
    by simp
qed

end
