(* ===== verification/Contracts.thy ===== *)
theory Contracts
  imports Compress
begin

text \<open>
  The interfaces of protosource.go: \<open>Store\<close>, \<open>SnapshotTailStore\<close>, \<open>AggregateStore\<close>,
  \<open>Serializer\<close>, \<open>Aggregate\<close> with its optional interfaces, \<open>Commander\<close> with its optional
  interfaces and \<open>Event\<close>, each a record of operations. An optional interface, which the code
  finds by a type assertion, is an \<open>option\<close> field: \<open>None\<close> when the type does not implement it.
  The types \<open>'s\<close> (store state), \<open>'a\<close> (aggregate), \<open>'e\<close> (event), \<open>'c\<close> (command) and \<open>'m\<close>
  (materialised message) are parameters.

  The locales \<open>event_log_store\<close> and \<open>aggregate_contract\<close> state what the repository relies on;
  the stores and the generated aggregates are proved to keep them.
\<close>

section \<open>Records and histories\<close>

record pb_record =
  rec_version :: int64
  rec_data :: bytes
  rec_ttl :: int64

type_synonym history = "pb_record list"

definition rec_vd :: "pb_record \<Rightarrow> int64 \<times> bytes" where
  "rec_vd r = (rec_version r, rec_data r)"

lemma rec_vd_simps [simp]:
  "fst (rec_vd r) = rec_version r" "snd (rec_vd r) = rec_data r"
  "rec_vd (r\<lparr>rec_ttl := t\<rparr>) = rec_vd r"
  by (simp_all add: rec_vd_def)

section \<open>Stores\<close>

text \<open>
  \<open>st_writeback\<close> says what assigning to the records of a loaded history does to the store: the
  memory store hands out pointers to its own records, every other store hands out copies.
\<close>

record ('s, 'm) store_ops =
  st_save :: "goerr option \<Rightarrow> 's \<Rightarrow> string \<Rightarrow> pb_record list \<Rightarrow> 's \<times> goerr option"
  st_load :: "goerr option \<Rightarrow> 's \<Rightarrow> string \<Rightarrow> 's \<times> (goerr + history)"
  st_writeback :: "'s \<Rightarrow> string \<Rightarrow> history \<Rightarrow> 's"
  st_load_tail :: "(goerr option \<Rightarrow> 's \<Rightarrow> string \<Rightarrow> int \<Rightarrow> 's \<times> (goerr + history)) option"
  st_save_aggregate :: "(goerr option \<Rightarrow> 's \<Rightarrow> 'm \<Rightarrow> 's \<times> goerr option) option"

text \<open>
  The records \<open>rs\<close> extend the log \<open>l\<close>: their versions are non-negative and strictly increasing,
  and larger than every version of \<open>l\<close>.
\<close>

definition ascending :: "int64 list \<Rightarrow> bool" where
  "ascending vs \<longleftrightarrow> sorted_wrt (<) (map sint vs) \<and> (\<forall>v \<in> set vs. 0 \<le> sint v)"

definition extends_log :: "(int64 \<times> bytes) list \<Rightarrow> pb_record list \<Rightarrow> bool" where
  "extends_log l rs \<longleftrightarrow> ascending (map fst l @ map rec_version rs)"

text \<open>
  What the repository relies on in a \<open>Store\<close>, over an abstraction \<open>log\<close> of its state: the
  version and data of every record of a stream, in version order. A load returns the stream's
  log, a tail load its last records (as copies), and neither changes a log; a save that extends the log and succeeds appends exactly the records
  and touches no other stream; one that fails appends at most a prefix of them, and nothing when
  there are at most 100 records (the batch size of the stores that write in batches).
\<close>

locale event_log_store =
  fixes ops :: "('s, 'm) store_ops"
    and inv :: "'s \<Rightarrow> bool"
    and log :: "'s \<Rightarrow> string \<Rightarrow> (int64 \<times> bytes) list"
  assumes load_log: "inv s \<Longrightarrow> st_load ops ce s k = (s', r) \<Longrightarrow>
      inv s' \<and> log s' = log s \<and> (\<forall>h. r = Inr h \<longrightarrow> map rec_vd h = log s k)"
    and save_log: "inv s \<Longrightarrow> extends_log (log s k) rs \<Longrightarrow> st_save ops ce s k rs = (s', None) \<Longrightarrow>
      inv s' \<and> log s' = (log s)(k := log s k @ map rec_vd rs)"
    and save_failed: "inv s \<Longrightarrow> extends_log (log s k) rs \<Longrightarrow> st_save ops ce s k rs = (s', Some e) \<Longrightarrow>
      inv s' \<and> (\<exists>n. log s' = (log s)(k := log s k @ take n (map rec_vd rs))
                 \<and> (length rs \<le> 100 \<longrightarrow> n = 0))"
    and writeback_log: "inv s \<Longrightarrow> st_load ops ce s k = (s', Inr h) \<Longrightarrow>
      map rec_version h' = map rec_version h \<Longrightarrow>
      inv (st_writeback ops s' k h')
        \<and> (log (st_writeback ops s' k h') = log s'
           \<or> log (st_writeback ops s' k h') = (log s')(k := map rec_vd h'))"
    and load_tail_log: "inv s \<Longrightarrow> st_load_tail ops = Some tail \<Longrightarrow> tail ce s k n = (s', r) \<Longrightarrow>
      inv s' \<and> log s' = log s \<and> (\<forall>h. r = Inr h \<longrightarrow> map rec_vd h = last_n (nat n) (log s k))"
    and load_tail_copies: "st_load_tail ops = Some tail \<Longrightarrow> st_writeback ops s k h = s"
    and materialize_log: "inv s \<Longrightarrow> st_save_aggregate ops = Some f \<Longrightarrow> f ce s m = (s', r') \<Longrightarrow>
      inv s' \<and> log s' = log s"

section \<open>Aggregates, events and commands\<close>

record 'e event_ops =
  ev_id :: "'e \<Rightarrow> string"
  ev_version :: "'e \<Rightarrow> int64"
  ev_at :: "'e \<Rightarrow> int64"
  ev_actor :: "'e \<Rightarrow> string"
  ev_type_name :: "'e \<Rightarrow> string"

text \<open>
  \<open>ag_on\<close> returns the aggregate as \<open>On\<close> leaves it together with its error; \<open>ag_after_on\<close>,
  \<open>ag_projections\<close>, \<open>ag_snapshot_interval\<close> and \<open>ag_event_ttl\<close> are the optional interfaces
  \<open>PostApplyHook\<close>, \<open>Projector\<close>, \<open>Snapshoter\<close> and \<open>EventTTLer\<close>.
\<close>

record ('a, 'e, 'm) aggregate_ops =
  ag_package :: string
  ag_new :: 'a
  ag_on :: "'a \<Rightarrow> 'e \<Rightarrow> 'a \<times> goerr option"
  ag_version :: "'a \<Rightarrow> int64"
  ag_message :: "'a \<Rightarrow> 'm"
  ag_message_type :: "'m \<Rightarrow> string"
  ag_after_on :: "('a \<Rightarrow> 'a) option"
  ag_projections :: "('a \<Rightarrow> 'm list) option"
  ag_snapshot_interval :: "('a \<Rightarrow> int32) option"
  ag_event_ttl :: "('a \<Rightarrow> int64) option"

text \<open>
  The optional interfaces of a command depend on its dynamic type, so each is a function of the
  command that returns \<open>None\<close> when its type lacks the method. \<open>cm_emit\<close> takes the readings of
  \<open>NowMicros()\<close> made while the events are built.
\<close>

record ('c, 'a, 'e) command_ops =
  cm_id :: "'c \<Rightarrow> string"
  cm_actor :: "'c \<Rightarrow> string"
  cm_type_name :: "'c \<Rightarrow> string"
  cm_validate_version :: "'c \<Rightarrow> (int64 \<Rightarrow> goerr option) option"
  cm_proto_validate :: "'c \<Rightarrow> (unit \<Rightarrow> goerr option) option"
  cm_guard_state :: "'c \<Rightarrow> ('a \<Rightarrow> goerr option) option"
  cm_evaluate :: "'c \<Rightarrow> ('a \<Rightarrow> goerr option) option"
  cm_emit :: "'c \<Rightarrow> ((nat \<Rightarrow> int64) \<Rightarrow> 'a \<Rightarrow> 'e list) option"

record 'e serializer =
  sz_marshal_event :: "'e \<Rightarrow> goerr + pb_record"
  sz_unmarshal_event :: "pb_record \<Rightarrow> goerr + 'e"

text \<open>
  The documented behaviour of a serializer: a marshalled event carries the event's version, its
  data does not look like gzip (a protobuf \<open>Any\<close> starts with byte 0x0a or is empty, JSON with
  a brace), and unmarshalling, whatever the TTL, gives the event back.
\<close>

definition serializer_laws :: "'e serializer \<Rightarrow> 'e event_ops \<Rightarrow> bool" where
  "serializer_laws sz ev \<longleftrightarrow>
     (\<forall>e r. sz_marshal_event sz e = Inr r \<longrightarrow>
        rec_version r = ev_version ev e \<and> \<not> IsGzipped (rec_data r)
        \<and> (\<forall>t. sz_unmarshal_event sz (r\<lparr>rec_ttl := t\<rparr>) = Inr e))"

section \<open>Replaying events\<close>

text \<open>
  Apply each event in turn; the first error stops the loop, as in \<open>loadAggregateVersion\<close> and
  in step 8 of \<open>Apply\<close>.
\<close>

fun on_all :: "('a, 'e, 'm) aggregate_ops \<Rightarrow> 'a \<Rightarrow> 'e list \<Rightarrow> 'a \<times> goerr option" where
  "on_all ag a [] = (a, None)"
| "on_all ag a (e # es) =
     (case ag_on ag a e of (a', Some err) \<Rightarrow> (a', Some err) | (a', None) \<Rightarrow> on_all ag a' es)"

definition run_after_on :: "('a, 'e, 'm) aggregate_ops \<Rightarrow> 'a \<Rightarrow> 'a" where
  "run_after_on ag a = (case ag_after_on ag of None \<Rightarrow> a | Some f \<Rightarrow> f a)"

lemma on_all_append:
  "on_all ag a (es @ fs) =
     (case on_all ag a es of (a', Some err) \<Rightarrow> (a', Some err) | (a', None) \<Rightarrow> on_all ag a' fs)"
  by (induction es arbitrary: a) (auto split: prod.splits option.splits)

lemma on_all_append_ok:
  "on_all ag a es = (a', None) \<Longrightarrow> on_all ag a (es @ fs) = on_all ag a' fs"
  by (simp add: on_all_append)

text \<open>
  What the repository relies on in a generated aggregate and its commands: \<open>known\<close> events are
  the ones the aggregate handles; applying one succeeds and sets the version to the event's; a
  new aggregate has version 0 and the hook keeps the version; the events a command emits are
  known, carry the command's id, and continue the aggregate's version one by one.
\<close>

locale aggregate_contract =
  fixes ag :: "('a, 'e, 'm) aggregate_ops"
    and ev :: "'e event_ops"
    and cm :: "('c, 'a, 'e) command_ops"
    and known :: "'e \<Rightarrow> bool"
  assumes new_version: "ag_version ag (ag_new ag) = 0"
    and on_known: "known e \<Longrightarrow> \<exists>a'. ag_on ag a e = (a', None) \<and> ag_version ag a' = ev_version ev e"
    and after_on_version: "ag_version ag (run_after_on ag a) = ag_version ag a"
    and emit_known: "cm_emit cm c = Some f \<Longrightarrow> e \<in> set (f now a) \<Longrightarrow> known e"
    and emit_id: "cm_emit cm c = Some f \<Longrightarrow> e \<in> set (f now a) \<Longrightarrow> ev_id ev e = cm_id cm c"
    and emit_versions: "cm_emit cm c = Some f \<Longrightarrow>
      map (ev_version ev) (f now a)
        = map (\<lambda>i. ag_version ag a + word_of_nat (Suc i)) [0..<length (f now a)]"
begin

lemma on_all_known:
  assumes "\<forall>e \<in> set es. known e"
  shows "\<exists>a'. on_all ag a es = (a', None) \<and>
           ag_version ag a' = (if es = [] then ag_version ag a else ev_version ev (last es))"
  using assms
proof (induction es arbitrary: a)
  case Nil
  then show ?case by simp
next
  case (Cons e es)
  from Cons.prems obtain a1 where a1: "ag_on ag a e = (a1, None)" "ag_version ag a1 = ev_version ev e"
    using on_known by fastforce
  from Cons.prems Cons.IH [of a1] obtain a' where
    "on_all ag a1 es = (a', None)"
    "ag_version ag a' = (if es = [] then ag_version ag a1 else ev_version ev (last es))"
    by auto
  with a1 show ?case by auto
qed

end

lemma ascending_append_drop: "ascending (xs @ ys) \<Longrightarrow> ascending xs \<and> ascending ys"
  by (auto simp: ascending_def sorted_wrt_append)

lemma ascending_distinct: "ascending vs \<Longrightarrow> distinct vs"
proof -
  assume "ascending vs"
  then have "sorted_wrt (<) (map sint vs)" by (simp add: ascending_def)
  then have "distinct (map sint vs)" by (simp add: strict_sorted_iff)
  then show ?thesis by (simp add: distinct_map)
qed

end
