(* ===== verification/OrderDomain.thy ===== *)
theory OrderDomain
  imports Contracts "HOL-Library.Finite_Map"
begin

text \<open>
  The order example, gen/example/app/order/v1: the messages (order_v1.pb.go), the generated
  aggregate, builder and commands (order_v1.protosource.pb.go), the derived fields
  (order_derived.go) and the evaluators (order_evaluators.go). A pointer to a message is an
  \<open>option\<close>, a getter on nil gives the zero value, a Go map is a finite map (nil is the empty
  one). The validator (package protovalidate) is a parameter.
\<close>

section \<open>Messages\<close>

datatype order_state =
    STATE_UNSPECIFIED | STATE_DRAFT | STATE_PLACED | STATE_PAID | STATE_SHIPPED
  | STATE_DELIVERED | STATE_CANCELLED | STATE_OTHER int32

primrec order_state_String :: "order_state \<Rightarrow> string" where
  "order_state_String STATE_UNSPECIFIED = ''STATE_UNSPECIFIED''"
| "order_state_String STATE_DRAFT = ''STATE_DRAFT''"
| "order_state_String STATE_PLACED = ''STATE_PLACED''"
| "order_state_String STATE_PAID = ''STATE_PAID''"
| "order_state_String STATE_SHIPPED = ''STATE_SHIPPED''"
| "order_state_String STATE_DELIVERED = ''STATE_DELIVERED''"
| "order_state_String STATE_CANCELLED = ''STATE_CANCELLED''"
| "order_state_String (STATE_OTHER n) = dec_int (sint n)"

text \<open>\<open>State_Display\<close>: a map lookup, so the empty string for a value that is not a key.\<close>

primrec order_state_Display :: "order_state \<Rightarrow> string" where
  "order_state_Display STATE_UNSPECIFIED = ''Unspecified''"
| "order_state_Display STATE_DRAFT = ''Draft''"
| "order_state_Display STATE_PLACED = ''Placed''"
| "order_state_Display STATE_PAID = ''Paid''"
| "order_state_Display STATE_SHIPPED = ''Shipped''"
| "order_state_Display STATE_DELIVERED = ''Delivered''"
| "order_state_Display STATE_CANCELLED = ''Cancelled''"
| "order_state_Display (STATE_OTHER n) = ''''"

record line_item =
  li_item_id :: string
  li_description :: string
  li_price_cents :: int64
  li_quantity :: int32

record tag =
  tag_key :: string
  tag_value :: string

record billing =
  bl_method :: string
  bl_reference :: string

record order =
  o_id :: string
  o_version :: int64
  o_state :: order_state
  o_customer_id :: string
  o_customer_name :: string
  o_create_at :: int64
  o_create_by :: string
  o_modify_at :: int64
  o_modify_by :: string
  o_total_cents :: int64
  o_item_count :: int32
  o_shipping_address :: string
  o_placed_at :: int64
  o_items :: "(string, line_item) fmap"
  o_tags :: "(string, tag) fmap"
  o_billing :: "billing option"

text \<open>\<open>&Order{}\<close>.\<close>

definition empty_order :: order where
  "empty_order =
     \<lparr>o_id = [], o_version = 0, o_state = STATE_UNSPECIFIED, o_customer_id = [],
      o_customer_name = [], o_create_at = 0, o_create_by = [], o_modify_at = 0, o_modify_by = [],
      o_total_cents = 0, o_item_count = 0, o_shipping_address = [], o_placed_at = 0,
      o_items = fmempty, o_tags = fmempty, o_billing = None\<rparr>"

datatype order_command =
    Create (oc_id: string) (oc_actor: string) (oc_customer_id: string) (oc_customer_name: string)
  | AddItem (oc_id: string) (oc_actor: string) (oc_item: "line_item option")
  | RemoveItem (oc_id: string) (oc_actor: string) (oc_item_id: string)
  | AddTag (oc_id: string) (oc_actor: string) (oc_tag: "tag option")
  | RemoveTag (oc_id: string) (oc_actor: string) (oc_key: string)
  | SetShipping (oc_id: string) (oc_actor: string) (oc_shipping_address: string)
  | SetBilling (oc_id: string) (oc_actor: string) (oc_billing: "billing option")
  | ClearBilling (oc_id: string) (oc_actor: string)
  | Place (oc_id: string) (oc_actor: string) (oc_placed_at: int64)
  | Cancel (oc_id: string) (oc_actor: string) (oc_reason: string)

text \<open>\<open>OtherEvent\<close> is an event of another package, of the given Go type.\<close>

datatype order_event =
    Created (oe_id: string) (oe_version: int64) (oe_at: int64) (oe_actor: string) string string
  | ItemAdded (oe_id: string) (oe_version: int64) (oe_at: int64) (oe_actor: string) "line_item option"
  | ItemRemoved (oe_id: string) (oe_version: int64) (oe_at: int64) (oe_actor: string) string
  | TagAdded (oe_id: string) (oe_version: int64) (oe_at: int64) (oe_actor: string) "tag option"
  | TagRemoved (oe_id: string) (oe_version: int64) (oe_at: int64) (oe_actor: string) string
  | ShippingSet (oe_id: string) (oe_version: int64) (oe_at: int64) (oe_actor: string) string
  | BillingSet (oe_id: string) (oe_version: int64) (oe_at: int64) (oe_actor: string) "billing option"
  | BillingCleared (oe_id: string) (oe_version: int64) (oe_at: int64) (oe_actor: string) "billing option"
  | Placed (oe_id: string) (oe_version: int64) (oe_at: int64) (oe_actor: string) int64
  | Cancelled (oe_id: string) (oe_version: int64) (oe_at: int64) (oe_actor: string) string
  | Snapshot (oe_id: string) (oe_version: int64) (oe_at: int64) (oe_actor: string) "order option"
  | OtherEvent (oe_id: string) (oe_version: int64) (oe_at: int64) (oe_actor: string) string

fun order_event_type :: "order_event \<Rightarrow> string" where
  "order_event_type (Created _ _ _ _ _ _) = ''*orderv1.Created''"
| "order_event_type (ItemAdded _ _ _ _ _) = ''*orderv1.ItemAdded''"
| "order_event_type (ItemRemoved _ _ _ _ _) = ''*orderv1.ItemRemoved''"
| "order_event_type (TagAdded _ _ _ _ _) = ''*orderv1.TagAdded''"
| "order_event_type (TagRemoved _ _ _ _ _) = ''*orderv1.TagRemoved''"
| "order_event_type (ShippingSet _ _ _ _ _) = ''*orderv1.ShippingSet''"
| "order_event_type (BillingSet _ _ _ _ _) = ''*orderv1.BillingSet''"
| "order_event_type (BillingCleared _ _ _ _ _) = ''*orderv1.BillingCleared''"
| "order_event_type (Placed _ _ _ _ _) = ''*orderv1.Placed''"
| "order_event_type (Cancelled _ _ _ _ _) = ''*orderv1.Cancelled''"
| "order_event_type (Snapshot _ _ _ _ _) = ''*orderv1.Snapshot''"
| "order_event_type (OtherEvent _ _ _ _ t) = t"

definition order_events :: "order_event event_ops" where
  "order_events = \<lparr>ev_id = oe_id, ev_version = oe_version, ev_at = oe_at, ev_actor = oe_actor,
     ev_type_name = order_event_type\<rparr>"

record order_summary =
  os_id :: string
  os_state :: order_state
  os_customer_id :: string
  os_customer_name :: string
  os_total_cents :: int64
  os_item_count :: int32
  os_placed_at :: int64
  os_create_at :: int64

datatype order_message = OrderMsg order | OrderSummaryMsg order_summary

section \<open>The aggregate\<close>

text \<open>\<open>AfterOn\<close>: the sum runs over a Go map, in any order, and wraps at 64 bits.\<close>

definition item_cents :: "line_item \<Rightarrow> int64" where
  "item_cents item = li_price_cents item * scast (li_quantity item)"

definition items_total :: "(string, line_item) fmap \<Rightarrow> int64" where
  "items_total items =
     (\<Sum>k \<in> fset (fmdom items). case fmlookup items k of None \<Rightarrow> 0 | Some item \<Rightarrow> item_cents item)"

definition order_AfterOn :: "order \<Rightarrow> order" where
  "order_AfterOn a =
     a\<lparr>o_item_count := word_of_nat (fcard (fmdom (o_items a))), o_total_cents := items_total (o_items a)\<rparr>"

definition order_setCreated :: "order_event \<Rightarrow> order \<Rightarrow> order" where
  "order_setCreated event a = a\<lparr>o_create_at := oe_at event, o_create_by := oe_actor event\<rparr>"

definition order_setModified :: "order_event \<Rightarrow> order \<Rightarrow> order" where
  "order_setModified event a = a\<lparr>o_modify_at := oe_at event, o_modify_by := oe_actor event\<rparr>"

definition order_RestoreSnapshot :: "int64 \<Rightarrow> order option \<Rightarrow> order \<Rightarrow> order" where
  "order_RestoreSnapshot version snapshot a =
     (let s = (case snapshot of None \<Rightarrow> empty_order | Some o' \<Rightarrow> o')
      in a\<lparr>o_state := o_state s, o_customer_id := o_customer_id s,
           o_customer_name := o_customer_name s, o_create_at := o_create_at s,
           o_create_by := o_create_by s, o_modify_at := o_modify_at s,
           o_modify_by := o_modify_by s, o_total_cents := o_total_cents s,
           o_item_count := o_item_count s, o_shipping_address := o_shipping_address s,
           o_placed_at := o_placed_at s, o_items := o_items s, o_tags := o_tags s,
           o_billing := o_billing s, o_version := version\<rparr>)"

definition order_On :: "order \<Rightarrow> order_event \<Rightarrow> order \<times> goerr option" where
  "order_On a0 event =
     (let a = a0\<lparr>o_id := oe_id event, o_version := oe_version event\<rparr>; m = order_setModified event a
      in case event of
           Created _ _ _ _ customer_id customer_name \<Rightarrow>
             ((order_setModified event (order_setCreated event a))
                \<lparr>o_customer_id := customer_id, o_customer_name := customer_name,
                 o_state := STATE_DRAFT\<rparr>, None)
         | ItemAdded _ _ _ _ item \<Rightarrow>
             (case item of
                None \<Rightarrow> (m, None)
              | Some elem \<Rightarrow> (m\<lparr>o_items := fmupd (li_item_id elem) elem (o_items m)\<rparr>, None))
         | ItemRemoved _ _ _ _ item_id \<Rightarrow> (m\<lparr>o_items := fmdrop item_id (o_items m)\<rparr>, None)
         | TagAdded _ _ _ _ tag \<Rightarrow>
             (case tag of
                None \<Rightarrow> (m, None)
              | Some elem \<Rightarrow> (m\<lparr>o_tags := fmupd (tag_key elem) elem (o_tags m)\<rparr>, None))
         | TagRemoved _ _ _ _ key \<Rightarrow> (m\<lparr>o_tags := fmdrop key (o_tags m)\<rparr>, None)
         | ShippingSet _ _ _ _ address \<Rightarrow> (m\<lparr>o_shipping_address := address\<rparr>, None)
         | BillingSet _ _ _ _ billing \<Rightarrow> (m\<lparr>o_billing := billing\<rparr>, None)
         | BillingCleared _ _ _ _ billing \<Rightarrow> (m\<lparr>o_billing := billing\<rparr>, None)
         | Placed _ _ _ _ placed_at \<Rightarrow> (m\<lparr>o_placed_at := placed_at, o_state := STATE_PLACED\<rparr>, None)
         | Cancelled _ _ _ _ reason \<Rightarrow> (m\<lparr>o_state := STATE_CANCELLED\<rparr>, None)
         | Snapshot _ version _ _ snapshot \<Rightarrow> (order_RestoreSnapshot version snapshot a, None)
         | OtherEvent _ _ _ _ type_name \<Rightarrow>
             (a, Some (errorf (type_name @ '': '') (Sentinel ErrUnhandledEvent))))"

section \<open>The builder\<close>

text \<open>
  A builder appends an event per call, with the next version and a reading of the clock; the
  \<open>i\<close>-th event takes the \<open>i\<close>-th reading.
\<close>

record order_builder =
  ob_id :: string
  ob_version :: int64
  ob_events :: "order_event list"

definition order_NewBuilder :: "string \<Rightarrow> int64 \<Rightarrow> order_builder" where
  "order_NewBuilder i version = \<lparr>ob_id = i, ob_version = version, ob_events = []\<rparr>"

definition ob_nextVersion :: "order_builder \<Rightarrow> order_builder \<times> int64" where
  "ob_nextVersion b = (let b' = b\<lparr>ob_version := ob_version b + 1\<rparr> in (b', ob_version b'))"

definition ob_append ::
    "(nat \<Rightarrow> int64) \<Rightarrow> (string \<Rightarrow> int64 \<Rightarrow> int64 \<Rightarrow> order_event) \<Rightarrow> order_builder \<Rightarrow> order_builder" where
  "ob_append now mk b =
     (case ob_nextVersion b of (b', version) \<Rightarrow>
        b'\<lparr>ob_events := ob_events b @ [mk (ob_id b) version (now (length (ob_events b)))]\<rparr>)"

text \<open>The builder methods \<open>Created\<close>, \<open>ItemAdded\<close>, ..., chosen by the command that calls them.\<close>

definition ob_command_event :: "order_command \<Rightarrow> string \<Rightarrow> int64 \<Rightarrow> int64 \<Rightarrow> order_event" where
  "ob_command_event c i v at =
     (case c of
        Create _ actor customer_id customer_name \<Rightarrow> Created i v at actor customer_id customer_name
      | AddItem _ actor item \<Rightarrow> ItemAdded i v at actor item
      | RemoveItem _ actor item_id \<Rightarrow> ItemRemoved i v at actor item_id
      | AddTag _ actor tag \<Rightarrow> TagAdded i v at actor tag
      | RemoveTag _ actor key \<Rightarrow> TagRemoved i v at actor key
      | SetShipping _ actor address \<Rightarrow> ShippingSet i v at actor address
      | SetBilling _ actor billing \<Rightarrow> BillingSet i v at actor billing
      | ClearBilling _ actor \<Rightarrow> BillingCleared i v at actor None
      | Place _ actor placed_at \<Rightarrow> Placed i v at actor placed_at
      | Cancel _ actor reason \<Rightarrow> Cancelled i v at actor reason)"

definition order_SnapshotEveryNEvents :: int32 where
  "order_SnapshotEveryNEvents = 50"

definition ob_Snapshot :: "(nat \<Rightarrow> int64) \<Rightarrow> order \<Rightarrow> order_builder \<Rightarrow> order_builder" where
  "ob_Snapshot now a b =
     (if int64_rem (ob_version b) 50 = 0
      then ob_append now (\<lambda>i v at. Snapshot i v at ''snapshot@system'' (Some (order_AfterOn a))) b
      else b)"

text \<open>\<open>Snapshot\<close> of the aggregate itself (interface \<open>Snapshoter\<close>).\<close>

definition order_Snapshot :: "int64 \<Rightarrow> order \<Rightarrow> int64 \<Rightarrow> order_event" where
  "order_Snapshot now a version = Snapshot (o_id a) (version + 1) now ''snapshot@system'' (Some a)"

text \<open>\<open>EmitEvents\<close>, the same for every command but for the builder method it calls.\<close>

definition order_EmitEvents :: "order_command \<Rightarrow> (nat \<Rightarrow> int64) \<Rightarrow> order \<Rightarrow> order_event list" where
  "order_EmitEvents c now aggregate =
     (let b0 = order_NewBuilder (oc_id c) (o_version aggregate);
          b1 = ob_append now (ob_command_event c) b0;
          a = fst (order_On aggregate (last (ob_events b1)))
      in ob_events (ob_Snapshot now a b1))"

section \<open>Commands\<close>

fun order_CommandName :: "order_command \<Rightarrow> string" where
  "order_CommandName (Create _ _ _ _) = ''Create''"
| "order_CommandName (AddItem _ _ _) = ''AddItem''"
| "order_CommandName (RemoveItem _ _ _) = ''RemoveItem''"
| "order_CommandName (AddTag _ _ _) = ''AddTag''"
| "order_CommandName (RemoveTag _ _ _) = ''RemoveTag''"
| "order_CommandName (SetShipping _ _ _) = ''SetShipping''"
| "order_CommandName (SetBilling _ _ _) = ''SetBilling''"
| "order_CommandName (ClearBilling _ _) = ''ClearBilling''"
| "order_CommandName (Place _ _ _) = ''Place''"
| "order_CommandName (Cancel _ _ _) = ''Cancel''"

text \<open>\<open>ProtoValidate\<close>, on the error that the validator returned for the command.\<close>

definition order_ProtoValidate ::
    "(order_command \<Rightarrow> goerr option) \<Rightarrow> order_command \<Rightarrow> goerr option" where
  "order_ProtoValidate validate c =
     (case validate c of
        None \<Rightarrow> None
      | Some e \<Rightarrow>
          Some (Wrapped (''command '' @ order_CommandName c @ '': ''
                         @ sentinel_text ErrValidationFailed @ '': '' @ err_text e)
                  [Sentinel ErrValidationFailed, e]))"

definition order_ValidateVersion :: "order_command \<Rightarrow> int64 \<Rightarrow> goerr option" where
  "order_ValidateVersion c version =
     (case c of
        Create _ _ _ _ \<Rightarrow>
          if version \<noteq> 0 then
            Some (errorf (''command '' @ order_CommandName c
                    @ '' requires a new aggregate (version 0), got version '' @ dec_int64 version @ '': '')
                    (Sentinel ErrAlreadyCreated))
          else None
      | _ \<Rightarrow>
          if version = 0 then
            Some (errorf (''command '' @ order_CommandName c
                    @ '' requires an existing aggregate (version > 0), got version 0: '')
                    (Sentinel ErrNotCreatedYet))
          else None)"

text \<open>The states each \<open>GuardState\<close> lets through; a command without the method has none.\<close>

fun order_allowed_states :: "order_command \<Rightarrow> order_state list option" where
  "order_allowed_states (Create _ _ _ _) = None"
| "order_allowed_states (SetBilling _ _ _) = None"
| "order_allowed_states (ClearBilling _ _) = None"
| "order_allowed_states (Cancel _ _ _) = Some [STATE_DRAFT, STATE_PLACED, STATE_PAID]"
| "order_allowed_states _ = Some [STATE_DRAFT]"

definition order_GuardState :: "order_command \<Rightarrow> (order \<Rightarrow> goerr option) option" where
  "order_GuardState c =
     (case order_allowed_states c of
        None \<Rightarrow> None
      | Some allowed \<Rightarrow> Some (\<lambda>a.
          if o_state a \<in> set allowed then None
          else Some (errorf (''command '' @ order_CommandName c @ '' not allowed in state ''
                       @ order_state_String (o_state a) @ '': '') (Sentinel ErrStateNotAllowed))))"

text \<open>\<open>order.GetItems()[c.GetItem().GetItemId()]\<close> on a nil item looks up the empty id.\<close>

definition order_item_id :: "line_item option \<Rightarrow> string" where
  "order_item_id item = (case item of None \<Rightarrow> [] | Some i \<Rightarrow> li_item_id i)"

fun order_Evaluate :: "order_command \<Rightarrow> (order \<Rightarrow> goerr option) option" where
  "order_Evaluate (RemoveItem _ _ item_id) = Some (\<lambda>a.
     if fmlookup (o_items a) item_id = None then Some (Sentinel ErrSkip) else None)"
| "order_Evaluate (AddItem _ _ item) = Some (\<lambda>a.
     if fmlookup (o_items a) (order_item_id item) \<noteq> None
     then Some (Wrapped (sentinel_text ErrItemAlreadyPresent @ '': item_id='' @ Quote (order_item_id item))
                  [Sentinel ErrItemAlreadyPresent])
     else None)"
| "order_Evaluate _ = None"

definition order_command_type :: "order_command \<Rightarrow> string" where
  "order_command_type c = ''*orderv1.'' @ order_CommandName c"

definition order_commands ::
    "(order_command \<Rightarrow> goerr option) \<Rightarrow> (order_command, order, order_event) command_ops" where
  "order_commands validate =
     \<lparr>cm_id = oc_id, cm_actor = oc_actor, cm_type_name = order_command_type,
      cm_validate_version = (\<lambda>c. Some (order_ValidateVersion c)),
      cm_proto_validate = (\<lambda>c. Some (\<lambda>_. order_ProtoValidate validate c)),
      cm_guard_state = order_GuardState,
      cm_evaluate = order_Evaluate,
      cm_emit = (\<lambda>c. Some (order_EmitEvents c))\<rparr>"

section \<open>Keys and projections\<close>

definition order_pk :: "string \<Rightarrow> string" where
  "order_pk i = ''example_app_order_v1#order#id#'' @ i"

definition order_PK :: "order option \<Rightarrow> string" where
  "order_PK m = (case m of None \<Rightarrow> [] | Some a \<Rightarrow> order_pk (o_id a))"

definition order_SK :: string where
  "order_SK = ''AGG''"

definition order_gsi1sk :: "int64 \<Rightarrow> string" where
  "order_gsi1sk at = ''example_app_order_v1#order'' @ ''#create_at#'' @ dec_int64 at"

text \<open>\<open>GSI1PK\<close> to \<open>GSI20PK\<close> and \<open>GSI1SK\<close> to \<open>GSI20SK\<close>, by their number.\<close>

definition order_GSIPK :: "nat \<Rightarrow> order option \<Rightarrow> string" where
  "order_GSIPK n m =
     (if n = 1 then (case m of None \<Rightarrow> []
        | Some a \<Rightarrow> ''example_app_order_v1#order'' @ ''#customer_id#'' @ o_customer_id a)
      else ''NA'')"

definition order_GSISK :: "nat \<Rightarrow> order option \<Rightarrow> string" where
  "order_GSISK n m =
     (if n = 1 then (case m of None \<Rightarrow> [] | Some a \<Rightarrow> order_gsi1sk (o_create_at a)) else ''NA'')"

definition ProjectOrderSummary :: "order \<Rightarrow> order_summary" where
  "ProjectOrderSummary m =
     \<lparr>os_id = o_id m, os_state = o_state m, os_customer_id = o_customer_id m,
      os_customer_name = o_customer_name m, os_total_cents = o_total_cents m,
      os_item_count = o_item_count m, os_placed_at = o_placed_at m, os_create_at = o_create_at m\<rparr>"

definition order_Projections :: "order \<Rightarrow> order_message list" where
  "order_Projections m = [OrderSummaryMsg (ProjectOrderSummary m)]"

definition order_summary_PK :: "order_summary option \<Rightarrow> string" where
  "order_summary_PK m = (case m of None \<Rightarrow> [] | Some s \<Rightarrow> order_pk (os_id s))"

definition order_summary_SK :: string where
  "order_summary_SK = ''PROJ#OrderSummary''"

definition order_summary_gsi1sk :: "int64 \<Rightarrow> string" where
  "order_summary_gsi1sk at = ''example_app_order_v1#ordersummary'' @ ''#create_at#'' @ dec_int64 at"

definition order_summary_gsi2sk :: "int64 \<Rightarrow> string" where
  "order_summary_gsi2sk at = ''example_app_order_v1#ordersummary'' @ ''#placed_at#'' @ dec_int64 at"

definition order_summary_GSIPK :: "nat \<Rightarrow> order_summary option \<Rightarrow> string" where
  "order_summary_GSIPK n m =
     (if n = 1 then (case m of None \<Rightarrow> []
        | Some s \<Rightarrow> ''example_app_order_v1#ordersummary'' @ ''#customer_id#'' @ os_customer_id s)
      else if n = 2 then (case m of None \<Rightarrow> []
        | Some s \<Rightarrow> ''example_app_order_v1#ordersummary'' @ ''#state#'' @ order_state_String (os_state s))
      else ''NA'')"

definition order_summary_GSISK :: "nat \<Rightarrow> order_summary option \<Rightarrow> string" where
  "order_summary_GSISK n m =
     (if n = 1 then (case m of None \<Rightarrow> [] | Some s \<Rightarrow> order_summary_gsi1sk (os_create_at s))
      else if n = 2 then (case m of None \<Rightarrow> [] | Some s \<Rightarrow> order_summary_gsi2sk (os_placed_at s))
      else ''NA'')"

primrec order_message_type :: "order_message \<Rightarrow> string" where
  "order_message_type (OrderMsg _) = ''*orderv1.Order''"
| "order_message_type (OrderSummaryMsg _) = ''*orderv1.OrderSummary''"

definition order_aggregate :: "(order, order_event, order_message) aggregate_ops" where
  "order_aggregate =
     \<lparr>ag_package = ''example.app.order.v1'', ag_new = empty_order, ag_on = order_On,
      ag_version = o_version, ag_message = OrderMsg, ag_message_type = order_message_type,
      ag_after_on = Some order_AfterOn, ag_projections = Some order_Projections,
      ag_snapshot_interval = Some (\<lambda>_. order_SnapshotEveryNEvents), ag_event_ttl = None\<rparr>"

end
