(* ===== verification/Repository.thy ===== *)
theory Repository
  imports Contracts
begin

text \<open>
  protosource.go: \<open>Repository\<close>, its construction and options, and the methods \<open>Load\<close>,
  \<open>History\<close>, \<open>Save\<close> and \<open>Apply\<close> with their helpers. A method takes the store's state and
  returns the new one with its result; \<open>Apply\<close> also returns the warnings it logged.
\<close>

section \<open>The repository and its construction\<close>

datatype warning =
    MaterializeFailed string goerr
  | ProjectionFailed string string goerr

text \<open>
  \<open>rp_commands\<close> and \<open>rp_events\<close> are the method tables of the command and event types: Go finds
  them in the values. \<open>rp_logs\<close> says whether a logger is configured (the default discards).
\<close>

record ('s, 'a, 'e, 'c, 'm) repository =
  rp_aggregate :: "('a, 'e, 'm) aggregate_ops"
  rp_events :: "'e event_ops"
  rp_commands :: "('c, 'a, 'e) command_ops"
  rp_store :: "('s, 'm) store_ops"
  rp_serializer :: "'e serializer"
  rp_gzip :: gzip
  rp_compress_threshold :: int
  rp_logs :: bool
  rp_key_prefix :: string

text \<open>The options: \<open>WithLogger\<close> (of a nil or non-nil logger) and \<open>WithCompression\<close>.\<close>

datatype repo_option = WithLogger bool | WithCompression int

fun apply_option ::
    "repo_option \<Rightarrow> ('s, 'a, 'e, 'c, 'm) repository \<Rightarrow> ('s, 'a, 'e, 'c, 'm) repository" where
  "apply_option (WithLogger present) r = (if present then r\<lparr>rp_logs := True\<rparr> else r)"
| "apply_option (WithCompression t) r = r\<lparr>rp_compress_threshold := t\<rparr>"

definition key_prefix :: "string \<Rightarrow> string" where
  "key_prefix pkg = replace_char CHR ''.'' CHR ''_'' pkg @ ''#''"

text \<open>\<open>New\<close>: a nil prototype, store or serializer panics; the message is the \<open>Inl\<close>.\<close>

definition new_repository ::
    "('a, 'e, 'm) aggregate_ops option \<Rightarrow> ('s, 'm) store_ops option \<Rightarrow> 'e serializer option \<Rightarrow>
     'e event_ops \<Rightarrow> ('c, 'a, 'e) command_ops \<Rightarrow> gzip \<Rightarrow> repo_option list \<Rightarrow>
     string + ('s, 'a, 'e, 'c, 'm) repository" where
  "new_repository prototype store serializer ev cm gz opts =
     (case prototype of
        None \<Rightarrow> Inl ''protosource.New: prototype must not be nil''
      | Some ag \<Rightarrow> (case store of
          None \<Rightarrow> Inl ''protosource.New: store must not be nil''
        | Some st \<Rightarrow> (case serializer of
            None \<Rightarrow> Inl ''protosource.New: serializer must not be nil''
          | Some sz \<Rightarrow>
              Inr (fold apply_option opts
                \<lparr>rp_aggregate = ag, rp_events = ev, rp_commands = cm, rp_store = st,
                 rp_serializer = sz, rp_gzip = gz,
                 rp_compress_threshold = DefaultCompressThreshold, rp_logs = False,
                 rp_key_prefix = key_prefix (ag_package ag)\<rparr>))))"

definition qualified_id :: "('s, 'a, 'e, 'c, 'm) repository \<Rightarrow> string \<Rightarrow> string" where
  "qualified_id r i = rp_key_prefix r @ i"

abbreviation new_aggregate :: "('s, 'a, 'e, 'c, 'm) repository \<Rightarrow> 'a" where
  "new_aggregate r \<equiv> ag_new (rp_aggregate r)"

definition warn :: "('s, 'a, 'e, 'c, 'm) repository \<Rightarrow> warning \<Rightarrow> warning list" where
  "warn r w = (if rp_logs r then [w] else [])"

section \<open>Loading\<close>

text \<open>
  \<open>loadHistory\<close>: the tail when the store can serve one and the aggregate has a positive
  snapshot interval, the whole stream otherwise.
\<close>

definition load_history ::
    "('s, 'a, 'e, 'c, 'm) repository \<Rightarrow> ctx \<Rightarrow> 's \<Rightarrow> string \<Rightarrow> 's \<times> (goerr + history)" where
  "load_history r c s aggregate_id =
     (let qid = qualified_id r aggregate_id; full = st_load (rp_store r) (ctx_err c AtLoad) s qid
      in case st_load_tail (rp_store r) of
           None \<Rightarrow> full
         | Some load_tail \<Rightarrow>
             (case ag_snapshot_interval (rp_aggregate r) of
                None \<Rightarrow> full
              | Some interval \<Rightarrow>
                  (let n = sint (interval (new_aggregate r))
                   in if n \<le> 0 then full else load_tail (ctx_err c AtLoad) s qid n)))"

text \<open>
  The loop of \<open>loadAggregateVersion\<close>: it also assigns the decompressed data to each record it
  reaches, so the records are returned as the loop leaves them.
\<close>

fun replay_records ::
    "('s, 'a, 'e, 'c, 'm) repository \<Rightarrow> history \<Rightarrow> 'a \<Rightarrow> int64 \<Rightarrow>
     history \<times> (goerr + 'a \<times> int64)" where
  "replay_records r [] a version = ([], Inr (a, version))"
| "replay_records r (rec # recs) a version =
     (case MaybeDecompress (rp_gzip r) (rec_data rec) of
        Inl e \<Rightarrow> (rec # recs, Inl (errorf ''decompress event: '' e))
      | Inr d \<Rightarrow>
          (let rec' = rec\<lparr>rec_data := d\<rparr>
           in case sz_unmarshal_event (rp_serializer r) rec' of
                Inl e \<Rightarrow> (rec' # recs, Inl e)
              | Inr event \<Rightarrow>
                  (case ag_on (rp_aggregate r) a event of
                     (a', Some e) \<Rightarrow>
                       (rec' # recs,
                        Inl (errorf (''aggregate was unable to handle event type ''
                               @ ev_type_name (rp_events r) event @ '': '')
                               (Sentinel ErrUnhandledEvent)))
                   | (a', None) \<Rightarrow>
                       (case replay_records r recs a' (rec_version rec) of
                          (recs', result) \<Rightarrow> (rec' # recs', result)))))"

definition load_aggregate_version ::
    "('s, 'a, 'e, 'c, 'm) repository \<Rightarrow> ctx \<Rightarrow> 's \<Rightarrow> string \<Rightarrow> 's \<times> (goerr + 'a \<times> int64)" where
  "load_aggregate_version r c s aggregate_id =
     (case load_history r c s aggregate_id of
        (s1, Inl e) \<Rightarrow> (s1, Inl e)
      | (s1, Inr h) \<Rightarrow>
          if h = [] then
            (s1, Inl (errorf (''unable to load: '' @ aggregate_id @ '': '')
                   (Sentinel ErrAggregateNotFound)))
          else
            (case replay_records r h (new_aggregate r) 0 of
               (h', result) \<Rightarrow>
                 (st_writeback (rp_store r) s1 (qualified_id r aggregate_id) h',
                  case result of
                    Inl e \<Rightarrow> Inl e
                  | Inr (a, version) \<Rightarrow> Inr (run_after_on (rp_aggregate r) a, version))))"

definition repo_load ::
    "('s, 'a, 'e, 'c, 'm) repository \<Rightarrow> ctx \<Rightarrow> 's \<Rightarrow> string \<Rightarrow> 's \<times> (goerr + 'a)" where
  "repo_load r c s aggregate_id =
     (case load_aggregate_version r c s aggregate_id of
        (s', Inl e) \<Rightarrow> (s', Inl (errorf ''load aggregate version: '' e))
      | (s', Inr (a, version)) \<Rightarrow> (s', Inr a))"

text \<open>The loop of \<open>History\<close>, which stops at the first record that does not decompress.\<close>

fun decompress_records :: "gzip \<Rightarrow> history \<Rightarrow> history \<times> goerr option" where
  "decompress_records gz [] = ([], None)"
| "decompress_records gz (rec # recs) =
     (case MaybeDecompress gz (rec_data rec) of
        Inl e \<Rightarrow> (rec # recs, Some (errorf ''decompress event: '' e))
      | Inr d \<Rightarrow> (case decompress_records gz recs of
          (recs', e) \<Rightarrow> (rec\<lparr>rec_data := d\<rparr> # recs', e)))"

definition repo_history ::
    "('s, 'a, 'e, 'c, 'm) repository \<Rightarrow> ctx \<Rightarrow> 's \<Rightarrow> string \<Rightarrow> 's \<times> (goerr + history)" where
  "repo_history r c s aggregate_id =
     (if aggregate_id = '''' then (s, Inl (Sentinel ErrEmptyAggregateId))
      else (case st_load (rp_store r) (ctx_err c AtLoad) s (qualified_id r aggregate_id) of
          (s1, Inl e) \<Rightarrow> (s1, Inl e)
        | (s1, Inr h) \<Rightarrow>
            (case decompress_records (rp_gzip r) h of
               (h', err) \<Rightarrow>
                 (st_writeback (rp_store r) s1 (qualified_id r aggregate_id) h',
                  case err of Some e \<Rightarrow> Inl e | None \<Rightarrow> Inr h'))))"

section \<open>Saving\<close>

definition marshal_record ::
    "('s, 'a, 'e, 'c, 'm) repository \<Rightarrow> 'e \<Rightarrow> goerr + pb_record" where
  "marshal_record r event =
     (case sz_marshal_event (rp_serializer r) event of
        Inl e \<Rightarrow> Inl e
      | Inr rec \<Rightarrow>
          if rp_compress_threshold r > 0 then
            (case MaybeCompress (rp_gzip r) (rec_data rec) (rp_compress_threshold r) of
               Inl e \<Rightarrow> Inl (errorf ''compress event: '' e)
             | Inr d \<Rightarrow> Inr (rec\<lparr>rec_data := d\<rparr>))
          else Inr rec)"

fun marshal_records ::
    "('s, 'a, 'e, 'c, 'm) repository \<Rightarrow> 'e list \<Rightarrow> goerr + pb_record list" where
  "marshal_records r [] = Inr []"
| "marshal_records r (event # events) =
     (case marshal_record r event of
        Inl e \<Rightarrow> Inl e
      | Inr rec \<Rightarrow> (case marshal_records r events of Inl e \<Rightarrow> Inl e | Inr recs \<Rightarrow> Inr (rec # recs)))"

text \<open>The TTL stamp: \<open>time.Now().Unix()\<close> plus the aggregate's TTL, when that is positive.\<close>

definition stamp_ttl ::
    "('s, 'a, 'e, 'c, 'm) repository \<Rightarrow> clock \<Rightarrow> pb_record list \<Rightarrow> pb_record list" where
  "stamp_ttl r clk recs =
     (case ag_event_ttl (rp_aggregate r) of
        None \<Rightarrow> recs
      | Some ttl \<Rightarrow>
          if sint (ttl (new_aggregate r)) > 0
          then map (\<lambda>rec. rec\<lparr>rec_ttl := clk_unix clk + ttl (new_aggregate r)\<rparr>) recs
          else recs)"

definition repo_save ::
    "('s, 'a, 'e, 'c, 'm) repository \<Rightarrow> ctx \<Rightarrow> clock \<Rightarrow> 's \<Rightarrow> 'e list \<Rightarrow> 's \<times> goerr option" where
  "repo_save r c clk s events =
     (if events = [] then (s, None)
      else (case marshal_records r events of
          Inl e \<Rightarrow> (s, Some e)
        | Inr recs \<Rightarrow>
            st_save (rp_store r) (ctx_err c AtSave) s
              (qualified_id r (ev_id (rp_events r) (hd events))) (stamp_ttl r clk recs)))"

section \<open>Applying a command\<close>

text \<open>Steps 1 to 3 of \<open>Apply\<close>: lifecycle, field validation, state guard, in this order.\<close>

definition check_command :: "('c, 'a, 'e) command_ops \<Rightarrow> int64 \<Rightarrow> 'c \<Rightarrow> 'a \<Rightarrow> goerr option" where
  "check_command cm version command a =
     (case (case cm_validate_version cm command of None \<Rightarrow> None | Some f \<Rightarrow> f version) of
        Some e \<Rightarrow> Some e
      | None \<Rightarrow>
          (case (case cm_proto_validate cm command of None \<Rightarrow> None | Some f \<Rightarrow> f ()) of
             Some e \<Rightarrow> Some e
           | None \<Rightarrow> (case cm_guard_state cm command of None \<Rightarrow> None | Some f \<Rightarrow> f a)))"

text \<open>Step 9: each projection is saved; a failure is logged and the loop goes on.\<close>

fun save_projections ::
    "('s, 'a, 'e, 'c, 'm) repository \<Rightarrow> (goerr option \<Rightarrow> 's \<Rightarrow> 'm \<Rightarrow> 's \<times> goerr option) \<Rightarrow>
     ctx \<Rightarrow> string \<Rightarrow> nat \<Rightarrow> 's \<Rightarrow> 'm list \<Rightarrow> 's \<times> warning list" where
  "save_projections r save c cid i s [] = (s, [])"
| "save_projections r save c cid i s (p # ps) =
     (case save (ctx_err c (AtMaterialize i)) s p of
        (s1, res) \<Rightarrow>
          (case save_projections r save c cid (Suc i) s1 ps of
             (s2, ws) \<Rightarrow>
               (s2, (case res of None \<Rightarrow> []
                     | Some e \<Rightarrow> warn r (ProjectionFailed cid (ag_message_type (rp_aggregate r) p) e))
                   @ ws)))"

text \<open>Steps 8 and 9, run when the store is an \<open>AggregateStore\<close>.\<close>

definition materialize ::
    "('s, 'a, 'e, 'c, 'm) repository \<Rightarrow> ctx \<Rightarrow> string \<Rightarrow> 's \<Rightarrow> 'a \<Rightarrow> 'e list \<Rightarrow>
     's \<times> warning list" where
  "materialize r c cid s a events =
     (case st_save_aggregate (rp_store r) of
        None \<Rightarrow> (s, [])
      | Some save \<Rightarrow>
          (case on_all (rp_aggregate r) a events of
             (a1, Some e) \<Rightarrow> (s, [])
           | (a1, None) \<Rightarrow>
               (let a2 = run_after_on (rp_aggregate r) a1
                in case save (ctx_err c (AtMaterialize 0)) s (ag_message (rp_aggregate r) a2) of
                     (s1, res) \<Rightarrow>
                       (let ws = (case res of None \<Rightarrow> [] | Some e \<Rightarrow> warn r (MaterializeFailed cid e))
                        in case ag_projections (rp_aggregate r) of
                             None \<Rightarrow> (s1, ws)
                           | Some projections \<Rightarrow>
                               (case save_projections r save c cid 1 s1 (projections a2) of
                                  (s2, ws2) \<Rightarrow> (s2, ws @ ws2))))))"

text \<open>Steps 6 to 9, with the events already emitted.\<close>

definition persist_events ::
    "('s, 'a, 'e, 'c, 'm) repository \<Rightarrow> ctx \<Rightarrow> clock \<Rightarrow> string \<Rightarrow> 's \<Rightarrow> 'a \<Rightarrow> int64 \<Rightarrow> 'e list \<Rightarrow>
     's \<times> warning list \<times> (goerr + int64)" where
  "persist_events r c clk aggregate_id s a version events =
     (case repo_save r c clk s events of
        (s2, Some e) \<Rightarrow> (s2, [], Inl e)
      | (s2, None) \<Rightarrow>
          (case materialize r c aggregate_id s2 a events of
             (s3, ws) \<Rightarrow>
               (s3, ws, Inr (if events = [] then version
                             else ev_version (rp_events r) (last events)))))"

text \<open>Steps 1 to 9 on the aggregate \<open>a\<close> that was loaded, or is new, with its stream's version.\<close>

definition run_command ::
    "('s, 'a, 'e, 'c, 'm) repository \<Rightarrow> ctx \<Rightarrow> clock \<Rightarrow> 's \<Rightarrow> 'c \<Rightarrow> 'a \<Rightarrow> int64 \<Rightarrow>
     's \<times> warning list \<times> (goerr + int64)" where
  "run_command r c clk s command a version =
     (let cm = rp_commands r
      in case check_command cm (ag_version (rp_aggregate r) a) command a of
           Some e \<Rightarrow> (s, [], Inl e)
         | None \<Rightarrow>
             (case cm_emit cm command of
                None \<Rightarrow>
                  (s, [], Inl (errorf (cm_type_name cm command @ '': '') (Sentinel ErrUnhandledCommand)))
              | Some emit \<Rightarrow>
                  (case (case cm_evaluate cm command of None \<Rightarrow> None | Some f \<Rightarrow> f a) of
                     Some e \<Rightarrow> (s, [], if err_is e ErrSkip then Inr version else Inl e)
                   | None \<Rightarrow>
                       persist_events r c clk (cm_id cm command) s a version
                         (emit (clk_micros clk) a))))"

definition repo_apply ::
    "('s, 'a, 'e, 'c, 'm) repository \<Rightarrow> ctx \<Rightarrow> clock \<Rightarrow> 's \<Rightarrow> 'c option \<Rightarrow>
     's \<times> warning list \<times> (goerr + int64)" where
  "repo_apply r c clk s cmd =
     (case cmd of
        None \<Rightarrow> (s, [], Inl (Sentinel ErrNilCommand))
      | Some command \<Rightarrow>
          (let aggregate_id = cm_id (rp_commands r) command
           in if aggregate_id = '''' then (s, [], Inl (Sentinel ErrEmptyAggregateId))
              else (case ctx_err c AtEntry of
                  Some e \<Rightarrow> (s, [], Inl (errorf ''context error: '' e))
                | None \<Rightarrow>
                    (case load_aggregate_version r c s aggregate_id of
                       (s1, Inl e) \<Rightarrow> run_command r c clk s1 command (new_aggregate r) 0
                     | (s1, Inr (a, version)) \<Rightarrow> run_command r c clk s1 command a version))))"

end
