(* ===== verification/EventLog.thy ===== *)
theory EventLog
  imports Repository
begin

text \<open>
  The abstract event log that the repository implements: a stream per aggregate id, a list of
  events, with no bytes, compression, key prefixes, TTLs, contexts or aliased records.
  \<open>record_holds\<close> relates a stored record to the event it stands for, \<open>abs_apply\<close> is what a
  command does to a stream. The lemmas show that each method of \<open>Repository\<close> implements the
  abstract operation over every store and aggregate that keep the contracts.
\<close>

section \<open>The abstraction\<close>

definition rp_ok :: "('s, 'a, 'e, 'c, 'm) repository \<Rightarrow> bool" where
  "rp_ok r \<longleftrightarrow> gzip_laws (rp_gzip r) \<and> serializer_laws (rp_serializer r) (rp_events r)"

definition record_holds :: "('s, 'a, 'e, 'c, 'm) repository \<Rightarrow> int64 \<times> bytes \<Rightarrow> 'e \<Rightarrow> bool" where
  "record_holds r vd event \<longleftrightarrow>
     fst vd = ev_version (rp_events r) event
     \<and> (\<exists>p. MaybeDecompress (rp_gzip r) (snd vd) = Inr p \<and> \<not> IsGzipped p
          \<and> (\<forall>t. sz_unmarshal_event (rp_serializer r)
                   \<lparr>rec_version = fst vd, rec_data = p, rec_ttl = t\<rparr> = Inr event))"

definition holds_events ::
    "('s, 'a, 'e, 'c, 'm) repository \<Rightarrow> (int64 \<times> bytes) list \<Rightarrow> 'e list \<Rightarrow> bool" where
  "holds_events r l es \<longleftrightarrow> list_all2 (record_holds r) l es"

definition holds_streams ::
    "('s, 'a, 'e, 'c, 'm) repository \<Rightarrow> (string \<Rightarrow> (int64 \<times> bytes) list) \<Rightarrow> (string \<Rightarrow> 'e list) \<Rightarrow> bool" where
  "holds_streams r l streams \<longleftrightarrow> (\<forall>i. holds_events r (l (qualified_id r i)) (streams i))"

definition gapless :: "'e event_ops \<Rightarrow> 'e list \<Rightarrow> bool" where
  "gapless ev es \<longleftrightarrow>
     map (ev_version ev) es = map (\<lambda>i. word_of_nat (Suc i)) [0..<length es] \<and> length es < 2 ^ 63"

definition stream_version :: "'e event_ops \<Rightarrow> 'e list \<Rightarrow> int64" where
  "stream_version ev es = (if es = [] then 0 else ev_version ev (last es))"

definition stream_state :: "('a, 'e, 'm) aggregate_ops \<Rightarrow> 'e list \<Rightarrow> 'a" where
  "stream_state ag es =
     (if es = [] then ag_new ag else run_after_on ag (fst (on_all ag (ag_new ag) es)))"

text \<open>The events that a command adds to the stream \<open>es\<close>, and its result.\<close>

definition abs_apply ::
    "('a, 'e, 'm) aggregate_ops \<Rightarrow> 'e event_ops \<Rightarrow> ('c, 'a, 'e) command_ops \<Rightarrow> (nat \<Rightarrow> int64) \<Rightarrow>
     'e list \<Rightarrow> 'c \<Rightarrow> 'e list \<times> (goerr + int64)" where
  "abs_apply ag ev cm now es command =
     (let a = stream_state ag es
      in case check_command cm (ag_version ag a) command a of
           Some e \<Rightarrow> ([], Inl e)
         | None \<Rightarrow>
             (case cm_emit cm command of
                None \<Rightarrow>
                  ([], Inl (errorf (cm_type_name cm command @ '': '') (Sentinel ErrUnhandledCommand)))
              | Some emit \<Rightarrow>
                  (case (case cm_evaluate cm command of None \<Rightarrow> None | Some f \<Rightarrow> f a) of
                     Some e \<Rightarrow> ([], if err_is e ErrSkip then Inr (stream_version ev es) else Inl e)
                   | None \<Rightarrow>
                       (emit now a, Inr (if emit now a = [] then stream_version ev es
                                         else ev_version ev (last (emit now a)))))))"

text \<open>A tail load, where the repository makes one, replays to the same state as the stream.\<close>

definition tail_sound :: "('s, 'a, 'e, 'c, 'm) repository \<Rightarrow> 'e list \<Rightarrow> bool" where
  "tail_sound r es \<longleftrightarrow>
     (case (st_load_tail (rp_store r), ag_snapshot_interval (rp_aggregate r)) of
        (Some _, Some interval) \<Rightarrow>
          (let n = sint (interval (new_aggregate r))
           in n > 0 \<longrightarrow>
              stream_state (rp_aggregate r) (last_n (nat n) es) = stream_state (rp_aggregate r) es)
      | _ \<Rightarrow> True)"

section \<open>Qualified ids\<close>

lemma qualified_id_inj [simp]: "qualified_id r i = qualified_id r j \<longleftrightarrow> i = j"
  by (simp add: qualified_id_def)

lemma holds_streams_append:
  assumes "holds_streams r l streams" "holds_events r news es"
  shows "holds_streams r (l(qualified_id r i := l (qualified_id r i) @ news))
           (streams(i := streams i @ es))"
  using assms by (auto simp: holds_streams_def holds_events_def intro: list_all2_appendI)

section \<open>Records and events\<close>

lemma record_holds_decode:
  assumes "record_holds r (rec_vd rec) event"
  obtains d where "MaybeDecompress (rp_gzip r) (rec_data rec) = Inr d"
    and "sz_unmarshal_event (rp_serializer r) (rec\<lparr>rec_data := d\<rparr>) = Inr event"
    and "record_holds r (rec_vd (rec\<lparr>rec_data := d\<rparr>)) event"
    and "rec_version rec = ev_version (rp_events r) event"
proof -
  from assms obtain p where p: "MaybeDecompress (rp_gzip r) (rec_data rec) = Inr p"
      "\<not> IsGzipped p" "rec_version rec = ev_version (rp_events r) event"
    and u: "\<And>t. sz_unmarshal_event (rp_serializer r)
        \<lparr>rec_version = rec_version rec, rec_data = p, rec_ttl = t\<rparr> = Inr event"
    by (auto simp: record_holds_def)
  have eq: "rec\<lparr>rec_data := p\<rparr> = \<lparr>rec_version = rec_version rec, rec_data = p, rec_ttl = rec_ttl rec\<rparr>"
    by simp
  show ?thesis
  proof (rule that [of p])
    show "sz_unmarshal_event (rp_serializer r) (rec\<lparr>rec_data := p\<rparr>) = Inr event"
      unfolding eq by (rule u)
    show "record_holds r (rec_vd (rec\<lparr>rec_data := p\<rparr>)) event"
      using p u by (simp add: record_holds_def rec_vd_def)
  qed (use p in auto)
qed

lemma marshal_record_holds:
  assumes ok: "rp_ok r" and m: "marshal_record r event = Inr rec"
  shows "record_holds r (rec_vd rec) event"
proof -
  from m obtain rec0 where rec0: "sz_marshal_event (rp_serializer r) event = Inr rec0"
    by (auto simp: marshal_record_def split: sum.splits)
  with ok have laws: "rec_version rec0 = ev_version (rp_events r) event" "\<not> IsGzipped (rec_data rec0)"
      "\<And>t. sz_unmarshal_event (rp_serializer r) (rec0\<lparr>rec_ttl := t\<rparr>) = Inr event"
    by (auto simp: rp_ok_def serializer_laws_def)
  have eq: "rec0\<lparr>rec_ttl := t\<rparr> = \<lparr>rec_version = rec_version rec0, rec_data = rec_data rec0, rec_ttl = t\<rparr>" for t
    by simp
  have gz: "gzip_laws (rp_gzip r)" using ok by (simp add: rp_ok_def)
  from m rec0 have "MaybeDecompress (rp_gzip r) (rec_data rec) = Inr (rec_data rec0)
      \<and> rec_version rec = rec_version rec0"
    using laws(2) compress_decodes [OF gz laws(2)]
    by (auto simp: marshal_record_def split: if_splits sum.splits)
  with laws show ?thesis
    unfolding record_holds_def eq by auto
qed

lemma marshal_records_holds:
  assumes ok: "rp_ok r" and m: "marshal_records r events = Inr recs"
  shows "holds_events r (map rec_vd recs) events"
  using m
proof (induction events arbitrary: recs)
  case Nil
  then show ?case by (simp add: holds_events_def)
next
  case (Cons event events)
  then show ?case
    by (auto simp: holds_events_def marshal_record_holds [OF ok] split: sum.splits)
qed

lemma stamp_ttl_vd [simp]: "map rec_vd (stamp_ttl r clk recs) = map rec_vd recs"
  by (simp add: stamp_ttl_def comp_def split: option.splits)

lemma length_stamp_ttl [simp]: "length (stamp_ttl r clk recs) = length recs"
  by (simp add: stamp_ttl_def split: option.splits)

lemma rec_version_vd: "map rec_version recs = map fst (map rec_vd recs)"
  by simp

lemma holds_events_versions:
  "holds_events r l es \<Longrightarrow> map fst l = map (ev_version (rp_events r)) es"
  by (auto simp: holds_events_def list_all2_conv_all_nth record_holds_def intro: nth_equalityI)

lemma holds_events_length: "holds_events r l es \<Longrightarrow> length l = length es"
  by (simp add: holds_events_def list_all2_lengthD)

lemma holds_events_last_n:
  "holds_events r l es \<Longrightarrow> holds_events r (last_n n l) (last_n n es)"
  by (simp add: holds_events_def last_n_def list_all2_dropI list_all2_lengthD)

lemma holds_events_take:
  "holds_events r l es \<Longrightarrow> holds_events r (take n l) (take n es)"
  by (simp add: holds_events_def list_all2_takeI)

section \<open>Replaying\<close>

lemma replay_records_holds:
  assumes "holds_events r (map rec_vd h) es"
    and "on_all (rp_aggregate r) a es = (a', None)"
  shows "\<exists>h'. replay_records r h a v
              = (h', Inr (a', if es = [] then v else ev_version (rp_events r) (last es)))
           \<and> holds_events r (map rec_vd h') es \<and> map rec_version h' = map rec_version h"
  using assms
proof (induction h arbitrary: es a v)
  case Nil
  then show ?case by (auto simp: holds_events_def)
next
  case (Cons rec h)
  from Cons.prems(1) obtain e es' where es: "es = e # es'"
      and hold: "record_holds r (rec_vd rec) e" "holds_events r (map rec_vd h) es'"
    by (auto simp: holds_events_def list_all2_Cons1)
  from Cons.prems(2) es obtain a1 where a1: "ag_on (rp_aggregate r) a e = (a1, None)"
      "on_all (rp_aggregate r) a1 es' = (a', None)"
    by (auto split: prod.splits option.splits)
  from hold(1) obtain d where d: "MaybeDecompress (rp_gzip r) (rec_data rec) = Inr d"
      "sz_unmarshal_event (rp_serializer r) (rec\<lparr>rec_data := d\<rparr>) = Inr e"
      "record_holds r (rec_vd (rec\<lparr>rec_data := d\<rparr>)) e"
      "rec_version rec = ev_version (rp_events r) e"
    by (rule record_holds_decode)
  from Cons.IH [OF hold(2) a1(2)] obtain h' where h':
      "replay_records r h a1 (rec_version rec)
         = (h', Inr (a', if es' = [] then rec_version rec else ev_version (rp_events r) (last es')))"
      "holds_events r (map rec_vd h') es'" "map rec_version h' = map rec_version h"
    by blast
  show ?case
    using d a1 h' es by (auto simp: holds_events_def)
qed

lemma decompress_records_holds:
  assumes "holds_events r (map rec_vd h) es"
  shows "\<exists>h'. decompress_records (rp_gzip r) h = (h', None)
           \<and> holds_events r (map rec_vd h') es \<and> map rec_version h' = map rec_version h
           \<and> list_all2 (\<lambda>rec e. sz_unmarshal_event (rp_serializer r) rec = Inr e) h' es"
  using assms
proof (induction h arbitrary: es)
  case Nil
  then show ?case by (simp add: holds_events_def)
next
  case (Cons rec h)
  from Cons.prems obtain e es' where es: "es = e # es'"
      and hold: "record_holds r (rec_vd rec) e" "holds_events r (map rec_vd h) es'"
    by (auto simp: holds_events_def list_all2_Cons1)
  from hold(1) obtain d where d: "MaybeDecompress (rp_gzip r) (rec_data rec) = Inr d"
      "sz_unmarshal_event (rp_serializer r) (rec\<lparr>rec_data := d\<rparr>) = Inr e"
      "record_holds r (rec_vd (rec\<lparr>rec_data := d\<rparr>)) e"
    by (rule record_holds_decode)
  from Cons.IH [OF hold(2)] obtain h' where h': "decompress_records (rp_gzip r) h = (h', None)"
      "holds_events r (map rec_vd h') es'" "map rec_version h' = map rec_version h"
      "list_all2 (\<lambda>rec e. sz_unmarshal_event (rp_serializer r) rec = Inr e) h' es'"
    by blast
  show ?case using d h' es by (auto simp: holds_events_def)
qed

end
