(* ===== verification/Refinement.thy ===== *)
theory Refinement
  imports EventLog
begin

text \<open>
  The repository refines the abstract event log: \<open>Load\<close>, \<open>History\<close>, \<open>Save\<close> and \<open>Apply\<close> over any
  store that is an \<open>event_log_store\<close> and any aggregate that keeps \<open>aggregate_contract\<close>. The
  contracts are premises here; the stores and aggregates discharge them.
\<close>

section \<open>Gapless streams\<close>

lemma gapless_Nil [simp]: "gapless ev []"
  by (simp add: gapless_def)

lemma gapless_nth:
  "gapless ev es \<Longrightarrow> i < length es \<Longrightarrow> ev_version ev (es ! i) = word_of_nat (Suc i)"
  unfolding gapless_def
  by (metis (no_types, lifting) add.left_neutral diff_zero length_map length_upt nth_map nth_upt)

lemma gapless_stream_version:
  assumes "gapless ev es"
  shows "stream_version ev es = word_of_nat (length es)"
proof (cases "es = []")
  case False
  with gapless_nth [OF assms, of "length es - 1"] show ?thesis
    by (simp add: stream_version_def last_conv_nth)
qed (simp add: stream_version_def)

lemma gapless_append:
  assumes "gapless ev es" "length (es @ news) < 2 ^ 63"
    and "map (ev_version ev) news = map (\<lambda>i. stream_version ev es + word_of_nat (Suc i)) [0..<length news]"
  shows "gapless ev (es @ news)"
proof -
  have shift: "[0..<length es + length news]
      = [0..<length es] @ map (\<lambda>i. i + length es) [0..<length news]"
    by (simp add: map_add_upt upt_add_eq_append [of 0] add.commute)
  show ?thesis
    using assms by (simp add: gapless_def gapless_stream_version shift comp_def algebra_simps)
qed

lemma gapless_ascending:
  assumes "gapless ev es"
  shows "ascending (map (ev_version ev) es)"
proof -
  have len: "length es < 2 ^ 63" using assms by (simp add: gapless_def)
  have v: "sint (ev_version ev (es ! i)) = int (Suc i)" if "i < length es" for i
    using gapless_nth [OF assms that] sint64_of_nat [of "Suc i"] that len by simp
  show ?thesis
    unfolding ascending_def
  proof
    show "sorted_wrt (<) (map sint (map (ev_version ev) es))"
      unfolding sorted_wrt_iff_nth_less using v by simp
    show "\<forall>x\<in>set (map (ev_version ev) es). 0 \<le> sint x"
    proof
      fix x assume "x \<in> set (map (ev_version ev) es)"
      then obtain i where "i < length es" "x = ev_version ev (es ! i)"
        by (auto simp: in_set_conv_nth)
      then show "0 \<le> sint x" using v [of i] by simp
    qed
  qed
qed

lemma gapless_prefix: "gapless ev (es @ fs) \<Longrightarrow> gapless ev es"
  by (auto simp: gapless_def upt_add_eq_append [of 0])

lemma gapless_take: "gapless ev (es @ fs) \<Longrightarrow> gapless ev (es @ take n fs)"
  by (rule gapless_prefix [where fs = "drop n fs"]) simp

section \<open>Saving and materialising\<close>

lemma save_projections_log:
  assumes "event_log_store (rp_store r) sinv slog" "st_save_aggregate (rp_store r) = Some save"
    and "sinv s" "save_projections r save c cid i s ps = (s', ws)"
  shows "sinv s' \<and> slog s' = slog s"
  using assms(3,4)
proof (induction ps arbitrary: i s ws)
  case Nil
  then show ?case by simp
next
  case (Cons p ps)
  obtain s1 res where s1: "save (ctx_err c (AtMaterialize i)) s p = (s1, res)" by fastforce
  with event_log_store.materialize_log [OF assms(1) Cons.prems(1) assms(2)]
  have "sinv s1 \<and> slog s1 = slog s" by blast
  with Cons s1 show ?case by (auto split: prod.splits)
qed

lemma materialize_keeps_log:
  assumes store: "event_log_store (rp_store r) sinv slog"
    and "sinv s" "materialize r c cid s a events = (s', ws)"
  shows "sinv s' \<and> slog s' = slog s"
proof (cases "st_save_aggregate (rp_store r)")
  case None
  with assms show ?thesis by (simp add: materialize_def)
next
  case (Some save)
  obtain a1 err where a1: "on_all (rp_aggregate r) a events = (a1, err)" by fastforce
  show ?thesis
  proof (cases err)
    case (Some e)
    with a1 \<open>st_save_aggregate (rp_store r) = Some save\<close> assms show ?thesis
      by (simp add: materialize_def)
  next
    case None
    let ?a2 = "run_after_on (rp_aggregate r) a1"
    obtain s1 res where s1:
      "save (ctx_err c (AtMaterialize 0)) s (ag_message (rp_aggregate r) ?a2) = (s1, res)" by fastforce
    have l1: "sinv s1 \<and> slog s1 = slog s"
      by (rule event_log_store.materialize_log [OF store assms(2) Some s1])
    show ?thesis
    proof (cases "ag_projections (rp_aggregate r)")
      case p: None
      with assms(3) a1 None Some s1 l1 show ?thesis by (simp add: materialize_def)
    next
      case p: (Some projections)
      obtain s2 ws2 where s2: "save_projections r save c cid 1 s1 (projections ?a2) = (s2, ws2)"
        by fastforce
      have "sinv s2 \<and> slog s2 = slog s1"
        by (rule save_projections_log [OF store Some conjunct1 [OF l1] s2])
      with assms(3) a1 None Some s1 s2 p l1 show ?thesis by (simp add: materialize_def)
    qed
  qed
qed

lemma repo_save_log:
  assumes store: "event_log_store (rp_store r) sinv slog" and ok: "rp_ok r"
    and inv: "sinv s" and streams: "holds_streams r (slog s) streams"
    and events: "\<forall>e \<in> set events. ev_id (rp_events r) e = i"
    and gap: "gapless (rp_events r) (streams i @ events)"
    and save: "repo_save r c clk s events = (s', res)"
  shows "sinv s' \<and> (\<exists>n. holds_streams r (slog s') (streams(i := streams i @ take n events))
           \<and> (res = None \<longrightarrow> n = length events)
           \<and> (res \<noteq> None \<and> length events \<le> 100 \<longrightarrow> n = 0))"
proof (cases "events = []")
  case True
  with save inv streams show ?thesis by (simp add: repo_save_def)
next
  case False
  then have hd: "ev_id (rp_events r) (hd events) = i" using events by simp
  show ?thesis
  proof (cases "marshal_records r events")
    case (Inl e)
    with save False inv streams show ?thesis
      by (auto simp: repo_save_def intro: exI [of _ 0])
  next
    case (Inr recs)
    let ?k = "qualified_id r i" and ?rs = "stamp_ttl r clk recs"
    have holds: "holds_events r (map rec_vd recs) events"
      by (rule marshal_records_holds [OF ok Inr])
    have "map fst (slog s ?k) @ map rec_version ?rs = map (ev_version (rp_events r)) (streams i @ events)"
      using holds_events_versions [OF holds] streams rec_version_vd [of ?rs]
      by (simp add: holds_streams_def holds_events_versions)
    then have ext: "extends_log (slog s ?k) ?rs"
      unfolding extends_log_def using gapless_ascending [OF gap] by simp
    have saved: "st_save (rp_store r) (ctx_err c AtSave) s ?k ?rs = (s', res)"
      using save False Inr hd by (simp add: repo_save_def)
    show ?thesis
    proof (cases res)
      case None
      with event_log_store.save_log [OF store inv ext] saved
      have "sinv s'" "slog s' = (slog s)(?k := slog s ?k @ map rec_vd recs)" by auto
      with holds_streams_append [OF streams holds] None show ?thesis
        by (auto intro: exI [of _ "length events"])
    next
      case (Some e)
      from event_log_store.save_failed [OF store inv ext saved [unfolded Some]] obtain n where
        "sinv s'" "slog s' = (slog s)(?k := slog s ?k @ take n (map rec_vd recs))"
        "length ?rs \<le> 100 \<longrightarrow> n = 0"
        unfolding stamp_ttl_vd by blast
      moreover have "length ?rs = length events"
        using holds_events_length [OF holds] by simp
      ultimately have "sinv s'" "slog s' = (slog s)(?k := slog s ?k @ take n (map rec_vd recs))"
        "length events \<le> 100 \<longrightarrow> n = 0" by simp_all
      with holds_streams_append [OF streams holds_events_take [OF holds, of n]] Some show ?thesis
        by auto
    qed
  qed
qed

section \<open>Loading\<close>

text \<open>What \<open>loadHistory\<close> returned stands for the stream, or for its tail where that suffices.\<close>

lemma load_history_holds:
  assumes store: "event_log_store (rp_store r) sinv slog"
    and sinv: "sinv s" and streams: "holds_streams r (slog s) streams"
    and tail: "tail_sound r (streams i)"
    and load: "load_history r c s i = (s1, Inr h)"
  shows "sinv s1 \<and> slog s1 = slog s \<and>
     (\<exists>es. holds_events r (map rec_vd h) es
        \<and> (es = [] \<longleftrightarrow> streams i = []) \<and> set es \<subseteq> set (streams i)
        \<and> stream_version (rp_events r) es = stream_version (rp_events r) (streams i)
        \<and> stream_state (rp_aggregate r) es = stream_state (rp_aggregate r) (streams i)
        \<and> (st_load_tail (rp_store r) = None \<longrightarrow> es = streams i))"
proof -
  let ?k = "qualified_id r i"
  have k: "holds_events r (slog s ?k) (streams i)" using streams by (simp add: holds_streams_def)
  show ?thesis
  proof (cases "st_load (rp_store r) (ctx_err c AtLoad) s ?k = (s1, Inr h)")
    case True
    from event_log_store.load_log [OF store sinv True] k show ?thesis by auto
  next
    case False
    with load obtain ltail interval where
        t: "st_load_tail (rp_store r) = Some ltail" "ag_snapshot_interval (rp_aggregate r) = Some interval"
      and n: "0 < sint (interval (new_aggregate r))"
      and lt: "ltail (ctx_err c AtLoad) s ?k (sint (interval (new_aggregate r))) = (s1, Inr h)"
      by (auto simp: load_history_def Let_def split: option.splits if_splits)
    let ?n = "nat (sint (interval (new_aggregate r)))"
    have "sinv s1" "slog s1 = slog s" "map rec_vd h = last_n ?n (slog s ?k)"
      using event_log_store.load_tail_log [OF store sinv t(1) lt] by auto
    moreover have "stream_version (rp_events r) (last_n ?n (streams i)) = stream_version (rp_events r) (streams i)"
      using n by (simp add: stream_version_def last_last_n)
    moreover have "stream_state (rp_aggregate r) (last_n ?n (streams i)) = stream_state (rp_aggregate r) (streams i)"
      using tail t n by (simp add: tail_sound_def Let_def)
    ultimately show ?thesis
      using holds_events_last_n [OF k, of ?n] n t(1) set_last_n [of ?n "streams i"]
      by (intro conjI exI [of _ "last_n ?n (streams i)"]) auto
  qed
qed

lemma writeback_holds:
  assumes store: "event_log_store (rp_store r) sinv slog"
    and sinv: "sinv s" and streams: "holds_streams r (slog s) streams"
    and load: "st_load (rp_store r) ce s (qualified_id r i) = (s1, Inr h)"
    and h': "map rec_version h' = map rec_version h" "holds_events r (map rec_vd h') (streams i)"
  shows "sinv (st_writeback (rp_store r) s1 (qualified_id r i) h')
    \<and> holds_streams r (slog (st_writeback (rp_store r) s1 (qualified_id r i) h')) streams"
proof -
  have "slog s1 = slog s" using event_log_store.load_log [OF store sinv load] by auto
  with event_log_store.writeback_log [OF store sinv load h'(1)] streams h'(2)
  show ?thesis by (auto simp: holds_streams_def)
qed

lemma load_aggregate_holds:
  assumes store: "event_log_store (rp_store r) sinv slog"
    and agg: "aggregate_contract (rp_aggregate r) (rp_events r) (rp_commands r) known"
    and sinv: "sinv s" and streams: "holds_streams r (slog s) streams"
    and known: "\<forall>e \<in> set (streams i). known e" and tail: "tail_sound r (streams i)"
    and load: "load_history r c s i = (s1, Inr h)"
  shows "\<exists>s2. load_aggregate_version r c s i
      = (s2, if streams i = []
             then Inl (errorf (''unable to load: '' @ i @ '': '') (Sentinel ErrAggregateNotFound))
             else Inr (stream_state (rp_aggregate r) (streams i), stream_version (rp_events r) (streams i)))
      \<and> sinv s2 \<and> holds_streams r (slog s2) streams"
proof -
  from load_history_holds [OF store sinv streams tail load] obtain es where
      s1: "sinv s1" "slog s1 = slog s" and es: "holds_events r (map rec_vd h) es"
      "es = [] \<longleftrightarrow> streams i = []" "set es \<subseteq> set (streams i)"
      "stream_version (rp_events r) es = stream_version (rp_events r) (streams i)"
      "stream_state (rp_aggregate r) es = stream_state (rp_aggregate r) (streams i)"
      "st_load_tail (rp_store r) = None \<longrightarrow> es = streams i"
    by (elim conjE exE) (rule that)
  have streams1: "holds_streams r (slog s1) streams" using streams s1 by simp
  have h: "h = [] \<longleftrightarrow> es = []" using holds_events_length [OF es(1)] by auto
  show ?thesis
  proof (cases "es = []")
    case True
    with h es load s1 streams1 show ?thesis by (simp add: load_aggregate_version_def)
  next
    case False
    from known es(3) have "\<forall>e \<in> set es. known e" by blast
    with aggregate_contract.on_all_known [OF agg] obtain a' where
      a': "on_all (rp_aggregate r) (new_aggregate r) es = (a', None)" by blast
    from replay_records_holds [OF es(1) a', of 0] False obtain h' where h':
        "replay_records r h (new_aggregate r) 0 = (h', Inr (a', ev_version (rp_events r) (last es)))"
        "holds_events r (map rec_vd h') es" "map rec_version h' = map rec_version h"
      by auto
    let ?s2 = "st_writeback (rp_store r) s1 (qualified_id r i) h'"
    have "sinv ?s2 \<and> holds_streams r (slog ?s2) streams"
    proof (cases "st_load_tail (rp_store r)")
      case None
      with load have "st_load (rp_store r) (ctx_err c AtLoad) s (qualified_id r i) = (s1, Inr h)"
        by (simp add: load_history_def)
      from writeback_holds [OF store sinv streams this h'(3)] h'(2) es(6) None
      show ?thesis by simp
    next
      case (Some f)
      with event_log_store.load_tail_copies [OF store Some] s1 streams1 show ?thesis by simp
    qed
    moreover have "stream_state (rp_aggregate r) es = run_after_on (rp_aggregate r) a'"
      using False a' by (simp add: stream_state_def)
    ultimately show ?thesis
      using load False h h'(1) es
      by (simp add: load_aggregate_version_def stream_version_def)
  qed
qed

text \<open>\<open>History\<close> gives a record per event, that unmarshals to it.\<close>

lemma repo_history_holds:
  assumes store: "event_log_store (rp_store r) sinv slog"
    and s: "sinv s" "holds_streams r (slog s) streams" and i: "i \<noteq> ''''"
    and load: "st_load (rp_store r) (ctx_err c AtLoad) s (qualified_id r i) = (s1, Inr h)"
    and run: "repo_history r c s i = (s', res)"
  shows "sinv s' \<and> holds_streams r (slog s') streams
    \<and> (\<exists>recs. res = Inr recs
         \<and> map rec_version recs = map (ev_version (rp_events r)) (streams i)
         \<and> map (sz_unmarshal_event (rp_serializer r)) recs = map Inr (streams i))"
proof -
  have "slog s1 = slog s" and h: "map rec_vd h = slog s (qualified_id r i)"
    using event_log_store.load_log [OF store s(1) load] by auto
  then have holds: "holds_events r (map rec_vd h) (streams i)"
    using s(2) by (simp add: holds_streams_def)
  from decompress_records_holds [OF holds] obtain h' where h':
      "decompress_records (rp_gzip r) h = (h', None)" "holds_events r (map rec_vd h') (streams i)"
      "map rec_version h' = map rec_version h"
      "list_all2 (\<lambda>rec e. sz_unmarshal_event (rp_serializer r) rec = Inr e) h' (streams i)"
    by blast
  have "map (sz_unmarshal_event (rp_serializer r)) h' = map Inr (streams i)"
    using h'(4) by (induction rule: list_all2_induct) auto
  moreover have "map rec_version h' = map (ev_version (rp_events r)) (streams i)"
    unfolding rec_version_vd by (rule holds_events_versions [OF h'(2)])
  ultimately show ?thesis
    using writeback_holds [OF store s load h'(3,2)] i load run h'(1)
    by (auto simp: repo_history_def)
qed

section \<open>Running a command\<close>

text \<open>
  The error with which storing events in a state fails: that of the serializer on one of them, or
  that of the store. There is none when the events are stored.
\<close>

definition store_refusal ::
    "('s, 'a, 'e, 'c, 'm) repository \<Rightarrow> ctx \<Rightarrow> clock \<Rightarrow> string \<Rightarrow> 's \<Rightarrow> 'e list \<Rightarrow> goerr option" where
  "store_refusal r c clk i s events =
     (if events = [] then None
      else (case marshal_records r events of
          Inl e \<Rightarrow> Some e
        | Inr recs \<Rightarrow> snd (st_save (rp_store r) (ctx_err c AtSave) s (qualified_id r i) (stamp_ttl r clk recs))))"

lemma store_refusal_Nil [simp]: "store_refusal r c clk i s [] = None"
  by (simp add: store_refusal_def)

lemma repo_save_result:
  assumes "\<forall>e \<in> set events. ev_id (rp_events r) e = i"
  shows "snd (repo_save r c clk s events) = store_refusal r c clk i s events"
  using assms by (cases events) (auto simp: repo_save_def store_refusal_def split: sum.split)

text \<open>
  After \<open>run_command\<close>, when the store refuses none of the new events, the streams and the result are
  those of the abstract machine; otherwise the error of the store is the result, and the stream
  holds at most a prefix of the new events (none of them when the command emits at most 100).
\<close>

definition command_outcome ::
    "('s, 'a, 'e, 'c, 'm) repository \<Rightarrow> (string \<Rightarrow> (int64 \<times> bytes) list) \<Rightarrow> (string \<Rightarrow> 'e list) \<Rightarrow>
     string \<Rightarrow> 'e list \<times> (goerr + int64) \<Rightarrow> goerr option \<Rightarrow> goerr + int64 \<Rightarrow> bool" where
  "command_outcome r l streams i expected refusal res \<longleftrightarrow>
     (case expected of (news, out) \<Rightarrow>
        (case refusal of
           None \<Rightarrow> res = out \<and> holds_streams r l (streams(i := streams i @ news))
         | Some e \<Rightarrow> res = Inl e \<and> news \<noteq> []
             \<and> (\<exists>n. (length news \<le> 100 \<longrightarrow> n = 0) \<and> holds_streams r l (streams(i := streams i @ take n news)))))"

lemma persist_events_outcome:
  assumes store: "event_log_store (rp_store r) sinv slog" and ok: "rp_ok r"
    and sinv: "sinv s" and streams: "holds_streams r (slog s) streams"
    and events: "\<forall>e \<in> set events. ev_id (rp_events r) e = i"
    and gap: "gapless (rp_events r) (streams i @ events)"
    and run: "persist_events r c clk i s a version events = (s', ws, res)"
  shows "sinv s' \<and> command_outcome r (slog s') streams i
           (events, Inr (if events = [] then version else ev_version (rp_events r) (last events)))
           (store_refusal r c clk i s events) res"
proof -
  obtain s2 err where save: "repo_save r c clk s events = (s2, err)" by fastforce
  then have refusal: "store_refusal r c clk i s events = err"
    using repo_save_result [OF events, of c clk s] by simp
  from repo_save_log [OF store ok sinv streams events gap save] obtain n where n:
      "sinv s2" "holds_streams r (slog s2) (streams(i := streams i @ take n events))"
      "err = None \<longrightarrow> n = length events" "err \<noteq> None \<and> length events \<le> 100 \<longrightarrow> n = 0"
    by blast
  show ?thesis
  proof (cases err)
    case None
    obtain s3 ws3 where m: "materialize r c i s2 a events = (s3, ws3)" by fastforce
    from materialize_keeps_log [OF store n(1) m] n None save m run show ?thesis
      by (auto simp: persist_events_def command_outcome_def refusal)
  next
    case (Some e)
    with save have "events \<noteq> []" by (auto simp: repo_save_def)
    with Some save n run show ?thesis
      by (auto simp: persist_events_def command_outcome_def refusal)
  qed
qed

lemma run_command_outcome:
  assumes store: "event_log_store (rp_store r) sinv slog" and ok: "rp_ok r"
    and agg: "aggregate_contract (rp_aggregate r) (rp_events r) (rp_commands r) known"
    and sinv: "sinv s" and streams: "holds_streams r (slog s) streams"
    and i: "i = cm_id (rp_commands r) command"
    and a: "a = stream_state (rp_aggregate r) (streams i)"
    and version: "version = stream_version (rp_events r) (streams i)"
    and expected: "abs_apply (rp_aggregate r) (rp_events r) (rp_commands r) (clk_micros clk) (streams i) command
                     = (news, out)"
    and gap: "gapless (rp_events r) (streams i @ news)"
    and run: "run_command r c clk s command a version = (s', ws, res)"
  shows "sinv s' \<and> command_outcome r (slog s') streams i (news, out) (store_refusal r c clk i s news) res"
proof (cases "check_command (rp_commands r) (ag_version (rp_aggregate r) a) command a")
  case (Some e)
  with assms show ?thesis
    by (auto simp: run_command_def abs_apply_def command_outcome_def)
next
  case check: None
  show ?thesis
  proof (cases "cm_emit (rp_commands r) command")
    case None
    with assms check show ?thesis
      by (auto simp: run_command_def abs_apply_def command_outcome_def)
  next
    case emit: (Some emit)
    show ?thesis
    proof (cases "case cm_evaluate (rp_commands r) command of None \<Rightarrow> None | Some f \<Rightarrow> f a")
      case (Some e)
      with assms check emit show ?thesis
        by (auto simp: run_command_def abs_apply_def command_outcome_def)
    next
      case None
      from expected None check emit a have news: "news = emit (clk_micros clk) a"
        "out = Inr (if news = [] then version else ev_version (rp_events r) (last news))"
        by (auto simp: abs_apply_def version Let_def)
      from run None check emit news i have
        "persist_events r c clk i s a version news = (s', ws, res)" by (simp add: run_command_def)
      moreover have "\<forall>e \<in> set news. ev_id (rp_events r) e = i"
        using aggregate_contract.emit_id [OF agg emit] news i by blast
      ultimately show ?thesis
        using persist_events_outcome [OF store ok sinv streams _ gap] news by simp
    qed
  qed
qed

section \<open>Applying a command\<close>

text \<open>The streams that the repository can have written.\<close>

definition streams_ok ::
    "('s, 'a, 'e, 'c, 'm) repository \<Rightarrow> ('e \<Rightarrow> bool) \<Rightarrow> (string \<Rightarrow> 'e list) \<Rightarrow> bool" where
  "streams_ok r known streams \<longleftrightarrow>
     (\<forall>i. gapless (rp_events r) (streams i)
        \<and> (\<forall>e \<in> set (streams i). known e \<and> ev_id (rp_events r) e = i))"

lemma stream_state_version:
  assumes agg: "aggregate_contract ag ev cm known" and "\<forall>e \<in> set es. known e"
  shows "ag_version ag (stream_state ag es) = stream_version ev es"
proof (cases "es = []")
  case True
  with aggregate_contract.new_version [OF agg] show ?thesis
    by (simp add: stream_state_def stream_version_def)
next
  case False
  with aggregate_contract.on_all_known [OF agg assms(2), of "ag_new ag"]
    aggregate_contract.after_on_version [OF agg] show ?thesis
    by (auto simp: stream_state_def stream_version_def)
qed

lemma abs_apply_emits:
  assumes "abs_apply ag ev cm now es command = (news, out)" "news \<noteq> []"
  obtains emit where "cm_emit cm command = Some emit" "news = emit now (stream_state ag es)"
    "out = Inr (ev_version ev (last news))"
  using assms by (auto simp: abs_apply_def Let_def split: option.splits if_splits)

lemma abs_apply_gapless:
  assumes agg: "aggregate_contract ag ev cm known"
    and "\<forall>e \<in> set es. known e" "gapless ev es"
    and new: "abs_apply ag ev cm now es command = (news, out)" "length (es @ news) < 2 ^ 63"
  shows "gapless ev (es @ news) \<and> (\<forall>e \<in> set news. known e \<and> ev_id ev e = cm_id cm command)"
proof (cases "news = []")
  case True
  with assms show ?thesis by simp
next
  case False
  from new(1) False obtain emit where emit: "cm_emit cm command = Some emit"
      "news = emit now (stream_state ag es)"
    by (rule abs_apply_emits)
  have "map (ev_version ev) news
      = map (\<lambda>i. stream_version ev es + word_of_nat (Suc i)) [0..<length news]"
    using aggregate_contract.emit_versions [OF agg emit(1)] stream_state_version [OF agg assms(2)]
    by (simp add: emit(2))
  with gapless_append [OF assms(3) new(2)] show ?thesis
    using aggregate_contract.emit_known [OF agg emit(1)] aggregate_contract.emit_id [OF agg emit(1)]
    by (simp add: emit(2))
qed

lemma apply_outcome:
  assumes store: "event_log_store (rp_store r) sinv slog" and ok: "rp_ok r"
    and agg: "aggregate_contract (rp_aggregate r) (rp_events r) (rp_commands r) known"
    and sinv: "sinv s" and streams: "holds_streams r (slog s) streams" "streams_ok r known streams"
    and i: "i = cm_id (rp_commands r) command" "i \<noteq> ''''" and tail: "tail_sound r (streams i)"
    and ctx: "ctx_err c AtEntry = None" and load: "load_history r c s i = (s1, Inr h)"
    and expected: "abs_apply (rp_aggregate r) (rp_events r) (rp_commands r) (clk_micros clk) (streams i) command
                     = (news, out)"
    and len: "length (streams i @ news) < 2 ^ 63"
    and run: "repo_apply r c clk s (Some command) = (s', ws, res)"
  shows "sinv s' \<and> command_outcome r (slog s') streams i (news, out)
    (store_refusal r c clk i (fst (load_aggregate_version r c s i)) news) res"
proof -
  have k: "\<forall>e \<in> set (streams i). known e" and g: "gapless (rp_events r) (streams i)"
    using streams(2) by (auto simp: streams_ok_def)
  have gap: "gapless (rp_events r) (streams i @ news)"
    using abs_apply_gapless [OF agg k g expected len] by blast
  from load_aggregate_holds [OF store agg sinv streams(1) k tail load] obtain s2 where s2:
      "load_aggregate_version r c s i = (s2, if streams i = []
         then Inl (errorf (''unable to load: '' @ i @ '': '') (Sentinel ErrAggregateNotFound))
         else Inr (stream_state (rp_aggregate r) (streams i), stream_version (rp_events r) (streams i)))"
      "sinv s2" "holds_streams r (slog s2) streams"
    by blast
  have "run_command r c clk s2 command (stream_state (rp_aggregate r) (streams i))
          (stream_version (rp_events r) (streams i)) = (s', ws, res)"
    using run i ctx s2(1)
    by (auto simp: repo_apply_def stream_state_def stream_version_def split: if_splits)
  from run_command_outcome [OF store ok agg s2(2,3) i(1) refl refl expected gap this]
  show ?thesis by (simp add: s2(1))
qed

lemma command_outcome_streams:
  assumes "command_outcome r l streams i (news, out) refusal res"
  shows "\<exists>n. holds_streams r l (streams(i := streams i @ take n news))"
  using assms unfolding command_outcome_def
  by (auto intro: exI [of _ "length news"] split: option.splits)

lemma streams_ok_extend:
  assumes agg: "aggregate_contract (rp_aggregate r) (rp_events r) (rp_commands r) known"
    and ok: "streams_ok r known streams" and i: "i = cm_id (rp_commands r) command"
    and expected: "abs_apply (rp_aggregate r) (rp_events r) (rp_commands r) now (streams i) command = (news, out)"
    and len: "length (streams i @ news) < 2 ^ 63"
  shows "streams_ok r known (streams(i := streams i @ take n news))"
proof -
  have k: "\<forall>e \<in> set (streams i). known e" and g: "gapless (rp_events r) (streams i)"
    using ok by (auto simp: streams_ok_def)
  from abs_apply_gapless [OF agg k g expected len]
  have n: "gapless (rp_events r) (streams i @ take n news)"
      "\<forall>e \<in> set news. known e \<and> ev_id (rp_events r) e = i"
    using i gapless_take by auto
  with ok show ?thesis by (auto simp: streams_ok_def dest: in_set_takeD)
qed

end
