(* ===== verification/Snapshots.thy ===== *)
theory Snapshots
  imports Refinement
begin

text \<open>
  Snapshot events (interface \<open>Snapshoter\<close>, \<open>Builder.Snapshot\<close> of the generated code, and the
  tail loading of \<open>loadHistory\<close> that rests on them). A snapshot event overwrites the whole
  state, and a stream has one at each index that is a positive multiple of the interval \<open>N\<close>; so
  its last \<open>N\<close> events hold one whenever there are more than \<open>N\<close>, and replaying them gives the
  state of the whole stream.
\<close>

definition snapshotted :: "('e \<Rightarrow> bool) \<Rightarrow> nat \<Rightarrow> 'e list \<Rightarrow> bool" where
  "snapshotted snap N es \<longleftrightarrow>
     (\<forall>i < length es. 0 < i \<longrightarrow> N dvd i \<longrightarrow> snap (es ! i)) \<and> (es \<noteq> [] \<longrightarrow> \<not> N dvd length es)"

text \<open>
  What tail loading relies on: the interval, that a snapshot overwrites the state, and that a
  command run on a stream of \<open>n\<close> events emits a snapshot exactly where one is due and never stops
  just before one.
\<close>

locale snapshot_contract = aggregate_contract ag ev cm known
  for ag :: "('a, 'e, 'm) aggregate_ops" and ev :: "'e event_ops"
    and cm :: "('c, 'a, 'e) command_ops" and known :: "'e \<Rightarrow> bool" +
  fixes snap :: "'e \<Rightarrow> bool"
    and N :: nat
  assumes interval: "\<exists>f. ag_snapshot_interval ag = Some f \<and> sint (f (ag_new ag)) = int N \<and> 0 < N"
    and snap_overwrites: "snap e \<Longrightarrow> ag_on ag a e = ag_on ag a' e"
    and emit_snap: "cm_emit cm c = Some f \<Longrightarrow> ag_version ag a = word_of_nat n \<Longrightarrow>
      n + length (f now a) < 2 ^ 63 \<Longrightarrow> n = 0 \<or> \<not> N dvd n \<Longrightarrow>
      j < length (f now a) \<Longrightarrow> 0 < n + j \<Longrightarrow> N dvd n + j \<Longrightarrow> snap (f now a ! j)"
    and emit_end: "cm_emit cm c = Some f \<Longrightarrow> ag_version ag a = word_of_nat n \<Longrightarrow>
      n + length (f now a) < 2 ^ 63 \<Longrightarrow> f now a \<noteq> [] \<Longrightarrow> n = 0 \<or> \<not> N dvd n \<Longrightarrow>
      \<not> N dvd n + length (f now a)"
begin

lemma replay_from_snapshot:
  assumes known: "\<forall>e \<in> set (es @ snapshot # fs). known e" "\<forall>e \<in> set (ds @ snapshot # fs). known e"
    and "snap snapshot"
  shows "on_all ag a (es @ snapshot # fs) = on_all ag a' (ds @ snapshot # fs)"
proof -
  from known on_all_known [of es a] obtain b where b: "on_all ag a es = (b, None)" by auto
  from known on_all_known [of ds a'] obtain b' where b': "on_all ag a' ds = (b', None)" by auto
  have "ag_on ag b snapshot = ag_on ag b' snapshot" using assms(3) by (rule snap_overwrites)
  with b b' show ?thesis by (simp add: on_all_append)
qed

lemma last_snapshot:
  assumes "snapshotted snap N es" "N < length es"
  obtains pre snapshot post skipped where "es = skipped @ pre @ snapshot # post" "snap snapshot"
    "last_n N es = pre @ snapshot # post"
proof -
  let ?n = "length es" and ?i = "length es - length es mod N"
  have N: "0 < N" using interval by auto
  have "\<not> N dvd ?n" using assms by (auto simp: snapshotted_def)
  then have m: "0 < ?n mod N" "?n mod N < N" using N by (auto simp: dvd_eq_mod_eq_0)
  have i: "?i < ?n" "?n - N \<le> ?i" "0 < ?i" "N dvd ?i"
    using m assms(2) by (linarith, linarith, linarith, simp add: minus_mod_eq_mult_div)
  with assms(1) have s: "snap (es ! ?i)" by (simp add: snapshotted_def)
  let ?pre = "take (?i - (?n - N)) (drop (?n - N) es)"
  have split: "drop (?n - N) es = ?pre @ es ! ?i # drop (Suc ?i) es"
    using id_take_nth_drop [of "?i - (?n - N)" "drop (?n - N) es"] i by simp
  have "es = take (?n - N) es @ drop (?n - N) es" by simp
  with split have "es = take (?n - N) es @ ?pre @ es ! ?i # drop (Suc ?i) es" by simp
  then show ?thesis
    by (rule that) (use s split in \<open>auto simp: last_n_def\<close>)
qed

lemma tail_replays:
  assumes "snapshotted snap N es" and known: "\<forall>e \<in> set es. known e"
  shows "stream_state ag (last_n N es) = stream_state ag es"
proof (cases "N < length es")
  case False
  then show ?thesis by (simp add: last_n_all)
next
  case True
  from last_snapshot [OF assms(1) True] obtain pre snapshot post skipped where
    es: "es = skipped @ pre @ snapshot # post" and s: "snap snapshot"
    and l: "last_n N es = pre @ snapshot # post" .
  have "on_all ag (ag_new ag) ((skipped @ pre) @ snapshot # post) = on_all ag (ag_new ag) (pre @ snapshot # post)"
    using known es s by (intro replay_from_snapshot) auto
  with es l show ?thesis by (simp add: stream_state_def)
qed

lemma snapshotted_append:
  assumes "snapshotted snap N es" and known: "\<forall>e \<in> set es. known e" and gap: "gapless ev es"
    and new: "abs_apply ag ev cm now es command = (news, out)" and len: "length (es @ news) < 2 ^ 63"
  shows "snapshotted snap N (es @ news)"
proof (cases "news = []")
  case True
  with assms(1) show ?thesis by simp
next
  case False
  from new False obtain emit where emit: "cm_emit cm command = Some emit"
      "news = emit now (stream_state ag es)"
    by (rule abs_apply_emits)
  have v: "ag_version ag (stream_state ag es) = word_of_nat (length es)"
    using stream_state_version [OF aggregate_contract_axioms known] gapless_stream_version [OF gap]
    by simp
  have n: "length es = 0 \<or> \<not> N dvd length es" using assms(1) by (auto simp: snapshotted_def)
  have len': "length es + length (emit now (stream_state ag es)) < 2 ^ 63" using len emit(2) by simp
  have "snap ((es @ news) ! i)" if i: "i < length (es @ news)" "0 < i" "N dvd i" for i
  proof (cases "i < length es")
    case True
    with assms(1) i show ?thesis by (simp add: snapshotted_def nth_append)
  next
    case False
    with i emit_snap [OF emit(1) v len' n, of "i - length es"] emit(2) show ?thesis
      by (simp add: nth_append)
  qed
  moreover have "\<not> N dvd length (es @ news)"
    using emit_end [OF emit(1) v len' _ n] emit(2) False by simp
  ultimately show ?thesis by (simp add: snapshotted_def)
qed

lemma tail_sound_repository:
  assumes "rp_aggregate r = ag" "snapshotted snap N es" "\<forall>e \<in> set es. known e"
  shows "tail_sound r es"
proof -
  from interval obtain f where "ag_snapshot_interval ag = Some f" "sint (f (ag_new ag)) = int N" by auto
  with assms tail_replays [OF assms(2,3)] show ?thesis
    by (auto simp: tail_sound_def Let_def split: option.splits)
qed

end

lemma snapshotted_Nil [simp]: "snapshotted snap N []"
  by (simp add: snapshotted_def)

end
