(* ===== verification/OrderContract.thy ===== *)
theory OrderContract
  imports OrderDomain Snapshots
begin

text \<open>
  The order aggregate keeps the contracts that the repository relies on: \<open>aggregate_contract\<close>
  and \<open>snapshot_contract\<close>, for every validator. Then the lemmas on its state machine, its
  derived fields and its keys.
\<close>

definition order_known :: "order_event \<Rightarrow> bool" where
  "order_known e \<longleftrightarrow> \<not> is_OtherEvent e"

definition order_is_snapshot :: "order_event \<Rightarrow> bool" where
  "order_is_snapshot e \<longleftrightarrow> is_Snapshot e"

lemmas order_ops = order_aggregate_def order_events_def order_commands_def

lemma order_aggregate_simps [simp]:
  "ag_new order_aggregate = empty_order" "ag_on order_aggregate = order_On"
  "ag_version order_aggregate = o_version" "ag_after_on order_aggregate = Some order_AfterOn"
  "ev_version order_events = oe_version" "ev_id order_events = oe_id"
  "cm_id (order_commands validate) = oc_id"
  "cm_emit (order_commands validate) c = Some (order_EmitEvents c)"
  "run_after_on order_aggregate = order_AfterOn"
  by (simp_all add: order_ops run_after_on_def fun_eq_iff)

text \<open>\<open>NewRepository\<close> of the generated package.\<close>

definition order_NewRepository ::
    "('s, order_message) store_ops option \<Rightarrow> order_event serializer option \<Rightarrow>
     (order_command \<Rightarrow> goerr option) \<Rightarrow> gzip \<Rightarrow> repo_option list \<Rightarrow>
     string + ('s, order, order_event, order_command, order_message) repository" where
  "order_NewRepository store serializer validate gz opts =
     new_repository (Some order_aggregate) store serializer order_events (order_commands validate) gz opts"

section \<open>On\<close>

lemma order_On_version: "order_known e \<Longrightarrow> o_version (fst (order_On a e)) = oe_version e"
  by (cases e) (auto simp: order_On_def order_known_def order_setModified_def order_setCreated_def
      order_RestoreSnapshot_def Let_def split: option.splits)

lemma order_On_ok: "snd (order_On a e) = None \<longleftrightarrow> order_known e"
  by (cases e) (auto simp: order_On_def order_known_def Let_def split: option.splits)

lemma order_On_snapshot:
  "order_is_snapshot e \<Longrightarrow> order_On a e = order_On a' e"
  by (cases e) (simp_all add: order_On_def order_is_snapshot_def order_RestoreSnapshot_def Let_def)

section \<open>EmitEvents\<close>

lemma ob_append_simps [simp]:
  "ob_id (ob_append now mk b) = ob_id b"
  "ob_version (ob_append now mk b) = ob_version b + 1"
  "ob_events (ob_append now mk b)
     = ob_events b @ [mk (ob_id b) (ob_version b + 1) (now (length (ob_events b)))]"
  by (simp_all add: ob_append_def ob_nextVersion_def Let_def)

lemma NewBuilder_simps [simp]:
  "ob_id (order_NewBuilder i v) = i" "ob_version (order_NewBuilder i v) = v"
  "ob_events (order_NewBuilder i v) = []"
  by (simp_all add: order_NewBuilder_def)

text \<open>
  The events of a command: its own event, with the next version, and a snapshot of the state
  after it when that version is a multiple of the interval.
\<close>

definition order_own_event :: "order_command \<Rightarrow> (nat \<Rightarrow> int64) \<Rightarrow> order \<Rightarrow> order_event" where
  "order_own_event c now a = ob_command_event c (oc_id c) (o_version a + 1) (now 0)"

definition order_snapshot_event :: "order_command \<Rightarrow> (nat \<Rightarrow> int64) \<Rightarrow> order \<Rightarrow> order_event" where
  "order_snapshot_event c now a =
     Snapshot (oc_id c) (o_version a + 2) (now 1) ''snapshot@system''
       (Some (order_AfterOn (fst (order_On a (order_own_event c now a)))))"

lemma EmitEvents_eq:
  "order_EmitEvents c now a =
     order_own_event c now a
       # (if int64_rem (o_version a + 1) 50 = 0 then [order_snapshot_event c now a] else [])"
  by (simp add: order_EmitEvents_def ob_Snapshot_def order_own_event_def order_snapshot_event_def Let_def
      add.assoc)

lemma length_EmitEvents: "length (order_EmitEvents c now a) \<le> 2"
  by (simp add: EmitEvents_eq)

lemma own_event_header [simp]:
  "oe_id (order_own_event c now a) = oc_id c"
  "oe_version (order_own_event c now a) = o_version a + 1"
  "oe_actor (order_own_event c now a) = oc_actor c"
  "oe_at (order_own_event c now a) = now 0"
  "order_known (order_own_event c now a)"
  "\<not> order_is_snapshot (order_own_event c now a)"
  by (cases c; simp add: order_own_event_def ob_command_event_def order_known_def order_is_snapshot_def)+

lemma snapshot_event_header [simp]:
  "oe_id (order_snapshot_event c now a) = oc_id c"
  "oe_version (order_snapshot_event c now a) = o_version a + 2"
  "order_known (order_snapshot_event c now a)"
  "order_is_snapshot (order_snapshot_event c now a)"
  by (simp_all add: order_snapshot_event_def order_known_def order_is_snapshot_def)

lemma int64_rem_50: "n < 2 ^ 63 \<Longrightarrow> int64_rem (word_of_nat n) 50 = 0 \<longleftrightarrow> 50 dvd n"
  using int64_rem_dvd [of n 50 50] by simp

interpretation ord: snapshot_contract order_aggregate order_events "order_commands validate" order_known
    order_is_snapshot 50
  for validate
proof unfold_locales
  show "ag_version order_aggregate (ag_new order_aggregate) = 0"
    by (simp add: empty_order_def)
next
  fix e a
  assume "order_known e"
  then show "\<exists>a'. ag_on order_aggregate a e = (a', None) \<and> ag_version order_aggregate a' = ev_version order_events e"
    using order_On_version order_On_ok by (intro exI [of _ "fst (order_On a e)"]) (simp add: prod_eq_iff)
next
  fix a
  show "ag_version order_aggregate (run_after_on order_aggregate a) = ag_version order_aggregate a"
    by (simp add: order_AfterOn_def)
next
  fix c f e now a
  assume "cm_emit (order_commands validate) c = Some f" "e \<in> set (f now a)"
  then show "order_known e" "ev_id order_events e = cm_id (order_commands validate) c"
    by (auto simp: EmitEvents_eq split: if_splits)
next
  fix c f now a
  assume "cm_emit (order_commands validate) c = Some f"
  then show "map (ev_version order_events) (f now a)
      = map (\<lambda>i. ag_version order_aggregate a + word_of_nat (Suc i)) [0..<length (f now a)]"
    by (auto simp: EmitEvents_eq)
next
  show "\<exists>f. ag_snapshot_interval order_aggregate = Some f \<and> sint (f (ag_new order_aggregate)) = int 50 \<and> 0 < (50::nat)"
    by (simp add: order_ops order_SnapshotEveryNEvents_def)
next
  fix e a a'
  assume "order_is_snapshot e"
  then show "ag_on order_aggregate a e = ag_on order_aggregate a' e" using order_On_snapshot by simp
next
  fix c f n j now a
  assume *: "cm_emit (order_commands validate) c = Some f" "ag_version order_aggregate a = word_of_nat n"
    "n + length (f now a) < 2 ^ 63" "n = 0 \<or> \<not> 50 dvd n"
  have "o_version a + 1 = word_of_nat (Suc n)" using * by (simp add: add.commute)
  moreover have "Suc n < 2 ^ 63" using * by (auto simp: EmitEvents_eq split: if_splits)
  ultimately have rem: "int64_rem (o_version a + 1) 50 = 0 \<longleftrightarrow> 50 dvd Suc n"
    using int64_rem_50 [of "Suc n"] by (simp only:)
  { assume "j < length (f now a)" "0 < n + j" "50 dvd n + j"
    with * rem show "order_is_snapshot (f now a ! j)"
      by (cases j) (auto simp: EmitEvents_eq split: if_splits) }
  { show "\<not> 50 dvd n + length (f now a)"
      using * rem by (auto simp: EmitEvents_eq split: if_splits) presburger+ }
qed

end
