(* ===== verification/MemoryStore.thy ===== *)
theory MemoryStore
  imports Contracts
begin

text \<open>
  stores/memorystore/memorystore.go: histories in a map. \<open>Load\<close> hands out the stored history
  itself, so assigning to its records assigns to the store: that is \<open>ms_writeback\<close>. The mutex
  makes each operation atomic, so an operation is one state transition.
\<close>

record memory_store =
  ms_events :: "string \<Rightarrow> history option"
  ms_snapshot_interval :: int32

definition memorystore_New :: "int32 \<Rightarrow> memory_store" where
  "memorystore_New interval = \<lparr>ms_events = (\<lambda>_. None), ms_snapshot_interval = interval\<rparr>"

definition ms_SnapshotInterval :: "memory_store \<Rightarrow> int32" where
  "ms_SnapshotInterval m = ms_snapshot_interval m"

definition ms_validateContext :: "goerr option \<Rightarrow> goerr option" where
  "ms_validateContext ctxErr =
     (case ctxErr of Some e \<Rightarrow> Some (errorf ''context error: '' e) | None \<Rightarrow> None)"

definition ms_Save ::
    "goerr option \<Rightarrow> memory_store \<Rightarrow> string \<Rightarrow> pb_record list \<Rightarrow> memory_store \<times> goerr option" where
  "ms_Save ctxErr m aggregateId records =
     (case ms_validateContext ctxErr of
        Some e \<Rightarrow> (m, Some (errorf ''save failed: '' e))
      | None \<Rightarrow>
          (let history = (case ms_events m aggregateId of None \<Rightarrow> [] | Some h \<Rightarrow> h)
           in (m\<lparr>ms_events := (ms_events m)(aggregateId \<mapsto> history @ records)\<rparr>, None)))"

definition ms_Load ::
    "goerr option \<Rightarrow> memory_store \<Rightarrow> string \<Rightarrow> memory_store \<times> (goerr + history)" where
  "ms_Load ctxErr m aggregateId =
     (case ms_validateContext ctxErr of
        Some e \<Rightarrow> (m, Inl (errorf ''load failed: '' e))
      | None \<Rightarrow>
          (case ms_events m aggregateId of
             Some history \<Rightarrow> (m, Inr history)
           | None \<Rightarrow> (m, Inr [])))"

definition ms_writeback :: "memory_store \<Rightarrow> string \<Rightarrow> history \<Rightarrow> memory_store" where
  "ms_writeback m aggregateId h =
     (case ms_events m aggregateId of
        None \<Rightarrow> m
      | Some _ \<Rightarrow> m\<lparr>ms_events := (ms_events m)(aggregateId \<mapsto> h)\<rparr>)"

text \<open>The memory store implements neither \<open>SnapshotTailStore\<close> nor \<open>AggregateStore\<close>.\<close>

definition memory_ops :: "(memory_store, 'm) store_ops" where
  "memory_ops =
     \<lparr>st_save = ms_Save, st_load = ms_Load, st_writeback = ms_writeback,
      st_load_tail = None, st_save_aggregate = None\<rparr>"

definition ms_log :: "memory_store \<Rightarrow> string \<Rightarrow> (int64 \<times> bytes) list" where
  "ms_log m k = (case ms_events m k of None \<Rightarrow> [] | Some h \<Rightarrow> map rec_vd h)"

lemma memory_ops_simps [simp]:
  "st_save memory_ops = ms_Save" "st_load memory_ops = ms_Load"
  "st_writeback memory_ops = ms_writeback"
  "st_load_tail memory_ops = None" "st_save_aggregate memory_ops = None"
  by (simp_all add: memory_ops_def)

lemma ms_validateContext_None [simp]: "ms_validateContext ce = None \<longleftrightarrow> ce = None"
  by (simp add: ms_validateContext_def split: option.splits)

lemma ms_log_New [simp]: "ms_log (memorystore_New n) k = []"
  by (simp add: ms_log_def memorystore_New_def)

lemma ms_Load_cases:
  "ms_Load ce m k =
     (m, case ce of None \<Rightarrow> Inr (case ms_events m k of None \<Rightarrow> [] | Some h \<Rightarrow> h)
         | Some e \<Rightarrow> Inl (errorf ''load failed: '' (errorf ''context error: '' e)))"
  by (simp add: ms_Load_def ms_validateContext_def split: option.splits)

lemma ms_Save_cases:
  "ms_Save ce m k rs =
     (case ce of
        None \<Rightarrow> (m\<lparr>ms_events := (ms_events m)(k \<mapsto> (case ms_events m k of None \<Rightarrow> [] | Some h \<Rightarrow> h) @ rs)\<rparr>, None)
      | Some e \<Rightarrow> (m, Some (errorf ''save failed: '' (errorf ''context error: '' e))))"
  by (simp add: ms_Save_def ms_validateContext_def Let_def split: option.splits)

interpretation ms: event_log_store memory_ops "\<lambda>_. True" ms_log
proof unfold_locales
  fix s s' :: memory_store and ce k r
  assume "st_load memory_ops ce s k = (s', r)"
  then show "True \<and> ms_log s' = ms_log s \<and> (\<forall>h. r = Inr h \<longrightarrow> map rec_vd h = ms_log s k)"
    by (auto simp: ms_Load_cases ms_log_def split: option.splits)
next
  fix s s' :: memory_store and ce k rs
  assume "st_save memory_ops ce s k rs = (s', None)"
  then show "True \<and> ms_log s' = (ms_log s)(k := ms_log s k @ map rec_vd rs)"
    by (auto simp: ms_Save_cases ms_log_def fun_eq_iff split: option.splits)
next
  fix s s' :: memory_store and ce k rs e
  assume "st_save memory_ops ce s k rs = (s', Some e)"
  then show "True \<and> (\<exists>n. ms_log s' = (ms_log s)(k := ms_log s k @ take n (map rec_vd rs))
      \<and> (length rs \<le> 100 \<longrightarrow> n = 0))"
    by (auto simp: ms_Save_cases intro: exI [of _ 0] split: option.splits)
next
  fix s s' :: memory_store and ce k h h'
  show "True \<and> (ms_log (st_writeback memory_ops s' k h') = ms_log s'
      \<or> ms_log (st_writeback memory_ops s' k h') = (ms_log s')(k := map rec_vd h'))"
    by (auto simp: ms_writeback_def ms_log_def fun_eq_iff split: option.splits)
qed auto

text \<open>The contract, for the theorems that take it as a premise.\<close>

lemmas memory_event_log = ms.event_log_store_axioms

end
