(* ===== verification/Runs.thy ===== *)
theory Runs
  imports Snapshots MemoryStore
begin

text \<open>
  Sequences of commands. \<open>apply_all\<close> runs a list of commands through \<open>Apply\<close> over a store,
  \<open>abs_run\<close> runs the same list on the abstract event log; over the memory store, with live
  contexts, they agree command by command.
\<close>

fun apply_all ::
    "('s, 'a, 'e, 'c, 'm) repository \<Rightarrow> (ctx \<times> clock \<times> 'c option) list \<Rightarrow> 's \<Rightarrow>
     's \<times> (goerr + int64) list" where
  "apply_all r [] s = (s, [])"
| "apply_all r ((c, clk, cmd) # reqs) s =
     (case repo_apply r c clk s cmd of
        (s1, ws, out) \<Rightarrow> (case apply_all r reqs s1 of (s2, outs) \<Rightarrow> (s2, out # outs)))"

text \<open>One command on the abstract streams: the stream it writes to, the new events, the result.\<close>

definition abs_command ::
    "('s, 'a, 'e, 'c, 'm) repository \<Rightarrow> clock \<Rightarrow> (string \<Rightarrow> 'e list) \<Rightarrow> 'c option \<Rightarrow>
     string \<times> 'e list \<times> (goerr + int64)" where
  "abs_command r clk streams cmd =
     (case cmd of
        None \<Rightarrow> ('''', [], Inl (Sentinel ErrNilCommand))
      | Some command \<Rightarrow>
          (let i = cm_id (rp_commands r) command
           in if i = '''' then (i, [], Inl (Sentinel ErrEmptyAggregateId))
              else (i, abs_apply (rp_aggregate r) (rp_events r) (rp_commands r) (clk_micros clk)
                         (streams i) command)))"

fun abs_run ::
    "('s, 'a, 'e, 'c, 'm) repository \<Rightarrow> (ctx \<times> clock \<times> 'c option) list \<Rightarrow> (string \<Rightarrow> 'e list) \<Rightarrow>
     (string \<Rightarrow> 'e list) \<times> (goerr + int64) list" where
  "abs_run r [] streams = (streams, [])"
| "abs_run r ((c, clk, cmd) # reqs) streams =
     (case abs_command r clk streams cmd of
        (i, news, out) \<Rightarrow>
          (case abs_run r reqs (streams(i := streams i @ news)) of
             (streams', outs) \<Rightarrow> (streams', out # outs)))"

definition live :: "ctx \<Rightarrow> bool" where
  "live c \<longleftrightarrow> (\<forall>p. ctx_err c p = None)"

lemma live_background [simp]: "live background"
  by (simp add: live_def background_def)

definition marshals :: "('s, 'a, 'e, 'c, 'm) repository \<Rightarrow> 'e list \<Rightarrow> bool" where
  "marshals r es \<longleftrightarrow> (\<forall>e \<in> set es. \<exists>rec. sz_marshal_event (rp_serializer r) e = Inr rec)"

lemma marshals_append [simp]: "marshals r (es @ fs) \<longleftrightarrow> marshals r es \<and> marshals r fs"
  by (auto simp: marshals_def)

lemma marshal_records_total:
  assumes "rp_ok r" "marshals r events"
  shows "\<exists>recs. marshal_records r events = Inr recs"
  using assms(2)
proof (induction events)
  case (Cons event events)
  then obtain rec where "sz_marshal_event (rp_serializer r) event = Inr rec"
    by (auto simp: marshals_def)
  moreover have "gzip_laws (rp_gzip r)" using assms(1) by (simp add: rp_ok_def)
  ultimately have "\<exists>rec. marshal_record r event = Inr rec"
    using MaybeCompress_total [of "rp_gzip r" "rec_data rec" "rp_compress_threshold r"]
    by (auto simp: marshal_record_def)
  moreover have "marshals r events" using Cons.prems by (simp add: marshals_def)
  ultimately show ?case using Cons.IH by auto
qed simp

lemma abs_run_extends:
  "abs_run r reqs streams = (streams', outs) \<Longrightarrow> \<exists>es. streams' i = streams i @ es"
proof (induction r reqs streams arbitrary: streams' outs rule: abs_run.induct)
  case (2 r c clk cmd reqs streams)
  obtain j news out where j: "abs_command r clk streams cmd = (j, news, out)" by (metis prod_cases3)
  with 2 show ?case by (fastforce split: prod.splits if_splits)
qed simp

section \<open>The memory store\<close>

lemma memory_load_history:
  assumes "rp_store r = memory_ops" "live c"
  shows "\<exists>h. load_history r c s i = (s, Inr h)"
  using assms by (simp add: load_history_def live_def ms_Load_cases)

lemma memory_tail_sound: "rp_store r = memory_ops \<Longrightarrow> tail_sound r es"
  by (simp add: tail_sound_def)

lemma memory_refuses_none:
  assumes "rp_store r = memory_ops" "rp_ok r" "marshals r events" "live c"
  shows "store_refusal r c clk i s events = None"
  using marshal_records_total [OF assms(2,3)] assms(1,4)
  by (auto simp: store_refusal_def ms_Save_cases live_def)

lemma memory_apply_exact:
  assumes mem: "rp_store r = memory_ops" and ok: "rp_ok r"
    and agg: "aggregate_contract (rp_aggregate r) (rp_events r) (rp_commands r) known"
    and streams: "holds_streams r (ms_log s) streams" "streams_ok r known streams" and live: "live c"
    and expected: "abs_command r clk streams cmd = (i, news, out)"
    and len: "length (streams i @ news) < 2 ^ 63" and m: "marshals r news"
    and run: "repo_apply r c clk s cmd = (s', ws, res)"
  shows "res = out \<and> holds_streams r (ms_log s') (streams(i := streams i @ news))
    \<and> streams_ok r known (streams(i := streams i @ news))"
proof (cases "\<exists>command. cmd = Some command \<and> cm_id (rp_commands r) command \<noteq> ''''")
  case False
  with expected run streams show ?thesis
    by (auto simp: abs_command_def repo_apply_def Let_def split: option.splits if_splits)
next
  case True
  then obtain command where command: "cmd = Some command" "cm_id (rp_commands r) command \<noteq> ''''"
    by blast
  with expected have i: "i = cm_id (rp_commands r) command" and
    e: "abs_apply (rp_aggregate r) (rp_events r) (rp_commands r) (clk_micros clk) (streams i) command = (news, out)"
    by (auto simp: abs_command_def Let_def)
  have store: "event_log_store (rp_store r) (\<lambda>_. True) ms_log"
    unfolding mem by (rule memory_event_log)
  obtain h where h: "load_history r c s i = (s, Inr h)"
    using memory_load_history [OF mem live] by blast
  have k: "\<forall>e \<in> set (streams i). known e" and g: "gapless (rp_events r) (streams i)"
    using streams(2) by (auto simp: streams_ok_def)
  from load_aggregate_holds [OF store agg TrueI streams(1) k memory_tail_sound [OF mem] h] obtain s2 where
    s2: "load_aggregate_version r c s i = (s2, if streams i = []
         then Inl (errorf (''unable to load: '' @ i @ '': '') (Sentinel ErrAggregateNotFound))
         else Inr (stream_state (rp_aggregate r) (streams i), stream_version (rp_events r) (streams i)))"
      "holds_streams r (ms_log s2) streams"
    by blast
  have rc: "run_command r c clk s2 command (stream_state (rp_aggregate r) (streams i))
          (stream_version (rp_events r) (streams i)) = (s', ws, res)"
    using run command i live s2(1)
    by (auto simp: repo_apply_def live_def stream_state_def stream_version_def split: if_splits)
  have gap: "gapless (rp_events r) (streams i @ news)"
    using abs_apply_gapless [OF agg k g e len] by blast
  from run_command_outcome [OF store ok agg TrueI s2(2) i refl refl e gap rc]
    memory_refuses_none [OF mem ok m live, of clk i s2]
  have "res = out \<and> holds_streams r (ms_log s') (streams(i := streams i @ news))"
    by (simp add: command_outcome_def)
  with streams_ok_extend [OF agg streams(2) i e len, of "length news"] show ?thesis by simp
qed

lemma memory_run_exact:
  assumes mem: "rp_store r = memory_ops" and ok: "rp_ok r"
    and agg: "aggregate_contract (rp_aggregate r) (rp_events r) (rp_commands r) known"
    and "holds_streams r (ms_log s) streams" "streams_ok r known streams"
    and "\<forall>(c, clk, cmd) \<in> set reqs. live c"
    and "abs_run r reqs streams = (streams', outs')"
    and "\<forall>i. length (streams' i) < 2 ^ 63 \<and> marshals r (streams' i)"
    and "apply_all r reqs s = (s', outs)"
  shows "outs = outs' \<and> holds_streams r (ms_log s') streams' \<and> streams_ok r known streams'"
  using assms(4-)
proof (induction reqs arbitrary: s streams outs outs')
  case Nil
  then show ?case by simp
next
  case (Cons req reqs)
  obtain c clk cmd where req: "req = (c, clk, cmd)" by (cases req)
  obtain i news out where ac: "abs_command r clk streams cmd = (i, news, out)" by (metis prod_cases3)
  obtain s1 ws res where ap: "repo_apply r c clk s cmd = (s1, ws, res)" by (metis prod_cases3)
  obtain outs1 where rest: "abs_run r reqs (streams(i := streams i @ news)) = (streams', outs1)"
      "outs' = out # outs1"
    using Cons.prems(4) req ac by (auto split: prod.splits)
  obtain outs2 where rest2: "apply_all r reqs s1 = (s', outs2)" "outs = res # outs2"
    using Cons.prems(6) req ap by (auto split: prod.splits)
  from abs_run_extends [OF rest(1), of i] obtain es where "streams' i = (streams i @ news) @ es" by auto
  with Cons.prems(5) have b: "length (streams i @ news) < 2 ^ 63" "marshals r news"
    by (metis (no_types, lifting) length_append le_add1 order_le_less_trans, metis marshals_append)
  have "live c" using Cons.prems(3) req by auto
  from memory_apply_exact [OF mem ok agg Cons.prems(1,2) this ac b ap]
  have step: "res = out" "holds_streams r (ms_log s1) (streams(i := streams i @ news))"
    "streams_ok r known (streams(i := streams i @ news))" by auto
  have "\<forall>(c, clk, cmd) \<in> set reqs. live c"
    using Cons.prems(3) by (meson list.set_intros(2))
  from Cons.IH [OF step(2,3) this rest(1) Cons.prems(5) rest2(1)] step(1) rest(2) rest2(2)
  show ?case by simp
qed

section \<open>The streams that commands write\<close>

inductive command_stream :: "('s, 'a, 'e, 'c, 'm) repository \<Rightarrow> string \<Rightarrow> 'e list \<Rightarrow> bool"
  for r :: "('s, 'a, 'e, 'c, 'm) repository" and i :: string where
  empty_stream: "command_stream r i []"
| extend_stream: "command_stream r i es \<Longrightarrow> cm_id (rp_commands r) command = i \<Longrightarrow>
    abs_apply (rp_aggregate r) (rp_events r) (rp_commands r) now es command = (news, out) \<Longrightarrow>
    length (es @ news) < 2 ^ 63 \<Longrightarrow> command_stream r i (es @ news)"

lemma abs_run_command_streams:
  assumes "\<forall>i. command_stream r i (streams i)" "abs_run r reqs streams = (streams', outs)"
    and "\<forall>i. length (streams' i) < 2 ^ 63"
  shows "\<forall>i. command_stream r i (streams' i)"
  using assms
proof (induction r reqs streams arbitrary: streams' outs rule: abs_run.induct)
  case (2 r c clk cmd reqs streams)
  obtain j news out where j: "abs_command r clk streams cmd = (j, news, out)" by (metis prod_cases3)
  obtain outs1 where rest: "abs_run r reqs (streams(j := streams j @ news)) = (streams', outs1)"
    using "2.prems"(2) j by (auto split: prod.splits)
  from abs_run_extends [OF rest, of j] obtain es where "streams' j = (streams j @ news) @ es" by auto
  with "2.prems"(3) have "length (streams j @ news) < 2 ^ 63"
    by (metis length_append le_add1 order_le_less_trans)
  then have "command_stream r j (streams j @ news)"
    using "2.prems"(1) j
    by (auto simp: abs_command_def Let_def intro: extend_stream split: option.splits if_splits)
  with "2.prems"(1) have "\<forall>i. command_stream r i ((streams(j := streams j @ news)) i)" by simp
  from "2.IH" [OF j [symmetric] refl this rest "2.prems"(3)] show ?case .
qed simp

lemma command_stream_ok:
  assumes agg: "aggregate_contract (rp_aggregate r) (rp_events r) (rp_commands r) known"
    and "command_stream r i es"
  shows "gapless (rp_events r) es \<and> (\<forall>e \<in> set es. known e \<and> ev_id (rp_events r) e = i)"
  using assms(2)
proof induction
  case (extend_stream es command now news out)
  with abs_apply_gapless [OF agg _ _ extend_stream(3,4)] show ?case by auto
qed simp

lemma command_stream_snapshotted:
  assumes c: "snapshot_contract (rp_aggregate r) (rp_events r) (rp_commands r) known snap N"
    and "command_stream r i es"
  shows "snapshotted snap N es"
  using assms(2)
proof induction
  case (extend_stream es command now news out)
  have "gapless (rp_events r) es \<and> (\<forall>e \<in> set es. known e)"
    using command_stream_ok [OF snapshot_contract.axioms(1) [OF c] extend_stream(1)] by blast
  with extend_stream show ?case using snapshot_contract.snapshotted_append [OF c] by blast
qed simp

lemma command_stream_tail_sound:
  assumes c: "snapshot_contract (rp_aggregate r) (rp_events r) (rp_commands r) known snap N"
    and "command_stream r i es"
  shows "tail_sound r es"
  using snapshot_contract.tail_sound_repository [OF c refl command_stream_snapshotted [OF assms]]
    command_stream_ok [OF snapshot_contract.axioms(1) [OF c] assms(2)] by blast

end
