(* ===== verification/OrderMachine.thy ===== *)
theory OrderMachine
  imports OrderContract Runs
begin

text \<open>
  The order as a state machine. \<open>order_step\<close> is the state after a command's events, snapshot
  included; the streams of the repository have exactly these states, so what holds of the states
  reachable by steps holds of every loaded order. Snapshots are shown to be transparent.
\<close>

section \<open>Derived fields\<close>

text \<open>Two orders that differ only in what \<open>AfterOn\<close> computes and in the version.\<close>

definition order_base :: "order \<Rightarrow> order" where
  "order_base a = a\<lparr>o_version := 0, o_total_cents := 0, o_item_count := 0\<rparr>"

lemma AfterOn_simps [simp]:
  "o_id (order_AfterOn a) = o_id a" "o_version (order_AfterOn a) = o_version a"
  "o_state (order_AfterOn a) = o_state a" "o_items (order_AfterOn a) = o_items a"
  "o_tags (order_AfterOn a) = o_tags a" "o_billing (order_AfterOn a) = o_billing a"
  "order_AfterOn (order_AfterOn a) = order_AfterOn a"
  "order_base (order_AfterOn a) = order_base a"
  by (simp_all add: order_AfterOn_def order_base_def)

lemma AfterOn_base:
  "order_base a = order_base b \<Longrightarrow> order_AfterOn a = (order_AfterOn b)\<lparr>o_version := o_version a\<rparr>"
  by (cases a; cases b) (simp add: order_base_def order_AfterOn_def)

lemma On_base:
  "order_base a = order_base b \<Longrightarrow> \<not> order_is_snapshot e \<Longrightarrow>
     order_base (fst (order_On a e)) = order_base (fst (order_On b e))"
  by (cases a; cases b; cases e)
    (auto simp: order_base_def order_On_def order_is_snapshot_def order_setModified_def
      order_setCreated_def Let_def split: option.splits)

lemma On_id: "o_id (fst (order_On a e)) = oe_id e"
  by (cases e) (auto simp: order_On_def order_setModified_def order_setCreated_def
      order_RestoreSnapshot_def Let_def split: option.splits)

text \<open>Applying the snapshot that \<open>EmitEvents\<close> makes changes nothing but the derived fields.\<close>

lemma On_Snapshot:
  "o_id s = i \<Longrightarrow> fst (order_On b (Snapshot i v at actor (Some s))) = s\<lparr>o_version := v\<rparr>"
  by (cases b; cases s) (simp add: order_On_def order_RestoreSnapshot_def Let_def)

lemma On_snapshot_event:
  "fst (order_On b (order_snapshot_event c now a))
     = (order_AfterOn (fst (order_On a (order_own_event c now a))))\<lparr>o_version := o_version a + 2\<rparr>"
  unfolding order_snapshot_event_def by (rule On_Snapshot) (simp add: On_id)

lemma set_same_version: "o_version a = v \<Longrightarrow> a\<lparr>o_version := v\<rparr> = a"
  by (cases a) simp

section \<open>Steps\<close>

definition order_step :: "order_command \<Rightarrow> (nat \<Rightarrow> int64) \<Rightarrow> order \<Rightarrow> order" where
  "order_step c now a =
     (order_AfterOn (fst (order_On a (order_own_event c now a))))
       \<lparr>o_version := o_version a + word_of_nat (length (order_EmitEvents c now a))\<rparr>"

lemma order_on_all_known:
  "\<forall>e \<in> set es. order_known e \<Longrightarrow> on_all order_aggregate a es = (fst (on_all order_aggregate a es), None)"
  using ord.on_all_known [of es a] by auto

lemma order_state_append:
  assumes "\<forall>e \<in> set es. order_known e"
  shows "stream_state order_aggregate (es @ order_EmitEvents c now (stream_state order_aggregate es))
           = order_step c now (stream_state order_aggregate es)"
proof -
  let ?a = "stream_state order_aggregate es"
  let ?own = "order_own_event c now ?a"
  define b where "b = fst (on_all order_aggregate empty_order es)"
  have b: "on_all order_aggregate empty_order es = (b, None)"
    using order_on_all_known [OF assms] by (simp add: b_def)
  have base: "order_base b = order_base ?a"
    by (simp add: stream_state_def b_def)
  obtain b1 where own: "order_On b ?own = (b1, None)"
    using order_On_ok [of b ?own] by (cases "order_On b ?own") simp
  have eq: "order_AfterOn b1 = order_AfterOn (fst (order_On ?a ?own))"
    using AfterOn_base [OF On_base [OF base, of ?own, simplified]] own
      order_On_version [of ?own ?a] order_On_version [of ?own b]
    by (simp add: set_same_version)
  have v: "(order_AfterOn (fst (order_On ?a ?own)))\<lparr>o_version := o_version ?a + 1\<rparr>
      = order_AfterOn (fst (order_On ?a ?own))"
    by (rule set_same_version) (simp add: order_On_version)
  show ?thesis
  proof (cases "int64_rem (o_version ?a + 1) 50 = 0")
    case False
    with b own eq v show ?thesis
      by (subst stream_state_def) (simp add: EmitEvents_eq on_all_append order_step_def)
  next
    case True
    let ?snap = "order_snapshot_event c now ?a"
    obtain b2 where snap: "order_On b1 ?snap = (b2, None)"
      using order_On_ok [of b1 ?snap] by (cases "order_On b1 ?snap") simp
    have "b2 = (order_AfterOn (fst (order_On ?a ?own)))\<lparr>o_version := o_version ?a + 2\<rparr>"
      using On_snapshot_event [of b1 c now ?a] snap by simp
    with True b own snap show ?thesis
      by (subst stream_state_def)
        (simp add: EmitEvents_eq on_all_append order_step_def order_AfterOn_def)
  qed
qed

section \<open>Accepted commands\<close>

text \<open>A command passes the checks of \<open>Apply\<close> and its own \<open>Evaluate\<close>, and so emits events.\<close>

definition order_accepts :: "(order_command \<Rightarrow> goerr option) \<Rightarrow> order_command \<Rightarrow> order \<Rightarrow> bool" where
  "order_accepts validate c a \<longleftrightarrow>
     check_command (order_commands validate) (o_version a) c a = None
     \<and> (case order_Evaluate c of None \<Rightarrow> True | Some f \<Rightarrow> f a = None)"

lemma order_accepts_iff:
  "order_accepts validate c a \<longleftrightarrow>
     validate c = None
     \<and> (case c of Create _ _ _ _ \<Rightarrow> o_version a = 0 | _ \<Rightarrow> o_version a \<noteq> 0)
     \<and> (case order_allowed_states c of None \<Rightarrow> True | Some ss \<Rightarrow> o_state a \<in> set ss)
     \<and> (case c of
          AddItem _ _ item \<Rightarrow> fmlookup (o_items a) (order_item_id item) = None
        | RemoveItem _ _ item_id \<Rightarrow> fmlookup (o_items a) item_id \<noteq> None
        | _ \<Rightarrow> True)"
  by (cases c) (auto simp: order_accepts_def check_command_def order_commands_def order_ProtoValidate_def
      order_ValidateVersion_def order_GuardState_def split: option.splits)

lemma order_abs_apply:
  "abs_apply order_aggregate order_events (order_commands validate) now es c = (news, out) \<Longrightarrow>
     news = (if order_accepts validate c (stream_state order_aggregate es)
             then order_EmitEvents c now (stream_state order_aggregate es) else [])"
  by (cases "order_Evaluate c")
    (auto simp: abs_apply_def order_accepts_def order_commands_def Let_def split: option.splits if_splits)

definition is_order_repository ::
    "(order_command \<Rightarrow> goerr option) \<Rightarrow>
     ('s, order, order_event, order_command, order_message) repository \<Rightarrow> bool" where
  "is_order_repository validate r \<longleftrightarrow>
     rp_aggregate r = order_aggregate \<and> rp_events r = order_events
     \<and> rp_commands r = order_commands validate"

lemma order_command_stream_ok:
  assumes "is_order_repository validate r" "command_stream r i es"
  shows "gapless order_events es" "\<forall>e \<in> set es. order_known e" "length es < 2 ^ 63"
proof -
  have "aggregate_contract (rp_aggregate r) (rp_events r) (rp_commands r) order_known"
    using assms(1) ord.aggregate_contract_axioms by (simp add: is_order_repository_def)
  from command_stream_ok [OF this assms(2)] assms(1)
  show "gapless order_events es" "\<forall>e \<in> set es. order_known e"
    by (auto simp: is_order_repository_def)
  then show "length es < 2 ^ 63" by (simp add: gapless_def)
qed

text \<open>Induction over the states of a stream: each accepted command makes one step.\<close>

lemma order_stream_induct [consumes 2, case_names empty step]:
  assumes "command_stream r i es" "is_order_repository validate r"
    and "P [] empty_order"
    and "\<And>es c now. command_stream r i es \<Longrightarrow> P es (stream_state order_aggregate es) \<Longrightarrow>
      order_accepts validate c (stream_state order_aggregate es) \<Longrightarrow> oc_id c = i \<Longrightarrow>
      length (es @ order_EmitEvents c now (stream_state order_aggregate es)) < 2 ^ 63 \<Longrightarrow>
      P (es @ order_EmitEvents c now (stream_state order_aggregate es))
        (order_step c now (stream_state order_aggregate es))"
  shows "P es (stream_state order_aggregate es)"
  using assms(1)
proof induction
  case empty_stream
  show ?case using assms(3) by (simp add: stream_state_def)
next
  case (extend_stream es command now news out)
  have known: "\<forall>e \<in> set es. order_known e"
    using order_command_stream_ok [OF assms(2) extend_stream(1)] by blast
  have news: "news = (if order_accepts validate command (stream_state order_aggregate es)
      then order_EmitEvents command now (stream_state order_aggregate es) else [])"
    using order_abs_apply extend_stream(3) assms(2) by (simp add: is_order_repository_def)
  show ?case
  proof (cases "order_accepts validate command (stream_state order_aggregate es)")
    case True
    with news extend_stream assms(2) show ?thesis
      using assms(4) [OF extend_stream(1,5) True] order_state_append [OF known]
      by (simp add: is_order_repository_def)
  next
    case False
    with news extend_stream show ?thesis by simp
  qed
qed

section \<open>Invariant\<close>

definition order_inv :: "nat \<Rightarrow> order \<Rightarrow> bool" where
  "order_inv n a \<longleftrightarrow>
     o_version a = word_of_nat n
     \<and> (n = 0 \<longrightarrow> a = empty_order)
     \<and> (0 < n \<longrightarrow> o_state a \<in> {STATE_DRAFT, STATE_PLACED, STATE_CANCELLED})
     \<and> o_item_count a = word_of_nat (fcard (fmdom (o_items a)))
     \<and> o_total_cents a = items_total (o_items a)
     \<and> (\<forall>k item. fmlookup (o_items a) k = Some item \<longrightarrow> li_item_id item = k)
     \<and> (\<forall>k t. fmlookup (o_tags a) k = Some t \<longrightarrow> tag_key t = k)"

lemma items_total_empty [simp]: "items_total fmempty = 0"
  by (simp add: items_total_def)

lemma order_inv_empty: "order_inv 0 empty_order"
  by (simp add: order_inv_def empty_order_def fcard.rep_eq)

lemma order_step_fields:
  "o_state (order_step c now a) =
     (case c of Create _ _ _ _ \<Rightarrow> STATE_DRAFT | Place _ _ _ \<Rightarrow> STATE_PLACED
      | Cancel _ _ _ \<Rightarrow> STATE_CANCELLED | _ \<Rightarrow> o_state a)"
  "o_items (order_step c now a) =
     (case c of AddItem _ _ (Some item) \<Rightarrow> fmupd (li_item_id item) item (o_items a)
      | RemoveItem _ _ k \<Rightarrow> fmdrop k (o_items a) | _ \<Rightarrow> o_items a)"
  "o_tags (order_step c now a) =
     (case c of AddTag _ _ (Some t) \<Rightarrow> fmupd (tag_key t) t (o_tags a)
      | RemoveTag _ _ k \<Rightarrow> fmdrop k (o_tags a) | _ \<Rightarrow> o_tags a)"
  "o_billing (order_step c now a) =
     (case c of SetBilling _ _ b \<Rightarrow> b | ClearBilling _ _ \<Rightarrow> None | _ \<Rightarrow> o_billing a)"
  "o_customer_id (order_step c now a) = (case c of Create _ _ i _ \<Rightarrow> i | _ \<Rightarrow> o_customer_id a)"
  "o_shipping_address (order_step c now a) =
     (case c of SetShipping _ _ s \<Rightarrow> s | _ \<Rightarrow> o_shipping_address a)"
  "o_total_cents (order_step c now a) = items_total (o_items (order_step c now a))"
  "o_item_count (order_step c now a) = word_of_nat (fcard (fmdom (o_items (order_step c now a))))"
  by (cases c; auto simp: order_step_def order_own_event_def ob_command_event_def order_On_def
      order_AfterOn_def order_setModified_def order_setCreated_def Let_def split: option.splits)+

lemma order_step_inv:
  assumes inv: "order_inv n a" and acc: "order_accepts validate c a" and n: "n < 2 ^ 63"
  shows "order_inv (n + length (order_EmitEvents c now a)) (order_step c now a)"
proof -
  have len: "0 < length (order_EmitEvents c now a)" by (simp add: EmitEvents_eq)
  have v: "o_version (order_step c now a) = word_of_nat (n + length (order_EmitEvents c now a))"
    using inv by (simp add: order_step_def order_inv_def)
  have "o_version a = 0 \<longleftrightarrow> n = 0"
  proof
    assume "o_version a = 0"
    then have "sint (word_of_nat n :: int64) = 0" using inv by (simp add: order_inv_def)
    with sint64_of_nat [OF n] show "n = 0" by simp
  qed (use inv in \<open>simp add: order_inv_def empty_order_def\<close>)
  with acc inv have "o_state (order_step c now a) \<in> {STATE_DRAFT, STATE_PLACED, STATE_CANCELLED}"
    by (cases c) (auto simp: order_step_fields(1) order_accepts_iff order_inv_def)
  moreover have "\<forall>k item. fmlookup (o_items (order_step c now a)) k = Some item \<longrightarrow> li_item_id item = k"
    using inv by (cases c) (auto simp: order_step_fields(2) order_inv_def split: option.splits if_splits)
  moreover have "\<forall>k t. fmlookup (o_tags (order_step c now a)) k = Some t \<longrightarrow> tag_key t = k"
    using inv by (cases c) (auto simp: order_step_fields(3) order_inv_def split: option.splits if_splits)
  ultimately show ?thesis
    using v len by (simp add: order_inv_def order_step_fields(7,8))
qed

lemma order_stream_inv:
  assumes "is_order_repository validate r" "command_stream r i es"
  shows "order_inv (length es) (stream_state order_aggregate es)"
  using assms(2,1)
proof (induction rule: order_stream_induct)
  case empty
  show ?case by (simp add: order_inv_empty)
next
  case (step es c now)
  have "length es < 2 ^ 63" using step.hyps by simp
  from order_step_inv [OF step.IH _ this] step.hyps show ?case by simp
qed

section \<open>What commands do to stored orders\<close>

text \<open>
  What the order's commands do to a stored order: the sums over the items, the transparency of
  snapshots, the states in which commands are accepted, and the keys of the stored messages.
\<close>

section \<open>Sums over items\<close>

lemma items_total_upd:
  assumes "fmlookup items k = None"
  shows "items_total (fmupd k item items) = items_total items + item_cents item"
proof -
  have k: "k \<notin> fset (fmdom items)" using assms by (simp add: fmdom_notI)
  have "(\<Sum>j \<in> fset (fmdom items). case fmlookup (fmupd k item items) j of None \<Rightarrow> 0 | Some i \<Rightarrow> item_cents i)
      = items_total items"
    unfolding items_total_def by (rule sum.cong) (use k in auto)
  with k show ?thesis by (simp add: items_total_def)
qed

lemma items_total_drop:
  assumes "fmlookup items k = Some item"
  shows "items_total (fmdrop k items) = items_total items - item_cents item"
proof -
  have "items = fmupd k item (fmdrop k items)"
    using assms by (intro fmap_ext) auto
  then have "items_total items = items_total (fmdrop k items) + item_cents item"
    using items_total_upd [of "fmdrop k items" k item] by simp
  then show ?thesis by simp
qed

lemma fcard_upd: "fmlookup items k = None \<Longrightarrow> fcard (fmdom (fmupd k item items)) = Suc (fcard (fmdom items))"
  by (simp add: fcard_finsert_disjoint fmdom_notI)

lemma fcard_drop:
  assumes "fmlookup items k = Some item"
  shows "fcard (fmdom items) = Suc (fcard (fmdom (fmdrop k items)))"
proof -
  have "items = fmupd k item (fmdrop k items)"
    using assms by (intro fmap_ext) auto
  then show ?thesis using fcard_upd [of "fmdrop k items" k item] by simp
qed

section \<open>Snapshots are transparent\<close>

definition order_strip :: "order_event list \<Rightarrow> order_event list" where
  "order_strip es = filter (\<lambda>e. \<not> order_is_snapshot e) es"

lemma order_strip_emit [simp]:
  "order_strip (es @ order_EmitEvents c now a) = order_strip es @ [order_own_event c now a]"
  by (simp add: order_strip_def EmitEvents_eq)

lemma order_base_state:
  "order_base (stream_state order_aggregate es) = order_base (fst (on_all order_aggregate empty_order es))"
  by (simp add: stream_state_def)

lemma order_base_step:
  "order_base (order_step c now a) = order_base (fst (order_On a (order_own_event c now a)))"
  by (simp add: order_step_def order_base_def order_AfterOn_def)

lemma order_strip_base:
  assumes "command_stream r i es" "is_order_repository validate r"
  shows "order_base (stream_state order_aggregate (order_strip es))
           = order_base (stream_state order_aggregate es)"
  using assms
proof (induction rule: order_stream_induct)
  case empty
  show ?case by (simp add: order_strip_def stream_state_def)
next
  case (step es c now)
  let ?a = "stream_state order_aggregate es" and ?b = "fst (on_all order_aggregate empty_order (order_strip es))"
  let ?own = "order_own_event c now ?a"
  have "\<forall>e \<in> set (order_strip es). order_known e"
    using order_command_stream_ok(2) [OF assms(2) step.hyps(1)] by (simp add: order_strip_def)
  then obtain b where b: "on_all order_aggregate empty_order (order_strip es) = (b, None)"
    using order_on_all_known by blast
  then have "fst (on_all order_aggregate empty_order (order_strip es @ [?own])) = fst (order_On ?b ?own)"
    by (simp add: on_all_append split: prod.splits option.splits)
  moreover have "order_base ?b = order_base ?a" using step.IH by (simp add: order_base_state)
  ultimately show ?case
    using On_base [of ?b ?a ?own] by (simp add: order_base_state order_base_step)
qed

lemma order_state_AfterOn:
  "es \<noteq> [] \<Longrightarrow> order_AfterOn (stream_state order_aggregate es) = stream_state order_aggregate es"
  by (simp add: stream_state_def)

lemma order_strip_state:
  assumes "command_stream r i es" "is_order_repository validate r"
  shows "(stream_state order_aggregate (order_strip es))\<lparr>o_version := v\<rparr>
           = (stream_state order_aggregate es)\<lparr>o_version := v\<rparr>"
proof -
  have base: "order_AfterOn (stream_state order_aggregate (order_strip es))
      = (order_AfterOn (stream_state order_aggregate es))
          \<lparr>o_version := o_version (stream_state order_aggregate (order_strip es))\<rparr>"
    using AfterOn_base [OF order_strip_base [OF assms]] by simp
  have AfterOn: "order_AfterOn (stream_state order_aggregate fs) = stream_state order_aggregate fs" for fs
    by (cases "fs = []")
      (simp_all add: order_state_AfterOn, simp add: stream_state_def order_AfterOn_def empty_order_def fcard.rep_eq)
  show ?thesis
    using base unfolding AfterOn
    by (cases "stream_state order_aggregate es"; cases "stream_state order_aggregate (order_strip es)") simp
qed

section \<open>Frozen orders\<close>

text \<open>What only a draft can change.\<close>

definition order_contents ::
    "order \<Rightarrow> (string, line_item) fmap \<times> (string, tag) fmap \<times> string \<times> string" where
  "order_contents a = (o_items a, o_tags a, o_shipping_address a, o_customer_id a)"

lemma order_contents_step:
  assumes "order_accepts validate c a" "order_inv n a" "0 < n" "n < 2 ^ 63" "o_state a \<noteq> STATE_DRAFT"
  shows "order_contents (order_step c now a) = order_contents a"
proof -
  have "sint (o_version a) = int n" using assms(2,4) sint64_of_nat by (simp add: order_inv_def)
  with assms(3) have "o_version a \<noteq> 0" by auto
  with assms show ?thesis
    by (cases c) (auto simp: order_contents_def order_step_fields order_accepts_iff)
qed

text \<open>The transitions of the state field that accepted commands make.\<close>

fun order_transition :: "order_state \<Rightarrow> order_command \<Rightarrow> order_state option" where
  "order_transition STATE_UNSPECIFIED (Create _ _ _ _) = Some STATE_DRAFT"
| "order_transition s (Create _ _ _ _) = None"
| "order_transition STATE_UNSPECIFIED _ = None"
| "order_transition s (SetBilling _ _ _) = Some s"
| "order_transition s (ClearBilling _ _) = Some s"
| "order_transition STATE_DRAFT (Place _ _ _) = Some STATE_PLACED"
| "order_transition STATE_DRAFT (Cancel _ _ _) = Some STATE_CANCELLED"
| "order_transition STATE_PLACED (Cancel _ _ _) = Some STATE_CANCELLED"
| "order_transition STATE_PAID (Cancel _ _ _) = Some STATE_CANCELLED"
| "order_transition STATE_DRAFT _ = Some STATE_DRAFT"
| "order_transition _ _ = None"

lemma order_transition_step:
  assumes "order_accepts validate c a" "order_inv n a" "n < 2 ^ 63"
  shows "order_transition (o_state a) c = Some (o_state (order_step c now a))"
proof -
  have sint: "sint (o_version a) = int n" using assms(2,3) sint64_of_nat by (simp add: order_inv_def)
  show ?thesis
  proof (cases "n = 0")
    case True
    with assms(2) have "o_state a = STATE_UNSPECIFIED" "o_version a = 0"
      by (simp_all add: order_inv_def empty_order_def)
    with assms(1) show ?thesis
      by (cases c) (auto simp: order_step_fields(1) order_accepts_iff)
  next
    case False
    with sint have "o_version a \<noteq> 0" by auto
    moreover have "o_state a \<in> {STATE_DRAFT, STATE_PLACED, STATE_CANCELLED}"
      using assms(2) False by (simp add: order_inv_def)
    ultimately show ?thesis using assms(1)
      by (cases c) (auto simp: order_step_fields(1) order_accepts_iff)
  qed
qed

section \<open>Keys\<close>

lemma order_PK_inj: "order_PK (Some a) = order_PK (Some b) \<longleftrightarrow> o_id a = o_id b"
  by (simp add: order_PK_def order_pk_def)

lemma order_summary_PK_same: "order_summary_PK (Some (ProjectOrderSummary a)) = order_PK (Some a)"
  by (simp add: order_summary_PK_def order_PK_def ProjectOrderSummary_def)

lemma order_gsi1sk_inj: "order_gsi1sk v = order_gsi1sk w \<longleftrightarrow> v = w"
  by (simp add: order_gsi1sk_def dec_int64_inj)

section \<open>Stored orders\<close>

lemma order_stream_version:
  assumes "is_order_repository validate r" "command_stream r i es" "es \<noteq> []"
  shows "o_version (stream_state order_aggregate es) \<noteq> 0"
proof -
  have "sint (o_version (stream_state order_aggregate es)) = int (length es)"
    using order_stream_inv [OF assms(1,2)] sint64_of_nat [OF order_command_stream_ok(3) [OF assms(1,2)]]
    by (simp add: order_inv_def)
  with assms(3) show ?thesis by auto
qed

lemma order_stream_step:
  assumes "is_order_repository validate r" "command_stream r i es" "a = stream_state order_aggregate es"
  shows "stream_state order_aggregate (es @ order_EmitEvents c now a) = order_step c now a"
  unfolding assms(3) by (rule order_state_append [OF order_command_stream_ok(2) [OF assms(1,2)]])

text \<open>
  \<open>Apply\<close> on streams that commands wrote, with a context and a store that let the history be
  loaded: the streams are extended by what the abstract machine emits, or the store refuses that
  and they stay as they are.
\<close>

lemma order_apply_streams:
  assumes store: "event_log_store (rp_store r) sinv slog" and ok: "rp_ok r" and order: "is_order_repository validate r"
    and s: "sinv s" "holds_streams r (slog s) streams" "\<forall>i. command_stream r i (streams i)"
    and ctx: "ctx_err c AtEntry = None" and load: "load_history r c s (oc_id cmd) = (s1, Inr h)"
    and len: "length (streams (oc_id cmd)) + 2 < 2 ^ 63"
    and abs: "abs_apply order_aggregate order_events (order_commands validate) (clk_micros clk) (streams (oc_id cmd)) cmd
              = (news, out)"
    and run: "repo_apply r c clk s (Some cmd) = (s', ws, res)" and id: "oc_id cmd \<noteq> []"
  shows "sinv s'
    \<and> (case store_refusal r c clk (oc_id cmd) (fst (load_aggregate_version r c s (oc_id cmd))) news of
         None \<Rightarrow> res = out \<and> holds_streams r (slog s') (streams(oc_id cmd := streams (oc_id cmd) @ news))
       | Some e \<Rightarrow> res = Inl e \<and> news \<noteq> [] \<and> holds_streams r (slog s') streams)
    \<and> (\<forall>i. command_stream r i ((streams(oc_id cmd := streams (oc_id cmd) @ news)) i))"
proof -
  have snap: "snapshot_contract (rp_aggregate r) (rp_events r) (rp_commands r) order_known order_is_snapshot 50"
    using order ord.snapshot_contract_axioms by (simp add: is_order_repository_def)
  note agg = snapshot_contract.axioms(1) [OF snap]
  have ops: "rp_aggregate r = order_aggregate" "rp_events r = order_events" "rp_commands r = order_commands validate"
    using order by (simp_all add: is_order_repository_def)
  have i: "oc_id cmd = cm_id (rp_commands r) cmd" by (simp add: ops order_commands_def)
  have sok: "streams_ok r order_known streams"
    using command_stream_ok [OF agg] s(3) by (auto simp: streams_ok_def)
  have news: "length news \<le> 2" using order_abs_apply [OF abs] length_EmitEvents by auto
  then have len': "length (streams (oc_id cmd) @ news) < 2 ^ 63" using len by simp
  note abs' = abs [folded ops]
  have "sinv s' \<and> command_outcome r (slog s') streams (oc_id cmd) (news, out)
      (store_refusal r c clk (oc_id cmd) (fst (load_aggregate_version r c s (oc_id cmd))) news) res"
    by (rule apply_outcome [OF store ok agg s(1,2) sok i id command_stream_tail_sound [OF snap s(3) [rule_format]]
        ctx load abs' len' run])
  moreover have "command_stream r (oc_id cmd) (streams (oc_id cmd) @ news)"
    using extend_stream [OF s(3) [rule_format] i [symmetric] abs' len'] .
  ultimately show ?thesis
    using news s(3) by (auto simp: command_outcome_def split: option.splits)
qed

end
