(* ===== verification/Examples.thy ===== *)
theory Examples
  imports OrderMachine
begin

text \<open>
  A concrete order repository for the examples: the memory store, the concrete codec of
  \<open>Compress\<close>, a validator that accepts everything, and a serializer that knows the encodings of
  a fixed list of events. Two commands are run on it: an order is created, then an item is
  added.
\<close>

definition table_serializer :: "('e \<Rightarrow> int64) \<Rightarrow> (bytes \<times> 'e) list \<Rightarrow> 'e serializer" where
  "table_serializer version table =
     \<lparr>sz_marshal_event = (\<lambda>e. case find (\<lambda>de. snd de = e) table of
          Some (d, _) \<Rightarrow>
            if map_of table d = Some e \<and> \<not> IsGzipped d
            then Inr \<lparr>rec_version = version e, rec_data = d, rec_ttl = 0\<rparr>
            else Inl (Foreign ''ambiguous encoding'')
        | None \<Rightarrow> Inl (Foreign ''no encoding'')),
      sz_unmarshal_event = (\<lambda>r. case map_of table (rec_data r) of
          Some e \<Rightarrow> Inr e | None \<Rightarrow> Inl (Foreign ''no such encoding''))\<rparr>"

lemma table_serializer_laws: "serializer_laws (table_serializer (ev_version ev) table) ev"
  by (auto simp: serializer_laws_def table_serializer_def split: option.splits if_splits)

definition ex_clock :: clock where
  "ex_clock = \<lparr>clk_unix = 7, clk_micros = (\<lambda>i. 1000 + word_of_nat i)\<rparr>"

definition ex_item :: line_item where
  "ex_item = \<lparr>li_item_id = ''i1'', li_description = ''tea'', li_price_cents = 250, li_quantity = 2\<rparr>"

definition ex_create :: order_command where
  "ex_create = Create ''o1'' ''ann'' ''c1'' ''Bob''"

definition ex_add :: order_command where
  "ex_add = AddItem ''o1'' ''ann'' (Some ex_item)"

definition ex_created :: order_event where
  "ex_created = Created ''o1'' 1 1000 ''ann'' ''c1'' ''Bob''"

definition ex_added :: order_event where
  "ex_added = ItemAdded ''o1'' 2 1000 ''ann'' (Some ex_item)"

definition ex_repo :: "(memory_store, order, order_event, order_command, order_message) repository" where
  "ex_repo =
     \<lparr>rp_aggregate = order_aggregate, rp_events = order_events,
      rp_commands = order_commands (\<lambda>_. None), rp_store = memory_ops,
      rp_serializer = table_serializer oe_version [([1], ex_created), ([2], ex_added)],
      rp_gzip = plain_gzip, rp_compress_threshold = 300, rp_logs = False,
      rp_key_prefix = ''example_app_order_v1#''\<rparr>"

lemma ex_repo_New:
  "order_NewRepository (Some memory_ops)
     (Some (table_serializer oe_version [([1], ex_created), ([2], ex_added)])) (\<lambda>_. None) plain_gzip []
     = Inr ex_repo"
  by (simp add: order_NewRepository_def new_repository_def ex_repo_def key_prefix_def replace_char_def
      order_aggregate_def DefaultCompressThreshold_def)

lemma ex_repo_simps [simp]:
  "rp_aggregate ex_repo = order_aggregate" "rp_events ex_repo = order_events"
  "rp_commands ex_repo = order_commands (\<lambda>_. None)" "rp_store ex_repo = memory_ops"
  "rp_gzip ex_repo = plain_gzip"
  by (simp_all add: ex_repo_def)

lemma ex_repo_ok [simp]: "rp_ok ex_repo"
  using table_serializer_laws [of order_events] by (simp add: rp_ok_def ex_repo_def)

lemma ex_is_order [simp]: "is_order_repository (\<lambda>_. None) ex_repo"
  by (simp add: is_order_repository_def)

lemma ex_state0 [simp]: "stream_state order_aggregate [] = empty_order"
  by (simp add: stream_state_def)

lemma ex_apply_create:
  "abs_apply order_aggregate order_events (order_commands (\<lambda>_. None)) (clk_micros ex_clock) [] ex_create
     = ([ex_created], Inr 1)"
  by (simp add: abs_apply_def check_command_def order_commands_def order_ValidateVersion_def
      order_ProtoValidate_def order_GuardState_def ex_create_def EmitEvents_eq order_own_event_def
      ob_command_event_def ex_created_def ex_clock_def empty_order_def int64_rem_def smod_int_alt_def Let_def)

definition ex_order1 :: order where
  "ex_order1 = stream_state order_aggregate [ex_created]"

lemma ex_order1_simps [simp]:
  "o_version ex_order1 = 1" "o_state ex_order1 = STATE_DRAFT" "o_items ex_order1 = fmempty"
  by (simp_all add: ex_order1_def stream_state_def ex_created_def order_On_def order_setModified_def
      order_setCreated_def order_AfterOn_def Let_def empty_order_def)

lemma ex_apply_add:
  "abs_apply order_aggregate order_events (order_commands (\<lambda>_. None)) (clk_micros ex_clock) [ex_created] ex_add
     = ([ex_added], Inr 2)"
  by (simp add: abs_apply_def check_command_def order_commands_def order_ValidateVersion_def
      order_ProtoValidate_def order_GuardState_def ex_add_def EmitEvents_eq order_own_event_def
      ob_command_event_def ex_added_def ex_clock_def int64_rem_def smod_int_alt_def Let_def flip: ex_order1_def)

definition ex_order2 :: order where
  "ex_order2 = stream_state order_aggregate [ex_created, ex_added]"

lemma ex_order2_simps [simp]:
  "o_version ex_order2 = 2" "o_state ex_order2 = STATE_DRAFT"
  "o_items ex_order2 = fmupd ''i1'' ex_item fmempty"
  by (simp_all add: ex_order2_def stream_state_def ex_created_def ex_added_def ex_item_def order_On_def
      order_setModified_def order_setCreated_def order_AfterOn_def Let_def empty_order_def)

lemma ex_stream1: "command_stream ex_repo ''o1'' [ex_created]"
  using extend_stream [OF empty_stream, of ex_repo ex_create "''o1''" "clk_micros ex_clock" "[ex_created]"]
    ex_apply_create by (simp add: ex_create_def)

lemma ex_stream2: "command_stream ex_repo ''o1'' [ex_created, ex_added]"
  using extend_stream [OF ex_stream1, of ex_add "clk_micros ex_clock" "[ex_added]"]
    ex_apply_add by (simp add: ex_add_def)

lemma ex_marshals: "marshals ex_repo [ex_created, ex_added]"
  by (simp add: marshals_def ex_repo_def table_serializer_def IsGzipped_def ex_created_def ex_added_def)

definition ex_requests :: "(ctx \<times> clock \<times> order_command option) list" where
  "ex_requests = [(background, ex_clock, Some ex_create), (background, ex_clock, Some ex_add)]"

lemma ex_abs_run:
  "abs_run ex_repo ex_requests (\<lambda>_. []) = ((\<lambda>_. [])(''o1'' := [ex_created, ex_added]), [Inr 1, Inr 2])"
  using ex_apply_create ex_apply_add
  by (simp add: ex_requests_def abs_command_def ex_create_def ex_add_def)

text \<open>A memory store with the two events in it.\<close>

definition ex_store :: memory_store where
  "ex_store = \<lparr>ms_events = [''example_app_order_v1#o1'' \<mapsto>
       [\<lparr>rec_version = 1, rec_data = [1], rec_ttl = 0\<rparr>, \<lparr>rec_version = 2, rec_data = [2], rec_ttl = 0\<rparr>]],
     ms_snapshot_interval = 50\<rparr>"

definition ex_streams :: "string \<Rightarrow> order_event list" where
  "ex_streams = (\<lambda>_. [])(''o1'' := [ex_created, ex_added])"

lemma ex_holds: "holds_streams ex_repo (ms_log ex_store) ex_streams"
  by (auto simp: holds_streams_def holds_events_def record_holds_def ex_streams_def ex_store_def ms_log_def
      qualified_id_def ex_repo_def rec_vd_def table_serializer_def IsGzipped_def order_events_def
      ex_created_def ex_added_def)

lemma ex_streams_ok: "streams_ok ex_repo order_known ex_streams"
  by (auto simp: streams_ok_def ex_streams_def gapless_def ex_created_def ex_added_def order_known_def)

lemma ex_event_log: "event_log_store (rp_store ex_repo) (\<lambda>_. True) ms_log"
  using memory_event_log by simp

lemma ex_contract: "aggregate_contract (rp_aggregate ex_repo) (rp_events ex_repo) (rp_commands ex_repo) order_known"
  using ord.aggregate_contract_axioms by simp

lemma ex_tail_sound: "tail_sound ex_repo es"
  by (rule memory_tail_sound) simp

lemma ex_load: "load_history ex_repo background ex_store ''o1''
    = (ex_store, Inr [\<lparr>rec_version = 1, rec_data = [1], rec_ttl = 0\<rparr>, \<lparr>rec_version = 2, rec_data = [2], rec_ttl = 0\<rparr>])"
  by (simp add: load_history_def ms_Load_cases background_def ex_store_def qualified_id_def ex_repo_def)

text \<open>An order that is placed.\<close>

definition ex_place :: order_command where
  "ex_place = Place ''o1'' ''ann'' 77"

definition ex_placed :: order_event where
  "ex_placed = Placed ''o1'' 2 1000 ''ann'' 77"

lemma ex_apply_place:
  "abs_apply order_aggregate order_events (order_commands (\<lambda>_. None)) (clk_micros ex_clock) [ex_created] ex_place
     = ([ex_placed], Inr 2)"
  by (simp add: abs_apply_def check_command_def order_commands_def order_ValidateVersion_def
      order_ProtoValidate_def order_GuardState_def ex_place_def EmitEvents_eq order_own_event_def
      ob_command_event_def ex_placed_def ex_clock_def int64_rem_def smod_int_alt_def Let_def
      flip: ex_order1_def)

lemma ex_stream_placed: "command_stream ex_repo ''o1'' [ex_created, ex_placed]"
  using extend_stream [OF ex_stream1, of ex_place "clk_micros ex_clock" "[ex_placed]"]
    ex_apply_place by (simp add: ex_place_def)

lemma ex_placed_state: "o_state (stream_state order_aggregate [ex_created, ex_placed]) = STATE_PLACED"
  by (simp add: stream_state_def ex_created_def ex_placed_def order_On_def order_setModified_def
      order_setCreated_def Let_def)

end
