(* ===== verification/RepositoryProperties.thy ===== *)
theory RepositoryProperties
  imports Examples
begin

text \<open>
  The properties of \<open>Repository\<close>: its methods refine the abstract event log over every store and
  aggregate that keep the contracts, and over the memory store a run of commands is exactly a
  run of the abstract machine. The witnesses run the order repository of \<open>Examples\<close>.
\<close>

text \<open>
  C1. \<open>Apply\<close> refines the abstract event log. Whatever the store (an \<open>event_log_store\<close>) and the
  aggregate (with its contract), when the context is live at entry and the history can be loaded:
  if the serializer and the store refuse none of the events that the abstract machine emits,
  \<open>Apply\<close> returns the result of the machine and appends exactly its events to the aggregate's
  stream, leaving every other stream as it was. If one of them refuses, \<open>Apply\<close> returns that error,
  and at most a prefix of the events, none of them for at most 100 events, was written. In both
  cases the streams stay gapless, with versions 1, 2, 3, ..., and hold known events only.
\<close>

theorem apply_refines:
  assumes store: "event_log_store (rp_store r) sinv slog" and ok: "rp_ok r"
    and agg: "aggregate_contract (rp_aggregate r) (rp_events r) (rp_commands r) known"
    and sinv: "sinv s" and streams: "holds_streams r (slog s) streams" "streams_ok r known streams"
    and i: "i = cm_id (rp_commands r) command" "i \<noteq> ''''" and tail: "tail_sound r (streams i)"
    and ctx: "ctx_err c AtEntry = None" and load: "load_history r c s i = (s1, Inr h)"
    and expected: "abs_apply (rp_aggregate r) (rp_events r) (rp_commands r) (clk_micros clk) (streams i) command
                     = (news, out)"
    and len: "length (streams i @ news) < 2 ^ 63"
    and run: "repo_apply r c clk s (Some command) = (s', ws, res)"
  shows "sinv s'
      \<and> (case store_refusal r c clk i (fst (load_aggregate_version r c s i)) news of
           None \<Rightarrow> res = out
             \<and> holds_streams r (slog s') (streams(i := streams i @ news))
             \<and> streams_ok r known (streams(i := streams i @ news))
         | Some e \<Rightarrow> res = Inl e \<and> news \<noteq> []
             \<and> (\<exists>n. (length news \<le> 100 \<longrightarrow> n = 0)
                 \<and> holds_streams r (slog s') (streams(i := streams i @ take n news))
                 \<and> streams_ok r known (streams(i := streams i @ take n news))))"
proof -
  note extend = streams_ok_extend [OF agg streams(2) i(1) expected len]
  from apply_outcome [OF assms] extend extend [of "length news"] show ?thesis
    unfolding command_outcome_def by (auto split: option.splits)
qed

theorem apply_refines_witness:
  "snd (snd (repo_apply ex_repo background ex_clock (memorystore_New 50) (Some ex_create))) = Inr 1
   \<and> holds_streams ex_repo
        (ms_log (fst (repo_apply ex_repo background ex_clock (memorystore_New 50) (Some ex_create))))
        ((\<lambda>_. [])(''o1'' := [ex_created]))"
proof -
  let ?s = "memorystore_New 50"
  let ?out = "repo_apply ex_repo background ex_clock ?s (Some ex_create)"
  have streams: "holds_streams ex_repo (ms_log ?s) (\<lambda>_. [])" "streams_ok ex_repo order_known (\<lambda>_. [])"
    by (simp_all add: holds_streams_def holds_events_def streams_ok_def)
  have i: "''o1'' = cm_id (rp_commands ex_repo) ex_create" "''o1'' \<noteq> ''''" by (simp_all add: ex_create_def)
  have ctx: "ctx_err background AtEntry = None" by (simp add: background_def)
  have load: "load_history ex_repo background ?s ''o1'' = (?s, Inr [])"
    by (simp add: load_history_def ms_Load_cases background_def memorystore_New_def)
  have expected: "abs_apply (rp_aggregate ex_repo) (rp_events ex_repo) (rp_commands ex_repo) (clk_micros ex_clock)
      [] ex_create = ([ex_created], Inr 1)"
    by (simp add: ex_apply_create)
  have run: "?out = (fst ?out, fst (snd ?out), snd (snd ?out))" by simp
  have len: "length ([] @ [ex_created]) < 2 ^ 63" by simp
  have "marshals ex_repo [ex_created]" using ex_marshals by (simp add: marshals_def)
  from memory_refuses_none [OF _ ex_repo_ok this live_background]
  have stored: "store_refusal ex_repo background ex_clock ''o1'' s [ex_created] = None" for s by simp
  from apply_refines [where streams = "\<lambda>_. []", OF ex_event_log ex_repo_ok ex_contract TrueI streams i
      ex_tail_sound ctx load expected len run]
  show ?thesis by (simp add: stored)
qed

text \<open>
  C2. A run of commands over the memory store, with live contexts and events that marshal, is
  the run of the abstract machine: the same results, command by command, and in the end the
  store holds exactly the machine's streams, gapless and of known events. Compression, key
  prefixes, marshalling and the aliasing of loaded records do not show.
\<close>

theorem memory_run_refines:
  assumes "rp_store r = memory_ops" "rp_ok r"
    and "aggregate_contract (rp_aggregate r) (rp_events r) (rp_commands r) known"
    and "\<forall>(c, clk, cmd) \<in> set reqs. live c"
    and "abs_run r reqs (\<lambda>_. []) = (streams, outs)"
    and "\<forall>i. length (streams i) < 2 ^ 63 \<and> marshals r (streams i)"
  shows "\<exists>s'. apply_all r reqs (memorystore_New n) = (s', outs)
           \<and> holds_streams r (ms_log s') streams \<and> streams_ok r known streams"
proof -
  have start: "holds_streams r (ms_log (memorystore_New n)) (\<lambda>_. [])" "streams_ok r known (\<lambda>_. [])"
    by (simp_all add: holds_streams_def holds_events_def streams_ok_def)
  obtain s' outs' where run: "apply_all r reqs (memorystore_New n) = (s', outs')" by fastforce
  from memory_run_exact [OF assms(1-3) start assms(4-6) run] run show ?thesis by blast
qed

theorem memory_run_refines_witness:
  "\<exists>s'. apply_all ex_repo ex_requests (memorystore_New 50) = (s', [Inr 1, Inr 2])
       \<and> holds_streams ex_repo (ms_log s') ex_streams \<and> streams_ok ex_repo order_known ex_streams"
proof (rule memory_run_refines [OF _ ex_repo_ok ex_contract])
  show "\<forall>(c, clk, cmd) \<in> set ex_requests. live c" by (simp add: ex_requests_def)
  show "abs_run ex_repo ex_requests (\<lambda>_. []) = (ex_streams, [Inr 1, Inr 2])"
    by (simp add: ex_abs_run ex_streams_def)
  show "\<forall>i. length (ex_streams i) < 2 ^ 63 \<and> marshals ex_repo (ex_streams i)"
    using ex_marshals by (simp add: ex_streams_def marshals_def)
qed simp

text \<open>
  C3. \<open>Load\<close> replays the stream: whenever the history can be loaded, it returns the state that the
  stream's events make of a new aggregate, with the derived fields computed once at the end, or
  the not-found error for an empty stream; and the streams stay as they were, although over the
  memory store the loop writes decompressed data into the stored records.
\<close>

theorem load_replays:
  assumes "event_log_store (rp_store r) sinv slog"
    and "aggregate_contract (rp_aggregate r) (rp_events r) (rp_commands r) known"
    and "sinv s" "holds_streams r (slog s) streams" "streams_ok r known streams"
    and "tail_sound r (streams i)" "load_history r c s i = (s1, Inr h)"
    and "repo_load r c s i = (s', res)"
  shows "sinv s' \<and> holds_streams r (slog s') streams
    \<and> (streams i = [] \<longrightarrow> (\<exists>e. res = Inl e \<and> err_is e ErrAggregateNotFound))
    \<and> (streams i \<noteq> [] \<longrightarrow> res = Inr (stream_state (rp_aggregate r) (streams i)))"
proof -
  have "\<forall>e \<in> set (streams i). known e" using assms(5) by (simp add: streams_ok_def)
  from load_aggregate_holds [OF assms(1-4) this assms(6,7)] assms(8) show ?thesis
    by (auto simp: repo_load_def split: if_splits)
qed

theorem load_replays_witness:
  "snd (repo_load ex_repo background ex_store ''o1'')
     = Inr (stream_state (rp_aggregate ex_repo) [ex_created, ex_added])"
  using load_replays [OF ex_event_log ex_contract TrueI ex_holds ex_streams_ok ex_tail_sound ex_load
      prod.collapse [symmetric]]
  by (simp add: ex_streams_def)

text \<open>
  C4. \<open>History\<close> is complete: when the store's load succeeds, it returns one record per event of
  the stream, oldest first, with the event's version and data that unmarshals to the event
  (decompressed), and leaves the streams as they were. It never takes the tail.
\<close>

theorem history_complete:
  assumes "event_log_store (rp_store r) sinv slog"
    and "sinv s" "holds_streams r (slog s) streams" "i \<noteq> ''''"
    and "st_load (rp_store r) (ctx_err c AtLoad) s (qualified_id r i) = (s1, Inr h)"
    and "repo_history r c s i = (s', res)"
  shows "sinv s' \<and> holds_streams r (slog s') streams
    \<and> (\<exists>recs. res = Inr recs
         \<and> map rec_version recs = map (ev_version (rp_events r)) (streams i)
         \<and> map (sz_unmarshal_event (rp_serializer r)) recs = map Inr (streams i))"
  by (rule repo_history_holds [OF assms])

theorem history_complete_witness:
  "True \<and> holds_streams ex_repo (ms_log (fst (repo_history ex_repo background ex_store ''o1''))) ex_streams
    \<and> (\<exists>recs. snd (repo_history ex_repo background ex_store ''o1'') = Inr recs
         \<and> map rec_version recs = map (ev_version (rp_events ex_repo)) (ex_streams ''o1'')
         \<and> map (sz_unmarshal_event (rp_serializer ex_repo)) recs = map Inr (ex_streams ''o1''))"
proof (rule history_complete [OF ex_event_log TrueI ex_holds])
  show "st_load (rp_store ex_repo) (ctx_err background AtLoad) ex_store (qualified_id ex_repo ''o1'')
      = (ex_store, Inr [\<lparr>rec_version = 1, rec_data = [1], rec_ttl = 0\<rparr>, \<lparr>rec_version = 2, rec_data = [2], rec_ttl = 0\<rparr>])"
    using ex_load by (simp add: load_history_def)
  show "repo_history ex_repo background ex_store ''o1''
    = (fst (repo_history ex_repo background ex_store ''o1''), snd (repo_history ex_repo background ex_store ''o1''))"
    by simp
qed simp

text \<open>
  \<open>Save\<close> appends. Saving events of one aggregate that continue its gapless stream appends
  exactly these events when it succeeds; when it fails it appends at most a prefix of them, and
  none if they are at most 100. Saving no events does nothing.
\<close>

theorem save_appends:
  assumes "event_log_store (rp_store r) sinv slog" "rp_ok r"
    and "sinv s" "holds_streams r (slog s) streams"
    and "\<forall>e \<in> set events. ev_id (rp_events r) e = i"
    and "gapless (rp_events r) (streams i @ events)"
    and "repo_save r c clk s events = (s', res)"
  shows "sinv s' \<and> (\<exists>n. holds_streams r (slog s') (streams(i := streams i @ take n events))
      \<and> (res = None \<longrightarrow> n = length events)
      \<and> (res \<noteq> None \<longrightarrow> events \<noteq> [] \<and> (length events \<le> 100 \<longrightarrow> n = 0)))"
proof -
  have "res \<noteq> None \<longrightarrow> events \<noteq> []" using assms(7) by (auto simp: repo_save_def)
  with repo_save_log [OF assms] show ?thesis by blast
qed

theorem save_appends_witness:
  "\<exists>n. holds_streams ex_repo
        (ms_log (fst (repo_save ex_repo background ex_clock (memorystore_New 50) [ex_created, ex_added])))
        ((\<lambda>_. [])(''o1'' := [] @ take n [ex_created, ex_added]))"
proof -
  have streams: "holds_streams ex_repo (ms_log (memorystore_New 50)) (\<lambda>_. [])"
    by (simp add: holds_streams_def holds_events_def)
  have ids: "\<forall>e \<in> set [ex_created, ex_added]. ev_id (rp_events ex_repo) e = ''o1''"
    by (simp add: ex_created_def ex_added_def)
  have gap: "gapless (rp_events ex_repo) ([] @ [ex_created, ex_added])"
    by (simp add: gapless_def ex_created_def ex_added_def)
  show ?thesis
    using save_appends [where streams = "\<lambda>_. []", OF ex_event_log ex_repo_ok TrueI streams ids gap
        prod.collapse [symmetric]]
    by blast
qed

end
