(* ===== verification/OrderProperties.thy ===== *)
theory OrderProperties
  imports Examples
begin

text \<open>
  The properties of the order example: tail loading is exact, snapshots are transparent, the
  invariant of every stored order, its state machine, its sums and its keys. A
  \<open>command_stream\<close> is a stream that commands applied by the repository have written.
\<close>

text \<open>
  C15. Tail loading is exact. For an order repository over any store, also one that loads only the
  last 50 events of a stream, loading a stream that commands have written gives the state and
  the version that replaying the whole stream gives.
\<close>

theorem order_tail_load_exact:
  assumes "event_log_store (rp_store r) sinv slog" "is_order_repository validate r"
    and "sinv s" "holds_streams r (slog s) streams" "command_stream r i (streams i)" "streams i \<noteq> []"
    and "load_history r c s i = (s1, Inr h)"
  shows "\<exists>s2. load_aggregate_version r c s i
      = (s2, Inr (order_AfterOn (fst (on_all order_aggregate empty_order (streams i))),
                  word_of_nat (length (streams i))))
      \<and> sinv s2 \<and> holds_streams r (slog s2) streams"
proof -
  have parts: "rp_aggregate r = order_aggregate" "rp_events r = order_events"
    "rp_commands r = order_commands validate"
    using assms(2) by (simp_all add: is_order_repository_def)
  have snap: "snapshot_contract (rp_aggregate r) (rp_events r) (rp_commands r) order_known order_is_snapshot 50"
    unfolding parts by (rule ord.snapshot_contract_axioms)
  note agg = snapshot_contract.axioms(1) [OF snap]
  note ok = order_command_stream_ok [OF assms(2,5)]
  from load_aggregate_holds [OF assms(1) agg assms(3,4) ok(2) command_stream_tail_sound [OF snap assms(5)] assms(7)]
  show ?thesis
    using assms(6) gapless_stream_version [OF ok(1)] by (simp add: parts stream_state_def)
qed

theorem order_tail_load_exact_witness:
  "\<exists>s2. load_aggregate_version ex_repo background ex_store ''o1''
      = (s2, Inr (order_AfterOn (fst (on_all order_aggregate empty_order (ex_streams ''o1''))),
                  word_of_nat (length (ex_streams ''o1''))))
      \<and> True \<and> holds_streams ex_repo (ms_log s2) ex_streams"
proof (rule order_tail_load_exact [OF ex_event_log ex_is_order TrueI ex_holds])
  show "command_stream ex_repo ''o1'' (ex_streams ''o1'')" using ex_stream2 by (simp add: ex_streams_def)
  show "ex_streams ''o1'' \<noteq> []" by (simp add: ex_streams_def)
  show "load_history ex_repo background ex_store ''o1'' = (ex_store,
      Inr [\<lparr>rec_version = 1, rec_data = [1], rec_ttl = 0\<rparr>, \<lparr>rec_version = 2, rec_data = [2], rec_ttl = 0\<rparr>])"
    by (simp add: load_history_def ms_Load_cases background_def ex_store_def qualified_id_def ex_repo_def)
qed

text \<open>
  C16. Snapshots are transparent: dropping every snapshot event from a stream that commands have
  written, and replaying the rest, gives the same order, but for the version.
\<close>

theorem order_snapshots_transparent:
  assumes "command_stream r i es" "is_order_repository validate r"
  shows "(stream_state order_aggregate (filter (\<lambda>e. \<not> order_is_snapshot e) es))\<lparr>o_version := v\<rparr>
           = (stream_state order_aggregate es)\<lparr>o_version := v\<rparr>"
  using order_strip_state [OF assms] by (simp add: order_strip_def)

theorem order_snapshots_transparent_witness:
  "(stream_state order_aggregate (filter (\<lambda>e. \<not> order_is_snapshot e) [ex_created, ex_added]))\<lparr>o_version := 0\<rparr>
     = (stream_state order_aggregate [ex_created, ex_added])\<lparr>o_version := 0\<rparr>"
  by (rule order_snapshots_transparent [OF ex_stream2 ex_is_order])

text \<open>
  Snapshots are where they are due: in a stream that commands have written, every event
  whose version is one more than a positive multiple of 50 is a snapshot, and the stream never
  ends at a multiple of 50 with the snapshot missing.
\<close>

theorem order_snapshots_due:
  assumes "command_stream r i es" "is_order_repository validate r"
  shows "(\<forall>n < length es. 0 < n \<and> 50 dvd n \<longrightarrow>
            order_is_snapshot (es ! n) \<and> oe_version (es ! n) = word_of_nat (n + 1))
         \<and> (es \<noteq> [] \<longrightarrow> \<not> 50 dvd length es)"
proof -
  have "snapshot_contract (rp_aggregate r) (rp_events r) (rp_commands r) order_known order_is_snapshot 50"
    using ord.snapshot_contract_axioms assms(2) by (simp add: is_order_repository_def)
  from command_stream_snapshotted [OF this assms(1)]
    gapless_nth [OF order_command_stream_ok(1) [OF assms(2,1)]]
  show ?thesis by (simp add: snapshotted_def)
qed

theorem order_snapshots_due_witness: "\<not> 50 dvd length [ex_created, ex_added]"
  by (rule order_snapshots_due [OF ex_stream2 ex_is_order, THEN conjunct2, THEN mp]) simp

text \<open>
  C17. The invariant of every stored order: its version is the number of its events; an order
  with events is a draft, placed or cancelled (paid, shipped and delivered cannot be reached);
  its item count and total are those of its items; items and tags are stored under their own
  keys.
\<close>

theorem order_invariant:
  assumes "is_order_repository validate r" "command_stream r i es"
  shows "order_inv (length es) (stream_state order_aggregate es)"
  by (rule order_stream_inv [OF assms])

theorem order_invariant_witness:
  "order_inv (length [ex_created, ex_added]) (stream_state order_aggregate [ex_created, ex_added])"
  by (rule order_invariant [OF ex_is_order ex_stream2])

text \<open>
  C18. The state machine. On a stored order, a command that emits events moves the state as the
  transition table says: creation makes a draft of nothing, placing takes a draft to placed,
  cancelling a draft or placed order to cancelled, billing keeps the state, every other command
  needs a draft and keeps it one; and a command without an entry emits nothing.
\<close>

theorem order_state_machine:
  assumes "is_order_repository validate r" "command_stream r i es"
    and "abs_apply order_aggregate order_events (order_commands validate) now es c = (news, out)"
    and "news \<noteq> []"
  shows "order_transition (o_state (stream_state order_aggregate es)) c
           = Some (o_state (stream_state order_aggregate (es @ news)))"
proof -
  note ok = order_command_stream_ok [OF assms(1,2)]
  from order_abs_apply [OF assms(3)] assms(4) have acc:
    "order_accepts validate c (stream_state order_aggregate es)"
    "news = order_EmitEvents c now (stream_state order_aggregate es)"
    by (auto split: if_splits)
  from order_transition_step [OF acc(1) order_stream_inv [OF assms(1,2)] ok(3)]
  show ?thesis unfolding acc(2) order_state_append [OF ok(2)] .
qed

theorem order_state_machine_witness:
  "order_transition (o_state (stream_state order_aggregate [ex_created])) ex_add
     = Some (o_state (stream_state order_aggregate ([ex_created] @ [ex_added])))"
  by (rule order_state_machine [OF ex_is_order ex_stream1 ex_apply_add]) simp

text \<open>
  C19. An order that is not a draft is frozen: whatever command is applied to a created order in
  another state, its items, tags, shipping address and customer stay as they are.
\<close>

theorem order_frozen:
  assumes "is_order_repository validate r" "command_stream r i es" "es \<noteq> []"
    and "o_state (stream_state order_aggregate es) \<noteq> STATE_DRAFT"
    and "abs_apply order_aggregate order_events (order_commands validate) now es c = (news, out)"
  shows "order_contents (stream_state order_aggregate (es @ news))
           = order_contents (stream_state order_aggregate es)"
proof -
  note ok = order_command_stream_ok [OF assms(1,2)]
  show ?thesis
  proof (cases "order_accepts validate c (stream_state order_aggregate es)")
    case True
    with order_abs_apply [OF assms(5)]
    have "news = order_EmitEvents c now (stream_state order_aggregate es)" by simp
    with order_state_append [OF ok(2)] order_contents_step [OF True order_stream_inv [OF assms(1,2)] _ ok(3) assms(4)]
      assms(3) show ?thesis by simp
  next
    case False
    with order_abs_apply [OF assms(5)] show ?thesis by simp
  qed
qed

theorem order_frozen_witness:
  "order_contents (stream_state order_aggregate ([ex_created, ex_placed]
       @ fst (abs_apply order_aggregate order_events (order_commands (\<lambda>_. None)) (clk_micros ex_clock)
                [ex_created, ex_placed] ex_add)))
     = order_contents (stream_state order_aggregate [ex_created, ex_placed])"
  by (rule order_frozen [OF ex_is_order ex_stream_placed _ _ prod.collapse [symmetric]])
    (simp_all add: ex_placed_state)

text \<open>
  Adding an item to a stored draft raises its total by price times quantity, in 64-bit
  arithmetic, and its count by one; when an item with that id is there, the result is
  \<open>ErrItemAlreadyPresent\<close> and nothing is written.
\<close>

theorem order_add_item:
  assumes "is_order_repository validate r" "command_stream r i es" "es \<noteq> []"
    and "a = stream_state order_aggregate es" "o_state a = STATE_DRAFT" "validate (AddItem i actor (Some item)) = None"
    and "abs_apply order_aggregate order_events (order_commands validate) now es (AddItem i actor (Some item)) = (news, out)"
    and "a' = stream_state order_aggregate (es @ news)"
  shows "if fmlookup (o_items a) (li_item_id item) = None
         then news \<noteq> [] \<and> o_items a' = fmupd (li_item_id item) item (o_items a)
            \<and> o_total_cents a' = o_total_cents a + li_price_cents item * scast (li_quantity item)
            \<and> o_item_count a' = o_item_count a + 1
         else news = [] \<and> (\<exists>e. out = Inl e \<and> err_is e ErrItemAlreadyPresent)"
proof -
  note v = order_stream_version [OF assms(1-3), folded assms(4)]
  note news = order_abs_apply [OF assms(7), folded assms(4)]
  show ?thesis
  proof (cases "fmlookup (o_items a) (li_item_id item) = None")
    case True
    with assms(5,6) v have "order_accepts validate (AddItem i actor (Some item)) a"
      by (simp add: order_accepts_iff order_item_id_def)
    with news order_stream_step [OF assms(1,2,4)] assms(8)
    have step: "a' = order_step (AddItem i actor (Some item)) now a" "news \<noteq> []"
      by (simp_all add: EmitEvents_eq)
    have "order_inv (length es) a" using order_stream_inv [OF assms(1,2)] assms(4) by simp
    with True step show ?thesis
      by (simp add: order_step_fields(2,7,8) items_total_upd fcard_upd item_cents_def order_inv_def
          del: fmdom_fmupd)
  next
    case False
    with assms(5-7) v show ?thesis
      by (auto simp: abs_apply_def check_command_def order_commands_def order_ValidateVersion_def
          order_ProtoValidate_def order_GuardState_def order_item_id_def Let_def simp flip: assms(4))
  qed
qed

theorem order_add_item_witness:
  "if fmlookup (o_items ex_order1) (li_item_id ex_item) = None
   then [ex_added] \<noteq> [] \<and> o_items ex_order2 = fmupd (li_item_id ex_item) ex_item (o_items ex_order1)
      \<and> o_total_cents ex_order2 = o_total_cents ex_order1 + li_price_cents ex_item * scast (li_quantity ex_item)
      \<and> o_item_count ex_order2 = o_item_count ex_order1 + 1
   else [ex_added] = [] \<and> (\<exists>e. (Inr 2 :: goerr + int64) = Inl e \<and> err_is e ErrItemAlreadyPresent)"
  by (rule order_add_item [OF ex_is_order ex_stream1 _ ex_order1_def _ _ ex_apply_add [unfolded ex_add_def]])
    (simp_all add: ex_order2_def)

text \<open>
  Removing an item from a stored draft lowers its total by price times quantity and its
  count by one; when no item has that id, the command succeeds with the current version and
  writes nothing.
\<close>

theorem order_remove_item:
  assumes "is_order_repository validate r" "command_stream r i es" "es \<noteq> []"
    and "a = stream_state order_aggregate es" "o_state a = STATE_DRAFT" "validate (RemoveItem i actor k) = None"
    and "abs_apply order_aggregate order_events (order_commands validate) now es (RemoveItem i actor k) = (news, out)"
    and "a' = stream_state order_aggregate (es @ news)"
  shows "case fmlookup (o_items a) k of
           Some item \<Rightarrow> news \<noteq> [] \<and> o_items a' = fmdrop k (o_items a)
             \<and> o_total_cents a' = o_total_cents a - li_price_cents item * scast (li_quantity item)
             \<and> o_item_count a' = o_item_count a - 1
         | None \<Rightarrow> news = [] \<and> out = Inr (word_of_nat (length es))"
proof -
  note v = order_stream_version [OF assms(1-3), folded assms(4)]
  note news = order_abs_apply [OF assms(7), folded assms(4)]
  show ?thesis
  proof (cases "fmlookup (o_items a) k")
    case (Some item)
    with assms(5,6) v have "order_accepts validate (RemoveItem i actor k) a"
      by (simp add: order_accepts_iff)
    with news order_stream_step [OF assms(1,2,4)] assms(8)
    have step: "a' = order_step (RemoveItem i actor k) now a" "news \<noteq> []"
      by (simp_all add: EmitEvents_eq)
    have "order_inv (length es) a" using order_stream_inv [OF assms(1,2)] assms(4) by simp
    with Some step fcard_drop [OF Some] show ?thesis
      by (simp add: order_step_fields(2,7,8) items_total_drop item_cents_def order_inv_def del: fmdom_drop)
  next
    case None
    with assms(5-7) v gapless_stream_version [OF order_command_stream_ok(1) [OF assms(1,2)]] show ?thesis
      by (auto simp: abs_apply_def check_command_def order_commands_def order_ValidateVersion_def
          order_ProtoValidate_def order_GuardState_def Let_def simp flip: assms(4))
  qed
qed

theorem order_remove_item_witness:
  "case fmlookup (o_items ex_order1) ''i9'' of
     Some item \<Rightarrow>
       fst (abs_apply order_aggregate order_events (order_commands (\<lambda>_. None)) (clk_micros ex_clock)
             [ex_created] (RemoveItem ''o1'' ''ann'' ''i9'')) \<noteq> []
       \<and> o_items (stream_state order_aggregate ([ex_created]
           @ fst (abs_apply order_aggregate order_events (order_commands (\<lambda>_. None)) (clk_micros ex_clock)
             [ex_created] (RemoveItem ''o1'' ''ann'' ''i9'')))) = fmdrop ''i9'' (o_items ex_order1)
       \<and> o_total_cents (stream_state order_aggregate ([ex_created]
           @ fst (abs_apply order_aggregate order_events (order_commands (\<lambda>_. None)) (clk_micros ex_clock)
             [ex_created] (RemoveItem ''o1'' ''ann'' ''i9''))))
           = o_total_cents ex_order1 - li_price_cents item * scast (li_quantity item)
       \<and> o_item_count (stream_state order_aggregate ([ex_created]
           @ fst (abs_apply order_aggregate order_events (order_commands (\<lambda>_. None)) (clk_micros ex_clock)
             [ex_created] (RemoveItem ''o1'' ''ann'' ''i9'')))) = o_item_count ex_order1 - 1
   | None \<Rightarrow>
       fst (abs_apply order_aggregate order_events (order_commands (\<lambda>_. None)) (clk_micros ex_clock)
             [ex_created] (RemoveItem ''o1'' ''ann'' ''i9'')) = []
       \<and> snd (abs_apply order_aggregate order_events (order_commands (\<lambda>_. None)) (clk_micros ex_clock)
             [ex_created] (RemoveItem ''o1'' ''ann'' ''i9'')) = Inr (word_of_nat (length [ex_created]))"
  by (rule order_remove_item [OF ex_is_order ex_stream1 _ ex_order1_def _ _ prod.collapse [symmetric] refl])
    simp_all

section \<open>Liveness\<close>

text \<open>
  Orders never get stuck: over a store that loads the history and stores the new events, an order
  that is not cancelled can be cancelled by one command, and a draft can be placed.
\<close>

lemma order_transition_applies:
  assumes store: "event_log_store (rp_store r) sinv slog" and ok: "rp_ok r" and order: "is_order_repository validate r"
    and s: "holds_streams r (slog s) streams" "\<forall>j. command_stream r j (streams j)"
    and sinv: "sinv s" and live: "live c"
    and loads: "\<And>s. sinv s \<Longrightarrow> \<exists>s1 h. load_history r c s (oc_id cmd) = (s1, Inr h)"
    and stored: "store_refusal r c clk (oc_id cmd) (fst (load_aggregate_version r c s (oc_id cmd)))
        (order_EmitEvents cmd (clk_micros clk) (stream_state order_aggregate (streams (oc_id cmd)))) = None"
    and cmd: "oc_id cmd \<noteq> []" "order_accepts validate cmd (stream_state order_aggregate (streams (oc_id cmd)))"
    and len: "length (streams (oc_id cmd)) + 2 < 2 ^ 63"
  shows "\<exists>s' ws v s'' a. repo_apply r c clk s (Some cmd) = (s', ws, Inr v) \<and> repo_load r c s' (oc_id cmd) = (s'', Inr a)
    \<and> order_transition (o_state (stream_state order_aggregate (streams (oc_id cmd)))) cmd = Some (o_state a)"
proof -
  let ?i = "oc_id cmd" and ?a = "stream_state order_aggregate (streams (oc_id cmd))"
  have ops: "rp_aggregate r = order_aggregate" "rp_events r = order_events" "rp_commands r = order_commands validate"
    using order by (simp_all add: is_order_repository_def)
  have snap: "snapshot_contract (rp_aggregate r) (rp_events r) (rp_commands r) order_known order_is_snapshot 50"
    unfolding ops by (rule ord.snapshot_contract_axioms)
  note agg = snapshot_contract.axioms(1) [OF snap]
  obtain news out where abs: "abs_apply order_aggregate order_events (order_commands validate) (clk_micros clk) (streams ?i) cmd
      = (news, out)" by fastforce
  have news: "news = order_EmitEvents cmd (clk_micros clk) ?a" using order_abs_apply [OF abs] cmd(2) by simp
  then have ne: "news \<noteq> []" by (simp add: EmitEvents_eq)
  from abs_apply_emits [OF abs ne] obtain v where out: "out = Inr v" by blast
  obtain s' ws res where ap: "repo_apply r c clk s (Some cmd) = (s', ws, res)" by (metis prod_cases3)
  obtain s1 h where load1: "load_history r c s ?i = (s1, Inr h)" using loads [OF sinv] by blast
  have ctx: "ctx_err c AtEntry = None" using live by (simp add: live_def)
  from order_apply_streams [OF store ok order sinv s ctx load1 len abs ap cmd(1)] stored [folded news]
  have post: "sinv s'" "res = Inr v" "holds_streams r (slog s') (streams(?i := streams ?i @ news))"
    "\<forall>j. command_stream r j ((streams(?i := streams ?i @ news)) j)" by (simp_all add: out)
  obtain s2 h where load: "load_history r c s' ?i = (s2, Inr h)" using loads [OF post(1)] by blast
  have known: "\<forall>e \<in> set ((streams(?i := streams ?i @ news)) ?i). order_known e"
    using command_stream_ok [OF agg post(4) [rule_format]] by blast
  from load_aggregate_holds [OF store agg post(1,3) known command_stream_tail_sound [OF snap post(4) [rule_format]] load] ne
  obtain s'' where "repo_load r c s' ?i = (s'', Inr (stream_state order_aggregate (streams ?i @ news)))"
    by (auto simp: repo_load_def ops)
  moreover have "stream_state order_aggregate (streams ?i @ news) = order_step cmd (clk_micros clk) ?a"
    unfolding news by (rule order_stream_step [OF order s(2) [rule_format] refl])
  moreover have "order_transition (o_state ?a) cmd = Some (o_state (order_step cmd (clk_micros clk) ?a))"
    using order_transition_step [OF cmd(2) order_stream_inv [OF order s(2) [rule_format]]
        order_command_stream_ok(3) [OF order s(2) [rule_format]]] .
  ultimately show ?thesis using ap post(2) by auto
qed

text \<open>
  C14. Orders never get stuck. Over any store that keeps the log contract, whose loads of the order
  succeed and which stores the events that \<open>Cancel\<close> and \<open>Place\<close> emit, in a context that is not
  cancelled, for every stored order, whatever commands led to it: unless it is cancelled, \<open>Cancel\<close>
  succeeds, and the order that is loaded afterwards is cancelled; and while it is a draft, \<open>Place\<close>
  succeeds, and the order loaded afterwards is placed.
\<close>

theorem order_never_stuck:
  assumes store: "event_log_store (rp_store r) sinv slog" and ok: "rp_ok r" and order: "is_order_repository validate r"
    and s: "holds_streams r (slog s) streams" "\<forall>j. command_stream r j (streams j)"
    and sinv: "sinv s" and live: "live c"
    and loads: "\<And>s. sinv s \<Longrightarrow> \<exists>s1 h. load_history r c s i = (s1, Inr h)"
    and stored: "\<forall>cmd \<in> {Cancel i actor reason, Place i actor at}.
        store_refusal r c clk i (fst (load_aggregate_version r c s i))
          (order_EmitEvents cmd (clk_micros clk) (stream_state order_aggregate (streams i))) = None"
    and valid: "validate (Cancel i actor reason) = None" "validate (Place i actor at) = None"
    and i: "i \<noteq> []" "streams i \<noteq> []" and len: "length (streams i) + 2 < 2 ^ 63"
  shows "(o_state (stream_state order_aggregate (streams i)) \<noteq> STATE_CANCELLED \<longrightarrow>
      (\<exists>s' ws v s'' a. repo_apply r c clk s (Some (Cancel i actor reason)) = (s', ws, Inr v)
        \<and> repo_load r c s' i = (s'', Inr a) \<and> o_state a = STATE_CANCELLED))
    \<and> (o_state (stream_state order_aggregate (streams i)) = STATE_DRAFT \<longrightarrow>
      (\<exists>s' ws v s'' a. repo_apply r c clk s (Some (Place i actor at)) = (s', ws, Inr v)
        \<and> repo_load r c s' i = (s'', Inr a) \<and> o_state a = STATE_PLACED))"
proof -
  let ?a = "stream_state order_aggregate (streams i)"
  have "o_version ?a \<noteq> 0" by (rule order_stream_version [OF order s(2) [rule_format] i(2)])
  then have acc: "o_state ?a \<in> {STATE_DRAFT, STATE_PLACED} \<Longrightarrow> order_accepts validate (Cancel i actor reason) ?a"
    "o_state ?a = STATE_DRAFT \<Longrightarrow> order_accepts validate (Place i actor at) ?a"
    using valid by (auto simp: order_accepts_iff)
  have states: "o_state ?a \<in> {STATE_DRAFT, STATE_PLACED, STATE_CANCELLED}"
    using order_stream_inv [OF order s(2) [rule_format], of i] i(2) by (simp add: order_inv_def)
  note applies = order_transition_applies [OF store ok order s sinv live]
  show ?thesis
    using applies [where clk = clk and cmd = "Cancel i actor reason"]
      applies [where clk = clk and cmd = "Place i actor at"] loads stored acc states i(1) len
    by auto
qed

text \<open>A repository that can store a creation, a cancellation and a placing.\<close>

definition ex_cancelled :: order_event where
  "ex_cancelled = Cancelled ''o1'' 2 1000 ''ann'' ''why''"

definition ex_closing_repo :: "(memory_store, order, order_event, order_command, order_message) repository" where
  "ex_closing_repo = ex_repo\<lparr>rp_serializer := table_serializer oe_version
     [([1], ex_created), ([2], ex_placed), ([3], ex_cancelled)]\<rparr>"

lemma ex_closing_simps [simp]:
  "rp_store ex_closing_repo = memory_ops" "is_order_repository (\<lambda>_. None) ex_closing_repo"
  "rp_commands ex_closing_repo = order_commands (\<lambda>_. None)" "rp_ok ex_closing_repo"
  using table_serializer_laws [of order_events] by (simp_all add: ex_closing_repo_def is_order_repository_def rp_ok_def)

definition ex_closing_store :: memory_store where
  "ex_closing_store = \<lparr>ms_events = [''example_app_order_v1#o1'' \<mapsto> [\<lparr>rec_version = 1, rec_data = [1], rec_ttl = 0\<rparr>]],
     ms_snapshot_interval = 50\<rparr>"

theorem order_never_stuck_witness:
  "\<exists>s' ws v s'' a. repo_apply ex_closing_repo background ex_clock ex_closing_store (Some (Cancel ''o1'' ''ann'' ''why''))
       = (s', ws, Inr v) \<and> repo_load ex_closing_repo background s' ''o1'' = (s'', Inr a) \<and> o_state a = STATE_CANCELLED"
proof -
  let ?streams = "(\<lambda>_. [])(''o1'' := [ex_created])"
  have s: "holds_streams ex_closing_repo (ms_log ex_closing_store) ?streams"
    by (auto simp: holds_streams_def holds_events_def record_holds_def ex_closing_store_def ms_log_def
        qualified_id_def ex_closing_repo_def ex_repo_def rec_vd_def table_serializer_def IsGzipped_def order_events_def
        ex_created_def)
  have "command_stream ex_closing_repo ''o1'' [ex_created]"
    using extend_stream [OF empty_stream, of ex_closing_repo ex_create "''o1''" "clk_micros ex_clock" "[ex_created]"]
      ex_apply_create by (simp add: ex_create_def ex_closing_repo_def)
  then have cs: "\<forall>j. command_stream ex_closing_repo j (?streams j)" by (simp add: empty_stream)
  have marsh: "\<forall>cmd \<in> {Cancel ''o1'' ''ann'' ''why'', Place ''o1'' ''ann'' 77}. marshals ex_closing_repo
      (order_EmitEvents cmd (clk_micros ex_clock) (stream_state order_aggregate (?streams ''o1'')))"
    by (simp add: EmitEvents_eq order_own_event_def ob_command_event_def flip: ex_order1_def)
      (simp add: marshals_def ex_closing_repo_def table_serializer_def IsGzipped_def ex_clock_def ex_created_def ex_placed_def
        ex_cancelled_def int64_rem_def smod_int_alt_def)
  have stored: "\<forall>cmd \<in> {Cancel ''o1'' ''ann'' ''why'', Place ''o1'' ''ann'' 77}.
      store_refusal ex_closing_repo background ex_clock ''o1''
        (fst (load_aggregate_version ex_closing_repo background ex_closing_store ''o1''))
        (order_EmitEvents cmd (clk_micros ex_clock) (stream_state order_aggregate (?streams ''o1''))) = None"
    by (rule ballI) (rule memory_refuses_none [OF ex_closing_simps(1,4) marsh [rule_format] live_background])
  have store: "event_log_store (rp_store ex_closing_repo) (\<lambda>_. True) ms_log"
    unfolding ex_closing_simps(1) by (rule memory_event_log)
  have loads: "\<And>s. True \<Longrightarrow> \<exists>s1 h. load_history ex_closing_repo background s ''o1'' = (s1, Inr h)"
    using memory_load_history [OF ex_closing_simps(1) live_background] by blast
  from order_never_stuck [where validate = "\<lambda>_. None",
      OF store ex_closing_simps(4,2) s cs TrueI live_background loads stored] show ?thesis
    using ex_order1_simps(2) by (simp flip: ex_order1_def)
qed

end
