(* ===== verification/BoltDB.thy ===== *)
theory BoltDB
  imports GoPrelude "HOL-Library.List_Lexorder"
begin

text \<open>
  What stores/boltdbstore uses of two libraries. Package encoding/binary: big-endian integers
  of a fixed number of bytes, whose byte order is their numeric order. Package bbolt, a
  parameter: \<open>bolt_ops\<close> holds its operations on a database's contents, of type \<open>'d\<close>, with a
  bucket named by its path, and \<open>bolt_laws\<close> states its documented behaviour.
\<close>

section \<open>Big-endian integers\<close>

fun be_bytes :: "nat \<Rightarrow> nat \<Rightarrow> bytes" where
  "be_bytes 0 x = []"
| "be_bytes (Suc n) x = word_of_nat (x div 256 ^ n) # be_bytes n (x mod 256 ^ n)"

definition be_value :: "bytes \<Rightarrow> nat" where
  "be_value bs = foldl (\<lambda>v b. v * 256 + unat b) 0 bs"

text \<open>\<open>binary.BigEndian.PutUint64\<close>, \<open>Uint64\<close>, \<open>PutUint32\<close>, \<open>Uint32\<close>.\<close>

definition PutUint64 :: "uint64 \<Rightarrow> bytes" where
  "PutUint64 v = be_bytes 8 (unat v)"

definition Uint64 :: "bytes \<Rightarrow> uint64" where
  "Uint64 bs = word_of_nat (be_value (take 8 bs))"

definition PutUint32 :: "uint32 \<Rightarrow> bytes" where
  "PutUint32 v = be_bytes 4 (unat v)"

definition Uint32 :: "bytes \<Rightarrow> uint32" where
  "Uint32 bs = word_of_nat (be_value (take 4 bs))"

lemma length_be_bytes [simp]: "length (be_bytes n x) = n"
  by (induction n arbitrary: x) auto

lemma unat_byte: "x < 256 \<Longrightarrow> unat (word_of_nat x :: byte) = x"
  by (simp add: unsigned_of_nat take_bit_nat_eq_self)

lemma be_value_Cons: "be_value (b # bs) = unat b * 256 ^ length bs + be_value bs"
proof -
  have "foldl (\<lambda>v b. v * 256 + unat b) a xs = a * 256 ^ length xs + foldl (\<lambda>v b. v * 256 + unat b) 0 xs"
    for a and xs :: bytes
  proof (induction xs arbitrary: a)
    case (Cons x xs)
    show ?case using Cons [of "a * 256 + unat x"] Cons [of "unat x"] by (simp add: algebra_simps)
  qed simp
  from this [of "unat b" bs] show ?thesis by (simp add: be_value_def)
qed

lemma be_value_Nil [simp]: "be_value [] = 0"
  by (simp add: be_value_def)

lemma be_value_bytes: "x < 256 ^ n \<Longrightarrow> be_value (be_bytes n x) = x"
proof (induction n arbitrary: x)
  case (Suc n)
  have "x div 256 ^ n < 256" using Suc.prems by (simp add: less_mult_imp_div_less)
  then show ?case using Suc.IH [of "x mod 256 ^ n"] by (simp add: be_value_Cons unat_byte div_mult_mod_eq)
qed simp

lemma be_bytes_less:
  "x < 256 ^ n \<Longrightarrow> y < 256 ^ n \<Longrightarrow> be_bytes n x < be_bytes n y \<longleftrightarrow> x < y"
proof (induction n arbitrary: x y)
  case (Suc n)
  let ?b = "256 ^ n :: nat"
  have d: "x div ?b < 256" "y div ?b < 256" using Suc.prems by (simp_all add: less_mult_imp_div_less)
  have w: "(word_of_nat (x div ?b) :: byte) < word_of_nat (y div ?b) \<longleftrightarrow> x div ?b < y div ?b"
    "(word_of_nat (x div ?b) :: byte) = word_of_nat (y div ?b) \<longleftrightarrow> x div ?b = y div ?b"
    using d by (simp_all add: word_less_nat_alt unat_byte word_unat_eq_iff)
  have "x < y \<longleftrightarrow> x div ?b < y div ?b \<or> (x div ?b = y div ?b \<and> x mod ?b < y mod ?b)"
  proof (cases "x div ?b" "y div ?b" rule: linorder_cases)
    case less
    then have "x < y" by (metis div_le_mono linorder_not_less)
    with less show ?thesis by simp
  next
    case equal
    then show ?thesis by (metis div_mult_mod_eq nat_add_left_cancel_less less_irrefl)
  next
    case greater
    then have "y < x" by (metis div_le_mono linorder_not_less)
    with greater show ?thesis by simp
  qed
  then show ?case using Suc.IH [of "x mod ?b" "y mod ?b"] w by (simp add: Cons_less_Cons)
qed simp

lemma unat64_bound: "unat (v :: uint64) < 256 ^ 8"
  using unsigned_less [of v, where ?'a = nat] by simp

lemma unat32_bound: "unat (v :: uint32) < 256 ^ 4"
  using unsigned_less [of v, where ?'a = nat] by simp

lemma Uint64_Put [simp]: "Uint64 (PutUint64 v) = v"
  by (simp add: Uint64_def PutUint64_def be_value_bytes [OF unat64_bound])

lemma Uint32_Put [simp]: "Uint32 (PutUint32 v) = v"
  by (simp add: Uint32_def PutUint32_def be_value_bytes [OF unat32_bound])

lemma length_Put [simp]: "length (PutUint64 v) = 8" "length (PutUint32 w) = 4"
  by (simp_all add: PutUint64_def PutUint32_def)

lemma PutUint64_inj [simp]: "PutUint64 v = PutUint64 w \<longleftrightarrow> v = w"
  by (metis Uint64_Put)

lemma PutUint32_inj [simp]: "PutUint32 v = PutUint32 w \<longleftrightarrow> v = w"
  by (metis Uint32_Put)

lemma PutUint64_less: "PutUint64 v < PutUint64 w \<longleftrightarrow> v < w"
  by (simp add: PutUint64_def be_bytes_less [OF unat64_bound unat64_bound] word_less_nat_alt)

text \<open>On non-negative versions the order of the keys is the signed order.\<close>

lemma PutUint64_less_signed:
  assumes "0 \<le> sint (v :: int64)" "0 \<le> sint (w :: int64)"
  shows "PutUint64 v < PutUint64 w \<longleftrightarrow> sint v < sint w"
proof -
  have "uint u = sint u" if "0 \<le> sint u" for u :: int64
    using that sint64_bounds(2) [of u] by (simp add: uint_sint take_bit_int_eq_self)
  with assms show ?thesis by (simp add: PutUint64_less word_less_def)
qed

section \<open>The database\<close>

type_synonym bpath = "bytes list"

text \<open>
  \<open>bo_create\<close> is \<open>CreateBucketIfNotExists\<close> and \<open>bo_has\<close> tells whether \<open>Bucket\<close> is not nil;
  \<open>bo_items\<close> lists a bucket as a cursor walks it from \<open>First\<close> by \<open>Next\<close>. A database file is
  opened with \<open>bo_open\<close> (by shard number, \<open>None\<close> for the index). \<open>bo_commit\<close> is the error of
  committing an \<open>Update\<close>, \<open>bo_view\<close> that of starting a \<open>View\<close>.
\<close>

record 'd bolt_ops =
  bo_empty :: 'd
  bo_has :: "'d \<Rightarrow> bpath \<Rightarrow> bool"
  bo_create :: "'d \<Rightarrow> bpath \<Rightarrow> goerr + 'd"
  bo_get :: "'d \<Rightarrow> bpath \<Rightarrow> bytes \<Rightarrow> bytes option"
  bo_put :: "'d \<Rightarrow> bpath \<Rightarrow> bytes \<Rightarrow> bytes \<Rightarrow> goerr + 'd"
  bo_items :: "'d \<Rightarrow> bpath \<Rightarrow> (bytes \<times> bytes) list"
  bo_open :: "uint32 option \<Rightarrow> goerr option"
  bo_commit :: "'d \<Rightarrow> 'd \<Rightarrow> goerr option"
  bo_view :: "'d \<Rightarrow> goerr option"

definition bolt_laws :: "'d bolt_ops \<Rightarrow> bool" where
  "bolt_laws bo \<longleftrightarrow>
     (\<forall>p. \<not> bo_has bo (bo_empty bo) p)
     \<and> (\<forall>d p. \<not> bo_has bo d p \<longrightarrow> bo_items bo d p = [])
     \<and> (\<forall>d p. sorted_wrt (<) (map fst (bo_items bo d p)))
     \<and> (\<forall>d p k. bo_get bo d p k = map_of (bo_items bo d p) k)
     \<and> (\<forall>d p d'. bo_create bo d p = Inr d' \<longrightarrow>
          bo_has bo d' p \<and> (\<forall>q. q \<noteq> p \<longrightarrow> bo_has bo d' q = bo_has bo d q)
          \<and> (\<forall>q. bo_items bo d' q = bo_items bo d q))
     \<and> (\<forall>d p k v d'. bo_has bo d p \<longrightarrow> bo_put bo d p k v = Inr d' \<longrightarrow>
          (\<forall>q. bo_has bo d' q = bo_has bo d q)
          \<and> (\<forall>q. q \<noteq> p \<longrightarrow> bo_items bo d' q = bo_items bo d q)
          \<and> map_of (bo_items bo d' p) = (map_of (bo_items bo d p))(k \<mapsto> v))"

text \<open>\<open>db.Update\<close>: an error of the function or of the commit rolls the transaction back.\<close>

definition db_update :: "'d bolt_ops \<Rightarrow> 'd \<Rightarrow> ('d \<Rightarrow> goerr + 'd \<times> 'x) \<Rightarrow> 'd \<times> (goerr + 'x)" where
  "db_update bo d f =
     (case f d of
        Inl e \<Rightarrow> (d, Inl e)
      | Inr (d', x) \<Rightarrow> (case bo_commit bo d d' of Some e \<Rightarrow> (d, Inl e) | None \<Rightarrow> (d', Inr x)))"

definition db_view :: "'d bolt_ops \<Rightarrow> 'd \<Rightarrow> ('d \<Rightarrow> 'x) \<Rightarrow> goerr + 'x" where
  "db_view bo d f = (case bo_view bo d of Some e \<Rightarrow> Inl e | None \<Rightarrow> Inr (f d))"

lemma sorted_keys_unique:
  assumes "sorted_wrt (<) (map fst (xs :: (bytes \<times> bytes) list))" "sorted_wrt (<) (map fst ys)"
    and "map_of xs = map_of ys"
  shows "xs = ys"
proof -
  have dx: "distinct (map fst xs)" "distinct (map fst ys)"
    using assms(1,2) by (simp_all add: strict_sorted_iff)
  have "set (map fst xs) = set (map fst ys)"
    using arg_cong [OF assms(3), of dom] by (simp add: dom_map_of_conv_image_fst)
  then have k: "map fst xs = map fst ys"
    using assms(1,2) dx by (intro sorted_distinct_set_unique) (simp_all add: strict_sorted_iff)
  have "snd (xs ! i) = snd (ys ! i)" if "i < length xs" for i
  proof -
    have l: "length xs = length ys" using k by (metis length_map)
    have "map_of xs (fst (xs ! i)) = Some (snd (xs ! i))"
      using dx(1) that by (simp add: map_of_eq_Some_iff nth_mem)
    moreover have "map_of ys (fst (ys ! i)) = Some (snd (ys ! i))"
      using dx(2) that l by (simp add: map_of_eq_Some_iff nth_mem)
    moreover have "fst (xs ! i) = fst (ys ! i)" using k that l by (metis nth_map)
    ultimately show ?thesis using assms(3) by simp
  qed
  then have "map snd xs = map snd ys"
    using map_eq_imp_length_eq [OF k] by (intro nth_equalityI) simp_all
  with k show ?thesis by (metis zip_map_fst_snd)
qed

end
