(* ===== verification/BoltStore.thy ===== *)
theory BoltStore
  imports BoltDB Contracts
begin

text \<open>
  stores/boltdbstore/boltdbstore.go: an index database that assigns each aggregate to a shard,
  and a database per shard with a bucket per aggregate, keyed by big-endian version. \<open>Uint32\<close>
  panics on fewer than four bytes; \<open>bolt_inv\<close> keeps such values out of the buckets it reads.
  The mutex only guards the map of opened shards, and bbolt's write transactions are serial, so
  each method is one transition.
\<close>

section \<open>The store\<close>

definition indexBucket :: bytes where "indexBucket = bytes_of_string ''index''"
definition metaBucket :: bytes where "metaBucket = bytes_of_string ''meta''"
definition eventsBucket :: bytes where "eventsBucket = bytes_of_string ''events''"
definition metaNextShard :: bytes where "metaNextShard = bytes_of_string ''next_shard''"
definition metaMaxPerShard :: bytes where "metaMaxPerShard = bytes_of_string ''max_per_shard''"

definition defaultMaxPerShard :: int where
  "defaultMaxPerShard = 10000"

text \<open>\<open>bs_files\<close> are the contents of the shard files, \<open>bs_shards\<close> the opened ones.\<close>

record 'd bolt_store =
  bs_maxPerShard :: int
  bs_index :: 'd
  bs_files :: "uint32 \<Rightarrow> 'd"
  bs_shards :: "uint32 \<Rightarrow> bool"

text \<open>\<open>WithMaxPerShard\<close>.\<close>

definition WithMaxPerShard :: "int \<Rightarrow> int \<Rightarrow> int" where
  "WithMaxPerShard n current = (if n > 0 then n else current)"

definition uint32_of_opt :: "bytes option \<Rightarrow> uint32" where
  "uint32_of_opt v = Uint32 (case v of None \<Rightarrow> [] | Some b \<Rightarrow> b)"

definition bolt_initIndex :: "'d bolt_ops \<Rightarrow> int \<Rightarrow> 'd \<Rightarrow> 'd \<times> (goerr + unit)" where
  "bolt_initIndex bo maxPerShard db =
     db_update bo db (\<lambda>tx.
       case bo_create bo tx [indexBucket] of
         Inl e \<Rightarrow> Inl e
       | Inr tx1 \<Rightarrow> (case bo_create bo tx1 [metaBucket] of
           Inl e \<Rightarrow> Inl e
         | Inr tx2 \<Rightarrow>
             (case (if bo_get bo tx2 [metaBucket] metaNextShard = None
                    then bo_put bo tx2 [metaBucket] metaNextShard (PutUint32 1) else Inr tx2) of
                Inl e \<Rightarrow> Inl e
              | Inr tx3 \<Rightarrow>
                  (case (if bo_get bo tx3 [metaBucket] metaMaxPerShard = None
                         then bo_put bo tx3 [metaBucket] metaMaxPerShard (PutUint32 (word_of_int maxPerShard))
                         else Inr tx3) of
                     Inl e \<Rightarrow> Inl e
                   | Inr tx4 \<Rightarrow> Inr (tx4, ())))))"

text \<open>\<open>New\<close> over the files on disk; \<open>mkdir\<close> is the error of \<open>os.MkdirAll\<close>.\<close>

definition bolt_New ::
    "'d bolt_ops \<Rightarrow> goerr option \<Rightarrow> (int \<Rightarrow> int) list \<Rightarrow> 'd \<Rightarrow> (uint32 \<Rightarrow> 'd) \<Rightarrow> goerr + 'd bolt_store" where
  "bolt_New bo mkdir opts index files =
     (let maxPerShard = fold (\<lambda>opt n. opt n) opts defaultMaxPerShard
      in case mkdir of
           Some e \<Rightarrow> Inl (errorf ''create directory: '' e)
         | None \<Rightarrow> (case bo_open bo None of
             Some e \<Rightarrow> Inl (errorf ''open index db: '' e)
           | None \<Rightarrow> (case bolt_initIndex bo maxPerShard index of
               (index', Inl e) \<Rightarrow> Inl e
             | (index', Inr _) \<Rightarrow>
                 Inr \<lparr>bs_maxPerShard = maxPerShard, bs_index = index', bs_files = files,
                      bs_shards = (\<lambda>_. False)\<rparr>)))"

section \<open>Shards\<close>

definition bolt_countInShard :: "'d bolt_ops \<Rightarrow> 'd \<Rightarrow> uint32 \<Rightarrow> nat" where
  "bolt_countInShard bo tx shardNum =
     length (filter (\<lambda>kv. Uint32 (snd kv) = shardNum) (bo_items bo tx [indexBucket]))"

definition bolt_assign_tx :: "'d bolt_ops \<Rightarrow> bytes \<Rightarrow> 'd \<Rightarrow> goerr + 'd \<times> uint32" where
  "bolt_assign_tx bo aid tx =
     (case bo_get bo tx [indexBucket] aid of
        Some v \<Rightarrow> Inr (tx, Uint32 v)
      | None \<Rightarrow>
          (let nextShard = uint32_of_opt (bo_get bo tx [metaBucket] metaNextShard);
               count = bolt_countInShard bo tx nextShard;
               maxPerShard = uint (uint32_of_opt (bo_get bo tx [metaBucket] metaMaxPerShard))
           in case (if int count \<ge> maxPerShard
                    then (case bo_put bo tx [metaBucket] metaNextShard (PutUint32 (nextShard + 1)) of
                            Inl e \<Rightarrow> Inl e | Inr tx' \<Rightarrow> Inr (tx', nextShard + 1))
                    else Inr (tx, nextShard)) of
                Inl e \<Rightarrow> Inl e
              | Inr (tx1, shard) \<Rightarrow>
                  (case bo_put bo tx1 [indexBucket] aid (PutUint32 shard) of
                     Inl e \<Rightarrow> Inl e
                   | Inr tx2 \<Rightarrow> Inr (tx2, shard))))"

definition bolt_assignShard ::
    "'d bolt_ops \<Rightarrow> 'd bolt_store \<Rightarrow> string \<Rightarrow> 'd bolt_store \<times> (goerr + uint32)" where
  "bolt_assignShard bo s aggregateID =
     (case db_update bo (bs_index s) (bolt_assign_tx bo (bytes_of_string aggregateID)) of
        (index', res) \<Rightarrow> (s\<lparr>bs_index := index'\<rparr>, res))"

definition bolt_lookupShard ::
    "'d bolt_ops \<Rightarrow> 'd bolt_store \<Rightarrow> string \<Rightarrow> goerr + uint32 option" where
  "bolt_lookupShard bo s aggregateID =
     db_view bo (bs_index s) (\<lambda>tx.
       case bo_get bo tx [indexBucket] (bytes_of_string aggregateID) of
         None \<Rightarrow> None | Some v \<Rightarrow> Some (Uint32 v))"

definition bolt_openShard :: "'d bolt_ops \<Rightarrow> 'd bolt_store \<Rightarrow> uint32 \<Rightarrow> 'd bolt_store \<times> goerr option" where
  "bolt_openShard bo s num =
     (if bs_shards s num then (s, None)
      else (case bo_open bo (Some num) of
          Some e \<Rightarrow> (s, Some (errorf (''open shard '' @ dec_nat (unat num) @ '': '') e))
        | None \<Rightarrow> (s\<lparr>bs_shards := (bs_shards s)(num := True)\<rparr>, None)))"

section \<open>Save, Load and LoadTail\<close>

fun bolt_put_all ::
    "'d bolt_ops \<Rightarrow> bpath \<Rightarrow> pb_record list \<Rightarrow> 'd \<Rightarrow> goerr + 'd" where
  "bolt_put_all bo p [] tx = Inr tx"
| "bolt_put_all bo p (rec # recs) tx =
     (case bo_put bo tx p (PutUint64 (rec_version rec)) (rec_data rec) of
        Inl e \<Rightarrow> Inl e
      | Inr tx' \<Rightarrow> bolt_put_all bo p recs tx')"

definition bolt_save_tx ::
    "'d bolt_ops \<Rightarrow> bytes \<Rightarrow> pb_record list \<Rightarrow> 'd \<Rightarrow> goerr + 'd \<times> unit" where
  "bolt_save_tx bo aid records tx =
     (case bo_create bo tx [eventsBucket] of
        Inl e \<Rightarrow> Inl e
      | Inr tx1 \<Rightarrow> (case bo_create bo tx1 [eventsBucket, aid] of
          Inl e \<Rightarrow> Inl e
        | Inr tx2 \<Rightarrow> (case bolt_put_all bo [eventsBucket, aid] records tx2 of
            Inl e \<Rightarrow> Inl e
          | Inr tx3 \<Rightarrow> Inr (tx3, ()))))"

definition bolt_Save ::
    "'d bolt_ops \<Rightarrow> goerr option \<Rightarrow> 'd bolt_store \<Rightarrow> string \<Rightarrow> pb_record list \<Rightarrow>
     'd bolt_store \<times> goerr option" where
  "bolt_Save bo ctxErr s aggregateID records =
     (case ctxErr of
        Some e \<Rightarrow> (s, Some (errorf ''save failed: context error: '' e))
      | None \<Rightarrow> (case bolt_assignShard bo s aggregateID of
          (s1, Inl e) \<Rightarrow> (s1, Some (errorf ''assign shard: '' e))
        | (s1, Inr num) \<Rightarrow> (case bolt_openShard bo s1 num of
            (s2, Some e) \<Rightarrow> (s2, Some (errorf ''open shard: '' e))
          | (s2, None) \<Rightarrow>
              (case db_update bo (bs_files s2 num)
                      (bolt_save_tx bo (bytes_of_string aggregateID) records) of
                 (file, res) \<Rightarrow>
                   (s2\<lparr>bs_files := (bs_files s2)(num := file)\<rparr>,
                    case res of Inl e \<Rightarrow> Some e | Inr _ \<Rightarrow> None)))))"

definition bolt_record :: "bytes \<times> bytes \<Rightarrow> pb_record" where
  "bolt_record kv = \<lparr>rec_version = Uint64 (fst kv), rec_data = snd kv, rec_ttl = 0\<rparr>"

text \<open>The records of an aggregate's bucket; a missing bucket is read as no records.\<close>

definition bolt_bucket_items :: "'d bolt_ops \<Rightarrow> bytes \<Rightarrow> 'd \<Rightarrow> (bytes \<times> bytes) list" where
  "bolt_bucket_items bo aid tx =
     (if \<not> bo_has bo tx [eventsBucket] then []
      else if \<not> bo_has bo tx [eventsBucket, aid] then []
      else bo_items bo tx [eventsBucket, aid])"

definition bolt_load_with ::
    "'d bolt_ops \<Rightarrow> string \<Rightarrow> (bytes \<Rightarrow> 'd \<Rightarrow> history) \<Rightarrow> goerr option \<Rightarrow> 'd bolt_store \<Rightarrow> string \<Rightarrow>
     'd bolt_store \<times> (goerr + history)" where
  "bolt_load_with bo what read ctxErr s aggregateID =
     (case ctxErr of
        Some e \<Rightarrow> (s, Inl (errorf (what @ '' failed: context error: '') e))
      | None \<Rightarrow> (case bolt_lookupShard bo s aggregateID of
          Inl e \<Rightarrow> (s, Inl (errorf ''lookup shard: '' e))
        | Inr None \<Rightarrow> (s, Inr [])
        | Inr (Some num) \<Rightarrow> (case bolt_openShard bo s num of
            (s1, Some e) \<Rightarrow> (s1, Inl (errorf ''open shard: '' e))
          | (s1, None) \<Rightarrow> (s1, db_view bo (bs_files s1 num) (read (bytes_of_string aggregateID))))))"

definition bolt_Load ::
    "'d bolt_ops \<Rightarrow> goerr option \<Rightarrow> 'd bolt_store \<Rightarrow> string \<Rightarrow> 'd bolt_store \<times> (goerr + history)" where
  "bolt_Load bo = bolt_load_with bo ''load'' (\<lambda>aid tx. map bolt_record (bolt_bucket_items bo aid tx))"

text \<open>The walk from \<open>Last\<close> by \<open>Prev\<close>, at most \<open>n\<close> steps, then reversed.\<close>

definition bolt_LoadTail ::
    "'d bolt_ops \<Rightarrow> goerr option \<Rightarrow> 'd bolt_store \<Rightarrow> string \<Rightarrow> int \<Rightarrow> 'd bolt_store \<times> (goerr + history)" where
  "bolt_LoadTail bo ctxErr s aggregateID n =
     bolt_load_with bo ''load tail''
       (\<lambda>aid tx. rev (map bolt_record (take (nat n) (rev (bolt_bucket_items bo aid tx)))))
       ctxErr s aggregateID"

text \<open>
  \<open>Close\<close> turns an open store into the files it leaves; on a closed one, whose map of shards is
  empty and whose \<open>indexDB\<close> is nil, it does nothing. \<open>close\<close> is the error of closing a database,
  and \<open>order\<close> lists the opened shards as the loop ranges over their map.
\<close>

fun bolt_close_all ::
    "(uint32 option \<Rightarrow> goerr option) \<Rightarrow> uint32 option list \<Rightarrow> goerr option \<Rightarrow> goerr option" where
  "bolt_close_all close [] firstErr = firstErr"
| "bolt_close_all close (db # dbs) firstErr =
     bolt_close_all close dbs (case firstErr of None \<Rightarrow> close db | Some e \<Rightarrow> Some e)"

fun bolt_Close ::
    "(uint32 option \<Rightarrow> goerr option) \<Rightarrow> ((uint32 \<Rightarrow> bool) \<Rightarrow> uint32 list) \<Rightarrow>
     'd bolt_store + 'd \<times> (uint32 \<Rightarrow> 'd) \<Rightarrow> ('d bolt_store + 'd \<times> (uint32 \<Rightarrow> 'd)) \<times> goerr option" where
  "bolt_Close close order (Inl s) =
     (Inr (bs_index s, bs_files s),
      bolt_close_all close (map Some (order (bs_shards s)) @ [None]) None)"
| "bolt_Close close order (Inr files) = (Inr files, None)"

definition bolt_store_ops :: "'d bolt_ops \<Rightarrow> ('d bolt_store, 'm) store_ops" where
  "bolt_store_ops bo =
     \<lparr>st_save = bolt_Save bo, st_load = bolt_Load bo, st_writeback = (\<lambda>s k h. s),
      st_load_tail = Some (bolt_LoadTail bo), st_save_aggregate = None\<rparr>"

end
