(* ===== verification/BoltContract.thy ===== *)
theory BoltContract
  imports BoltStore
begin

text \<open>
  The Bolt store keeps the \<open>event_log_store\<close> contract, for every bbolt with its documented
  behaviour: the log of an aggregate is its bucket in the shard that the index names.
\<close>

lemma bolt_names [simp]:
  "indexBucket \<noteq> metaBucket" "metaBucket \<noteq> indexBucket"
  "metaNextShard \<noteq> metaMaxPerShard" "metaMaxPerShard \<noteq> metaNextShard"
  by (simp_all add: indexBucket_def metaBucket_def metaNextShard_def metaMaxPerShard_def)

text \<open>The laws, one by one.\<close>

lemma bolt_lawsD:
  assumes "bolt_laws bo"
  shows bolt_items_none: "\<not> bo_has bo d p \<Longrightarrow> bo_items bo d p = []"
    and bolt_items_sorted: "sorted_wrt (<) (map fst (bo_items bo d p))"
    and bolt_get: "bo_get bo d p k = map_of (bo_items bo d p) k"
    and bolt_create_has: "bo_create bo d p = Inr d' \<Longrightarrow> bo_has bo d' q = (q = p \<or> bo_has bo d q)"
    and bolt_create_items: "bo_create bo d p = Inr d' \<Longrightarrow> bo_items bo d' q = bo_items bo d q"
    and bolt_put_has: "bo_has bo d p \<Longrightarrow> bo_put bo d p k v = Inr d' \<Longrightarrow> bo_has bo d' q = bo_has bo d q"
    and bolt_put_other: "bo_has bo d p \<Longrightarrow> bo_put bo d p k v = Inr d' \<Longrightarrow> q \<noteq> p \<Longrightarrow>
      bo_items bo d' q = bo_items bo d q"
    and bolt_put_items: "bo_has bo d p \<Longrightarrow> bo_put bo d p k v = Inr d' \<Longrightarrow>
      map_of (bo_items bo d' p) = (map_of (bo_items bo d p))(k \<mapsto> v)"
proof -
  note L = assms [unfolded bolt_laws_def, THEN conjunct2]
  note items_none = L [THEN conjunct1, rule_format]
  note sorted = L [THEN conjunct2, THEN conjunct1, rule_format]
  note get = L [THEN conjunct2, THEN conjunct2, THEN conjunct1, rule_format]
  note create = L [THEN conjunct2, THEN conjunct2, THEN conjunct2, THEN conjunct1, rule_format]
  note put = L [THEN conjunct2, THEN conjunct2, THEN conjunct2, THEN conjunct2, rule_format]
  show "\<not> bo_has bo d p \<Longrightarrow> bo_items bo d p = []" by (rule items_none)
  show "sorted_wrt (<) (map fst (bo_items bo d p))" by (rule sorted)
  show "bo_get bo d p k = map_of (bo_items bo d p) k" by (rule get)
  show "bo_create bo d p = Inr d' \<Longrightarrow> bo_has bo d' q = (q = p \<or> bo_has bo d q)"
    by (cases "q = p") (auto dest: create)
  show "bo_create bo d p = Inr d' \<Longrightarrow> bo_items bo d' q = bo_items bo d q" by (blast dest: create)
  show "bo_has bo d p \<Longrightarrow> bo_put bo d p k v = Inr d' \<Longrightarrow> bo_has bo d' q = bo_has bo d q"
    by (blast dest: put)
  show "bo_has bo d p \<Longrightarrow> bo_put bo d p k v = Inr d' \<Longrightarrow> q \<noteq> p \<Longrightarrow> bo_items bo d' q = bo_items bo d q"
    by (blast dest: put)
  show "bo_has bo d p \<Longrightarrow> bo_put bo d p k v = Inr d' \<Longrightarrow>
      map_of (bo_items bo d' p) = (map_of (bo_items bo d p))(k \<mapsto> v)"
    by (blast dest: put)
qed

section \<open>Appending to a bucket\<close>

lemma bolt_put_last:
  assumes laws: "bolt_laws bo" and has: "bo_has bo d p" and put: "bo_put bo d p k v = Inr d'"
    and last: "sorted_wrt (<) (map fst (bo_items bo d p) @ [k])"
  shows "bo_items bo d' p = bo_items bo d p @ [(k, v)]"
proof (rule sorted_keys_unique)
  show "sorted_wrt (<) (map fst (bo_items bo d' p))" by (rule bolt_items_sorted [OF laws])
  show "sorted_wrt (<) (map fst (bo_items bo d p @ [(k, v)]))" using last by simp
  have "k \<notin> set (map fst (bo_items bo d p))" using last by (auto simp: sorted_wrt_append)
  then have "map_of (bo_items bo d p) k = None" by (simp add: map_of_eq_None_iff)
  then have "map_of (bo_items bo d p @ [(k, v)]) = (map_of (bo_items bo d p))(k \<mapsto> v)"
    by (auto simp: map_add_def fun_eq_iff split: option.splits)
  then show "map_of (bo_items bo d' p) = map_of (bo_items bo d p @ [(k, v)])"
    using bolt_put_items [OF laws has put] by simp
qed

lemma bolt_put_all_items:
  assumes laws: "bolt_laws bo"
  shows "bo_has bo d p \<Longrightarrow> bolt_put_all bo p recs d = Inr d' \<Longrightarrow>
    sorted_wrt (<) (map fst (bo_items bo d p) @ map (\<lambda>r. PutUint64 (rec_version r)) recs) \<Longrightarrow>
    bo_items bo d' p = bo_items bo d p @ map (\<lambda>r. (PutUint64 (rec_version r), rec_data r)) recs
    \<and> (\<forall>q. bo_has bo d' q = bo_has bo d q) \<and> (\<forall>q. q \<noteq> p \<longrightarrow> bo_items bo d' q = bo_items bo d q)"
proof (induction recs arbitrary: d)
  case Nil
  then show ?case by simp
next
  case (Cons r recs)
  from Cons.prems(2) obtain d1 where
    put: "bo_put bo d p (PutUint64 (rec_version r)) (rec_data r) = Inr d1" and rest: "bolt_put_all bo p recs d1 = Inr d'"
    by (auto split: sum.splits)
  have "sorted_wrt (<) (map fst (bo_items bo d p) @ [PutUint64 (rec_version r)])"
    using Cons.prems(3) by (auto simp: sorted_wrt_append)
  from bolt_put_last [OF laws Cons.prems(1) put this]
  have items: "bo_items bo d1 p = bo_items bo d p @ [(PutUint64 (rec_version r), rec_data r)]" .
  have has: "bo_has bo d1 q = bo_has bo d q" for q by (rule bolt_put_has [OF laws Cons.prems(1) put])
  have other: "q \<noteq> p \<Longrightarrow> bo_items bo d1 q = bo_items bo d q" for q
    by (rule bolt_put_other [OF laws Cons.prems(1) put])
  from Cons.IH [OF _ rest] Cons.prems(1,3) items has other show ?case by simp
qed

lemma ascending_keys: "ascending vs \<Longrightarrow> sorted_wrt (<) (map PutUint64 vs)"
  by (auto simp: ascending_def sorted_wrt_map PutUint64_less_signed intro: sorted_wrt_mono_rel [rotated])

section \<open>The log and the invariant\<close>

definition bolt_item_vd :: "bytes \<times> bytes \<Rightarrow> int64 \<times> bytes" where
  "bolt_item_vd kv = (Uint64 (fst kv), snd kv)"

definition bolt_bucket :: "'d bolt_ops \<Rightarrow> 'd bolt_store \<Rightarrow> uint32 \<Rightarrow> bytes \<Rightarrow> (bytes \<times> bytes) list" where
  "bolt_bucket bo s n aid = bo_items bo (bs_files s n) [eventsBucket, aid]"

definition bolt_shard_of :: "'d bolt_ops \<Rightarrow> 'd bolt_store \<Rightarrow> bytes \<Rightarrow> bytes option" where
  "bolt_shard_of bo s aid = bo_get bo (bs_index s) [indexBucket] aid"

definition bolt_log :: "'d bolt_ops \<Rightarrow> 'd bolt_store \<Rightarrow> string \<Rightarrow> (int64 \<times> bytes) list" where
  "bolt_log bo s k =
     (case bolt_shard_of bo s (bytes_of_string k) of
        None \<Rightarrow> []
      | Some v \<Rightarrow> map bolt_item_vd (bolt_bucket bo s (Uint32 v) (bytes_of_string k)))"

definition bolt_index_ok :: "'d bolt_ops \<Rightarrow> 'd \<Rightarrow> bool" where
  "bolt_index_ok bo d \<longleftrightarrow>
     bo_has bo d [indexBucket] \<and> bo_has bo d [metaBucket]
     \<and> (\<forall>k v. bo_get bo d [indexBucket] k = Some v \<longrightarrow> (\<exists>n. v = PutUint32 n))
     \<and> (\<exists>n. bo_get bo d [metaBucket] metaNextShard = Some (PutUint32 n))
     \<and> (\<exists>n. bo_get bo d [metaBucket] metaMaxPerShard = Some (PutUint32 n))"

definition bolt_files_ok :: "'d bolt_ops \<Rightarrow> 'd bolt_store \<Rightarrow> bool" where
  "bolt_files_ok bo s \<longleftrightarrow>
     (\<forall>n aid. bolt_bucket bo s n aid \<noteq> [] \<longrightarrow>
        bolt_shard_of bo s aid = Some (PutUint32 n) \<and> bo_has bo (bs_files s n) [eventsBucket])
     \<and> (\<forall>n aid. \<forall>kv \<in> set (bolt_bucket bo s n aid). \<exists>v. fst kv = PutUint64 v \<and> 0 \<le> sint v)"

definition bolt_inv :: "'d bolt_ops \<Rightarrow> 'd bolt_store \<Rightarrow> bool" where
  "bolt_inv bo s \<longleftrightarrow> bolt_index_ok bo (bs_index s) \<and> bolt_files_ok bo s"

lemma bolt_bucket_items_eq:
  assumes "bolt_laws bo" "bolt_inv bo s"
  shows "bolt_bucket_items bo aid (bs_files s n) = bolt_bucket bo s n aid"
proof (cases "bolt_bucket bo s n aid = []")
  case True
  then show ?thesis by (simp add: bolt_bucket_items_def bolt_bucket_def)
next
  case False
  with assms(2) have "bo_has bo (bs_files s n) [eventsBucket]"
    by (auto simp: bolt_inv_def bolt_files_ok_def)
  moreover have "bo_has bo (bs_files s n) [eventsBucket, aid]"
    using False bolt_items_none [OF assms(1), of "bs_files s n"] by (auto simp: bolt_bucket_def)
  ultimately show ?thesis by (simp add: bolt_bucket_items_def bolt_bucket_def)
qed

lemma bolt_openShard_files:
  "bolt_openShard bo s num = (s', res) \<Longrightarrow>
     bs_index s' = bs_index s \<and> bs_files s' = bs_files s"
  by (auto simp: bolt_openShard_def split: if_splits option.splits)

lemma bolt_inv_cong:
  assumes "bs_index s' = bs_index s" "bs_files s' = bs_files s"
  shows "bolt_inv bo s' = bolt_inv bo s" "bolt_log bo s' = bolt_log bo s"
proof -
  have b: "bolt_bucket bo s' = bolt_bucket bo s" "bolt_shard_of bo s' = bolt_shard_of bo s"
    using assms by (simp_all add: bolt_bucket_def bolt_shard_of_def fun_eq_iff)
  then show "bolt_inv bo s' = bolt_inv bo s" "bolt_log bo s' = bolt_log bo s"
    unfolding bolt_inv_def bolt_files_ok_def bolt_log_def [abs_def] b assms by simp_all
qed

section \<open>Shard assignment\<close>

lemma bolt_index_get:
  assumes "bolt_index_ok bo d" "bo_get bo d [indexBucket] k = Some v"
  obtains n where "v = PutUint32 n"
  using assms by (auto simp: bolt_index_ok_def)

lemma db_update_cases:
  assumes "db_update bo d f = (d', res)"
  obtains (kept) e where "d' = d" "res = Inl e"
  | (committed) x where "f d = Inr (d', x)" "res = Inr x"
  using assms by (auto simp: db_update_def split: sum.splits prod.splits option.splits)

text \<open>
  Assigning leaves every entry of the index as it was, but that a new aggregate gets the shard
  that is returned.
\<close>

lemma bolt_assign_tx_index:
  assumes laws: "bolt_laws bo" and ok: "bolt_index_ok bo d"
    and run: "bolt_assign_tx bo aid d = Inr (d', n)"
  shows "bolt_index_ok bo d'
    \<and> (\<forall>k. bo_get bo d' [indexBucket] k =
          (if k = aid then Some (PutUint32 n) else bo_get bo d [indexBucket] k))
    \<and> (bo_get bo d [indexBucket] aid \<noteq> None \<longrightarrow> d' = d)"
proof (cases "bo_get bo d [indexBucket] aid")
  case (Some v)
  then obtain m where "v = PutUint32 m" using ok by (auto elim: bolt_index_get)
  with Some run ok show ?thesis by (auto simp: bolt_assign_tx_def)
next
  case None
  let ?next = "uint32_of_opt (bo_get bo d [metaBucket] metaNextShard)"
  have has: "bo_has bo d [indexBucket]" "bo_has bo d [metaBucket]" using ok by (auto simp: bolt_index_ok_def)
  let ?full = "uint (uint32_of_opt (bo_get bo d [metaBucket] metaMaxPerShard)) \<le> int (bolt_countInShard bo d ?next)"
  obtain d1 where
    d1: "d1 = d \<or> bo_put bo d [metaBucket] metaNextShard (PutUint32 (?next + 1)) = Inr d1"
    and put: "bo_put bo d1 [indexBucket] aid (PutUint32 n) = Inr d'"
  proof (cases ?full)
    case True
    with run None obtain d0 where "bo_put bo d [metaBucket] metaNextShard (PutUint32 (?next + 1)) = Inr d0"
      "bo_put bo d0 [indexBucket] aid (PutUint32 n) = Inr d'"
      by (auto simp: bolt_assign_tx_def Let_def split: sum.splits)
    with that [of d0] show thesis by blast
  next
    case False
    with run None that [of d] show thesis
      by (auto simp: bolt_assign_tx_def Let_def split: sum.splits)
  qed
  have has1: "bo_has bo d1 p = bo_has bo d p" for p
    using d1 bolt_put_has [OF laws has(2)] by blast
  have idx1: "bo_items bo d1 [indexBucket] = bo_items bo d [indexBucket]"
    using d1 bolt_put_other [OF laws has(2)] by auto
  have meta1: "map_of (bo_items bo d1 [metaBucket]) = map_of (bo_items bo d [metaBucket])
      \<or> map_of (bo_items bo d1 [metaBucket])
          = (map_of (bo_items bo d [metaBucket]))(metaNextShard \<mapsto> PutUint32 (?next + 1))"
    using d1 bolt_put_items [OF laws has(2)] by blast
  have has1': "bo_has bo d1 [indexBucket]" using has1 has by simp
  have has2: "bo_has bo d' p = bo_has bo d p" for p
    using bolt_put_has [OF laws has1' put] has1 by simp
  have idx2: "map_of (bo_items bo d' [indexBucket])
      = (map_of (bo_items bo d [indexBucket]))(aid \<mapsto> PutUint32 n)"
    using bolt_put_items [OF laws has1' put] idx1 by simp
  have meta2: "bo_items bo d' [metaBucket] = bo_items bo d1 [metaBucket]"
    by (rule bolt_put_other [OF laws has1' put]) simp
  have "bolt_index_ok bo d'"
    unfolding bolt_index_ok_def bolt_get [OF laws]
  proof (intro conjI allI impI)
    show "bo_has bo d' [indexBucket]" "bo_has bo d' [metaBucket]" using has2 has by simp_all
    show "\<exists>m. v = PutUint32 m" if "map_of (bo_items bo d' [indexBucket]) k = Some v" for k v
      using that ok idx2 by (auto simp: bolt_index_ok_def bolt_get [OF laws] split: if_splits)
    show "\<exists>m. map_of (bo_items bo d' [metaBucket]) metaNextShard = Some (PutUint32 m)"
      "\<exists>m. map_of (bo_items bo d' [metaBucket]) metaMaxPerShard = Some (PutUint32 m)"
      using ok meta1 meta2 by (auto simp: bolt_index_ok_def bolt_get [OF laws])
  qed
  with idx2 None show ?thesis by (simp add: bolt_get [OF laws])
qed

lemma bolt_assignShard_log:
  assumes laws: "bolt_laws bo" and inv: "bolt_inv bo s"
    and run: "bolt_assignShard bo s k = (s', res)"
  shows "bolt_inv bo s' \<and> bolt_log bo s' = bolt_log bo s \<and> bs_files s' = bs_files s
    \<and> (\<forall>n. res = Inr n \<longrightarrow> bolt_shard_of bo s' (bytes_of_string k) = Some (PutUint32 n))"
proof -
  let ?aid = "bytes_of_string k"
  obtain d' where upd: "db_update bo (bs_index s) (bolt_assign_tx bo ?aid) = (d', res)"
      and s': "s' = s\<lparr>bs_index := d'\<rparr>"
    using run by (auto simp: bolt_assignShard_def split: prod.splits)
  from upd show ?thesis
  proof (cases rule: db_update_cases)
    case (kept e)
    with s' inv show ?thesis by simp
  next
    case (committed n)
    have ok: "bolt_index_ok bo (bs_index s)" and files: "bolt_files_ok bo s"
      using inv by (auto simp: bolt_inv_def)
    from bolt_assign_tx_index [OF laws ok committed(1)] have
      ok': "bolt_index_ok bo d'"
      and idx: "\<And>j. bolt_shard_of bo s' j = (if j = ?aid then Some (PutUint32 n) else bolt_shard_of bo s j)"
      and same: "bolt_shard_of bo s ?aid \<noteq> None \<Longrightarrow> d' = bs_index s"
      by (auto simp: bolt_shard_of_def s')
    have bucket: "bolt_bucket bo s' = bolt_bucket bo s"
      by (simp add: bolt_bucket_def s' fun_eq_iff)
    have new: "bolt_bucket bo s m ?aid = []" if "bolt_shard_of bo s ?aid = None" for m
      using files that unfolding bolt_files_ok_def by (metis option.distinct(1))
    have shard: "bolt_shard_of bo s' ?aid = bolt_shard_of bo s ?aid" if "bolt_shard_of bo s ?aid \<noteq> None"
      using same [OF that] by (simp add: bolt_shard_of_def s')
    have "bolt_files_ok bo s'"
      unfolding bolt_files_ok_def bucket
    proof (intro conjI allI impI)
      fix m j assume ne: "bolt_bucket bo s m j \<noteq> []"
      then show "bo_has bo (bs_files s' m) [eventsBucket]"
        using files by (auto simp: bolt_files_ok_def s')
      have "bolt_shard_of bo s j = Some (PutUint32 m)" using ne files by (auto simp: bolt_files_ok_def)
      with idx [of j] shard show "bolt_shard_of bo s' j = Some (PutUint32 m)" by (cases "j = ?aid") auto
    next
      fix m j
      show "\<forall>kv\<in>set (bolt_bucket bo s m j). \<exists>v. fst kv = PutUint64 v \<and> 0 \<le> sint v"
        using files by (auto simp: bolt_files_ok_def)
    qed
    moreover have "bolt_log bo s' j = bolt_log bo s j" for j
    proof (cases "j = k \<and> bolt_shard_of bo s ?aid = None")
      case True
      with idx [of ?aid] new show ?thesis by (simp add: bolt_log_def bucket)
    next
      case False
      with idx [of "bytes_of_string j"] shard have "bolt_shard_of bo s' (bytes_of_string j) = bolt_shard_of bo s (bytes_of_string j)"
        by auto
      then show ?thesis unfolding bolt_log_def bucket by simp
    qed
    ultimately show ?thesis
      using ok' idx [of ?aid] committed(2) s' by (auto simp: bolt_inv_def)
  qed
qed

section \<open>Saving and loading\<close>

lemma bolt_save_tx_items:
  assumes laws: "bolt_laws bo" and run: "bolt_save_tx bo aid recs d = Inr (d', u)"
    and sorted: "sorted_wrt (<) (map fst (bo_items bo d [eventsBucket, aid])
      @ map (\<lambda>r. PutUint64 (rec_version r)) recs)"
  shows "bo_items bo d' [eventsBucket, aid]
      = bo_items bo d [eventsBucket, aid] @ map (\<lambda>r. (PutUint64 (rec_version r), rec_data r)) recs"
    and "\<And>q. q \<noteq> [eventsBucket, aid] \<Longrightarrow> bo_items bo d' q = bo_items bo d q"
    and "bo_has bo d' [eventsBucket]"
proof -
  from run obtain d1 d2 where d1: "bo_create bo d [eventsBucket] = Inr d1"
    and d2: "bo_create bo d1 [eventsBucket, aid] = Inr d2"
    and d3: "bolt_put_all bo [eventsBucket, aid] recs d2 = Inr d'"
    by (auto simp: bolt_save_tx_def split: sum.splits)
  have items: "bo_items bo d2 q = bo_items bo d q" for q
    using bolt_create_items [OF laws d1] bolt_create_items [OF laws d2] by simp
  have has: "bo_has bo d2 [eventsBucket, aid]" "bo_has bo d2 [eventsBucket]"
    using bolt_create_has [OF laws d2] bolt_create_has [OF laws d1] by simp_all
  from bolt_put_all_items [OF laws has(1) d3] sorted items has(2)
  show "bo_items bo d' [eventsBucket, aid]
      = bo_items bo d [eventsBucket, aid] @ map (\<lambda>r. (PutUint64 (rec_version r), rec_data r)) recs"
    "\<And>q. q \<noteq> [eventsBucket, aid] \<Longrightarrow> bo_items bo d' q = bo_items bo d q"
    "bo_has bo d' [eventsBucket]"
    by simp_all
qed

lemma bolt_log_bucket:
  assumes "bolt_shard_of bo s (bytes_of_string k) = Some (PutUint32 n)"
  shows "bolt_log bo s k = map bolt_item_vd (bolt_bucket bo s n (bytes_of_string k))"
  by (simp add: bolt_log_def assms)

lemma bolt_bucket_keys:
  assumes "bolt_inv bo s"
  shows "map fst (bolt_bucket bo s n aid) = map PutUint64 (map fst (map bolt_item_vd (bolt_bucket bo s n aid)))"
  using assms by (fastforce simp: bolt_inv_def bolt_files_ok_def bolt_item_vd_def)

lemma bolt_extend_sorted:
  assumes inv: "bolt_inv bo s" and shard: "bolt_shard_of bo s (bytes_of_string k) = Some (PutUint32 n)"
    and ext: "extends_log (bolt_log bo s k) rs"
  shows "sorted_wrt (<) (map fst (bolt_bucket bo s n (bytes_of_string k))
           @ map (\<lambda>r. PutUint64 (rec_version r)) rs)"
proof -
  have "map fst (bolt_bucket bo s n (bytes_of_string k)) @ map (\<lambda>r. PutUint64 (rec_version r)) rs
      = map PutUint64 (map fst (bolt_log bo s k) @ map rec_version rs)"
    unfolding bolt_bucket_keys [OF inv] bolt_log_bucket [OF shard] by simp
  with ext show ?thesis by (simp only: extends_log_def ascending_keys)
qed

lemma bolt_commit_save:
  assumes laws: "bolt_laws bo" and inv: "bolt_inv bo s"
    and shard: "bolt_shard_of bo s (bytes_of_string k) = Some (PutUint32 n)"
    and ext: "extends_log (bolt_log bo s k) rs"
    and tx: "bolt_save_tx bo (bytes_of_string k) rs (bs_files s n) = Inr (content, u)"
  defines "s' \<equiv> s\<lparr>bs_files := (bs_files s)(n := content)\<rparr>"
  shows "bolt_inv bo s' \<and> bolt_log bo s' = (bolt_log bo s)(k := bolt_log bo s k @ map rec_vd rs)"
proof -
  let ?aid = "bytes_of_string k" and ?new = "map (\<lambda>r. (PutUint64 (rec_version r), rec_data r)) rs"
  note sorted = bolt_extend_sorted [OF inv shard ext, unfolded bolt_bucket_def]
  note items = bolt_save_tx_items [OF laws tx sorted]
  have idx: "bolt_shard_of bo s' = bolt_shard_of bo s"
    by (simp add: bolt_shard_of_def s'_def fun_eq_iff)
  have bucket: "bolt_bucket bo s' m j = (if m = n \<and> j = ?aid then bolt_bucket bo s n ?aid @ ?new
      else bolt_bucket bo s m j)" for m j
    using items(1,2) by (auto simp: bolt_bucket_def s'_def)
  have ok: "bolt_index_ok bo (bs_index s')" and files: "bolt_files_ok bo s"
    using inv by (auto simp: bolt_inv_def s'_def)
  have nonneg: "\<forall>r \<in> set rs. 0 \<le> sint (rec_version r)"
    using ext by (auto simp: extends_log_def ascending_def)
  have "bolt_files_ok bo s'"
    unfolding bolt_files_ok_def idx
  proof (intro conjI allI impI)
    fix m j assume ne: "bolt_bucket bo s' m j \<noteq> []"
    show "bolt_shard_of bo s j = Some (PutUint32 m)"
      using ne shard files by (auto simp: bucket bolt_files_ok_def split: if_splits)
    show "bo_has bo (bs_files s' m) [eventsBucket]"
    proof (cases "m = n")
      case True
      with items(3) show ?thesis by (simp add: s'_def)
    next
      case False
      with ne have "bolt_bucket bo s m j \<noteq> []" by (simp add: bucket)
      with False files show ?thesis by (auto simp: bolt_files_ok_def s'_def)
    qed
  next
    fix m j
    have "\<forall>kv\<in>set ?new. \<exists>v. fst kv = PutUint64 v \<and> 0 \<le> sint v" using nonneg by auto
    moreover have "\<forall>kv\<in>set (bolt_bucket bo s m j). \<exists>v. fst kv = PutUint64 v \<and> 0 \<le> sint v" for m j
      using files by (auto simp: bolt_files_ok_def)
    ultimately show "\<forall>kv\<in>set (bolt_bucket bo s' m j). \<exists>v. fst kv = PutUint64 v \<and> 0 \<le> sint v"
      unfolding bucket by (simp add: ball_Un)
  qed
  moreover have "bolt_log bo s' j = (if j = k then bolt_log bo s k @ map rec_vd rs else bolt_log bo s j)" for j
  proof (cases "j = k")
    case True
    have "map bolt_item_vd ?new = map rec_vd rs" by (simp add: bolt_item_vd_def rec_vd_def)
    with True shard show ?thesis
      using bolt_log_bucket [of bo s' k n] bolt_log_bucket [OF shard] by (simp add: idx bucket)
  next
    case False
    then have "bolt_bucket bo s' m (bytes_of_string j) = bolt_bucket bo s m (bytes_of_string j)" for m
      by (simp add: bucket)
    with False show ?thesis unfolding bolt_log_def idx by (simp split: option.splits)
  qed
  ultimately show ?thesis using ok by (auto simp: bolt_inv_def fun_eq_iff)
qed

lemma bolt_Save_log:
  assumes laws: "bolt_laws bo" and inv: "bolt_inv bo s" and ext: "extends_log (bolt_log bo s k) rs"
    and run: "bolt_Save bo ce s k rs = (s', res)"
  shows "bolt_inv bo s' \<and> bolt_log bo s'
      = (if res = None then (bolt_log bo s)(k := bolt_log bo s k @ map rec_vd rs) else bolt_log bo s)"
proof (cases ce)
  case (Some e)
  with run inv show ?thesis by (auto simp: bolt_Save_def)
next
  case None
  obtain s1 r1 where a: "bolt_assignShard bo s k = (s1, r1)" by fastforce
  note a1 = bolt_assignShard_log [OF laws inv a]
  show ?thesis
  proof (cases r1)
    case (Inl e)
    with run None a a1 show ?thesis by (auto simp: bolt_Save_def)
  next
    case (Inr n)
    obtain s2 r2 where o: "bolt_openShard bo s1 n = (s2, r2)" by fastforce
    note o1 = bolt_openShard_files [OF o]
    have inv2: "bolt_inv bo s2" "bolt_log bo s2 = bolt_log bo s"
      using a1 bolt_inv_cong [of s2 s1 bo] o1 by auto
    have shard2: "bolt_shard_of bo s2 (bytes_of_string k) = Some (PutUint32 n)"
      using a1 Inr o1 by (simp add: bolt_shard_of_def)
    show ?thesis
    proof (cases r2)
      case (Some e)
      with run None a Inr o inv2 show ?thesis by (auto simp: bolt_Save_def)
    next
      case r2: None
      obtain content r3 where u: "db_update bo (bs_files s2 n) (bolt_save_tx bo (bytes_of_string k) rs) = (content, r3)"
        by fastforce
      have s': "s' = s2\<lparr>bs_files := (bs_files s2)(n := content)\<rparr>" "res = (case r3 of Inl e \<Rightarrow> Some e | Inr _ \<Rightarrow> None)"
        using run None a Inr o r2 u by (auto simp: bolt_Save_def)
      from u show ?thesis
      proof (cases rule: db_update_cases)
        case (kept e)
        with s' have "bs_index s' = bs_index s2" "bs_files s' = bs_files s2" by auto
        from bolt_inv_cong [OF this, of bo] inv2 kept s' show ?thesis by simp
      next
        case (committed u')
        from bolt_commit_save [OF laws inv2(1) shard2 _ committed(1)] ext inv2(2) s' committed(2)
        show ?thesis by simp
      qed
    qed
  qed
qed

lemma bolt_load_with_log:
  assumes inv: "bolt_inv bo s" and run: "bolt_load_with bo what read ce s k = (s', res)"
  shows "bolt_inv bo s' \<and> bolt_log bo s' = bolt_log bo s
    \<and> (\<forall>h. res = Inr h \<longrightarrow> (bolt_shard_of bo s (bytes_of_string k) = None \<and> h = [])
         \<or> (\<exists>n. bolt_shard_of bo s (bytes_of_string k) = Some (PutUint32 n)
              \<and> h = read (bytes_of_string k) (bs_files s n)))"
proof -
  have shard: "\<exists>n. v = PutUint32 n" if "bolt_shard_of bo s (bytes_of_string k) = Some v" for v
    using that inv by (auto simp: bolt_inv_def bolt_shard_of_def bolt_index_ok_def)
  have keeps: "bs_index s' = bs_index s \<and> bs_files s' = bs_files s"
    using run by (auto simp: bolt_load_with_def dest!: bolt_openShard_files
        split: option.splits sum.splits prod.splits)
  have opened: "bs_files s1 = bs_files s" if "bolt_openShard bo s n = (s1, r)" for n s1 r
    using bolt_openShard_files [OF that] by simp
  have "(bolt_shard_of bo s (bytes_of_string k) = None \<and> h = [])
      \<or> (\<exists>n. bolt_shard_of bo s (bytes_of_string k) = Some (PutUint32 n) \<and> h = read (bytes_of_string k) (bs_files s n))"
    if h: "res = Inr h" for h
  proof (cases "bolt_shard_of bo s (bytes_of_string k)")
    case None
    with run h show ?thesis
      by (auto simp: bolt_load_with_def bolt_lookupShard_def bolt_shard_of_def db_view_def split: option.splits)
  next
    case (Some v)
    with shard obtain n where v: "v = PutUint32 n" by blast
    with run h Some have "h = read (bytes_of_string k) (bs_files s n)"
      by (auto simp: bolt_load_with_def bolt_lookupShard_def bolt_shard_of_def db_view_def opened
          split: option.splits prod.splits)
    with Some v show ?thesis by simp
  qed
  with keeps bolt_inv_cong [of s' s bo] inv show ?thesis by simp
qed

lemma bolt_record_vd: "map rec_vd (map bolt_record kvs) = map bolt_item_vd kvs"
  by (simp add: rec_vd_def bolt_record_def bolt_item_vd_def)

lemma bolt_log_none: "bolt_shard_of bo s (bytes_of_string k) = None \<Longrightarrow> bolt_log bo s k = []"
  by (simp add: bolt_log_def)

lemma bolt_Load_log:
  assumes laws: "bolt_laws bo" and inv: "bolt_inv bo s" and run: "bolt_Load bo ce s k = (s', r)"
  shows "bolt_inv bo s' \<and> bolt_log bo s' = bolt_log bo s \<and> (\<forall>h. r = Inr h \<longrightarrow> map rec_vd h = bolt_log bo s k)"
proof -
  note l = bolt_load_with_log [OF inv run [unfolded bolt_Load_def]]
  have "map rec_vd h = bolt_log bo s k" if "r = Inr h" for h
    using l that bolt_log_none bolt_log_bucket [of bo s k] bolt_bucket_items_eq [OF laws inv]
    by (metis (no_types, lifting) bolt_record_vd list.map_disc_iff)
  with l show ?thesis by blast
qed

lemma bolt_LoadTail_log:
  assumes laws: "bolt_laws bo" and inv: "bolt_inv bo s" and run: "bolt_LoadTail bo ce s k n = (s', r)"
  shows "bolt_inv bo s' \<and> bolt_log bo s' = bolt_log bo s
      \<and> (\<forall>h. r = Inr h \<longrightarrow> map rec_vd h = last_n (nat n) (bolt_log bo s k))"
proof -
  note l = bolt_load_with_log [OF inv run [unfolded bolt_LoadTail_def]]
  have tail: "map rec_vd (rev (map bolt_record (take j (rev kvs)))) = last_n j (map bolt_item_vd kvs)" for j kvs
    by (simp add: rev_map rev_take_rev map_last_n bolt_record_vd del: map_map)
  have "map rec_vd h = last_n (nat n) (bolt_log bo s k)" if "r = Inr h" for h
    using l that bolt_log_none bolt_log_bucket [of bo s k] bolt_bucket_items_eq [OF laws inv] tail
    by (metis (no_types, lifting) last_n_Nil list.map_disc_iff)
  with l show ?thesis by blast
qed

lemma bolt_event_log_store:
  assumes laws: "bolt_laws bo"
  shows "event_log_store (bolt_store_ops bo) (bolt_inv bo) (bolt_log bo)"
proof
  fix s s' ce k r
  assume inv: "bolt_inv bo s" and run: "st_load (bolt_store_ops bo) ce s k = (s', r)"
  then show "bolt_inv bo s' \<and> bolt_log bo s' = bolt_log bo s \<and> (\<forall>h. r = Inr h \<longrightarrow> map rec_vd h = bolt_log bo s k)"
    using bolt_Load_log [OF laws inv] by (simp add: bolt_store_ops_def)
next
  fix s s' ce k rs
  assume "bolt_inv bo s" "extends_log (bolt_log bo s k) rs" "st_save (bolt_store_ops bo) ce s k rs = (s', None)"
  then show "bolt_inv bo s' \<and> bolt_log bo s' = (bolt_log bo s)(k := bolt_log bo s k @ map rec_vd rs)"
    using bolt_Save_log [OF laws, of s k rs ce s' None] by (simp add: bolt_store_ops_def)
next
  fix s s' ce k rs e
  assume "bolt_inv bo s" "extends_log (bolt_log bo s k) rs" "st_save (bolt_store_ops bo) ce s k rs = (s', Some e)"
  then have "bolt_inv bo s' \<and> bolt_log bo s' = bolt_log bo s"
    using bolt_Save_log [OF laws, of s k rs ce s' "Some e"] by (simp add: bolt_store_ops_def)
  then show "bolt_inv bo s' \<and> (\<exists>n. bolt_log bo s' = (bolt_log bo s)(k := bolt_log bo s k @ take n (map rec_vd rs))
      \<and> (length rs \<le> 100 \<longrightarrow> n = 0))"
    by (auto intro: exI [of _ 0])
next
  fix s s' ce k h h'
  assume inv: "bolt_inv bo s" and run: "st_load (bolt_store_ops bo) ce s k = (s', Inr h)"
  then have "bolt_inv bo s'" using bolt_Load_log [OF laws inv] by (simp add: bolt_store_ops_def)
  then show "bolt_inv bo (st_writeback (bolt_store_ops bo) s' k h')
     \<and> (bolt_log bo (st_writeback (bolt_store_ops bo) s' k h') = bolt_log bo s'
        \<or> bolt_log bo (st_writeback (bolt_store_ops bo) s' k h') = (bolt_log bo s')(k := map rec_vd h'))"
    by (simp add: bolt_store_ops_def)
next
  fix s s' tail ce k n r
  assume inv: "bolt_inv bo s" and t: "st_load_tail (bolt_store_ops bo) = Some tail" and run: "tail ce s k n = (s', r)"
  then show "bolt_inv bo s' \<and> bolt_log bo s' = bolt_log bo s
      \<and> (\<forall>h. r = Inr h \<longrightarrow> map rec_vd h = last_n (nat n) (bolt_log bo s k))"
    using bolt_LoadTail_log [OF laws inv] by (auto simp: bolt_store_ops_def)
next
  fix tail s k h
  show "st_writeback (bolt_store_ops bo) s k h = s" by (simp add: bolt_store_ops_def)
next
  fix s ce m s' r' f
  assume "st_save_aggregate (bolt_store_ops bo) = Some f"
  then show "bolt_inv bo s' \<and> bolt_log bo s' = bolt_log bo s" by (simp add: bolt_store_ops_def)
qed

end
