(* ===== verification/BoltProperties.thy ===== *)
theory BoltProperties
  imports BoltContract Examples
begin

text \<open>
  The properties of the Bolt store, with a concrete bbolt for the witnesses: a database is a
  function from bucket paths to finite maps, and every operation succeeds.
\<close>

section \<open>A concrete bbolt\<close>

type_synonym plain_db = "bpath \<Rightarrow> (bytes, bytes) fmap option"

definition plain_items :: "plain_db \<Rightarrow> bpath \<Rightarrow> (bytes \<times> bytes) list" where
  "plain_items d p =
     (case d p of None \<Rightarrow> []
      | Some m \<Rightarrow> map (\<lambda>k. (k, the (fmlookup m k))) (sorted_list_of_fset (fmdom m)))"

definition plain_bolt :: "plain_db bolt_ops" where
  "plain_bolt =
     \<lparr>bo_empty = (\<lambda>_. None), bo_has = (\<lambda>d p. d p \<noteq> None),
      bo_create = (\<lambda>d p. Inr (case d p of None \<Rightarrow> d(p \<mapsto> fmempty) | Some _ \<Rightarrow> d)),
      bo_get = (\<lambda>d p k. case d p of None \<Rightarrow> None | Some m \<Rightarrow> fmlookup m k),
      bo_put = (\<lambda>d p k v. case d p of None \<Rightarrow> Inl (Foreign ''bucket not found'')
        | Some m \<Rightarrow> Inr (d(p \<mapsto> fmupd k v m))),
      bo_items = plain_items, bo_open = (\<lambda>_. None), bo_commit = (\<lambda>_ _. None), bo_view = (\<lambda>_. None)\<rparr>"

lemma plain_items_map: "map_of (plain_items d p) k = (case d p of None \<Rightarrow> None | Some m \<Rightarrow> fmlookup m k)"
proof (cases "d p")
  case None
  then show ?thesis by (simp add: plain_items_def)
next
  case (Some m)
  have "map_of (map (\<lambda>k. (k, the (fmlookup m k))) (sorted_list_of_fset (fmdom m))) k
      = (if k \<in> fset (fmdom m) then Some (the (fmlookup m k)) else None)"
    by (simp add: map_of_map_restrict restrict_map_def sorted_list_of_fset.rep_eq)
  also have "\<dots> = fmlookup m k" by (cases "fmlookup m k") (auto simp: fmlookup_dom_iff)
  finally show ?thesis using Some by (simp add: plain_items_def)
qed

lemma plain_items_keys: "map fst (plain_items d p)
    = (case d p of None \<Rightarrow> [] | Some m \<Rightarrow> sorted_list_of_fset (fmdom m))"
  by (simp add: plain_items_def comp_def split: option.splits)

lemma plain_bolt_laws: "bolt_laws plain_bolt"
proof -
  have "sorted_wrt (<) (map fst (plain_items d p))" for d p
    by (simp add: plain_items_keys sorted_list_of_fset.rep_eq split: option.splits)
  moreover have "map_of (plain_items (d(p \<mapsto> fmupd k v m)) p) = (map_of (plain_items d p))(k \<mapsto> v)"
    if "d p = Some m" for d p k v m
    using that by (simp add: fun_eq_iff plain_items_map)
  moreover have "plain_items (d(p \<mapsto> m)) q = plain_items d q" if "q \<noteq> p" for d p q m
    using that by (simp add: plain_items_def)
  moreover have "plain_items (d(p \<mapsto> fmempty)) q = plain_items d q" if "d p = None" for d p q
    using that by (simp add: plain_items_def sorted_list_of_fset.rep_eq)
  moreover have "plain_items d p = []" if "d p = None" for d p
    using that by (simp add: plain_items_def)
  ultimately show ?thesis
    by (auto simp: bolt_laws_def plain_bolt_def plain_items_map split: option.splits)
qed

section \<open>Opening a store\<close>

lemma bolt_initIndex_ok:
  assumes laws: "bolt_laws bo" and run: "bolt_initIndex bo m d = (d', Inr u)"
  shows "bo_has bo d' [indexBucket]" "bo_has bo d' [metaBucket]"
    and "bo_items bo d' [indexBucket] = bo_items bo d [indexBucket]"
    and "bo_get bo d' [metaBucket] metaNextShard
      = (case bo_get bo d [metaBucket] metaNextShard of None \<Rightarrow> Some (PutUint32 1) | Some v \<Rightarrow> Some v)"
    and "bo_get bo d' [metaBucket] metaMaxPerShard
      = (case bo_get bo d [metaBucket] metaMaxPerShard of
           None \<Rightarrow> Some (PutUint32 (word_of_int m)) | Some v \<Rightarrow> Some v)"
proof -
  define put_if where "put_if tx k v =
    (if bo_get bo tx [metaBucket] k = None then bo_put bo tx [metaBucket] k v else Inr tx)" for tx k v
  have put_if: "bo_has bo t q = bo_has bo tx q" "q \<noteq> [metaBucket] \<Longrightarrow> bo_items bo t q = bo_items bo tx q"
      "bo_get bo t [metaBucket] j = (if j = k \<and> bo_get bo tx [metaBucket] k = None then Some v else bo_get bo tx [metaBucket] j)"
    if "bo_has bo tx [metaBucket]" "put_if tx k v = Inr t" for tx t k v q j
    using that bolt_put_has [OF laws that(1)] bolt_put_other [OF laws that(1)] bolt_put_items [OF laws that(1)]
    by (auto simp: put_if_def bolt_get [OF laws] split: if_splits)
  from run obtain t1 t2 t3 where t1: "bo_create bo d [indexBucket] = Inr t1"
    and t2: "bo_create bo t1 [metaBucket] = Inr t2"
    and t3: "put_if t2 metaNextShard (PutUint32 1) = Inr t3"
    and t4: "put_if t3 metaMaxPerShard (PutUint32 (word_of_int m)) = Inr d'"
    unfolding bolt_initIndex_def put_if_def
    by (auto simp: db_update_def split: sum.splits prod.splits option.splits)
  have has2: "bo_has bo t2 [indexBucket]" "bo_has bo t2 [metaBucket]"
    using bolt_create_has [OF laws t2] bolt_create_has [OF laws t1] by simp_all
  have items2: "bo_items bo t2 q = bo_items bo d q" for q
    using bolt_create_items [OF laws t2] bolt_create_items [OF laws t1] by simp
  note p3 = put_if [OF has2(2) t3]
  have has3: "bo_has bo t3 [metaBucket]" using p3(1) has2 by simp
  note p4 = put_if [OF has3 t4]
  show "bo_has bo d' [indexBucket]" "bo_has bo d' [metaBucket]" using p4(1) p3(1) has2 by simp_all
  show "bo_items bo d' [indexBucket] = bo_items bo d [indexBucket]" using p4(2) p3(2) items2 by simp
  show "bo_get bo d' [metaBucket] metaNextShard
      = (case bo_get bo d [metaBucket] metaNextShard of None \<Rightarrow> Some (PutUint32 1) | Some v \<Rightarrow> Some v)"
    using p4(3) p3(3) items2 by (simp add: bolt_get [OF laws] split: option.splits)
  show "bo_get bo d' [metaBucket] metaMaxPerShard
      = (case bo_get bo d [metaBucket] metaMaxPerShard of
           None \<Rightarrow> Some (PutUint32 (word_of_int m)) | Some v \<Rightarrow> Some v)"
    using p4(3) p3(3) items2 by (simp add: bolt_get [OF laws] split: option.splits)
qed

text \<open>The contents of the files on disk: of new files, or of a store that was closed.\<close>

definition bolt_disk_ok :: "'d bolt_ops \<Rightarrow> 'd \<Rightarrow> (uint32 \<Rightarrow> 'd) \<Rightarrow> bool" where
  "bolt_disk_ok bo index files \<longleftrightarrow>
     (index = bo_empty bo \<and> (\<forall>n. files n = bo_empty bo))
     \<or> (\<exists>s. bolt_inv bo s \<and> bs_index s = index \<and> bs_files s = files)"

lemma bolt_New_inv:
  assumes laws: "bolt_laws bo" and disk: "bolt_disk_ok bo index files"
    and new: "bolt_New bo mkdir opts index files = Inr s'"
  defines "s0 \<equiv> \<lparr>bs_maxPerShard = 0, bs_index = index, bs_files = files, bs_shards = (\<lambda>_. False)\<rparr>"
  shows "bolt_inv bo s' \<and> bolt_log bo s' = bolt_log bo s0"
proof -
  obtain m u where ini: "bolt_initIndex bo m index = (bs_index s', Inr u)" and files: "bs_files s' = files"
    using new by (auto simp: bolt_New_def Let_def split: option.splits sum.splits prod.splits)
  note i = bolt_initIndex_ok [OF laws ini]
  have shard: "bolt_shard_of bo s' = bolt_shard_of bo s0"
    using i(3) by (simp add: bolt_shard_of_def s0_def bolt_get [OF laws] fun_eq_iff)
  have bucket: "bolt_bucket bo s' = bolt_bucket bo s0"
    by (simp add: bolt_bucket_def s0_def files fun_eq_iff)
  have log: "bolt_log bo s' = bolt_log bo s0"
    unfolding bolt_log_def [abs_def] shard bucket ..
  have none: "bo_items bo (bo_empty bo) p = []" for p
    using laws bolt_items_none [OF laws] by (simp add: bolt_laws_def)
  from disk have "bolt_index_ok bo (bs_index s') \<and> bolt_files_ok bo s'"
  proof (unfold bolt_disk_ok_def, elim disjE exE conjE)
    assume e: "index = bo_empty bo" "\<forall>n. files n = bo_empty bo"
    have "bolt_bucket bo s0 n aid = []" for n aid using e none by (simp add: bolt_bucket_def s0_def)
    moreover have "bolt_index_ok bo (bs_index s')"
      using i e none by (auto simp: bolt_index_ok_def bolt_get [OF laws])
    ultimately show ?thesis by (simp add: bolt_files_ok_def bucket)
  next
    fix s assume s: "bolt_inv bo s" "bs_index s = index" "bs_files s = files"
    have "bolt_index_ok bo (bs_index s')"
      using i s by (auto simp: bolt_inv_def bolt_index_ok_def bolt_get [OF laws] split: option.splits)
    moreover have "bolt_shard_of bo s0 = bolt_shard_of bo s" "bolt_bucket bo s0 = bolt_bucket bo s"
      using s by (simp_all add: bolt_shard_of_def bolt_bucket_def s0_def fun_eq_iff)
    ultimately show ?thesis using s files by (simp add: bolt_inv_def bolt_files_ok_def shard bucket)
  qed
  with log show ?thesis by (simp add: bolt_inv_def)
qed

section \<open>Shard sizes\<close>

definition bolt_next_shard :: "'d bolt_ops \<Rightarrow> 'd \<Rightarrow> uint32" where
  "bolt_next_shard bo d = uint32_of_opt (bo_get bo d [metaBucket] metaNextShard)"

definition bolt_max_per_shard :: "'d bolt_ops \<Rightarrow> 'd \<Rightarrow> int" where
  "bolt_max_per_shard bo d = uint (uint32_of_opt (bo_get bo d [metaBucket] metaMaxPerShard))"

text \<open>No shard holds more than the maximum, and shards above the current one are empty.\<close>

definition bolt_balanced :: "'d bolt_ops \<Rightarrow> 'd \<Rightarrow> bool" where
  "bolt_balanced bo d \<longleftrightarrow>
     (\<forall>n. int (bolt_countInShard bo d n) \<le> bolt_max_per_shard bo d)
     \<and> (\<forall>n. bolt_next_shard bo d < n \<longrightarrow> bolt_countInShard bo d n = 0)"

lemma bolt_count_card:
  assumes "bolt_laws bo"
  shows "bolt_countInShard bo d n = card {k. \<exists>v. bo_get bo d [indexBucket] k = Some v \<and> Uint32 v = n}"
    and "finite {k. \<exists>v. bo_get bo d [indexBucket] k = Some v \<and> Uint32 v = n}"
proof -
  let ?xs = "bo_items bo d [indexBucket]"
  have dx: "distinct (map fst ?xs)"
    using bolt_items_sorted [OF assms] by (simp add: strict_sorted_iff)
  have "{k. \<exists>v. bo_get bo d [indexBucket] k = Some v \<and> Uint32 v = n}
      = set (map fst (filter (\<lambda>kv. Uint32 (snd kv) = n) ?xs))"
    using dx by (force simp: bolt_get [OF assms] map_of_eq_Some_iff)
  moreover have "distinct (map fst (filter (\<lambda>kv. Uint32 (snd kv) = n) ?xs))"
    using dx by (rule distinct_map_filter)
  ultimately show "bolt_countInShard bo d n = card {k. \<exists>v. bo_get bo d [indexBucket] k = Some v \<and> Uint32 v = n}"
    "finite {k. \<exists>v. bo_get bo d [indexBucket] k = Some v \<and> Uint32 v = n}"
    using distinct_card by (fastforce simp: bolt_countInShard_def)+
qed

lemma bolt_count_new:
  assumes laws: "bolt_laws bo" and new: "bo_get bo d [indexBucket] aid = None"
    and idx: "\<And>k. bo_get bo d' [indexBucket] k = (if k = aid then Some (PutUint32 n) else bo_get bo d [indexBucket] k)"
  shows "bolt_countInShard bo d' m = bolt_countInShard bo d m + (if m = n then 1 else 0)"
proof -
  let ?K = "\<lambda>d. {k. \<exists>v. bo_get bo d [indexBucket] k = Some v \<and> Uint32 v = m}"
  have K: "?K d' = (if m = n then insert aid (?K d) else ?K d)"
    using new by (auto simp: idx split: if_splits)
  have "aid \<notin> ?K d" using new by simp
  from card_insert_disjoint [OF bolt_count_card(2) [OF laws] this] K show ?thesis
    by (cases "m = n") (simp_all add: bolt_count_card(1) [OF laws])
qed

lemma bolt_assign_tx_meta:
  assumes laws: "bolt_laws bo" and ok: "bolt_index_ok bo d"
    and run: "bolt_assign_tx bo aid d = Inr (d', n)" and new: "bo_get bo d [indexBucket] aid = None"
  shows "bolt_max_per_shard bo d' = bolt_max_per_shard bo d
    \<and> n = bolt_next_shard bo d'
    \<and> bolt_next_shard bo d' = (if int (bolt_countInShard bo d (bolt_next_shard bo d)) \<ge> bolt_max_per_shard bo d
          then bolt_next_shard bo d + 1 else bolt_next_shard bo d)"
proof -
  have has: "bo_has bo d [indexBucket]" "bo_has bo d [metaBucket]" using ok by (auto simp: bolt_index_ok_def)
  let ?next = "bolt_next_shard bo d"
  let ?full = "bolt_max_per_shard bo d \<le> int (bolt_countInShard bo d ?next)"
  show ?thesis
  proof (cases ?full)
    case True
    with run new obtain d0 where d0: "bo_put bo d [metaBucket] metaNextShard (PutUint32 (?next + 1)) = Inr d0"
      "bo_put bo d0 [indexBucket] aid (PutUint32 n) = Inr d'" "n = ?next + 1"
      by (auto simp: bolt_assign_tx_def bolt_next_shard_def bolt_max_per_shard_def Let_def split: sum.splits)
    have "bo_items bo d' [metaBucket] = bo_items bo d0 [metaBucket]"
      using bolt_put_other [OF laws _ d0(2)] bolt_put_has [OF laws has(2) d0(1)] has by simp
    with bolt_put_items [OF laws has(2) d0(1)] d0(3) True show ?thesis
      by (simp add: bolt_next_shard_def bolt_max_per_shard_def bolt_get [OF laws] uint32_of_opt_def)
  next
    case False
    with run new have put: "bo_put bo d [indexBucket] aid (PutUint32 n) = Inr d'" "n = ?next"
      by (auto simp: bolt_assign_tx_def bolt_next_shard_def bolt_max_per_shard_def Let_def split: sum.splits)
    have "bo_items bo d' [metaBucket] = bo_items bo d [metaBucket]"
      by (rule bolt_put_other [OF laws has(1) put(1)]) simp
    with put(2) False show ?thesis
      by (simp add: bolt_next_shard_def bolt_max_per_shard_def bolt_get [OF laws])
  qed
qed

lemma uint32_less_succ:
  assumes "(w :: uint32) \<noteq> - 1"
  shows "w < w + 1"
proof -
  have b: "unat w < 2 ^ 32" using unsigned_less [of w, where ?'a = nat] by simp
  have "unat w \<noteq> 2 ^ 32 - 1"
  proof
    assume "unat w = 2 ^ 32 - 1"
    moreover have "word_of_nat (unat w) = w" by simp
    ultimately have "w = word_of_nat (2 ^ 32 - 1)" by metis
    with assms show False by simp
  qed
  with b have "unat w + 1 < 2 ^ 32" by linarith
  then have "unat (w + 1) = unat w + 1"
    by (simp add: unat_word_ariths)
  then show ?thesis by (simp add: word_less_nat_alt)
qed

lemma bolt_assign_balanced:
  assumes laws: "bolt_laws bo" and ok: "bolt_index_ok bo d" and bal: "bolt_balanced bo d"
    and max: "0 < bolt_max_per_shard bo d" and nowrap: "bolt_next_shard bo d \<noteq> - 1"
    and run: "bolt_assign_tx bo aid d = Inr (d', n)"
  shows "bolt_balanced bo d'"
proof (cases "bo_get bo d [indexBucket] aid")
  case (Some v)
  with bolt_assign_tx_index [OF laws ok run] bal show ?thesis by simp
next
  case None
  note m = bolt_assign_tx_meta [OF laws ok run None]
  have idx: "bo_get bo d' [indexBucket] k = (if k = aid then Some (PutUint32 n) else bo_get bo d [indexBucket] k)" for k
    using bolt_assign_tx_index [OF laws ok run] by blast
  have count: "bolt_countInShard bo d' j = bolt_countInShard bo d j + (if j = n then 1 else 0)" for j
    by (rule bolt_count_new [OF laws None idx])
  let ?full = "int (bolt_countInShard bo d (bolt_next_shard bo d)) \<ge> bolt_max_per_shard bo d"
  have succ: "bolt_next_shard bo d < bolt_next_shard bo d + 1"
    by (rule uint32_less_succ [OF nowrap])
  have "int (bolt_countInShard bo d n) + 1 \<le> bolt_max_per_shard bo d"
  proof (cases ?full)
    case True
    with m succ bal have "bolt_countInShard bo d n = 0" by (simp add: bolt_balanced_def)
    with max show ?thesis by simp
  next
    case False
    with m show ?thesis by simp
  qed
  moreover have "bolt_next_shard bo d \<le> bolt_next_shard bo d'" using m succ by (simp add: order.strict_implies_order)
  ultimately show ?thesis
    using m bal count unfolding bolt_balanced_def
    by (auto intro: le_less_trans)
qed

section \<open>Properties\<close>

lemma plain_bolt_simps [simp]:
  "bo_empty plain_bolt = (\<lambda>_. None)" "bo_has plain_bolt d p \<longleftrightarrow> d p \<noteq> None"
  "bo_create plain_bolt d p = Inr (case d p of None \<Rightarrow> d(p \<mapsto> fmempty) | Some _ \<Rightarrow> d)"
  "bo_get plain_bolt d p k = (case d p of None \<Rightarrow> None | Some m \<Rightarrow> fmlookup m k)"
  "bo_put plain_bolt d p k v = (case d p of None \<Rightarrow> Inl (Foreign ''bucket not found'')
     | Some m \<Rightarrow> Inr (d(p \<mapsto> fmupd k v m)))"
  "bo_open plain_bolt f = None" "bo_commit plain_bolt d d' = None" "bo_view plain_bolt d = None"
  by (simp_all add: plain_bolt_def)

definition ex_bolt :: "plain_db bolt_store" where
  "ex_bolt = \<lparr>bs_maxPerShard = 10000,
     bs_index = ((\<lambda>_. None)([indexBucket] \<mapsto> fmempty))([metaBucket] \<mapsto>
        fmupd metaMaxPerShard (PutUint32 10000) (fmupd metaNextShard (PutUint32 1) fmempty)),
     bs_files = (\<lambda>_ _. None), bs_shards = (\<lambda>_. False)\<rparr>"

lemma ex_bolt_New: "bolt_New plain_bolt None [] (\<lambda>_. None) (\<lambda>_. \<lambda>_. None) = Inr ex_bolt"
  by (simp add: bolt_New_def bolt_initIndex_def db_update_def defaultMaxPerShard_def ex_bolt_def)

lemma ex_bolt_inv: "bolt_inv plain_bolt ex_bolt"
  and ex_bolt_log: "bolt_log plain_bolt ex_bolt k = []"
proof -
  have "bolt_disk_ok plain_bolt (\<lambda>_. None) (\<lambda>_. \<lambda>_. None)"
    by (simp add: bolt_disk_ok_def)
  note i = bolt_New_inv [OF plain_bolt_laws this ex_bolt_New]
  then show "bolt_inv plain_bolt ex_bolt" by blast
  show "bolt_log plain_bolt ex_bolt k = []"
    using i by (simp add: bolt_log_def bolt_shard_of_def)
qed

definition ex_recs :: "pb_record list" where
  "ex_recs = [\<lparr>rec_version = 1, rec_data = [5], rec_ttl = 0\<rparr>, \<lparr>rec_version = 300, rec_data = [6], rec_ttl = 0\<rparr>]"

lemma ex_bolt_save: "snd (bolt_Save plain_bolt None ex_bolt ''k'' ex_recs) = None"
proof -
  have "\<exists>d n. bolt_assign_tx plain_bolt (bytes_of_string ''k'') (bs_index ex_bolt) = Inr (d, n)"
    by (simp add: bolt_assign_tx_def ex_bolt_def Let_def split: if_split)
  then obtain d n where "bolt_assign_tx plain_bolt (bytes_of_string ''k'') (bs_index ex_bolt) = Inr (d, n)"
    by blast
  moreover have "bs_files ex_bolt = (\<lambda>_ _. None)" by (simp add: ex_bolt_def)
  ultimately show ?thesis
    by (simp add: bolt_Save_def bolt_assignShard_def db_update_def bolt_openShard_def bolt_save_tx_def ex_recs_def
        split: prod.splits)
qed

text \<open>
  Over any bbolt with its documented behaviour, a successful \<open>Save\<close> that extends an
  aggregate's log is seen by the next loads: \<open>Load\<close> returns the old records and then the new
  ones, in version order, \<open>LoadTail\<close> the last \<open>n\<close> of them, and no other aggregate's log changed.
\<close>

theorem bolt_save_then_load:
  assumes "bolt_laws bo" "bolt_inv bo s" "extends_log (bolt_log bo s k) rs"
    and "bolt_Save bo ce s k rs = (s1, None)"
    and "bolt_Load bo ce1 s1 j = (s2, Inr h)" "bolt_LoadTail bo ce2 s2 j n = (s3, Inr t)"
  shows "map rec_vd h = (if j = k then bolt_log bo s k @ map rec_vd rs else bolt_log bo s j)
    \<and> map rec_vd t = last_n (nat n) (map rec_vd h) \<and> bolt_inv bo s3"
  using bolt_Save_log [OF assms(1-4)] bolt_Load_log [OF assms(1) _ assms(5)]
    bolt_LoadTail_log [OF assms(1) _ assms(6)]
  by simp

theorem bolt_save_then_load_witness:
  "\<exists>s1. bolt_Save plain_bolt None ex_bolt ''k'' ex_recs = (s1, None) \<and> (\<exists>s2 h s3 t.
     bolt_Load plain_bolt None s1 ''k'' = (s2, Inr h) \<and> bolt_LoadTail plain_bolt None s2 ''k'' 1 = (s3, Inr t)
     \<and> map rec_vd h = [(1, [5]), (300, [6])] \<and> map rec_vd t = [(300, [6])])"
proof -
  obtain s1 where s1: "bolt_Save plain_bolt None ex_bolt ''k'' ex_recs = (s1, None)"
    using ex_bolt_save by (metis prod.collapse)
  have total: "\<exists>s' h. bolt_load_with plain_bolt what read None s k = (s', Inr h)" for what read s and k :: string
    by (auto simp: bolt_load_with_def bolt_lookupShard_def db_view_def plain_bolt_def bolt_openShard_def
        split: option.splits)
  obtain s2 h where s2: "bolt_Load plain_bolt None s1 ''k'' = (s2, Inr h)"
    using total unfolding bolt_Load_def by blast
  obtain s3 t where s3: "bolt_LoadTail plain_bolt None s2 ''k'' 1 = (s3, Inr t)"
    using total unfolding bolt_LoadTail_def by blast
  have ext: "extends_log (bolt_log plain_bolt ex_bolt ''k'') ex_recs"
    by (simp add: ex_bolt_log extends_log_def ascending_def ex_recs_def)
  have h: "map rec_vd h = [(1, [5]), (300, [6])]" and "map rec_vd t = last_n (nat 1) (map rec_vd h)"
    using bolt_save_then_load [OF plain_bolt_laws ex_bolt_inv ext s1 s2 s3]
    by (simp_all add: ex_bolt_log ex_recs_def rec_vd_def)
  then have "map rec_vd h = [(1, [5]), (300, [6])] \<and> map rec_vd t = [(300, [6])]"
    unfolding h by (simp add: last_n_def)
  with s1 s2 s3 show ?thesis
    by (intro exI [of _ s1] exI [of _ s2] exI [of _ h] exI [of _ s3] exI [of _ t] conjI) simp_all
qed

text \<open>
  C21. The Bolt store is an event-log store: over any bbolt with its documented behaviour it keeps
  the whole contract that the repository relies on, failed saves included (a failed save changes
  no log, since its transaction is rolled back).
\<close>

theorem bolt_keeps_contract:
  assumes "bolt_laws bo"
  shows "event_log_store (bolt_store_ops bo) (bolt_inv bo) (bolt_log bo)"
  by (rule bolt_event_log_store [OF assms])

theorem bolt_keeps_contract_witness:
  "event_log_store (bolt_store_ops plain_bolt) (bolt_inv plain_bolt) (bolt_log plain_bolt)"
  by (rule bolt_keeps_contract [OF plain_bolt_laws])

lemma bolt_close_all_none:
  "bolt_close_all close dbs firstErr = None \<longleftrightarrow> firstErr = None \<and> (\<forall>db \<in> set dbs. close db = None)"
  by (induction dbs arbitrary: firstErr) (auto split: option.splits)

text \<open>
  A Bolt store can be closed and opened again: \<open>Close\<close> leaves the files whether or not it
  succeeds, and succeeds exactly when every opened database closes; when \<open>New\<close> then succeeds over
  these files, with whatever options, the new store is well formed and has the logs the old one
  had. The option \<open>WithMaxPerShard\<close> has no effect on existing files: the maximum stored in them
  stays.
\<close>

theorem bolt_reopen:
  assumes "bolt_laws bo" "bolt_inv bo s"
    and "bolt_Close close order (Inl s) = (Inr (index, files), err)"
    and "set (order (bs_shards s)) = Collect (bs_shards s)"
    and "bolt_New bo mkdir opts index files = Inr s'"
  shows "bolt_inv bo s' \<and> bolt_log bo s' = bolt_log bo s
    \<and> bolt_max_per_shard bo (bs_index s') = bolt_max_per_shard bo (bs_index s)
    \<and> (err = None \<longleftrightarrow> close None = None \<and> (\<forall>num. bs_shards s num \<longrightarrow> close (Some num) = None))"
proof -
  have files: "index = bs_index s" "files = bs_files s"
    and err: "err = bolt_close_all close (map Some (order (bs_shards s)) @ [None]) None"
    using assms(3) by simp_all
  note new = assms(5) [unfolded files]
  have disk: "bolt_disk_ok bo (bs_index s) (bs_files s)" using assms(2) by (auto simp: bolt_disk_ok_def)
  obtain m u where ini: "bolt_initIndex bo m (bs_index s) = (bs_index s', Inr u)"
    using new by (auto simp: bolt_New_def Let_def split: option.splits sum.splits prod.splits)
  have "bolt_max_per_shard bo (bs_index s') = bolt_max_per_shard bo (bs_index s)"
    using bolt_initIndex_ok(5) [OF assms(1) ini] assms(2)
    by (auto simp: bolt_max_per_shard_def bolt_inv_def bolt_index_ok_def)
  moreover have "bolt_log bo \<lparr>bs_maxPerShard = 0, bs_index = bs_index s, bs_files = bs_files s, bs_shards = (\<lambda>_. False)\<rparr>
      = bolt_log bo s"
    by (rule bolt_inv_cong) simp_all
  moreover have "err = None \<longleftrightarrow> close None = None \<and> (\<forall>num. bs_shards s num \<longrightarrow> close (Some num) = None)"
    using assms(4) by (auto simp: err bolt_close_all_none)
  ultimately show ?thesis using bolt_New_inv [OF assms(1) disk new] by simp
qed

theorem bolt_reopen_witness:
  "\<exists>s'. bolt_Close (\<lambda>_. None) (\<lambda>_. []) (Inl ex_bolt) = (Inr (bs_index ex_bolt, bs_files ex_bolt), None)
     \<and> bolt_New plain_bolt None [WithMaxPerShard 5] (bs_index ex_bolt) (bs_files ex_bolt) = Inr s'
     \<and> bolt_inv plain_bolt s' \<and> bolt_log plain_bolt s' = bolt_log plain_bolt ex_bolt
     \<and> bolt_max_per_shard plain_bolt (bs_index s') = bolt_max_per_shard plain_bolt (bs_index ex_bolt)"
proof -
  have "\<exists>s'. bolt_New plain_bolt None [WithMaxPerShard 5] (bs_index ex_bolt) (bs_files ex_bolt) = Inr s'"
    by (simp add: bolt_New_def bolt_initIndex_def db_update_def ex_bolt_def)
  then obtain s' where s': "bolt_New plain_bolt None [WithMaxPerShard 5] (bs_index ex_bolt) (bs_files ex_bolt) = Inr s'"
    by blast
  have close: "bolt_Close (\<lambda>_. None) (\<lambda>_. []) (Inl ex_bolt) = (Inr (bs_index ex_bolt, bs_files ex_bolt), None)"
    by simp
  have "set [] = Collect (bs_shards ex_bolt)" by (simp add: ex_bolt_def)
  from bolt_reopen [OF plain_bolt_laws ex_bolt_inv close this s'] s' close show ?thesis by blast
qed

text \<open>
  C22. Shards stay within their bound: assigning an aggregate leaves an aggregate that is in the
  index in its shard, and keeps the number of aggregates of every shard at most the maximum,
  opening the next shard when the current one is full (until the 32-bit shard number runs out).
\<close>

theorem bolt_shards_bounded:
  assumes "bolt_laws bo" "bolt_inv bo s" "bolt_balanced bo (bs_index s)"
    and "0 < bolt_max_per_shard bo (bs_index s)" "bolt_next_shard bo (bs_index s) \<noteq> - 1"
    and "bolt_assignShard bo s k = (s', Inr n)"
  shows "bolt_balanced bo (bs_index s')
    \<and> bolt_shard_of bo s' (bytes_of_string k) = Some (PutUint32 n)
    \<and> (\<forall>v. bolt_shard_of bo s (bytes_of_string k) = Some v \<longrightarrow> v = PutUint32 n)"
proof -
  obtain d where upd: "db_update bo (bs_index s) (bolt_assign_tx bo (bytes_of_string k)) = (d, Inr n)"
      and s': "s' = s\<lparr>bs_index := d\<rparr>"
    using assms(6) by (auto simp: bolt_assignShard_def split: prod.splits)
  have ok: "bolt_index_ok bo (bs_index s)" using assms(2) by (simp add: bolt_inv_def)
  from upd have tx: "bolt_assign_tx bo (bytes_of_string k) (bs_index s) = Inr (d, n)"
    by (cases rule: db_update_cases) auto
  from bolt_assign_tx_index [OF assms(1) ok tx] have
    "bo_get bo d [indexBucket] (bytes_of_string k) = Some (PutUint32 n)"
    and same: "bo_get bo (bs_index s) [indexBucket] (bytes_of_string k) \<noteq> None \<longrightarrow> d = bs_index s" by simp_all
  with bolt_assign_balanced [OF assms(1) ok assms(3-5) tx] s' show ?thesis
    unfolding bolt_shard_of_def by auto
qed

theorem bolt_shards_bounded_witness:
  "\<exists>s' n. bolt_assignShard plain_bolt ex_bolt ''k'' = (s', Inr n) \<and> bolt_balanced plain_bolt (bs_index s')
     \<and> bolt_shard_of plain_bolt s' (bytes_of_string ''k'') = Some (PutUint32 n)"
proof -
  have "\<exists>d n. bolt_assign_tx plain_bolt (bytes_of_string ''k'') (bs_index ex_bolt) = Inr (d, n)"
    by (simp add: bolt_assign_tx_def ex_bolt_def Let_def split: if_split)
  then obtain s' n where a: "bolt_assignShard plain_bolt ex_bolt ''k'' = (s', Inr n)"
    by (auto simp: bolt_assignShard_def db_update_def)
  have "bolt_countInShard plain_bolt (bs_index ex_bolt) m = 0" for m
    by (simp add: bolt_count_card(1) [OF plain_bolt_laws] ex_bolt_def)
  then have bal: "bolt_balanced plain_bolt (bs_index ex_bolt)"
    by (simp add: bolt_balanced_def bolt_max_per_shard_def)
  have max: "0 < bolt_max_per_shard plain_bolt (bs_index ex_bolt)"
    and nxt: "bolt_next_shard plain_bolt (bs_index ex_bolt) \<noteq> - 1"
    by (simp_all add: bolt_max_per_shard_def bolt_next_shard_def ex_bolt_def uint32_of_opt_def)
  from bolt_shards_bounded [OF plain_bolt_laws ex_bolt_inv bal max nxt a] a show ?thesis by blast
qed

end
