(* ===== verification/Router.thy ===== *)
theory Router
  imports GoPrelude
begin

text \<open>
  router.go and, at the end, authz/. router.go: routes with path parameters, dispatch and CORS, and the request and response of
  protosource.go. A handler takes the state that handlers share and returns the new one with
  its response. A nil map is the empty map. \<open>http.Cookie\<close> is a type parameter \<open>'k\<close>.
\<close>

section \<open>Requests and responses\<close>

type_synonym string_map = "string \<Rightarrow> string option"

record request =
  rq_body :: string
  rq_path_parameters :: string_map
  rq_query_parameters :: string_map
  rq_headers :: string_map

record 'k response =
  rs_status :: int
  rs_body :: string
  rs_headers :: string_map
  rs_cookies :: "'k list"

type_synonym ('s, 'k) handler_func = "ctx \<Rightarrow> request \<Rightarrow> 's \<Rightarrow> 's \<times> 'k response"

definition get_or_empty :: "string_map \<Rightarrow> string \<Rightarrow> string" where
  "get_or_empty m k = (case m k of None \<Rightarrow> [] | Some v \<Rightarrow> v)"

section \<open>Paths\<close>

definition splitPath :: "string \<Rightarrow> string list" where
  "splitPath path = filter (\<lambda>p. p \<noteq> []) (split_on CHR ''/'' path)"

definition is_param :: "string \<Rightarrow> bool" where
  "is_param seg \<longleftrightarrow> length seg > 2 \<and> hd seg = CHR ''{'' \<and> last seg = CHR ''}''"

definition param_name :: "string \<Rightarrow> string" where
  "param_name seg = butlast (tl seg)"

fun match_loop :: "string list \<Rightarrow> string list \<Rightarrow> string_map \<Rightarrow> string_map option" where
  "match_loop (seg # pattern) (p # path) params =
     (if is_param seg then match_loop pattern path (params(param_name seg \<mapsto> p))
      else if seg \<noteq> p then None
      else match_loop pattern path params)"
| "match_loop _ _ params = Some params"

definition matchSegments :: "string list \<Rightarrow> string list \<Rightarrow> string_map option" where
  "matchSegments pattern path =
     (if length pattern \<noteq> length path then None else match_loop pattern path (\<lambda>_. None))"

section \<open>The router\<close>

record cors_config =
  co_allow_origins :: "string list"
  co_allow_methods :: string
  co_allow_headers :: string
  co_allow_credentials :: bool

record ('s, 'k) route =
  rt_method :: string
  rt_segments :: "string list"
  rt_handler :: "('s, 'k) handler_func"

record ('s, 'k) router =
  ro_routes :: "('s, 'k) route list"
  ro_cors :: "cors_config option"

definition router_Handle ::
    "string \<Rightarrow> string \<Rightarrow> ('s, 'k) handler_func \<Rightarrow> ('s, 'k) router \<Rightarrow> ('s, 'k) router" where
  "router_Handle meth pattern handler r =
     r\<lparr>ro_routes := ro_routes r @ [\<lparr>rt_method = meth, rt_segments = splitPath pattern, rt_handler = handler\<rparr>]\<rparr>"

definition NewRouter :: "(('s, 'k) router \<Rightarrow> ('s, 'k) router) list \<Rightarrow> ('s, 'k) router" where
  "NewRouter registrars = fold (\<lambda>reg r. reg r) registrars \<lparr>ro_routes = [], ro_cors = None\<rparr>"

definition router_SetCORS :: "cors_config \<Rightarrow> ('s, 'k) router \<Rightarrow> ('s, 'k) router" where
  "router_SetCORS cfg r = r\<lparr>ro_cors := Some cfg\<rparr>"

fun match_origin :: "string list \<Rightarrow> string \<Rightarrow> string" where
  "match_origin [] origin = []"
| "match_origin (o' # os) origin =
     (if o' = ''*'' then ''*'' else if o' = origin then origin else match_origin os origin)"

definition cors_matchOrigin :: "cors_config \<Rightarrow> string \<Rightarrow> string" where
  "cors_matchOrigin c origin = match_origin (co_allow_origins c) origin"

definition router_applyCORS :: "('s, 'k) router \<Rightarrow> string \<Rightarrow> 'k response \<Rightarrow> 'k response" where
  "router_applyCORS r origin resp =
     (case ro_cors r of
        None \<Rightarrow> resp
      | Some c \<Rightarrow>
          (let matched = cors_matchOrigin c origin
           in if matched = [] then resp
              else
                (let h1 = (rs_headers resp)(''Access-Control-Allow-Origin'' \<mapsto> matched,
                            ''Access-Control-Allow-Methods'' \<mapsto> co_allow_methods c,
                            ''Access-Control-Allow-Headers'' \<mapsto> co_allow_headers c);
                     h2 = (if matched \<noteq> ''*'' then h1(''Vary'' \<mapsto> ''Origin'') else h1);
                     h3 = (if co_allow_credentials c
                           then h2(''Access-Control-Allow-Credentials'' \<mapsto> ''true'') else h2)
                 in resp\<lparr>rs_headers := h3\<rparr>)))"

definition json_headers :: string_map where
  "json_headers = [''Content-Type'' \<mapsto> ''application/json'']"

text \<open>\<open>{"error":"..."}\<close>.\<close>

definition error_body :: "string \<Rightarrow> string" where
  "error_body msg = ''{'' @ quoted ''error'' @ '':'' @ quoted msg @ ''}''"

text \<open>
  The loop over the routes: the first route that matches path and method runs its handler with
  the parameters merged in; the flag remembers a match of the path alone.
\<close>

fun dispatch_loop ::
    "('s, 'k) route list \<Rightarrow> bool \<Rightarrow> ctx \<Rightarrow> string \<Rightarrow> string list \<Rightarrow> request \<Rightarrow> 's \<Rightarrow>
     's \<times> ('k response + bool)" where
  "dispatch_loop [] mismatch c meth segs rq s = (s, Inr mismatch)"
| "dispatch_loop (rt # rts) mismatch c meth segs rq s =
     (case matchSegments (rt_segments rt) segs of
        None \<Rightarrow> dispatch_loop rts mismatch c meth segs rq s
      | Some params \<Rightarrow>
          if rt_method rt \<noteq> meth then dispatch_loop rts True c meth segs rq s
          else (case rt_handler rt c (rq\<lparr>rq_path_parameters := rq_path_parameters rq ++ params\<rparr>) s of
                  (s', resp) \<Rightarrow> (s', Inl resp)))"

definition router_Dispatch ::
    "('s, 'k) router \<Rightarrow> ctx \<Rightarrow> string \<Rightarrow> string \<Rightarrow> request \<Rightarrow> 's \<Rightarrow> 's \<times> 'k response" where
  "router_Dispatch r c meth path rq s =
     (let origin = get_or_empty (rq_headers rq) ''origin''
      in if ro_cors r \<noteq> None \<and> meth = ''OPTIONS''
         then (s, router_applyCORS r origin
                    \<lparr>rs_status = 204, rs_body = [], rs_headers = (\<lambda>_. None), rs_cookies = []\<rparr>)
         else
           (case dispatch_loop (ro_routes r) False c meth (splitPath path) rq s of
              (s', Inl resp) \<Rightarrow> (s', router_applyCORS r origin resp)
            | (s', Inr True) \<Rightarrow>
                (s', router_applyCORS r origin
                   \<lparr>rs_status = 405, rs_body = error_body ''method not allowed'',
                    rs_headers = json_headers, rs_cookies = []\<rparr>)
            | (s', Inr False) \<Rightarrow>
                (s', router_applyCORS r origin
                   \<lparr>rs_status = 404, rs_body = error_body ''not found'',
                    rs_headers = json_headers, rs_cookies = []\<rparr>)))"

section \<open>Lemmas on paths\<close>

lemma splitPath_segments: "p \<in> set (splitPath path) \<Longrightarrow> p \<noteq> [] \<and> CHR ''/'' \<notin> set p"
  by (auto simp: splitPath_def dest: split_on_parts)

lemma splitPath_join:
  assumes "\<forall>p \<in> set ps. p \<noteq> [] \<and> CHR ''/'' \<notin> set p"
  shows "splitPath (join ''/'' ps) = ps"
proof (cases "ps = []")
  case True
  then show ?thesis by (simp add: splitPath_def)
next
  case False
  with assms have "split_on CHR ''/'' (join ''/'' ps) = ps" by (intro split_on_join) auto
  with assms show ?thesis by (simp add: splitPath_def)
qed

lemma splitPath_slash: "splitPath (CHR ''/'' # path) = splitPath path"
  by (simp add: splitPath_def)

lemma split_on_append: "\<exists>us v vs. split_on c s = us @ [v] \<and> split_on c (s @ c # t) = us @ [v] @ split_on c t"
proof (induction s)
  case Nil
  then show ?case by simp
next
  case (Cons x s)
  then obtain us v where ih: "split_on c s = us @ [v]" "split_on c (s @ c # t) = us @ [v] @ split_on c t" by blast
  show ?case
  proof (cases "x = c")
    case True
    with ih show ?thesis by (intro exI [of _ "[] # us"] exI [of _ v]) simp
  next
    case False
    with ih show ?thesis by (cases us) auto
  qed
qed

lemma splitPath_append: "splitPath (s @ CHR ''/'' # t) = splitPath s @ splitPath t"
  using split_on_append [of "CHR ''/''" s t] by (auto simp: splitPath_def)

text \<open>What it means for a path to match a pattern, with the parameters it binds.\<close>

definition seg_matches :: "string \<Rightarrow> string \<Rightarrow> bool" where
  "seg_matches seg p \<longleftrightarrow> is_param seg \<or> seg = p"

definition bindings :: "string list \<Rightarrow> string list \<Rightarrow> (string \<times> string) list" where
  "bindings pattern path =
     map (\<lambda>(seg, p). (param_name seg, p)) (filter (\<lambda>(seg, p). is_param seg) (zip pattern path))"

lemma match_loop_spec:
  "length pattern = length path \<Longrightarrow>
     match_loop pattern path params =
       (if list_all2 seg_matches pattern path
        then Some (params ++ map_of (rev (bindings pattern path))) else None)"
proof (induction pattern path arbitrary: params rule: list_induct2)
  case (Cons seg pattern p path)
  then show ?case
    by (cases "is_param seg"; cases "seg = p") (simp_all add: seg_matches_def bindings_def)
qed (simp add: bindings_def)

lemma matchSegments_spec:
  "matchSegments pattern path =
     (if list_all2 seg_matches pattern path then Some (map_of (rev (bindings pattern path))) else None)"
  using match_loop_spec [of pattern path "\<lambda>_. None"]
  by (auto simp: matchSegments_def list_all2_lengthD)

section \<open>Authorization\<close>

text \<open>
  authz/authorizer.go and authz/allowall: the values that an authorizer stores in the context,
  and the authorizer that lets everything through. An absent value, or one of another type, is
  read as the empty string.
\<close>

type_synonym authorizer = "ctx \<Rightarrow> request \<Rightarrow> string \<Rightarrow> goerr + ctx"

definition WithUserID :: "ctx \<Rightarrow> string \<Rightarrow> ctx" where
  "WithUserID c userID = c\<lparr>ctx_user_id := Some userID\<rparr>"

definition UserIDFromContext :: "ctx \<Rightarrow> string" where
  "UserIDFromContext c = (case ctx_user_id c of Some v \<Rightarrow> v | None \<Rightarrow> [])"

definition WithJWT :: "ctx \<Rightarrow> string \<Rightarrow> ctx" where
  "WithJWT c jwt = c\<lparr>ctx_jwt := Some jwt\<rparr>"

definition JWTFromContext :: "ctx \<Rightarrow> string" where
  "JWTFromContext c = (case ctx_jwt c of Some v \<Rightarrow> v | None \<Rightarrow> [])"

definition allowall_Authorize :: authorizer where
  "allowall_Authorize c request requiredFunction = Inr (WithUserID c ''Unknown'')"

lemma context_values [simp]:
  "UserIDFromContext (WithUserID c u) = u" "JWTFromContext (WithJWT c j) = j"
  "UserIDFromContext (WithJWT c j) = UserIDFromContext c"
  "JWTFromContext (WithUserID c u) = JWTFromContext c"
  "ctx_err (WithUserID c u) = ctx_err c" "ctx_err (WithJWT c j) = ctx_err c"
  by (simp_all add: WithUserID_def WithJWT_def UserIDFromContext_def JWTFromContext_def)

end
