(* ===== verification/RouterProperties.thy ===== *)
theory RouterProperties
  imports Router
begin

text \<open>
  The properties of the router: matching inverts filling a pattern, dispatch runs the first
  route that matches and answers 405 or 404 otherwise, and CORS never grants an origin that is
  not configured.
\<close>

text \<open>The path of a pattern with its parameters filled in.\<close>

definition fill_pattern :: "(string \<Rightarrow> string) \<Rightarrow> string list \<Rightarrow> string list" where
  "fill_pattern vals pattern = map (\<lambda>seg. if is_param seg then vals (param_name seg) else seg) pattern"

lemma bindings_fill:
  "bindings pattern (fill_pattern vals pattern)
     = map (\<lambda>seg. (param_name seg, vals (param_name seg))) (filter is_param pattern)"
  by (induction pattern) (simp_all add: bindings_def fill_pattern_def)

lemma match_fill: "list_all2 seg_matches pattern (fill_pattern vals pattern)"
  by (induction pattern) (simp_all add: fill_pattern_def seg_matches_def)

lemma map_of_graph: "map_of (map (\<lambda>x. (f x, g (f x))) xs) k = (if k \<in> f ` set xs then Some (g k) else None)"
  by (induction xs) auto

text \<open>
  Matching inverts filling. For every pattern and all parameter values that are non-empty and
  without a slash, the path built from the pattern by filling in the values matches it, whatever
  slashes the path has at its ends, and the match binds every parameter of the pattern to its
  value and nothing else.
\<close>

theorem match_inverts_fill:
  assumes "\<forall>seg \<in> set (splitPath pat). is_param seg \<longrightarrow>
      vals (param_name seg) \<noteq> [] \<and> CHR ''/'' \<notin> set (vals (param_name seg))"
  shows "matchSegments (splitPath pat)
      (splitPath (''/'' @ join ''/'' (fill_pattern vals (splitPath pat)) @ ''/''))
    = Some (\<lambda>k. if k \<in> param_name ` {seg \<in> set (splitPath pat). is_param seg} then Some (vals k) else None)"
proof -
  let ?fill = "fill_pattern vals (splitPath pat)"
  have "\<forall>p \<in> set ?fill. p \<noteq> [] \<and> CHR ''/'' \<notin> set p"
    using assms splitPath_segments [of _ pat] by (auto simp: fill_pattern_def)
  then have "splitPath (join ''/'' ?fill) = ?fill" by (rule splitPath_join)
  then have "splitPath (''/'' @ join ''/'' ?fill @ ''/'') = ?fill"
    using splitPath_append [of "join ''/'' ?fill" "[]"]
    by (simp add: splitPath_slash splitPath_def [of "[]"])
  then show ?thesis
    by (auto simp: matchSegments_spec match_fill bindings_fill rev_map map_of_graph fun_eq_iff)
qed

theorem match_inverts_fill_witness:
  "matchSegments (splitPath ''a/{id}/b'')
     (splitPath (''/'' @ join ''/'' (fill_pattern (\<lambda>_. ''x1'') (splitPath ''a/{id}/b'')) @ ''/''))
   = Some (\<lambda>k. if k \<in> param_name ` {seg \<in> set (splitPath ''a/{id}/b''). is_param seg} then Some ''x1'' else None)"
  by (rule match_inverts_fill) simp

text \<open>Which routes match the path, and the first that also has the method.\<close>

definition path_match :: "string list \<Rightarrow> ('s, 'k) route \<Rightarrow> bool" where
  "path_match segs rt \<longleftrightarrow> list_all2 seg_matches (rt_segments rt) segs"

definition first_route :: "('s, 'k) router \<Rightarrow> string \<Rightarrow> string list \<Rightarrow> ('s, 'k) route option" where
  "first_route r meth segs = find (\<lambda>rt. path_match segs rt \<and> rt_method rt = meth) (ro_routes r)"

lemma dispatch_loop_spec:
  "dispatch_loop rts mismatch c meth segs rq s =
     (case find (\<lambda>rt. path_match segs rt \<and> rt_method rt = meth) rts of
        Some rt \<Rightarrow>
          (case rt_handler rt c (rq\<lparr>rq_path_parameters := rq_path_parameters rq
                  ++ map_of (rev (bindings (rt_segments rt) segs))\<rparr>) s of
             (s', resp) \<Rightarrow> (s', Inl resp))
      | None \<Rightarrow> (s, Inr (mismatch \<or> (\<exists>rt \<in> set rts. path_match segs rt))))"
proof (induction rts arbitrary: mismatch)
  case (Cons rt rts)
  have "matchSegments (rt_segments rt) segs =
      (if path_match segs rt then Some (map_of (rev (bindings (rt_segments rt) segs))) else None)"
    by (simp add: matchSegments_spec path_match_def)
  with Cons show ?case
    by (cases "path_match segs rt"; cases "rt_method rt = meth") (simp_all split: option.splits)
qed simp

text \<open>
  Dispatch runs the first matching route. When the request is not a CORS preflight, the first
  registered route whose pattern and method match handles it, with its parameters merged over
  the request's, and its response is returned with the CORS headers; when there is none, no
  handler runs and the status is 405 if some route matches the path, 404 if none does.
\<close>

theorem dispatch_first_match:
  assumes "ro_cors r = None \<or> meth \<noteq> ''OPTIONS''"
  shows "case first_route r meth (splitPath path) of
      Some rt \<Rightarrow> router_Dispatch r c meth path rq s
        = map_prod id (router_applyCORS r (get_or_empty (rq_headers rq) ''origin''))
            (rt_handler rt c (rq\<lparr>rq_path_parameters := rq_path_parameters rq
               ++ map_of (rev (bindings (rt_segments rt) (splitPath path)))\<rparr>) s)
    | None \<Rightarrow> fst (router_Dispatch r c meth path rq s) = s
        \<and> rs_status (snd (router_Dispatch r c meth path rq s))
            = (if \<exists>rt \<in> set (ro_routes r). path_match (splitPath path) rt then 405 else 404)"
proof -
  have st: "rs_status (router_applyCORS r origin resp) = rs_status resp" for origin and resp :: "'b response"
    by (simp add: router_applyCORS_def Let_def split: option.splits)
  show ?thesis
    using assms
    by (auto simp: router_Dispatch_def first_route_def dispatch_loop_spec st Let_def
        split: option.splits prod.splits)
qed

definition ex_router :: "(nat, unit) router" where
  "ex_router = NewRouter [router_Handle ''GET'' ''/orders/{id}''
     (\<lambda>c rq n. (Suc n, \<lparr>rs_status = 200, rs_body = get_or_empty (rq_path_parameters rq) ''id'',
                        rs_headers = (\<lambda>_. None), rs_cookies = []\<rparr>))]"

definition ex_request :: request where
  "ex_request = \<lparr>rq_body = [], rq_path_parameters = (\<lambda>_. None), rq_query_parameters = (\<lambda>_. None),
     rq_headers = [''origin'' \<mapsto> ''https://a'']\<rparr>"

theorem dispatch_first_match_witness:
  "fst (router_Dispatch ex_router background ''POST'' ''/orders/7'' ex_request 0) = 0
   \<and> rs_status (snd (router_Dispatch ex_router background ''POST'' ''/orders/7'' ex_request 0)) = 405"
proof -
  have none: "first_route ex_router ''POST'' (splitPath ''/orders/7'') = None"
    and some: "\<exists>rt \<in> set (ro_routes ex_router). path_match (splitPath ''/orders/7'') rt"
    by (simp_all add: first_route_def ex_router_def NewRouter_def router_Handle_def path_match_def
        seg_matches_def is_param_def splitPath_def)
  have "ro_cors ex_router = None \<or> ''POST'' \<noteq> ''OPTIONS''" by simp
  from dispatch_first_match [OF this, where path = "''/orders/7''" and c = background
      and rq = ex_request and s = 0] none some
  show ?thesis by simp
qed

text \<open>
  C33. CORS grants only configured origins. The header that allows an origin is added to a response
  only when that origin, or the wildcard, is one of the configured ones, and then names it (or
  is the wildcard); otherwise the response is returned as it was. A preflight request is
  answered with 204 and runs no handler.
\<close>

theorem cors_grants_configured:
  assumes "ro_cors r = Some cfg" "rs_headers resp ''Access-Control-Allow-Origin'' = None"
  shows "(case rs_headers (router_applyCORS r origin resp) ''Access-Control-Allow-Origin'' of
            Some v \<Rightarrow> v \<in> set (co_allow_origins cfg) \<and> (v = ''*'' \<or> v = origin) \<and> v \<noteq> []
          | None \<Rightarrow> router_applyCORS r origin resp = resp
              \<and> (origin \<noteq> [] \<longrightarrow> ''*'' \<notin> set (co_allow_origins cfg) \<and> origin \<notin> set (co_allow_origins cfg)))
      \<and> (fst (router_Dispatch r c ''OPTIONS'' path rq s) = s
         \<and> rs_status (snd (router_Dispatch r c ''OPTIONS'' path rq s)) = 204)"
proof -
  have m1: "match_origin os origin \<noteq> [] \<Longrightarrow> match_origin os origin \<in> set os
      \<and> (match_origin os origin = ''*'' \<or> match_origin os origin = origin)" for os
    by (induction os) (auto split: if_splits)
  have m2: "match_origin os origin = [] \<Longrightarrow> origin \<noteq> [] \<Longrightarrow> ''*'' \<notin> set os \<and> origin \<notin> set os" for os
    by (induction os) (auto split: if_splits)
  have pre: "fst (router_Dispatch r c ''OPTIONS'' path rq s) = s"
    "rs_status (snd (router_Dispatch r c ''OPTIONS'' path rq s)) = 204"
    using assms(1) by (simp_all add: router_Dispatch_def router_applyCORS_def Let_def)
  show ?thesis
  proof (cases "cors_matchOrigin cfg origin = []")
    case True
    with m2 [of "co_allow_origins cfg"] assms pre show ?thesis
      by (simp add: router_applyCORS_def cors_matchOrigin_def)
  next
    case False
    with m1 [of "co_allow_origins cfg"] assms pre show ?thesis
      by (cases "match_origin (co_allow_origins cfg) origin = ''*''")
        (auto simp: router_applyCORS_def cors_matchOrigin_def Let_def)
  qed
qed

definition ex_cors :: cors_config where
  "ex_cors = \<lparr>co_allow_origins = [''https://b'', ''https://a''], co_allow_methods = ''GET'',
     co_allow_headers = ''Content-Type'', co_allow_credentials = True\<rparr>"

definition ex_response :: "unit response" where
  "ex_response = \<lparr>rs_status = 200, rs_body = [], rs_headers = (\<lambda>_. None), rs_cookies = []\<rparr>"

theorem cors_grants_configured_witness:
  "rs_headers (router_applyCORS (router_SetCORS ex_cors ex_router) ''https://a'' ex_response)
     ''Access-Control-Allow-Origin'' = Some ''https://a''
   \<and> rs_status (snd (router_Dispatch (router_SetCORS ex_cors ex_router) background ''OPTIONS'' ''/x'' ex_request 0)) = 204"
proof -
  let ?r = "router_SetCORS ex_cors ex_router"
  have "ro_cors ?r = Some ex_cors" by (simp add: router_SetCORS_def)
  moreover have "rs_headers ex_response ''Access-Control-Allow-Origin'' = None" by (simp add: ex_response_def)
  ultimately show ?thesis
    using cors_grants_configured [where r = ?r and cfg = ex_cors and resp = ex_response
        and origin = "''https://a''" and c = background and path = "''/x''" and rq = ex_request and s = 0]
    by (auto simp: ex_cors_def split: option.splits)
qed

end
