(* ===== verification/OpaqueData.thy ===== *)
theory OpaqueData
  imports Compress "HOL-Library.List_Lexorder" "HOL-Library.Char_ord"
begin

text \<open>
  gen/opaquedata: the rows that hold materialized aggregates and projections, their options,
  conversion from messages and back, and the interface of the stores that keep them. The body
  is what \<open>proto.Marshal\<close> made of the message, compressed above a threshold; protobuf is a
  parameter with its round-trip law.
\<close>

section \<open>Rows\<close>

text \<open>
  \<open>OpaqueData\<close>: the fields \<open>Gsi1Pk\<close>, \<open>Gsi1Sk\<close> to \<open>Gsi20Pk\<close>, \<open>Gsi20Sk\<close> are the list \<open>od_gsi\<close>
  of their twenty pairs; \<open>empty_opaque\<close> is the zero value.
\<close>

record opaque_data =
  od_pk :: string
  od_sk :: string
  od_t :: int64
  od_version :: int64
  od_body :: bytes
  od_gsi :: "(string \<times> string) list"

definition empty_opaque :: opaque_data where
  "empty_opaque = \<lparr>od_pk = [], od_sk = [], od_t = 0, od_version = 0, od_body = [],
     od_gsi = replicate 20 ([], [])\<rparr>"

definition opaque_ok :: "opaque_data \<Rightarrow> bool" where
  "opaque_ok od \<longleftrightarrow> length (od_gsi od) = 20"

text \<open>
  \<open>AutoPKSK\<close> and \<open>Hydrater\<close>: the keys of a message, the slots by their number, what
  \<open>proto.Marshal\<close> returns for it, and what hydrating a new message from bytes gives.
\<close>

record 'm auto_pksk =
  ap_PK :: "'m \<Rightarrow> string"
  ap_SK :: "'m \<Rightarrow> string"
  ap_GSIPK :: "nat \<Rightarrow> 'm \<Rightarrow> string"
  ap_GSISK :: "nat \<Rightarrow> 'm \<Rightarrow> string"
  ap_marshal :: "'m \<Rightarrow> goerr + bytes"
  ap_hydrate :: "bytes \<Rightarrow> goerr + 'm"

section \<open>Options\<close>

record opaque_options =
  oo_ttl :: int64
  oo_compressThreshold :: int

type_synonym opaque_option = "opaque_options \<Rightarrow> opaque_options"

definition WithTTL :: "int64 \<Rightarrow> opaque_option" where
  "WithTTL ttl o' = o'\<lparr>oo_ttl := ttl\<rparr>"

definition WithCompressThreshold :: "int \<Rightarrow> opaque_option" where
  "WithCompressThreshold threshold o' = o'\<lparr>oo_compressThreshold := threshold\<rparr>"

definition buildOptions :: "opaque_option list \<Rightarrow> opaque_options" where
  "buildOptions opts =
     fold (\<lambda>fn o'. fn o') opts \<lparr>oo_ttl = 0, oo_compressThreshold = DefaultCompressThreshold\<rparr>"

text \<open>\<open>time.Now().Add(ttl).Unix()\<close>: the clock \<open>now\<close> and the duration are in nanoseconds.\<close>

definition GetTTL :: "int \<Rightarrow> int64 \<Rightarrow> int64" where
  "GetTTL now ttl =
     (if sint ttl \<le> 0 then 0 else word_of_int ((now + sint ttl) div 1000000000))"

section \<open>Conversion\<close>

definition NewOpaqueDataFromProto ::
    "gzip \<Rightarrow> 'm auto_pksk \<Rightarrow> int \<Rightarrow> opaque_option list \<Rightarrow> 'm \<Rightarrow> goerr + opaque_data" where
  "NewOpaqueDataFromProto gz ap now opts msg =
     (let o' = buildOptions opts
      in case ap_marshal ap msg of
           Inl e \<Rightarrow> Inl (errorf ''opaquedata: marshal: '' e)
         | Inr body \<Rightarrow> (case MaybeCompress gz body (oo_compressThreshold o') of
             Inl e \<Rightarrow> Inl (errorf ''opaquedata: compress: '' e)
           | Inr body' \<Rightarrow>
               Inr \<lparr>od_pk = ap_PK ap msg, od_sk = ap_SK ap msg, od_t = GetTTL now (oo_ttl o'),
                    od_version = 0, od_body = body',
                    od_gsi = map (\<lambda>i. (ap_GSIPK ap i msg, ap_GSISK ap i msg)) [1..<21]\<rparr>))"

definition NewOpaqueKeyFromProto :: "'m auto_pksk \<Rightarrow> 'm \<Rightarrow> opaque_data" where
  "NewOpaqueKeyFromProto ap msg = empty_opaque\<lparr>od_pk := ap_PK ap msg, od_sk := ap_SK ap msg\<rparr>"

definition ReHydrate :: "gzip \<Rightarrow> 'm auto_pksk \<Rightarrow> opaque_data \<Rightarrow> goerr + 'm" where
  "ReHydrate gz ap od =
     (case MaybeDecompress gz (od_body od) of
        Inl e \<Rightarrow> Inl (errorf ''opaquedata: decompress: '' e)
      | Inr body \<Rightarrow> ap_hydrate ap body)"

text \<open>
  What conversion relies on of protobuf: unmarshalling what was marshalled gives the message
  back, and no message's bytes start with the gzip magic bytes. The second is a fact of its wire
  format: \<open>0x1f\<close> would be a tag of wire type 7, which does not exist.
\<close>

definition proto_laws :: "'m auto_pksk \<Rightarrow> bool" where
  "proto_laws ap \<longleftrightarrow>
     (\<forall>m b. ap_marshal ap m = Inr b \<longrightarrow> ap_hydrate ap b = Inr m \<and> \<not> IsGzipped b)"

lemma NewOpaqueData_fields:
  assumes "NewOpaqueDataFromProto gz ap now opts m = Inr od"
  shows "od_pk od = ap_PK ap m" "od_sk od = ap_SK ap m" "od_version od = 0" "opaque_ok od"
    "od_t od = GetTTL now (oo_ttl (buildOptions opts))"
    "od_gsi od = map (\<lambda>i. (ap_GSIPK ap i m, ap_GSISK ap i m)) [1..<21]"
  using assms by (auto simp: NewOpaqueDataFromProto_def Let_def opaque_ok_def split: sum.splits)

lemma NewOpaqueData_body:
  assumes "NewOpaqueDataFromProto gz ap now opts m = Inr od"
  obtains b where "ap_marshal ap m = Inr b"
    and "MaybeCompress gz b (oo_compressThreshold (buildOptions opts)) = Inr (od_body od)"
  using assms by (auto simp: NewOpaqueDataFromProto_def Let_def split: sum.splits)

text \<open>Whatever a store changes in a row, the message survives if the body does.\<close>

lemma ReHydrate_New:
  assumes laws: "gzip_laws gz" "proto_laws ap"
    and new: "NewOpaqueDataFromProto gz ap now opts m = Inr od" and body: "od_body od' = od_body od"
  shows "ReHydrate gz ap od' = Inr m"
proof -
  obtain b where b: "ap_marshal ap m = Inr b"
    and c: "MaybeCompress gz b (oo_compressThreshold (buildOptions opts)) = Inr (od_body od)"
    using new by (rule NewOpaqueData_body)
  have "ap_hydrate ap b = Inr m" "\<not> IsGzipped b" using laws(2) b by (simp_all add: proto_laws_def)
  with compress_decodes [OF laws(1) _ c] show ?thesis by (simp add: ReHydrate_def body)
qed

section \<open>Queries\<close>

datatype sort_operator = Equal | Lt | Le | Gt | Ge | Between | BeginsWith | OtherOperator int

text \<open>\<open>%d\<close> of an operator; the code's integer type also has values outside the constants.\<close>

primrec sort_operator_int :: "sort_operator \<Rightarrow> int" where
  "sort_operator_int Equal = 0"
| "sort_operator_int Lt = 1"
| "sort_operator_int Le = 2"
| "sort_operator_int Gt = 3"
| "sort_operator_int Ge = 4"
| "sort_operator_int Between = 5"
| "sort_operator_int BeginsWith = 6"
| "sort_operator_int (OtherOperator n) = n"

record sort_condition =
  sc_operator :: sort_operator
  sc_value :: string
  sc_value2 :: string

record query_options =
  qo_GSIIndex :: int

type_synonym query_option = "query_options \<Rightarrow> query_options"

definition WithGSIIndex :: "int \<Rightarrow> query_option" where
  "WithGSIIndex n o' = o'\<lparr>qo_GSIIndex := n\<rparr>"

definition ApplyQueryOptions :: "query_option list \<Rightarrow> query_options" where
  "ApplyQueryOptions opts = fold (\<lambda>fn qo. fn qo) opts \<lparr>qo_GSIIndex = 0\<rparr>"

text \<open>The comparison operators of the query languages of the stores.\<close>

datatype comparator = CEq | CLt | CLe | CGt | CGe

primrec comparator_text :: "comparator \<Rightarrow> string" where
  "comparator_text CEq = ''=''"
| "comparator_text CLt = ''<''"
| "comparator_text CLe = ''<=''"
| "comparator_text CGt = ''>''"
| "comparator_text CGe = ''>=''"

primrec compare_with :: "comparator \<Rightarrow> ('a::linorder) \<Rightarrow> 'a \<Rightarrow> bool" where
  "compare_with CEq x y = (x = y)"
| "compare_with CLt x y = (x < y)"
| "compare_with CLe x y = (x \<le> y)"
| "compare_with CGt x y = (x > y)"
| "compare_with CGe x y = (x \<ge> y)"

section \<open>The store interface\<close>

text \<open>\<open>OpaqueStore\<close>, over the state \<open>'s\<close> of the service behind it. A query that never ends is
  \<open>None\<close>.\<close>

record 's opaque_ops =
  op_put :: "ctx \<Rightarrow> 's \<Rightarrow> opaque_data \<Rightarrow> 's \<times> goerr option"
  op_get :: "ctx \<Rightarrow> 's \<Rightarrow> string \<Rightarrow> string \<Rightarrow> goerr + opaque_data"
  op_delete :: "ctx \<Rightarrow> 's \<Rightarrow> string \<Rightarrow> string \<Rightarrow> 's \<times> goerr option"
  op_query :: "ctx \<Rightarrow> 's \<Rightarrow> string \<Rightarrow> string \<Rightarrow> string \<Rightarrow> sort_condition option \<Rightarrow> query_option list
    \<Rightarrow> (goerr + opaque_data list) option"

text \<open>The names of the key attributes: of the table for \<open>i = 0\<close>, else of slot \<open>i\<close>; and their values.\<close>

definition gsi_attr :: "nat \<Rightarrow> string \<Rightarrow> string" where
  "gsi_attr i suf = ''gsi'' @ dec_nat i @ suf"

lemma gsi_attr_inj:
  assumes "length s = length t"
  shows "gsi_attr i s = gsi_attr j t \<longleftrightarrow> i = j \<and> s = t"
  using assms by (auto simp: gsi_attr_def dec_nat_inj)

lemma gsi_attr_plain [simp]:
  "gsi_attr i s \<noteq> ''pk''" "gsi_attr i s \<noteq> ''sk''" "gsi_attr i s \<noteq> ''t''"
  "gsi_attr i s \<noteq> ''version''" "gsi_attr i s \<noteq> ''body''"
  by (simp_all add: gsi_attr_def)

definition index_attrs :: "nat \<Rightarrow> string \<times> string" where
  "index_attrs i = (if i = 0 then (''pk'', ''sk'') else (gsi_attr i ''pk'', gsi_attr i ''sk''))"

definition row_keys :: "nat \<Rightarrow> opaque_data \<Rightarrow> string \<times> string" where
  "row_keys i od = (if i = 0 then (od_pk od, od_sk od) else od_gsi od ! (i - 1))"

text \<open>What a sort condition means; strings are ordered by their bytes.\<close>

definition sort_holds :: "sort_condition \<Rightarrow> string \<Rightarrow> bool" where
  "sort_holds sc v =
     (case sc_operator sc of
        Equal \<Rightarrow> v = sc_value sc
      | Lt \<Rightarrow> v < sc_value sc
      | Le \<Rightarrow> v \<le> sc_value sc
      | Gt \<Rightarrow> v > sc_value sc
      | Ge \<Rightarrow> v \<ge> sc_value sc
      | Between \<Rightarrow> sc_value sc \<le> v \<and> v \<le> sc_value2 sc
      | BeginsWith \<Rightarrow> has_prefix v (sc_value sc)
      | OtherOperator n \<Rightarrow> False)"

text \<open>A row that has not expired.\<close>

definition live_at :: "int64 \<Rightarrow> opaque_data \<Rightarrow> bool" where
  "live_at now od \<longleftrightarrow> od_t od = 0 \<or> sint now < sint (od_t od)"

type_synonym opaque_rows = "string \<times> string \<Rightarrow> opaque_data option"

definition selected :: "opaque_rows \<Rightarrow> int64 \<Rightarrow> nat \<Rightarrow> string \<Rightarrow> sort_condition option \<Rightarrow> opaque_data set" where
  "selected rows now i pkValue srt =
     {od \<in> ran rows. fst (row_keys i od) = pkValue \<and> live_at now od
        \<and> (\<forall>sc. srt = Some sc \<longrightarrow> sort_holds sc (snd (row_keys i od)))}"

text \<open>
  What a client may rely on, once the service has settled: the rows are a map from key pairs; a
  row is stored with slots whose key is \<open>NA\<close> left out and an empty sort key next to a partition
  key completed to \<open>NA\<close>; a write that fails may have been applied or not; a read that fails with \<open>ErrNotFound\<close> means that the row is
  absent; a query ends, and lists the live rows with the given key in the order of the sort key.
\<close>

definition norm_slot :: "string \<times> string \<Rightarrow> string \<times> string" where
  "norm_slot p =
     (if fst p \<noteq> [] \<and> fst p \<noteq> ''NA'' then (fst p, if snd p = [] then ''NA'' else snd p)
      else ([], if snd p = ''NA'' then [] else snd p))"

definition stored_row :: "opaque_data \<Rightarrow> opaque_data" where
  "stored_row od = od\<lparr>od_gsi := map norm_slot (od_gsi od)\<rparr>"

lemma stored_row_simps [simp]:
  "od_pk (stored_row od) = od_pk od" "od_sk (stored_row od) = od_sk od"
  "od_t (stored_row od) = od_t od" "od_body (stored_row od) = od_body od"
  "od_version (stored_row od) = od_version od"
  by (simp_all add: stored_row_def)

lemma stored_row_keys:
  "row_keys 0 (stored_row od) = row_keys 0 od"
  "opaque_ok od \<Longrightarrow> 0 < i \<Longrightarrow> i \<le> 20 \<Longrightarrow> row_keys i (stored_row od) = norm_slot (row_keys i od)"
  by (auto simp: row_keys_def stored_row_def opaque_ok_def)

definition putable_row :: "opaque_data \<Rightarrow> bool" where
  "putable_row od \<longleftrightarrow> opaque_ok od \<and> od_pk od \<noteq> [] \<and> od_sk od \<noteq> []"

locale opaque_store =
  fixes ops :: "'s opaque_ops" and now :: int64 and sinv :: "'s \<Rightarrow> bool" and rows :: "'s \<Rightarrow> opaque_rows"
  assumes put_done: "sinv s \<Longrightarrow> putable_row od \<Longrightarrow> op_put ops c s od = (s', None) \<Longrightarrow>
      sinv s' \<and> rows s' = (rows s)((od_pk od, od_sk od) \<mapsto> stored_row od)"
    and put_failed: "sinv s \<Longrightarrow> putable_row od \<Longrightarrow> op_put ops c s od = (s', Some e) \<Longrightarrow>
      sinv s' \<and> (rows s' = rows s \<or> rows s' = (rows s)((od_pk od, od_sk od) \<mapsto> stored_row od))"
    and delete_done: "sinv s \<Longrightarrow> op_delete ops c s pk sk = (s', None) \<Longrightarrow>
      sinv s' \<and> rows s' = (rows s)((pk, sk) := None)"
    and delete_failed: "sinv s \<Longrightarrow> op_delete ops c s pk sk = (s', Some e) \<Longrightarrow>
      sinv s' \<and> (rows s' = rows s \<or> rows s' = (rows s)((pk, sk) := None))"
    and get_found: "sinv s \<Longrightarrow> op_get ops c s pk sk = Inr od \<Longrightarrow> rows s (pk, sk) = Some od"
    and get_missing: "sinv s \<Longrightarrow> op_get ops c s pk sk = Inl e \<Longrightarrow> err_is e ErrNotFound \<Longrightarrow>
      rows s (pk, sk) = None"
    and query_returns: "sinv s \<Longrightarrow> i \<le> 20 \<Longrightarrow> qo_GSIIndex (ApplyQueryOptions opts) = int i \<Longrightarrow>
      \<exists>r. op_query ops c s (fst (index_attrs i)) v (snd (index_attrs i)) srt opts = Some r"
    and query_lists: "sinv s \<Longrightarrow> i \<le> 20 \<Longrightarrow> qo_GSIIndex (ApplyQueryOptions opts) = int i \<Longrightarrow>
      op_query ops c s (fst (index_attrs i)) v (snd (index_attrs i)) srt opts = Some (Inr ods) \<Longrightarrow> v \<noteq> [] \<Longrightarrow>
      set ods = selected (rows s) now i v srt \<and> distinct ods \<and> sorted (map (\<lambda>od. snd (row_keys i od)) ods)"

end
