(* ===== verification/OrderClient.thy ===== *)
theory OrderClient
  imports OrderDomain OpaqueData
begin

text \<open>
  The generated clients of the order package, \<open>OrderClient\<close> and \<open>OrderSummaryClient\<close>: adding,
  getting, updating, deleting and selecting the materialized orders and their summaries through
  an \<open>OpaqueStore\<close>. The two are instances of the same generator template, so the bodies they
  share are definitions over the message's keys; each method is then the template at its message.
  \<open>now\<close> is the clock in nanoseconds, \<open>enc\<close> and \<open>dec\<close> are \<open>proto.Marshal\<close> and \<open>proto.Unmarshal\<close>.
\<close>

section \<open>The messages as rows\<close>

definition order_auto :: "(order \<Rightarrow> goerr + bytes) \<Rightarrow> (bytes \<Rightarrow> goerr + order) \<Rightarrow> order auto_pksk" where
  "order_auto enc dec =
     \<lparr>ap_PK = (\<lambda>m. order_PK (Some m)), ap_SK = (\<lambda>_. order_SK),
      ap_GSIPK = (\<lambda>n m. order_GSIPK n (Some m)), ap_GSISK = (\<lambda>n m. order_GSISK n (Some m)),
      ap_marshal = enc, ap_hydrate = dec\<rparr>"

definition order_summary_auto ::
    "(order_summary \<Rightarrow> goerr + bytes) \<Rightarrow> (bytes \<Rightarrow> goerr + order_summary) \<Rightarrow> order_summary auto_pksk" where
  "order_summary_auto enc dec =
     \<lparr>ap_PK = (\<lambda>m. order_summary_PK (Some m)), ap_SK = (\<lambda>_. order_summary_SK),
      ap_GSIPK = (\<lambda>n m. order_summary_GSIPK n (Some m)), ap_GSISK = (\<lambda>n m. order_summary_GSISK n (Some m)),
      ap_marshal = enc, ap_hydrate = dec\<rparr>"

definition empty_order_summary :: order_summary where
  "empty_order_summary = \<lparr>os_id = [], os_state = STATE_UNSPECIFIED, os_customer_id = [],
     os_customer_name = [], os_total_cents = 0, os_item_count = 0, os_placed_at = 0, os_create_at = 0\<rparr>"

section \<open>The template\<close>

definition client_add ::
    "'s opaque_ops \<Rightarrow> gzip \<Rightarrow> 'm auto_pksk \<Rightarrow> string \<Rightarrow> int \<Rightarrow> ctx \<Rightarrow> 's \<Rightarrow> 'm \<Rightarrow> opaque_option list
     \<Rightarrow> 's \<times> goerr option" where
  "client_add store gz ap name now c s d opts =
     (case NewOpaqueDataFromProto gz ap now opts d of
        Inl e \<Rightarrow> (s, Some (errorf (name @ '': '') e))
      | Inr od \<Rightarrow> op_put store c s od)"

definition client_get ::
    "'s opaque_ops \<Rightarrow> gzip \<Rightarrow> 'm auto_pksk \<Rightarrow> string \<Rightarrow> ctx \<Rightarrow> 's \<Rightarrow> 'm \<Rightarrow> goerr + 'm" where
  "client_get store gz ap name c s key =
     (case op_get store c s (ap_PK ap key) (ap_SK ap key) of
        Inl e \<Rightarrow> Inl (errorf (name @ '': '') e)
      | Inr od \<Rightarrow> (case ReHydrate gz ap od of
          Inl e \<Rightarrow> Inl (errorf (name @ '': rehydrate: '') e)
        | Inr target \<Rightarrow> Inr target))"

definition client_delete ::
    "'s opaque_ops \<Rightarrow> 'm auto_pksk \<Rightarrow> ctx \<Rightarrow> 's \<Rightarrow> 'm \<Rightarrow> 's \<times> goerr option" where
  "client_delete store ap c s key = op_delete store c s (ap_PK ap key) (ap_SK ap key)"

fun client_rehydrate :: "gzip \<Rightarrow> 'm auto_pksk \<Rightarrow> string \<Rightarrow> opaque_data list \<Rightarrow> goerr + 'm list" where
  "client_rehydrate gz ap msg [] = Inr []"
| "client_rehydrate gz ap msg (od # ods) =
     (case ReHydrate gz ap od of
        Inl e \<Rightarrow> Inl (errorf (msg @ '': rehydrate: '') e)
      | Inr m \<Rightarrow> (case client_rehydrate gz ap msg ods of Inl e \<Rightarrow> Inl e | Inr ms \<Rightarrow> Inr (m # ms)))"

text \<open>A query of slot \<open>n\<close> by the key of the message \<open>key\<close>.\<close>

definition client_select ::
    "'s opaque_ops \<Rightarrow> gzip \<Rightarrow> 'm auto_pksk \<Rightarrow> string \<Rightarrow> string \<Rightarrow> nat \<Rightarrow> ctx \<Rightarrow> 's \<Rightarrow> 'm
     \<Rightarrow> sort_condition option \<Rightarrow> (goerr + 'm list) option" where
  "client_select store gz ap msg name n c s key srt =
     map_option
       (\<lambda>r. case r of
          Inl e \<Rightarrow> Inl (errorf (name @ '': '') e)
        | Inr results \<Rightarrow> client_rehydrate gz ap msg results)
       (op_query store c s (gsi_attr n ''pk'') (ap_GSIPK ap n key) (gsi_attr n ''sk'') srt [WithGSIIndex (int n)])"

text \<open>The check of the number of sort values and the condition they make.\<close>

definition client_sort :: "string \<Rightarrow> sort_operator \<Rightarrow> string list \<Rightarrow> goerr + sort_condition" where
  "client_sort name oper vals =
     (if oper = Between
      then (if length vals \<noteq> 2
            then Inl (Foreign (name @ '': Between requires exactly 2 values, got '' @ dec_nat (length vals)))
            else Inr \<lparr>sc_operator = oper, sc_value = vals ! 0, sc_value2 = vals ! 1\<rparr>)
      else (if length vals \<noteq> 1
            then Inl (Foreign (name @ '': operator '' @ dec_int (sort_operator_int oper)
                        @ '' requires exactly 1 value, got '' @ dec_nat (length vals)))
            else Inr \<lparr>sc_operator = oper, sc_value = vals ! 0, sc_value2 = ''''\<rparr>))"

definition client_select_sorted ::
    "'s opaque_ops \<Rightarrow> gzip \<Rightarrow> 'm auto_pksk \<Rightarrow> string \<Rightarrow> string \<Rightarrow> nat \<Rightarrow> ctx \<Rightarrow> 's \<Rightarrow> 'm
     \<Rightarrow> sort_operator \<Rightarrow> string list \<Rightarrow> (goerr + 'm list) option" where
  "client_select_sorted store gz ap msg name n c s key oper vals =
     (case client_sort name oper vals of
        Inl e \<Rightarrow> Some (Inl e)
      | Inr sc \<Rightarrow> client_select store gz ap msg name n c s key (Some sc))"

section \<open>OrderClient\<close>

text \<open>What a client holds: its store, and the codecs that its calls use.\<close>

record ('s, 'm) opaque_client =
  oc_store :: "'s opaque_ops"
  oc_gzip :: gzip
  oc_auto :: "'m auto_pksk"

type_synonym 's order_client = "('s, order) opaque_client"
type_synonym 's order_summary_client = "('s, order_summary) opaque_client"

definition NewOrderClient ::
    "'s opaque_ops \<Rightarrow> gzip \<Rightarrow> (order \<Rightarrow> goerr + bytes) \<Rightarrow> (bytes \<Rightarrow> goerr + order) \<Rightarrow> 's order_client" where
  "NewOrderClient store gz enc dec = \<lparr>oc_store = store, oc_gzip = gz, oc_auto = order_auto enc dec\<rparr>"

definition AddOrder ::
    "'s order_client \<Rightarrow> int \<Rightarrow> ctx \<Rightarrow> 's \<Rightarrow> order \<Rightarrow> opaque_option list \<Rightarrow> 's \<times> goerr option" where
  "AddOrder cl now c s d opts =
     client_add (oc_store cl) (oc_gzip cl) (oc_auto cl) ''OrderClient.AddOrder'' now c s d opts"

definition GetOrder :: "'s order_client \<Rightarrow> ctx \<Rightarrow> 's \<Rightarrow> string \<Rightarrow> goerr + order" where
  "GetOrder cl c s i =
     client_get (oc_store cl) (oc_gzip cl) (oc_auto cl) ''OrderClient.GetOrder'' c s (empty_order\<lparr>o_id := i\<rparr>)"

definition UpdateOrder ::
    "'s order_client \<Rightarrow> int \<Rightarrow> ctx \<Rightarrow> 's \<Rightarrow> order \<Rightarrow> opaque_option list \<Rightarrow> 's \<times> goerr option" where
  "UpdateOrder cl now c s d opts = AddOrder cl now c s d opts"

definition DeleteOrder :: "'s order_client \<Rightarrow> ctx \<Rightarrow> 's \<Rightarrow> string \<Rightarrow> 's \<times> goerr option" where
  "DeleteOrder cl c s i = client_delete (oc_store cl) (oc_auto cl) c s (empty_order\<lparr>o_id := i\<rparr>)"

definition SelectOrderByCustomerId ::
    "'s order_client \<Rightarrow> ctx \<Rightarrow> 's \<Rightarrow> string \<Rightarrow> (goerr + order list) option" where
  "SelectOrderByCustomerId cl c s customer_id =
     client_select (oc_store cl) (oc_gzip cl) (oc_auto cl) ''Order'' ''OrderClient.SelectOrderByCustomerId''
       1 c s (empty_order\<lparr>o_customer_id := customer_id\<rparr>) None"

definition SelectOrderByCustomerIdWithCreateAt ::
    "'s order_client \<Rightarrow> ctx \<Rightarrow> 's \<Rightarrow> string \<Rightarrow> sort_operator \<Rightarrow> int64 list \<Rightarrow> (goerr + order list) option" where
  "SelectOrderByCustomerIdWithCreateAt cl c s customer_id oper vals =
     client_select_sorted (oc_store cl) (oc_gzip cl) (oc_auto cl) ''Order''
       ''OrderClient.SelectOrderByCustomerIdWithCreateAt''
       1 c s (empty_order\<lparr>o_customer_id := customer_id\<rparr>) oper (map order_gsi1sk vals)"

section \<open>OrderSummaryClient\<close>

definition NewOrderSummaryClient ::
    "'s opaque_ops \<Rightarrow> gzip \<Rightarrow> (order_summary \<Rightarrow> goerr + bytes) \<Rightarrow> (bytes \<Rightarrow> goerr + order_summary)
     \<Rightarrow> 's order_summary_client" where
  "NewOrderSummaryClient store gz enc dec =
     \<lparr>oc_store = store, oc_gzip = gz, oc_auto = order_summary_auto enc dec\<rparr>"

definition AddOrderSummary ::
    "'s order_summary_client \<Rightarrow> int \<Rightarrow> ctx \<Rightarrow> 's \<Rightarrow> order_summary \<Rightarrow> opaque_option list \<Rightarrow> 's \<times> goerr option" where
  "AddOrderSummary cl now c s d opts =
     client_add (oc_store cl) (oc_gzip cl) (oc_auto cl) ''OrderSummaryClient.AddOrderSummary'' now c s d opts"

definition GetOrderSummary :: "'s order_summary_client \<Rightarrow> ctx \<Rightarrow> 's \<Rightarrow> string \<Rightarrow> goerr + order_summary" where
  "GetOrderSummary cl c s i =
     client_get (oc_store cl) (oc_gzip cl) (oc_auto cl) ''OrderSummaryClient.GetOrderSummary'' c s
       (empty_order_summary\<lparr>os_id := i\<rparr>)"

definition UpdateOrderSummary ::
    "'s order_summary_client \<Rightarrow> int \<Rightarrow> ctx \<Rightarrow> 's \<Rightarrow> order_summary \<Rightarrow> opaque_option list \<Rightarrow> 's \<times> goerr option" where
  "UpdateOrderSummary cl now c s d opts = AddOrderSummary cl now c s d opts"

definition DeleteOrderSummary :: "'s order_summary_client \<Rightarrow> ctx \<Rightarrow> 's \<Rightarrow> string \<Rightarrow> 's \<times> goerr option" where
  "DeleteOrderSummary cl c s i =
     client_delete (oc_store cl) (oc_auto cl) c s (empty_order_summary\<lparr>os_id := i\<rparr>)"

definition SelectOrderSummaryByCustomerId ::
    "'s order_summary_client \<Rightarrow> ctx \<Rightarrow> 's \<Rightarrow> string \<Rightarrow> (goerr + order_summary list) option" where
  "SelectOrderSummaryByCustomerId cl c s customer_id =
     client_select (oc_store cl) (oc_gzip cl) (oc_auto cl) ''OrderSummary''
       ''OrderSummaryClient.SelectOrderSummaryByCustomerId''
       1 c s (empty_order_summary\<lparr>os_customer_id := customer_id\<rparr>) None"

definition SelectOrderSummaryByCustomerIdWithCreateAt ::
    "'s order_summary_client \<Rightarrow> ctx \<Rightarrow> 's \<Rightarrow> string \<Rightarrow> sort_operator \<Rightarrow> int64 list
     \<Rightarrow> (goerr + order_summary list) option" where
  "SelectOrderSummaryByCustomerIdWithCreateAt cl c s customer_id oper vals =
     client_select_sorted (oc_store cl) (oc_gzip cl) (oc_auto cl) ''OrderSummary''
       ''OrderSummaryClient.SelectOrderSummaryByCustomerIdWithCreateAt''
       1 c s (empty_order_summary\<lparr>os_customer_id := customer_id\<rparr>) oper (map order_summary_gsi1sk vals)"

definition SelectOrderSummaryByState ::
    "'s order_summary_client \<Rightarrow> ctx \<Rightarrow> 's \<Rightarrow> order_state \<Rightarrow> (goerr + order_summary list) option" where
  "SelectOrderSummaryByState cl c s st =
     client_select (oc_store cl) (oc_gzip cl) (oc_auto cl) ''OrderSummary''
       ''OrderSummaryClient.SelectOrderSummaryByState''
       2 c s (empty_order_summary\<lparr>os_state := st\<rparr>) None"

definition SelectOrderSummaryByStateWithPlacedAt ::
    "'s order_summary_client \<Rightarrow> ctx \<Rightarrow> 's \<Rightarrow> order_state \<Rightarrow> sort_operator \<Rightarrow> int64 list
     \<Rightarrow> (goerr + order_summary list) option" where
  "SelectOrderSummaryByStateWithPlacedAt cl c s st oper vals =
     client_select_sorted (oc_store cl) (oc_gzip cl) (oc_auto cl) ''OrderSummary''
       ''OrderSummaryClient.SelectOrderSummaryByStateWithPlacedAt''
       2 c s (empty_order_summary\<lparr>os_state := st\<rparr>) oper (map order_summary_gsi2sk vals)"

end
