(* ===== verification/OrderShelf.thy ===== *)
theory OrderShelf
  imports OrderClient
begin

text \<open>
  What the order clients promise: the table behind them is two shelves, of orders and of
  summaries, each a map from ids to a message and its expiry time. \<open>order_table\<close> relates rows
  and shelves; inside \<open>opaque_store\<close>, each client call is shown to do to the rows what it does
  to the shelves.
\<close>

section \<open>Shelves\<close>

type_synonym 'm shelf = "string \<Rightarrow> ('m \<times> int64) option"

text \<open>A row made of a message, with its expiry time.\<close>

definition row_for :: "gzip \<Rightarrow> 'm auto_pksk \<Rightarrow> 'm \<Rightarrow> int64 \<Rightarrow> opaque_data \<Rightarrow> bool" where
  "row_for gz ap m t od \<longleftrightarrow>
     (\<exists>now opts od0. NewOpaqueDataFromProto gz ap now opts m = Inr od0 \<and> od = stored_row od0 \<and> t = od_t od0)"

definition expires :: "int \<Rightarrow> opaque_option list \<Rightarrow> int64" where
  "expires now opts = GetTTL now (oo_ttl (buildOptions opts))"

text \<open>The messages of one type: their id, and the sort key under which each row is kept.\<close>

definition keyed_by :: "'m auto_pksk \<Rightarrow> ('m \<Rightarrow> string) \<Rightarrow> string \<Rightarrow> bool" where
  "keyed_by ap idf sk \<longleftrightarrow> (\<forall>m. ap_PK ap m = order_pk (idf m) \<and> ap_SK ap m = sk)"

definition holds_entry ::
    "gzip \<Rightarrow> 'm auto_pksk \<Rightarrow> ('m \<Rightarrow> string) \<Rightarrow> string \<Rightarrow> opaque_data option \<Rightarrow> ('m \<times> int64) option \<Rightarrow> bool" where
  "holds_entry gz ap idf i row entry =
     (case entry of
        None \<Rightarrow> row = None
      | Some (m, t) \<Rightarrow> idf m = i \<and> (\<exists>od. row = Some od \<and> row_for gz ap m t od))"

definition holds_shelf ::
    "gzip \<Rightarrow> 'm auto_pksk \<Rightarrow> ('m \<Rightarrow> string) \<Rightarrow> string \<Rightarrow> opaque_rows \<Rightarrow> 'm shelf \<Rightarrow> bool" where
  "holds_shelf gz ap idf sk rows shelf \<longleftrightarrow>
     (\<forall>i. holds_entry gz ap idf i (rows (order_pk i, sk)) (shelf i))"

lemma order_pk_inj [simp]: "order_pk i = order_pk j \<longleftrightarrow> i = j"
  by (simp add: order_pk_def)

lemma order_keys [simp]: "order_SK \<noteq> order_summary_SK" "order_summary_SK \<noteq> order_SK"
  by (simp_all add: order_SK_def order_summary_SK_def)

lemma row_forD:
  assumes "row_for gz ap m t od"
  shows "od_pk od = ap_PK ap m" "od_sk od = ap_SK ap m" "od_t od = t"
    and "0 < i \<Longrightarrow> i \<le> 20 \<Longrightarrow> row_keys i od = norm_slot (ap_GSIPK ap i m, ap_GSISK ap i m)"
proof -
  from assms obtain now opts od0 where new: "NewOpaqueDataFromProto gz ap now opts m = Inr od0"
    and od: "od = stored_row od0" "t = od_t od0" by (auto simp: row_for_def)
  note f = NewOpaqueData_fields [OF new]
  show "od_pk od = ap_PK ap m" "od_sk od = ap_SK ap m" "od_t od = t" using f od by simp_all
  assume i: "0 < i" "i \<le> 20"
  have "[1..<21] ! (i - 1) = i" using i by (subst nth_upt) auto
  with i have "row_keys i od0 = (ap_GSIPK ap i m, ap_GSISK ap i m)"
    using f(6) by (simp add: row_keys_def del: upt_Suc)
  with stored_row_keys(2) [OF f(4) i] od show "row_keys i od = norm_slot (ap_GSIPK ap i m, ap_GSISK ap i m)"
    by simp
qed

lemma row_for_rehydrates:
  assumes "gzip_laws gz" "proto_laws ap" "row_for gz ap m t od"
  shows "ReHydrate gz ap od = Inr m"
  using assms(3) ReHydrate_New [OF assms(1,2)] by (auto simp: row_for_def)

text \<open>Writing one row changes one shelf at one id.\<close>

lemma holds_shelf_put:
  assumes "holds_shelf gz ap idf sk rows shelf" "row_for gz ap m t od"
  shows "holds_shelf gz ap idf sk (rows((order_pk (idf m), sk) \<mapsto> od)) (shelf(idf m \<mapsto> (m, t)))"
  using assms by (simp add: holds_shelf_def holds_entry_def [where i = "idf m"])

lemma holds_shelf_delete:
  "holds_shelf gz ap idf sk rows shelf \<Longrightarrow>
     holds_shelf gz ap idf sk (rows((order_pk i, sk) := None)) (shelf(i := None))"
  by (simp add: holds_shelf_def holds_entry_def [where row = None])

lemma holds_shelf_other:
  "holds_shelf gz ap idf sk rows shelf \<Longrightarrow> sk' \<noteq> sk \<Longrightarrow> holds_shelf gz ap idf sk (rows((pk, sk') := r)) shelf"
  by (simp add: holds_shelf_def)

lemma holds_shelf_row:
  assumes "holds_shelf gz ap idf sk rows shelf" "rows (order_pk i, sk) = Some od"
  obtains m t where "shelf i = Some (m, t)" "idf m = i" "row_for gz ap m t od"
proof -
  from assms have "holds_entry gz ap idf i (Some od) (shelf i)" by (metis holds_shelf_def)
  then show thesis by (auto simp: holds_entry_def split: option.splits intro: that)
qed

section \<open>The calls of a client\<close>

lemma client_rehydrate_map:
  assumes "\<And>od. od \<in> set ods \<Longrightarrow> ReHydrate gz ap od = Inr (f od)"
  shows "client_rehydrate gz ap msg ods = Inr (map f ods)"
  using assms by (induction ods) auto

context opaque_store
begin

lemma client_add_row:
  assumes "sinv s" "keyed_by ap idf sk" "sk \<noteq> []"
    and add: "client_add ops gz ap name t0 c s d opts = (s', r)"
  shows "sinv s' \<and> ((r \<noteq> None \<and> rows s' = rows s)
    \<or> (\<exists>od. rows s' = (rows s)((order_pk (idf d), sk) \<mapsto> od) \<and> row_for gz ap d (expires t0 opts) od))"
proof (cases "NewOpaqueDataFromProto gz ap t0 opts d")
  case (Inl e)
  with add assms(1) show ?thesis by (auto simp: client_add_def)
next
  case (Inr od)
  then have row: "row_for gz ap d (expires t0 opts) (stored_row od)"
    using NewOpaqueData_fields(5) [OF Inr] unfolding row_for_def expires_def by metis
  have key: "od_pk od = order_pk (idf d)" "od_sk od = sk"
    using NewOpaqueData_fields(1,2) [OF Inr] assms(2) by (simp_all add: keyed_by_def)
  have put: "putable_row od"
    using NewOpaqueData_fields(4) [OF Inr] key assms(3) by (simp add: putable_row_def order_pk_def)
  have p: "op_put ops c s od = (s', r)" using add Inr by (simp add: client_add_def)
  show ?thesis
  proof (cases r)
    case None
    with put_done [OF assms(1) put] p row key show ?thesis by auto
  next
    case (Some e)
    with put_failed [OF assms(1) put] p have
      "sinv s' \<and> (rows s' = rows s \<or> rows s' = (rows s)((od_pk od, od_sk od) \<mapsto> stored_row od))" by blast
    with row key Some show ?thesis by auto
  qed
qed

lemma client_delete_row:
  assumes "sinv s" "keyed_by ap idf sk" "client_delete ops ap c s key = (s', r)"
  shows "sinv s' \<and> (rows s' = (rows s)((order_pk (idf key), sk) := None) \<or> (r \<noteq> None \<and> rows s' = rows s))"
proof -
  have "op_delete ops c s (order_pk (idf key)) sk = (s', r)"
    using assms(2,3) by (simp add: client_delete_def keyed_by_def)
  with delete_done [OF assms(1)] delete_failed [OF assms(1)] show ?thesis by (cases r) blast+
qed

lemma client_get_shelf:
  assumes "gzip_laws gz" "proto_laws ap" "sinv s" "keyed_by ap idf sk"
    and shelf: "holds_shelf gz ap idf sk (rows s) shelf"
    and get: "client_get ops gz ap name c s key = r"
  shows "case shelf (idf key) of
      None \<Rightarrow> \<exists>e. r = Inl e
    | Some (m, t) \<Rightarrow> r = Inr m \<or> (\<exists>e. r = Inl e \<and> \<not> err_is e ErrNotFound)"
proof (cases "op_get ops c s (order_pk (idf key)) sk")
  case (Inl e)
  with get assms(4) have r: "r = Inl (errorf (name @ '': '') e)" by (simp add: client_get_def keyed_by_def)
  have "rows s (order_pk (idf key), sk) = None" if "err_is e ErrNotFound"
    using get_missing [OF assms(3) Inl that] .
  moreover have "holds_entry gz ap idf (idf key) (rows s (order_pk (idf key), sk)) (shelf (idf key))"
    using shelf by (simp add: holds_shelf_def)
  ultimately show ?thesis using r by (auto simp: holds_entry_def split: option.splits)
next
  case (Inr od)
  with get_found [OF assms(3)] have "rows s (order_pk (idf key), sk) = Some od" by simp
  from holds_shelf_row [OF shelf this] obtain m t where m: "shelf (idf key) = Some (m, t)" "row_for gz ap m t od" .
  with row_for_rehydrates [OF assms(1,2) m(2)] get Inr assms(4) show ?thesis
    by (simp add: client_get_def keyed_by_def)
qed

text \<open>
  A slot that every message of the type fills with its own keys, and that no other row of the
  table has with the queried key.
\<close>

lemma client_select_shelf:
  assumes laws: "gzip_laws gz" "proto_laws ap" and s: "sinv s"
    and shelf: "holds_shelf gz ap idf sk (rows s) shelf" and keyed: "keyed_by ap idf sk"
    and n: "0 < n" "n \<le> 20" and used: "\<And>m. ap_GSIPK ap n m \<notin> {[], ''NA''} \<and> ap_GSISK ap n m \<noteq> []"
    and own: "\<And>k od. rows s k = Some od \<Longrightarrow> fst (row_keys n od) = ap_GSIPK ap n key \<Longrightarrow> \<exists>i. k = (order_pk i, sk)"
    and sel: "client_select ops gz ap msg name n c s key srt = Some (Inr ms)"
  shows "set ms = {m. \<exists>t. shelf (idf m) = Some (m, t) \<and> ap_GSIPK ap n m = ap_GSIPK ap n key
        \<and> (t = 0 \<or> sint now < sint t) \<and> (\<forall>sc. srt = Some sc \<longrightarrow> sort_holds sc (ap_GSISK ap n m))}
    \<and> distinct ms \<and> sorted (map (ap_GSISK ap n) ms)"
proof -
  let ?v = "ap_GSIPK ap n key"
  have idx: "qo_GSIIndex (ApplyQueryOptions [WithGSIIndex (int n)]) = int n"
    by (simp add: ApplyQueryOptions_def WithGSIIndex_def)
  obtain ods where q: "op_query ops c s (gsi_attr n ''pk'') ?v (gsi_attr n ''sk'') srt [WithGSIIndex (int n)] = Some (Inr ods)"
    and ms: "client_rehydrate gz ap msg ods = Inr ms"
    using sel by (cases "op_query ops c s (gsi_attr n ''pk'') ?v (gsi_attr n ''sk'') srt [WithGSIIndex (int n)]")
      (auto simp: client_select_def split: sum.splits intro: that)
  have "op_query ops c s (fst (index_attrs n)) ?v (snd (index_attrs n)) srt [WithGSIIndex (int n)] = Some (Inr ods)"
    using q n by (simp add: index_attrs_def)
  from query_lists [OF s n(2) idx this] used have
    ods: "set ods = selected (rows s) now n ?v srt" "distinct ods" "sorted (map (\<lambda>od. snd (row_keys n od)) ods)"
    by simp_all
  define msg_of where "msg_of od = (case ReHydrate gz ap od of Inr m \<Rightarrow> m)" for od
  have keys: "row_keys n od = (ap_GSIPK ap n m, ap_GSISK ap n m)" if "row_for gz ap m t od" for m t od
    using row_forD(4) [OF that n] used [of m] by (simp add: norm_slot_def)
  have row: "\<exists>t. shelf (idf (msg_of od)) = Some (msg_of od, t) \<and> row_for gz ap (msg_of od) t od
      \<and> ReHydrate gz ap od = Inr (msg_of od)" if "od \<in> ran (rows s)" "fst (row_keys n od) = ?v" for od
  proof -
    from that(1) obtain k where k: "rows s k = Some od" by (auto simp: ran_def)
    with own [OF k that(2)] obtain i where "rows s (order_pk i, sk) = Some od" by auto
    from holds_shelf_row [OF shelf this] obtain m t where m: "shelf i = Some (m, t)" "idf m = i" "row_for gz ap m t od" .
    with row_for_rehydrates [OF laws m(3)] show ?thesis by (auto simp: msg_of_def)
  qed
  have in_ods: "od \<in> ran (rows s)" "fst (row_keys n od) = ?v" if "od \<in> set ods" for od
    using that ods(1) by (simp_all add: selected_def)
  have ms_eq: "ms = map msg_of ods"
    using client_rehydrate_map [of ods gz ap msg_of msg] row in_ods ms by auto
  have inj: "inj_on msg_of (set ods)"
  proof (rule inj_onI)
    fix x y assume xy: "x \<in> set ods" "y \<in> set ods" "msg_of x = msg_of y"
    have "rows s (order_pk (idf (msg_of od)), sk) = Some od" if "od \<in> set ods" for od
    proof -
      from row [OF in_ods [OF that]] obtain t where
        t: "shelf (idf (msg_of od)) = Some (msg_of od, t)" "row_for gz ap (msg_of od) t od" by blast
      from in_ods(1) [OF that] obtain k where k: "rows s k = Some od" by (auto simp: ran_def)
      with own [OF k in_ods(2) [OF that]] obtain i where i: "rows s (order_pk i, sk) = Some od" by auto
      from holds_shelf_row [OF shelf i] obtain m t' where m: "idf m = i" "row_for gz ap m t' od" by metis
      have "order_pk (idf m) = order_pk (idf (msg_of od))"
        using row_forD(1) [OF m(2)] row_forD(1) [OF t(2)] keyed by (simp add: keyed_by_def)
      with i m(1) show ?thesis by simp
    qed
    from this [OF xy(1)] this [OF xy(2)] xy(3) show "x = y" by (metis option.inject)
  qed
  have "sorted (map (ap_GSISK ap n) ms)"
  proof -
    have "snd (row_keys n od) = ap_GSISK ap n (msg_of od)" if "od \<in> set ods" for od
      using row [OF in_ods [OF that]] keys by fastforce
    then have "map (\<lambda>od. snd (row_keys n od)) ods = map (ap_GSISK ap n) ms"
      by (simp add: ms_eq)
    with ods(3) show ?thesis by simp
  qed
  moreover have "distinct ms" using ods(2) inj by (simp add: ms_eq distinct_map)
  moreover have "set ms = {m. \<exists>t. shelf (idf m) = Some (m, t) \<and> ap_GSIPK ap n m = ?v
        \<and> (t = 0 \<or> sint now < sint t) \<and> (\<forall>sc. srt = Some sc \<longrightarrow> sort_holds sc (ap_GSISK ap n m))}"
    (is "_ = ?R")
  proof (intro equalityI subsetI)
    fix m assume "m \<in> set ms"
    then obtain od where od: "od \<in> set ods" "m = msg_of od" by (auto simp: ms_eq)
    then obtain t where t: "shelf (idf m) = Some (m, t)" "row_for gz ap m t od" using row in_ods by blast
    with od(1) ods(1) keys [OF t(2)] row_forD(3) [OF t(2)] show "m \<in> ?R"
      by (auto simp: selected_def live_at_def)
  next
    fix m assume "m \<in> ?R"
    then obtain t where t: "shelf (idf m) = Some (m, t)" "ap_GSIPK ap n m = ?v" "t = 0 \<or> sint now < sint t"
      and srt: "\<forall>sc. srt = Some sc \<longrightarrow> sort_holds sc (ap_GSISK ap n m)" by blast
    obtain od where od: "rows s (order_pk (idf m), sk) = Some od" "row_for gz ap m t od"
    proof -
      have "holds_entry gz ap idf (idf m) (rows s (order_pk (idf m), sk)) (Some (m, t))"
        using shelf t(1) by (metis holds_shelf_def)
      then show thesis by (auto simp: holds_entry_def intro: that)
    qed
    then have "od \<in> set ods"
      using ods(1) keys [OF od(2)] row_forD(3) [OF od(2)] t srt by (auto simp: selected_def live_at_def ranI)
    moreover have "msg_of od = m" using row_for_rehydrates [OF laws od(2)] by (simp add: msg_of_def)
    ultimately show "m \<in> set ms" by (auto simp: ms_eq)
  qed
  ultimately show ?thesis by blast
qed

end

end
