(* ===== verification/Strconv.thy ===== *)
theory Strconv
  imports GoPrelude "HOL-Library.List_Lexorder" "HOL-Library.Char_ord"
begin

text \<open>
  Text encodings of numbers and bytes: what the code uses of packages strconv and encoding/base64,
  and the byte order of decimal numerals.

  Package strconv: \<open>strconv.ParseInt(s, 10, 64)\<close>, an optional sign and decimal digits whose value
  fits 64 bits, which reads back what \<open>strconv.FormatInt(v, 10)\<close> prints.
\<close>

definition all_digits :: "string \<Rightarrow> bool" where
  "all_digits s \<longleftrightarrow> s \<noteq> [] \<and> list_all (\<lambda>c. 48 \<le> (of_char c :: nat) \<and> (of_char c :: nat) \<le> 57) s"

definition parse_error :: "string \<Rightarrow> string \<Rightarrow> string \<Rightarrow> goerr" where
  "parse_error fn s what = Foreign (''strconv.'' @ fn @ '': parsing '' @ Quote s @ '': '' @ what)"

definition split_sign :: "string \<Rightarrow> bool \<times> string" where
  "split_sign s =
     (case s of
        [] \<Rightarrow> (False, s)
      | c # cs \<Rightarrow> if c = CHR ''-'' then (True, cs) else if c = CHR ''+'' then (False, cs) else (False, s))"

definition ParseInt64 :: "string \<Rightarrow> goerr + int64" where
  "ParseInt64 s =
     (case split_sign s of (neg, ds) \<Rightarrow>
        if \<not> all_digits ds then Inl (parse_error ''ParseInt'' s ''invalid syntax'')
        else (let n = (if neg then - int (undec ds) else int (undec ds))
              in if n < - (2 ^ 63) \<or> 2 ^ 63 \<le> n then Inl (parse_error ''ParseInt'' s ''value out of range'')
                 else Inr (word_of_int n)))"

lemma all_digits_dec: "all_digits (dec_nat n)"
  using dec_nat_digits [of _ n] by (simp add: all_digits_def list_all_iff)

lemma split_sign_dec: "split_sign (dec_int i) = (i < 0, dec_nat (nat \<bar>i\<bar>))"
proof (cases "i < 0")
  case False
  obtain c cs where c: "dec_nat (nat i) = c # cs" by (cases "dec_nat (nat i)") auto
  then have "48 \<le> (of_char c :: nat)" using dec_nat_digits [of c "nat i"] by simp
  then have "c \<noteq> CHR ''-''" "c \<noteq> CHR ''+''" by auto
  with False c show ?thesis by (simp add: dec_int_def split_sign_def)
qed (simp add: dec_int_def split_sign_def)

lemma ParseInt64_dec [simp]: "ParseInt64 (dec_int64 v) = Inr v"
  using sint64_bounds [of v]
  by (simp add: ParseInt64_def dec_int64_def split_sign_dec all_digits_dec Let_def)

text \<open>The value of a numeral, for the comparison of numbers that DynamoDB keeps as strings.\<close>

definition parse_int :: "string \<Rightarrow> int" where
  "parse_int s = (if s \<noteq> [] \<and> hd s = CHR ''-'' then - int (undec (tl s)) else int (undec s))"

lemma parse_dec_int [simp]: "parse_int (dec_int n) = n"
proof (cases "n < 0")
  case False
  then have "dec_int n = dec_nat (nat n)" by (simp add: dec_int_def)
  moreover have "hd (dec_nat (nat n)) \<noteq> CHR ''-''"
    using dec_nat_no_minus [of "nat n"] hd_in_set [OF dec_nat_not_Nil] by metis
  ultimately show ?thesis using False by (simp add: parse_int_def)
qed (simp add: dec_int_def parse_int_def)

lemma parse_zero [simp]: "parse_int ''0'' = 0"
  by (simp add: parse_int_def undec_def)

lemma parse_dec_int64 [simp]: "parse_int (dec_int64 v) = sint v"
  by (simp add: dec_int64_def)

section \<open>The order of decimal numerals\<close>

text \<open>
  The byte order of decimal numerals: among numerals of the same length it is the numeric order,
  which is what the sort keys made of timestamps rely on.
\<close>

lemma append_less_same_prefix: "(p @ xs :: ('a :: linorder) list) < p @ ys \<longleftrightarrow> xs < ys"
  by (induction p) simp_all

lemma append_le_same_prefix: "(p @ xs :: ('a :: linorder) list) \<le> p @ ys \<longleftrightarrow> xs \<le> ys"
  unfolding linorder_not_less [symmetric] append_less_same_prefix ..

lemma snoc_less:
  "length xs = length ys \<Longrightarrow>
     (xs @ [a] :: ('a :: linorder) list) < ys @ [b] \<longleftrightarrow> xs < ys \<or> (xs = ys \<and> a < b)"
proof (induction xs ys rule: list_induct2)
  case (Cons x xs y ys)
  then show ?case by (auto simp: Cons_less_Cons)
qed (simp add: Cons_less_Cons)

lemma digit_char_less: "a < 10 \<Longrightarrow> b < 10 \<Longrightarrow> digit_char a < digit_char b \<longleftrightarrow> a < b"
  by (simp add: less_char_def of_char_digit)

lemma length_dec_nat:
  "10 ^ k \<le> n \<Longrightarrow> n < 10 ^ Suc k \<Longrightarrow> length (dec_nat n) = Suc k"
proof (induction k arbitrary: n)
  case 0
  then show ?case by (subst dec_nat.simps) simp
next
  case (Suc k)
  then have "10 ^ k \<le> n div 10" "n div 10 < 10 ^ Suc k" by auto
  then have "length (dec_nat (n div 10)) = Suc k" by (rule Suc.IH)
  moreover have "\<not> n < 10" using Suc.prems(1) by (simp add: not_less) (metis one_le_numeral one_le_power mult_le_mono2 mult.right_neutral order_trans)
  ultimately show ?case by (subst dec_nat.simps) simp
qed

lemma dec_nat_less:
  "10 ^ k \<le> m \<Longrightarrow> m < 10 ^ Suc k \<Longrightarrow> 10 ^ k \<le> n \<Longrightarrow> n < 10 ^ Suc k \<Longrightarrow>
     dec_nat m < dec_nat n \<longleftrightarrow> m < n"
proof (induction k arbitrary: m n)
  case 0
  then have "m < 10" "n < 10" by simp_all
  then show ?case
    by (subst (1 2) dec_nat.simps) (simp add: digit_char_less Cons_less_Cons)
next
  case (Suc k)
  let ?m = "m div 10" and ?n = "n div 10"
  have b: "10 ^ k \<le> ?m" "?m < 10 ^ Suc k" "10 ^ k \<le> ?n" "?n < 10 ^ Suc k" using Suc.prems by auto
  have big: "\<not> m < 10" "\<not> n < 10"
    using b(1,3) by (metis div_less not_less one_le_numeral one_le_power le_zero_eq zero_neq_one order_trans)+
  have "dec_nat m < dec_nat n \<longleftrightarrow>
      dec_nat ?m @ [digit_char (m mod 10)] < dec_nat ?n @ [digit_char (n mod 10)]"
    using big by (subst (1 2) dec_nat.simps) simp
  also have "\<dots> \<longleftrightarrow> ?m < ?n \<or> (?m = ?n \<and> m mod 10 < n mod 10)"
    using snoc_less [of "dec_nat ?m" "dec_nat ?n"] length_dec_nat [OF b(1,2)] length_dec_nat [OF b(3,4)]
      Suc.IH [OF b] by (simp add: dec_nat_inj digit_char_less)
  also have "\<dots> \<longleftrightarrow> m < n"
  proof (cases ?m ?n rule: linorder_cases)
    case less
    then have "m < n" by (metis div_le_mono linorder_not_less)
    with less show ?thesis by simp
  next
    case equal
    then show ?thesis by (metis div_mult_mod_eq nat_add_left_cancel_less less_irrefl)
  next
    case greater
    then have "n < m" by (metis div_le_mono linorder_not_less)
    with greater show ?thesis by simp
  qed
  finally show ?case .
qed

text \<open>Microsecond timestamps between 2001 and 2286 have sixteen digits.\<close>

definition sixteen_digits :: "int64 \<Rightarrow> bool" where
  "sixteen_digits t \<longleftrightarrow> 10 ^ 15 \<le> sint t \<and> sint t < 10 ^ 16"

lemma dec_int64_less:
  assumes "sixteen_digits s" "sixteen_digits t"
  shows "dec_int64 s < dec_int64 t \<longleftrightarrow> sint s < sint t"
proof -
  have n: "10 ^ 15 \<le> nat (sint x)" "nat (sint x) < 10 ^ Suc 15" if "sixteen_digits x" for x
    using that by (auto simp: sixteen_digits_def nat_less_iff le_nat_iff)
  have d: "dec_int64 x = dec_nat (nat (sint x))" if "sixteen_digits x" for x
    using that by (simp add: sixteen_digits_def dec_int64_def dec_int_def)
  from dec_nat_less [OF n [OF assms(1)] n [OF assms(2)]] assms show ?thesis
    by (simp add: d nat_less_eq_zless sixteen_digits_def)
qed

lemma dec_int64_le:
  "sixteen_digits s \<Longrightarrow> sixteen_digits t \<Longrightarrow> dec_int64 s \<le> dec_int64 t \<longleftrightarrow> sint s \<le> sint t"
  using dec_int64_less by (simp flip: linorder_not_less)

section \<open>Base64\<close>

text \<open>
  Package encoding/base64: \<open>StdEncoding\<close>, with padding and without strictness about trailing
  bits. Decoding skips line breaks; its error, whose text names an offset that nothing uses, is
  \<open>None\<close>.
\<close>

definition b64_char :: "nat \<Rightarrow> char" where
  "b64_char n =
     (if n < 26 then char_of (65 + n) else if n < 52 then char_of (71 + n)
      else if n < 62 then char_of (n - 4) else if n = 62 then CHR ''+'' else CHR ''/'')"

definition b64_value :: "char \<Rightarrow> nat option" where
  "b64_value c =
     (let n = (of_char c :: nat)
      in if 65 \<le> n \<and> n \<le> 90 then Some (n - 65) else if 97 \<le> n \<and> n \<le> 122 then Some (n - 71)
         else if 48 \<le> n \<and> n \<le> 57 then Some (n + 4)
         else if c = CHR ''+'' then Some 62 else if c = CHR ''/'' then Some 63 else None)"

text \<open>Three bytes are four digits.\<close>

definition b64_digits :: "byte \<Rightarrow> byte \<Rightarrow> byte \<Rightarrow> nat list" where
  "b64_digits a b c =
     (let n = unat a * 65536 + unat b * 256 + unat c
      in [n div 262144, n div 4096 mod 64, n div 64 mod 64, n mod 64])"

fun EncodeToString :: "bytes \<Rightarrow> string" where
  "EncodeToString [] = []"
| "EncodeToString [a] = map b64_char (take 2 (b64_digits a 0 0)) @ ''==''"
| "EncodeToString [a, b] = map b64_char (take 3 (b64_digits a b 0)) @ ''=''"
| "EncodeToString (a # b # c # bs) = map b64_char (b64_digits a b c) @ EncodeToString bs"

definition b64_bytes :: "nat \<Rightarrow> nat \<Rightarrow> nat \<Rightarrow> nat \<Rightarrow> bytes" where
  "b64_bytes p q r s =
     (let n = p * 262144 + q * 4096 + r * 64 + s
      in [word_of_nat (n div 65536), word_of_nat (n div 256), word_of_nat n])"

fun b64_groups :: "string \<Rightarrow> bytes option" where
  "b64_groups [] = Some []"
| "b64_groups (c1 # c2 # c3 # c4 # cs) =
     (case (b64_value c1, b64_value c2) of
        (Some p, Some q) \<Rightarrow>
          (case b64_value c3 of
             None \<Rightarrow> if c3 = CHR ''='' \<and> c4 = CHR ''='' \<and> cs = [] then Some (take 1 (b64_bytes p q 0 0)) else None
           | Some r \<Rightarrow> (case b64_value c4 of
               None \<Rightarrow> if c4 = CHR ''='' \<and> cs = [] then Some (take 2 (b64_bytes p q r 0)) else None
             | Some s \<Rightarrow> map_option ((@) (b64_bytes p q r s)) (b64_groups cs)))
      | _ \<Rightarrow> None)"
| "b64_groups _ = None"

definition DecodeString :: "string \<Rightarrow> bytes option" where
  "DecodeString s = b64_groups (filter (\<lambda>c. c \<noteq> CHR 0x0A \<and> c \<noteq> CHR 0x0D) s)"

subsection \<open>Decoding inverts encoding\<close>

lemma of_char_of_small: "n < 256 \<Longrightarrow> (of_char (char_of n :: char) :: nat) = n"
  by (simp add: take_bit_eq_mod)

definition b64_char_ok :: "nat \<Rightarrow> bool" where
  "b64_char_ok n \<longleftrightarrow> b64_value (b64_char n) = Some n
     \<and> b64_char n \<notin> {CHR 0x0A, CHR 0x0D, CHR ''=''}"

lemma b64_char_value:
  assumes "n < 64"
  shows "b64_value (b64_char n) = Some n" "b64_char n \<noteq> CHR 0x0A" "b64_char n \<noteq> CHR 0x0D" "b64_char n \<noteq> CHR ''=''"
proof -
  have "list_all b64_char_ok [0..<64]" by code_simp
  moreover have "n \<in> set [0..<64]" using assms by simp
  ultimately have "b64_char_ok n" unfolding list_all_iff by (rule bspec)
  then show "b64_value (b64_char n) = Some n" "b64_char n \<noteq> CHR 0x0A" "b64_char n \<noteq> CHR 0x0D" "b64_char n \<noteq> CHR ''=''"
    unfolding b64_char_ok_def by blast+
qed

lemma b64_digits_less: "\<forall>n \<in> set (b64_digits a b c). n < 64"
proof -
  have "unat a < 256" "unat b < 256" "unat c < 256"
    using unsigned_less [of a, where ?'a = nat] unsigned_less [of b, where ?'a = nat] unsigned_less [of c, where ?'a = nat]
    by simp_all
  then show ?thesis by (auto simp: b64_digits_def Let_def div_less_iff_less_mult)
qed

lemma b64_digits_bytes:
  obtains p q r s where "b64_digits a b c = [p, q, r, s]" "b64_bytes p q r s = [a, b, c]" "p < 64" "q < 64" "r < 64" "s < 64"
    "c = 0 \<Longrightarrow> s = 0" "b = 0 \<Longrightarrow> c = 0 \<Longrightarrow> r = 0"
proof -
  define n where "n = unat a * 65536 + unat b * 256 + unat c"
  let ?p = "n div 262144" and ?q = "n div 4096 mod 64" and ?r = "n div 64 mod 64" and ?s = "n mod 64"
  have d: "b64_digits a b c = [?p, ?q, ?r, ?s]" by (simp add: b64_digits_def n_def Let_def)
  have less: "unat a < 256" "unat b < 256" "unat c < 256"
    using unsigned_less [of a, where ?'a = nat] unsigned_less [of b, where ?'a = nat] unsigned_less [of c, where ?'a = nat]
    by simp_all
  have split: "m div k * k + m mod k = m" for m k :: nat by simp
  have "n div 64 div 64 = n div 4096" "n div 4096 div 64 = n div 262144" by (simp_all add: div_mult2_eq [symmetric])
  with split [of n 64] split [of "n div 64" 64] split [of "n div 4096" 64]
  have sum: "?p * 262144 + ?q * 4096 + ?r * 64 + ?s = n" by linarith
  have "n div 65536 = unat a" "n div 256 = unat a * 256 + unat b" using less by (simp_all add: n_def)
  then have "b64_bytes ?p ?q ?r ?s = [word_of_nat (unat a), word_of_nat (unat a * 256 + unat b), word_of_nat n]"
    unfolding b64_bytes_def Let_def sum by simp
  moreover have "(256 :: byte) = 0" "(65536 :: byte) = 0" by simp_all
  ultimately have "b64_bytes ?p ?q ?r ?s = [a, b, c]" by (simp add: n_def)
  moreover have "?s = 0" if "c = 0"
  proof -
    have "n = (unat a * 1024 + unat b * 4) * 64" using that by (simp add: n_def)
    then show ?thesis by simp
  qed
  moreover have "?r = 0" if "b = 0" "c = 0"
  proof -
    have "n = unat a * 1024 * 64" using that by (simp add: n_def)
    then show ?thesis by simp
  qed
  moreover have "?p < 64" "?q < 64" "?r < 64" "?s < 64" using b64_digits_less [of a b c] unfolding d by simp_all
  ultimately show thesis by (intro that [OF d])
qed

lemma groups_encode: "b64_groups (EncodeToString bs) = Some bs"
proof (induction bs rule: EncodeToString.induct)
  case (2 a)
  obtain p q r s where d: "b64_digits a 0 0 = [p, q, r, s]" "b64_bytes p q r s = [a, 0, 0]" "p < 64" "q < 64"
    "s = 0" "r = 0" by (rule b64_digits_bytes [of a 0 0]) auto
  then show ?case by (simp add: b64_char_value b64_value_def [of "CHR ''=''"] numeral_2_eq_2)
next
  case (3 a b)
  obtain p q r s where d: "b64_digits a b 0 = [p, q, r, s]" "b64_bytes p q r s = [a, b, 0]" "p < 64" "q < 64" "r < 64"
    "s = 0" by (rule b64_digits_bytes [of a b 0]) auto
  then show ?case by (simp add: b64_char_value b64_value_def [of "CHR ''=''"] numeral_3_eq_3 numeral_2_eq_2)
next
  case (4 a b c bs)
  obtain p q r s where "b64_digits a b c = [p, q, r, s]" "b64_bytes p q r s = [a, b, c]" "p < 64" "q < 64" "r < 64" "s < 64"
    by (rule b64_digits_bytes [of a b c]) auto
  with 4 show ?case by (simp add: b64_char_value)
qed simp

lemma encode_no_breaks: "c \<in> set (EncodeToString bs) \<Longrightarrow> c \<noteq> CHR 0x0A \<and> c \<noteq> CHR 0x0D"
proof (induction bs rule: EncodeToString.induct)
  case (2 a)
  then show ?case using b64_digits_less [of a 0 0] by (auto simp: b64_char_value dest!: in_set_takeD)
next
  case (3 a b)
  then show ?case using b64_digits_less [of a b 0] by (auto simp: b64_char_value dest!: in_set_takeD)
next
  case (4 a b c bs)
  then show ?case using b64_digits_less [of a b c] by (auto simp: b64_char_value)
qed simp

lemma decode_encode [simp]: "DecodeString (EncodeToString bs) = Some bs"
proof -
  have "filter (\<lambda>c. c \<noteq> CHR 0x0A \<and> c \<noteq> CHR 0x0D) (EncodeToString bs) = EncodeToString bs"
    using encode_no_breaks [of _ bs] by (auto simp: filter_id_conv)
  then show ?thesis by (simp add: DecodeString_def groups_encode)
qed

end
