(* ===== verification/DynamoOpaque.thy ===== *)
theory DynamoOpaque
  imports OpaqueData Strconv
begin

text \<open>
  gen/opaquedata/dynamo/dynamo.go: opaque rows as DynamoDB items. The service behind
  \<open>dynamoclient.Client\<close> and \<open>attributevalue.UnmarshalMap\<close> of the AWS SDK are parameters.
\<close>

section \<open>Items\<close>

datatype attribute_value = AV_S string | AV_N string | AV_B bytes

type_synonym item = "string \<Rightarrow> attribute_value option"

record dynamo_query_input =
  qi_table :: string
  qi_key_condition :: string
  qi_filter :: string
  qi_names :: "string \<Rightarrow> string option"
  qi_values :: "item"
  qi_index :: "string option"
  qi_start :: "item option"

text \<open>The calls of the client that the store makes, and \<open>UnmarshalMap\<close> into a new row.\<close>

record 's dynamo_client =
  dy_put_item :: "ctx \<Rightarrow> string \<Rightarrow> item \<Rightarrow> 's \<Rightarrow> 's \<times> goerr option"
  dy_get_item :: "ctx \<Rightarrow> string \<Rightarrow> item \<Rightarrow> 's \<Rightarrow> goerr + item option"
  dy_delete_item :: "ctx \<Rightarrow> string \<Rightarrow> item \<Rightarrow> 's \<Rightarrow> 's \<times> goerr option"
  dy_query :: "ctx \<Rightarrow> dynamo_query_input \<Rightarrow> 's \<Rightarrow> goerr + item list \<times> item option"
  dy_unmarshal :: "item \<Rightarrow> goerr + opaque_data"

definition GSIIndexName :: "int \<Rightarrow> string" where
  "GSIIndexName n = ''gsi'' @ dec_int n @ ''pk-gsi'' @ dec_int n @ ''sk-index''"

definition dynamo_getKey :: "string \<Rightarrow> string \<Rightarrow> item" where
  "dynamo_getKey pk sk = [''pk'' \<mapsto> AV_S pk, ''sk'' \<mapsto> AV_S sk]"

record gsi_pair =
  gp_pkAttr :: string
  gp_skAttr :: string
  gp_pkVal :: string
  gp_skVal :: string

definition gsi_pair_of :: "nat \<times> string \<times> string \<Rightarrow> gsi_pair" where
  "gsi_pair_of x = (case x of (i, pk, sk) \<Rightarrow>
     \<lparr>gp_pkAttr = gsi_attr i ''pk'', gp_skAttr = gsi_attr i ''sk'', gp_pkVal = pk, gp_skVal = sk\<rparr>)"

definition gsiPairs :: "opaque_data \<Rightarrow> gsi_pair list" where
  "gsiPairs od = map gsi_pair_of (zip [1..<21] (od_gsi od))"

definition dynamo_GetKey :: "opaque_data \<Rightarrow> item" where
  "dynamo_GetKey od = [''pk'' \<mapsto> AV_S (od_pk od), ''sk'' \<mapsto> AV_S (od_sk od)]"

definition put_gsi :: "gsi_pair \<Rightarrow> item \<Rightarrow> item" where
  "put_gsi g it =
     (if gp_pkVal g \<noteq> [] \<and> gp_pkVal g \<noteq> ''NA''
      then it(gp_pkAttr g \<mapsto> AV_S (gp_pkVal g),
              gp_skAttr g \<mapsto> AV_S (if gp_skVal g = [] then ''NA'' else gp_skVal g))
      else if gp_skVal g \<noteq> [] \<and> gp_skVal g \<noteq> ''NA''
      then it(gp_skAttr g \<mapsto> AV_S (gp_skVal g))
      else it)"

definition dynamo_GetItem :: "opaque_data \<Rightarrow> item" where
  "dynamo_GetItem od =
     (let item0 = [''pk'' \<mapsto> AV_S (od_pk od), ''sk'' \<mapsto> AV_S (od_sk od)];
          item1 = (if length (od_body od) > 0 then item0(''body'' \<mapsto> AV_B (od_body od)) else item0);
          item2 = (if od_t od \<noteq> 0 then item1(''t'' \<mapsto> AV_N (dec_int64 (od_t od))) else item1);
          item3 = (if od_version od \<noteq> 0
                   then item2(''version'' \<mapsto> AV_N (dec_int64 (od_version od))) else item2)
      in fold put_gsi (gsiPairs od) item3)"

text \<open>\<open>GetItems\<close> and \<open>GetExpressionValues\<close>, which differ in the key written.\<close>

fun get_named :: "item \<Rightarrow> (string \<Rightarrow> string) \<Rightarrow> string list \<Rightarrow> item \<Rightarrow> goerr + item" where
  "get_named full key [] result = Inr result"
| "get_named full key (name # names) result =
     (case full name of
        None \<Rightarrow> Inl (Foreign (''opaquedata: attribute '' @ Quote name @ '' not found or empty''))
      | Some v \<Rightarrow> get_named full key names (result(key name \<mapsto> v)))"

definition dynamo_GetItems :: "opaque_data \<Rightarrow> string list \<Rightarrow> goerr + item" where
  "dynamo_GetItems od names = get_named (dynamo_GetItem od) id names (\<lambda>_. None)"

definition dynamo_GetExpressionValues :: "opaque_data \<Rightarrow> string list \<Rightarrow> goerr + item" where
  "dynamo_GetExpressionValues od names =
     get_named (dynamo_GetItem od) (\<lambda>name. '':'' @ name) names (\<lambda>_. None)"

definition dynamo_GetValue :: "opaque_data \<Rightarrow> item" where
  "dynamo_GetValue od = (dynamo_GetItem od)(''pk'' := None, ''sk'' := None)"

section \<open>The store\<close>

definition dynamo_Put ::
    "'s dynamo_client \<Rightarrow> string \<Rightarrow> ctx \<Rightarrow> 's \<Rightarrow> opaque_data \<Rightarrow> 's \<times> goerr option" where
  "dynamo_Put cl table c s od =
     (case dy_put_item cl c table (dynamo_GetItem od) s of
        (s', Some e) \<Rightarrow> (s', Some (errorf ''dynamo.Store.Put: '' e))
      | (s', None) \<Rightarrow> (s', None))"

definition dynamo_Get ::
    "'s dynamo_client \<Rightarrow> string \<Rightarrow> ctx \<Rightarrow> 's \<Rightarrow> string \<Rightarrow> string \<Rightarrow> goerr + opaque_data" where
  "dynamo_Get cl table c s pk sk =
     (case dy_get_item cl c table (dynamo_getKey pk sk) s of
        Inl e \<Rightarrow> Inl (errorf ''dynamo.Store.Get: '' e)
      | Inr None \<Rightarrow> Inl (Sentinel ErrNotFound)
      | Inr (Some it) \<Rightarrow> (case dy_unmarshal cl it of
          Inl e \<Rightarrow> Inl (errorf ''dynamo.Store.Get: unmarshal: '' e)
        | Inr od \<Rightarrow> Inr od))"

definition dynamo_Delete ::
    "'s dynamo_client \<Rightarrow> string \<Rightarrow> ctx \<Rightarrow> 's \<Rightarrow> string \<Rightarrow> string \<Rightarrow> 's \<times> goerr option" where
  "dynamo_Delete cl table c s pk sk =
     (case dy_delete_item cl c table (dynamo_getKey pk sk) s of
        (s', Some e) \<Rightarrow> (s', Some (errorf ''dynamo.Store.Delete: '' e))
      | (s', None) \<Rightarrow> (s', None))"

text \<open>
  \<open>Query\<close>: the sort condition as an expression and its values, the input, and the loop over
  the pages, whose value is \<open>None\<close> when it does not end.
\<close>

definition sort_expression :: "sort_condition \<Rightarrow> goerr + string \<times> string option" where
  "sort_expression srt =
     (case sc_operator srt of
        Equal \<Rightarrow> Inr ('' AND #sk = :sk'', None)
      | Lt \<Rightarrow> Inr ('' AND #sk < :sk'', None)
      | Le \<Rightarrow> Inr ('' AND #sk <= :sk'', None)
      | Gt \<Rightarrow> Inr ('' AND #sk > :sk'', None)
      | Ge \<Rightarrow> Inr ('' AND #sk >= :sk'', None)
      | Between \<Rightarrow> Inr ('' AND #sk BETWEEN :sk AND :sk2'', Some (sc_value2 srt))
      | BeginsWith \<Rightarrow> Inr ('' AND begins_with(#sk, :sk)'', None)
      | OtherOperator n \<Rightarrow> Inl (Foreign (''opaquedata: unknown sort operator '' @ dec_int n)))"

definition dynamo_query_input ::
    "string \<Rightarrow> int64 \<Rightarrow> string \<Rightarrow> string \<Rightarrow> string \<Rightarrow> sort_condition option \<Rightarrow> query_option list
     \<Rightarrow> goerr + dynamo_query_input" where
  "dynamo_query_input table now pkAttr pkValue skAttr srt opts =
     (let qo = ApplyQueryOptions opts;
          exprNames = [''#pk'' \<mapsto> pkAttr, ''#t'' \<mapsto> ''t''];
          exprValues = ['':pk'' \<mapsto> AV_S pkValue, '':zero'' \<mapsto> AV_N ''0'', '':now'' \<mapsto> AV_N (dec_int64 now)]
      in if qo_GSIIndex qo < 0 \<or> qo_GSIIndex qo > 20
         then Inl (Foreign (''opaquedata: GSI index '' @ dec_int (qo_GSIIndex qo) @ '' out of range [0,20]''))
         else (case (case srt of
                       None \<Rightarrow> Inr ('''', exprNames, exprValues)
                     | Some sc \<Rightarrow> (case sort_expression sc of
                         Inl e \<Rightarrow> Inl e
                       | Inr (cond, v2) \<Rightarrow>
                           Inr (cond, exprNames(''#sk'' \<mapsto> skAttr),
                                (let vs = exprValues('':sk'' \<mapsto> AV_S (sc_value sc))
                                 in case v2 of None \<Rightarrow> vs | Some v \<Rightarrow> vs('':sk2'' \<mapsto> AV_S v))))) of
                 Inl e \<Rightarrow> Inl e
               | Inr (cond, names, values) \<Rightarrow>
                   Inr \<lparr>qi_table = table, qi_key_condition = ''#pk = :pk'' @ cond,
                        qi_filter = ''attribute_not_exists(#t) OR #t = :zero OR #t > :now'',
                        qi_names = names, qi_values = values,
                        qi_index = (if qo_GSIIndex qo > 0 then Some (GSIIndexName (qo_GSIIndex qo)) else None),
                        qi_start = None\<rparr>))"

fun unmarshal_items :: "(item \<Rightarrow> goerr + opaque_data) \<Rightarrow> item list \<Rightarrow> goerr + opaque_data list" where
  "unmarshal_items um [] = Inr []"
| "unmarshal_items um (it # its) =
     (case um it of
        Inl e \<Rightarrow> Inl (errorf ''opaquedata: unmarshal item: '' e)
      | Inr od \<Rightarrow> (case unmarshal_items um its of Inl e \<Rightarrow> Inl e | Inr ods \<Rightarrow> Inr (od # ods)))"

partial_function (option) dynamo_query_loop ::
    "'s dynamo_client \<Rightarrow> ctx \<Rightarrow> 's \<Rightarrow> dynamo_query_input \<Rightarrow> opaque_data list
     \<Rightarrow> (goerr + opaque_data list) option" where
  "dynamo_query_loop cl c s input results =
     (case dy_query cl c input s of
        Inl e \<Rightarrow> Some (Inl (errorf ''opaquedata: query: '' e))
      | Inr (items, lastKey) \<Rightarrow>
          (case unmarshal_items (dy_unmarshal cl) items of
             Inl e \<Rightarrow> Some (Inl e)
           | Inr ods \<Rightarrow> (case lastKey of
               None \<Rightarrow> Some (Inr (results @ ods))
             | Some k \<Rightarrow> dynamo_query_loop cl c s (input\<lparr>qi_start := Some k\<rparr>) (results @ ods))))"

definition dynamo_Query ::
    "'s dynamo_client \<Rightarrow> string \<Rightarrow> int64 \<Rightarrow> ctx \<Rightarrow> 's \<Rightarrow> string \<Rightarrow> string \<Rightarrow> string
     \<Rightarrow> sort_condition option \<Rightarrow> query_option list \<Rightarrow> (goerr + opaque_data list) option" where
  "dynamo_Query cl table now c s pkAttr pkValue skAttr srt opts =
     (case dynamo_query_input table now pkAttr pkValue skAttr srt opts of
        Inl e \<Rightarrow> Some (Inl e)
      | Inr input \<Rightarrow> dynamo_query_loop cl c s input [])"

definition dynamo_opaque :: "'s dynamo_client \<Rightarrow> string \<Rightarrow> int64 \<Rightarrow> 's opaque_ops" where
  "dynamo_opaque cl table now =
     \<lparr>op_put = dynamo_Put cl table, op_get = dynamo_Get cl table,
      op_delete = dynamo_Delete cl table, op_query = dynamo_Query cl table now\<rparr>"

section \<open>Items and rows\<close>

text \<open>
  What an item stores of a row: \<open>item_shows\<close> says when \<open>UnmarshalMap\<close> reads an item as a row,
  and the item of a row shows its \<open>stored_row\<close>.
\<close>

definition shows_S :: "attribute_value option \<Rightarrow> string \<Rightarrow> bool" where
  "shows_S a s \<longleftrightarrow> a = Some (AV_S s) \<or> a = None \<and> s = []"

definition shows_N :: "attribute_value option \<Rightarrow> int64 \<Rightarrow> bool" where
  "shows_N a n \<longleftrightarrow> a = Some (AV_N (dec_int64 n)) \<or> a = None \<and> n = 0"

definition shows_B :: "attribute_value option \<Rightarrow> bytes \<Rightarrow> bool" where
  "shows_B a b \<longleftrightarrow> a = Some (AV_B b) \<or> a = None \<and> b = []"

text \<open>Each field of a row is read from the attribute of its name, or is its zero value.\<close>

definition item_shows :: "item \<Rightarrow> opaque_data \<Rightarrow> bool" where
  "item_shows it od \<longleftrightarrow> opaque_ok od
     \<and> shows_S (it ''pk'') (od_pk od) \<and> shows_S (it ''sk'') (od_sk od)
     \<and> shows_N (it ''t'') (od_t od) \<and> shows_N (it ''version'') (od_version od)
     \<and> shows_B (it ''body'') (od_body od)
     \<and> (\<forall>i < 20. shows_S (it (gsi_attr (Suc i) ''pk'')) (fst (od_gsi od ! i))
               \<and> shows_S (it (gsi_attr (Suc i) ''sk'')) (snd (od_gsi od ! i)))"

section \<open>Items of rows\<close>

definition slot_pairs :: "nat \<Rightarrow> (string \<times> string) list \<Rightarrow> gsi_pair list" where
  "slot_pairs n ps = map gsi_pair_of (zip [n..<n + length ps] ps)"

lemma slot_pairs_simps [simp]:
  "slot_pairs n [] = []"
  "slot_pairs n (p # ps) = gsi_pair_of (n, p) # slot_pairs (Suc n) ps"
proof -
  have "[n..<n + length (p # ps)] = n # [Suc n..<Suc n + length ps]"
    by (simp add: upt_conv_Cons del: upt_Suc)
  then show "slot_pairs n (p # ps) = gsi_pair_of (n, p) # slot_pairs (Suc n) ps"
    by (simp add: slot_pairs_def del: upt_Suc)
qed (simp add: slot_pairs_def)

lemma gsiPairs_slots: "opaque_ok od \<Longrightarrow> gsiPairs od = slot_pairs 1 (od_gsi od)"
  by (simp add: gsiPairs_def slot_pairs_def opaque_ok_def)

lemma put_gsi_slot:
  "put_gsi (gsi_pair_of (i, p)) it (gsi_attr j ''pk'')
     = (if i = j \<and> fst (norm_slot p) \<noteq> [] then Some (AV_S (fst (norm_slot p))) else it (gsi_attr j ''pk''))"
  "put_gsi (gsi_pair_of (i, p)) it (gsi_attr j ''sk'')
     = (if i = j \<and> snd (norm_slot p) \<noteq> [] then Some (AV_S (snd (norm_slot p))) else it (gsi_attr j ''sk''))"
  by (cases p; auto simp: put_gsi_def gsi_pair_of_def norm_slot_def gsi_attr_inj)+

lemma put_gsi_plain:
  "(\<And>i s. k \<noteq> gsi_attr i s) \<Longrightarrow> put_gsi (gsi_pair_of p) it k = it k"
  by (cases p) (auto simp: put_gsi_def gsi_pair_of_def)

lemma fold_put_gsi_plain:
  "(\<And>i s. k \<noteq> gsi_attr i s) \<Longrightarrow> fold put_gsi (slot_pairs n ps) it k = it k"
  by (induction ps arbitrary: n it) (simp_all add: put_gsi_plain)

lemma fold_put_gsi_below:
  "j < n \<Longrightarrow> fold put_gsi (slot_pairs n ps) it (gsi_attr j ''pk'') = it (gsi_attr j ''pk'')
     \<and> fold put_gsi (slot_pairs n ps) it (gsi_attr j ''sk'') = it (gsi_attr j ''sk'')"
  by (induction ps arbitrary: n it) (simp_all add: put_gsi_slot)

lemma fold_put_gsi_slots:
  assumes "\<forall>j s. it (gsi_attr j s) = None" "i < length ps"
  shows "shows_S (fold put_gsi (slot_pairs n ps) it (gsi_attr (n + i) ''pk'')) (fst (norm_slot (ps ! i)))
    \<and> shows_S (fold put_gsi (slot_pairs n ps) it (gsi_attr (n + i) ''sk'')) (snd (norm_slot (ps ! i)))"
proof -
  have "shows_S (fold put_gsi (slot_pairs n ps) it (gsi_attr (n + i) ''pk'')) (fst (norm_slot (ps ! i)))
    \<and> shows_S (fold put_gsi (slot_pairs n ps) it (gsi_attr (n + i) ''sk'')) (snd (norm_slot (ps ! i)))"
    if "\<forall>j \<ge> n. it (gsi_attr j ''pk'') = None \<and> it (gsi_attr j ''sk'') = None" for it
    using that assms(2)
  proof (induction ps arbitrary: n it i)
    case (Cons p ps)
    show ?case
    proof (cases i)
      case 0
      with Cons.prems(1) show ?thesis
        using fold_put_gsi_below [of n "Suc n" ps "put_gsi (gsi_pair_of (n, p)) it"]
        by (auto simp: put_gsi_slot shows_S_def)
    next
      case (Suc k)
      have "\<forall>j \<ge> Suc n. put_gsi (gsi_pair_of (n, p)) it (gsi_attr j ''pk'') = None
          \<and> put_gsi (gsi_pair_of (n, p)) it (gsi_attr j ''sk'') = None"
        using Cons.prems(1) by (simp add: put_gsi_slot)
      from Cons.IH [OF this, of k] Cons.prems(2) Suc show ?thesis by simp
    qed
  qed simp
  with assms(1) show ?thesis by simp
qed

lemma GetItem_keys: "dynamo_GetItem od ''pk'' = Some (AV_S (od_pk od))" "dynamo_GetItem od ''sk'' = Some (AV_S (od_sk od))"
proof -
  have "fold put_gsi (map gsi_pair_of xs) it k = it k" if "\<And>i s. k \<noteq> gsi_attr i s" for xs it k
    by (induction xs arbitrary: it) (simp_all add: put_gsi_plain [OF that])
  from this [of "''pk''"] this [of "''sk''"] gsi_attr_plain(1,2) [THEN not_sym]
  show "dynamo_GetItem od ''pk'' = Some (AV_S (od_pk od))" "dynamo_GetItem od ''sk'' = Some (AV_S (od_sk od))"
    by (simp_all add: dynamo_GetItem_def gsiPairs_def Let_def)
qed

lemma GetItem_shows:
  assumes "opaque_ok od"
  shows "item_shows (dynamo_GetItem od) (stored_row od)"
proof -
  let ?it3 = "\<lambda>k. if k = ''pk'' then Some (AV_S (od_pk od)) else if k = ''sk'' then Some (AV_S (od_sk od))
    else if k = ''body'' \<and> od_body od \<noteq> [] then Some (AV_B (od_body od))
    else if k = ''t'' \<and> od_t od \<noteq> 0 then Some (AV_N (dec_int64 (od_t od)))
    else if k = ''version'' \<and> od_version od \<noteq> 0 then Some (AV_N (dec_int64 (od_version od))) else None"
  have item: "dynamo_GetItem od = fold put_gsi (slot_pairs 1 (od_gsi od)) ?it3"
    unfolding dynamo_GetItem_def gsiPairs_slots [OF assms] Let_def
    by (rule arg_cong [of _ _ "fold put_gsi (slot_pairs 1 (od_gsi od))"]) (auto simp: fun_eq_iff)
  have len: "length (od_gsi od) = 20" using assms by (simp add: opaque_ok_def)
  have plain: "dynamo_GetItem od k = ?it3 k" if "k \<in> {''pk'', ''sk'', ''t'', ''version'', ''body''}" for k
    unfolding item by (rule fold_put_gsi_plain) (use that in \<open>auto simp: gsi_attr_def\<close>)
  have slots: "shows_S (dynamo_GetItem od (gsi_attr (Suc i) ''pk'')) (fst (norm_slot (od_gsi od ! i)))
      \<and> shows_S (dynamo_GetItem od (gsi_attr (Suc i) ''sk'')) (snd (norm_slot (od_gsi od ! i)))" if "i < 20" for i
    using fold_put_gsi_slots [of ?it3 i "od_gsi od" 1] that len unfolding item by simp
  have "shows_S (dynamo_GetItem od ''pk'') (od_pk od)" "shows_S (dynamo_GetItem od ''sk'') (od_sk od)"
    "shows_N (dynamo_GetItem od ''t'') (od_t od)" "shows_N (dynamo_GetItem od ''version'') (od_version od)"
    "shows_B (dynamo_GetItem od ''body'') (od_body od)"
    by (simp_all add: plain shows_S_def shows_N_def shows_B_def)
  with slots len show ?thesis by (simp add: item_shows_def stored_row_def opaque_ok_def)
qed

end
