(* ===== verification/DynamoContract.thy ===== *)
theory DynamoContract
  imports DynamoOpaque "HOL-Library.Product_Lexorder" "HOL-Library.Finite_Map"
begin

text \<open>
  The documented behaviour of DynamoDB that the opaque store relies on, as the locale
  \<open>dynamo_service\<close> over the items \<open>tbl\<close> of a table, and the proof that the store then keeps the
  contract of an \<open>OpaqueStore\<close>.
\<close>

section \<open>Expressions\<close>

text \<open>The condition expressions that the store builds: their text and their meaning.\<close>

datatype dyn_expr =
    Cmp string comparator string
  | Btw string string string
  | Begins string string
  | NotExists string

primrec expr_text :: "dyn_expr \<Rightarrow> string" where
  "expr_text (Cmp n c v) = n @ '' '' @ comparator_text c @ '' '' @ v"
| "expr_text (Btw n a b) = n @ '' BETWEEN '' @ a @ '' AND '' @ b"
| "expr_text (Begins n v) = ''begins_with('' @ n @ '', '' @ v @ '')''"
| "expr_text (NotExists n) = ''attribute_not_exists('' @ n @ '')''"

text \<open>Strings compare by their bytes, numbers by value, values of different types not at all.\<close>

fun av_compare :: "comparator \<Rightarrow> attribute_value \<Rightarrow> attribute_value \<Rightarrow> bool" where
  "av_compare c (AV_S x) (AV_S y) = compare_with c x y"
| "av_compare c (AV_N x) (AV_N y) = compare_with c (parse_int x) (parse_int y)"
| "av_compare c _ _ = False"

definition av_test ::
    "(string \<Rightarrow> string option) \<Rightarrow> item \<Rightarrow> item \<Rightarrow> string \<Rightarrow> string \<Rightarrow> (attribute_value \<Rightarrow> attribute_value \<Rightarrow> bool) \<Rightarrow> bool" where
  "av_test names values it n v test =
     (case Option.bind (names n) it of
        None \<Rightarrow> False
      | Some x \<Rightarrow> (case values v of None \<Rightarrow> False | Some y \<Rightarrow> test x y))"

fun av_begins :: "attribute_value \<Rightarrow> attribute_value \<Rightarrow> bool" where
  "av_begins (AV_S x) (AV_S y) = has_prefix x y"
| "av_begins _ _ = False"

fun expr_holds :: "(string \<Rightarrow> string option) \<Rightarrow> item \<Rightarrow> item \<Rightarrow> dyn_expr \<Rightarrow> bool" where
  "expr_holds names values it (Cmp n c v) = av_test names values it n v (av_compare c)"
| "expr_holds names values it (Btw n a b) \<longleftrightarrow>
     av_test names values it n a (av_compare CGe) \<and> av_test names values it n b (av_compare CLe)"
| "expr_holds names values it (Begins n v) = av_test names values it n v av_begins"
| "expr_holds names values it (NotExists n) \<longleftrightarrow> Option.bind (names n) it = None"

definition pk_test :: dyn_expr where
  "pk_test = Cmp ''#pk'' CEq '':pk''"

definition sort_tests :: "dyn_expr list" where
  "sort_tests = map (\<lambda>c. Cmp ''#sk'' c '':sk'') [CEq, CLt, CLe, CGt, CGe]
     @ [Btw ''#sk'' '':sk'' '':sk2'', Begins ''#sk'' '':sk'']"

definition ttl_tests :: "dyn_expr list" where
  "ttl_tests = [NotExists ''#t'', Cmp ''#t'' CEq '':zero'', Cmp ''#t'' CGt '':now'']"

definition key_conditions :: "dyn_expr list list" where
  "key_conditions = [] # map (\<lambda>e. [e]) sort_tests"

definition conj_text :: "dyn_expr list \<Rightarrow> string" where
  "conj_text es = join '' AND '' (map expr_text es)"

definition disj_text :: "dyn_expr list \<Rightarrow> string" where
  "disj_text es = join '' OR '' (map expr_text es)"

section \<open>The service\<close>

definition item_string :: "item \<Rightarrow> string \<Rightarrow> string" where
  "item_string it a = (case it a of Some (AV_S s) \<Rightarrow> s | _ \<Rightarrow> [])"

text \<open>
  The result of a query: the items of the table that are in the index (they have its two key
  attributes), satisfy the key condition and pass the filter, in the order of the sort key.
\<close>

definition query_result ::
    "(string \<times> string \<Rightarrow> item option) \<Rightarrow> nat \<Rightarrow> dynamo_query_input \<Rightarrow> dyn_expr list \<Rightarrow> item list \<Rightarrow> bool" where
  "query_result items i input conds xs \<longleftrightarrow>
     set xs = {it \<in> ran items. it (fst (index_attrs i)) \<noteq> None \<and> it (snd (index_attrs i)) \<noteq> None
       \<and> (\<forall>e \<in> set (pk_test # conds). expr_holds (qi_names input) (qi_values input) it e)
       \<and> (\<exists>e \<in> set ttl_tests. expr_holds (qi_names input) (qi_values input) it e)}
     \<and> distinct xs \<and> sorted (map (\<lambda>it. item_string it (snd (index_attrs i))) xs)"

text \<open>Following \<open>LastEvaluatedKey\<close> from an input gives these pages, unless a call fails.\<close>

fun query_follows :: "'s dynamo_client \<Rightarrow> ctx \<Rightarrow> 's \<Rightarrow> dynamo_query_input \<Rightarrow> item list list \<Rightarrow> bool" where
  "query_follows cl c s input [] = False"
| "query_follows cl c s input (p # ps) =
     (case dy_query cl c input s of
        Inl e \<Rightarrow> True
      | Inr (its, lastKey) \<Rightarrow> its = p \<and>
          (case lastKey of None \<Rightarrow> ps = []
           | Some k \<Rightarrow> query_follows cl c s (input\<lparr>qi_start := Some k\<rparr>) ps))"

locale dynamo_service =
  fixes cl :: "'s dynamo_client" and table :: string
    and tbl :: "'s \<Rightarrow> string \<times> string \<Rightarrow> item option"
  assumes put_item: "it ''pk'' = Some (AV_S pk) \<Longrightarrow> it ''sk'' = Some (AV_S sk) \<Longrightarrow>
      dy_put_item cl c table it s = (s', r) \<Longrightarrow>
      tbl s' = (tbl s)((pk, sk) \<mapsto> it) \<or> (r \<noteq> None \<and> tbl s' = tbl s)"
    and delete_item: "dy_delete_item cl c table (dynamo_getKey pk sk) s = (s', r) \<Longrightarrow>
      tbl s' = (tbl s)((pk, sk) := None) \<or> (r \<noteq> None \<and> tbl s' = tbl s)"
    and get_item: "dy_get_item cl c table (dynamo_getKey pk sk) s = Inr found \<Longrightarrow> found = tbl s (pk, sk)"
    and get_error: "dy_get_item cl c table key s = Inl e \<Longrightarrow> \<not> err_is e ErrNotFound"
    and unmarshal: "item_shows it od \<Longrightarrow> dy_unmarshal cl it = Inr od"
    and query: "qi_table input = table \<Longrightarrow> qi_start input = None \<Longrightarrow> i \<le> 20 \<Longrightarrow>
      qi_index input = (if i = 0 then None else Some (GSIIndexName (int i))) \<Longrightarrow>
      qi_names input ''#pk'' = Some (fst (index_attrs i)) \<Longrightarrow>
      qi_names input ''#sk'' = Some (snd (index_attrs i)) \<or> conds = [] \<Longrightarrow>
      conds \<in> set key_conditions \<Longrightarrow>
      qi_key_condition input = conj_text (pk_test # conds) \<Longrightarrow> qi_filter input = disj_text ttl_tests \<Longrightarrow>
      \<exists>pages. query_follows cl c s input pages \<and> query_result (tbl s) i input conds (concat pages)"

section \<open>Stored items\<close>

text \<open>The items that \<open>Put\<close> writes, and the rows they are read as.\<close>

definition dynamo_items_ok :: "(string \<times> string \<Rightarrow> item option) \<Rightarrow> bool" where
  "dynamo_items_ok items \<longleftrightarrow>
     (\<forall>k it. items k = Some it \<longrightarrow>
        (\<exists>od. putable_row od \<and> it = dynamo_GetItem od \<and> k = (od_pk od, od_sk od)))"

definition dynamo_rows :: "'s dynamo_client \<Rightarrow> (string \<times> string \<Rightarrow> item option) \<Rightarrow> opaque_rows" where
  "dynamo_rows cl items k =
     Option.bind (items k) (\<lambda>it. case dy_unmarshal cl it of Inl e \<Rightarrow> None | Inr od \<Rightarrow> Some od)"

lemma dynamo_items_ok_upd:
  "dynamo_items_ok items \<Longrightarrow> putable_row od \<Longrightarrow>
     dynamo_items_ok (items((od_pk od, od_sk od) \<mapsto> dynamo_GetItem od))"
  "dynamo_items_ok items \<Longrightarrow> dynamo_items_ok (items(k := None))"
  by (auto simp: dynamo_items_ok_def)

section \<open>Queries\<close>

lemma shows_S_string: "shows_S a s \<Longrightarrow> s \<noteq> [] \<Longrightarrow> a = Some (AV_S s)"
  by (auto simp: shows_S_def)

lemma GetItem_row_keys:
  assumes "putable_row od" "i \<le> 20"
  shows "shows_S (dynamo_GetItem od (fst (index_attrs i))) (fst (row_keys i (stored_row od)))
    \<and> shows_S (dynamo_GetItem od (snd (index_attrs i))) (snd (row_keys i (stored_row od)))"
proof -
  have sh: "item_shows (dynamo_GetItem od) (stored_row od)"
    using assms(1) by (auto simp: putable_row_def intro: GetItem_shows)
  show ?thesis
  proof (cases i)
    case 0
    with sh show ?thesis by (simp add: index_attrs_def row_keys_def item_shows_def)
  next
    case (Suc j)
    with assms(2) have "j < 20" by simp
    with sh Suc show ?thesis by (auto simp: index_attrs_def row_keys_def item_shows_def)
  qed
qed

lemma row_keys_sk:
  assumes "putable_row od" "i \<le> 20" "fst (row_keys i (stored_row od)) \<noteq> []"
  shows "snd (row_keys i (stored_row od)) \<noteq> []"
proof (cases i)
  case 0
  with assms show ?thesis by (simp add: row_keys_def putable_row_def)
next
  case (Suc j)
  with assms have "j < length (od_gsi od)" by (simp add: putable_row_def opaque_ok_def)
  with assms(3) Suc show ?thesis by (auto simp: row_keys_def stored_row_def norm_slot_def split: if_splits)
qed

lemma GetItem_ttl:
  assumes "putable_row od"
  shows "shows_N (dynamo_GetItem od ''t'') (od_t od)"
  using GetItem_shows [of od] assms by (simp add: putable_row_def item_shows_def)

text \<open>The sort condition of the code is one of the sort tests, with its meaning.\<close>

lemma sort_expression_test:
  assumes "sort_expression sc = Inr (cond, v2)"
    and names: "names ''#sk'' = Some a" and v1: "values '':sk'' = Some (AV_S (sc_value sc))"
    and v2: "\<And>v. v2 = Some v \<Longrightarrow> values '':sk2'' = Some (AV_S v)"
  obtains e where "e \<in> set sort_tests" "cond = '' AND '' @ expr_text e"
    "\<And>it x. it a = Some (AV_S x) \<Longrightarrow> expr_holds names values it e \<longleftrightarrow> sort_holds sc x"
proof -
  have t: "av_test names values it ''#sk'' '':sk'' test = test (AV_S x) (AV_S (sc_value sc))"
    if "it a = Some (AV_S x)" for it x test
    using names v1 that by (simp add: av_test_def)
  note found = that
  have cmp: thesis if cond: "cond = '' AND '' @ expr_text (Cmp ''#sk'' c '':sk'')"
    and op: "\<And>x. sort_holds sc x \<longleftrightarrow> compare_with c x (sc_value sc)" for c
  proof (rule found [of "Cmp ''#sk'' c '':sk''"])
    show "Cmp ''#sk'' c '':sk'' \<in> set sort_tests" by (cases c) (simp_all add: sort_tests_def)
    show "expr_holds names values it (Cmp ''#sk'' c '':sk'') \<longleftrightarrow> sort_holds sc x"
      if "it a = Some (AV_S x)" for it x
      using t [where it = it, OF that] op by simp
  qed (rule cond)
  show thesis
  proof (cases "sc_operator sc")
    case Equal
    with assms(1) show thesis by (intro cmp [of CEq]) (auto simp: sort_expression_def sort_holds_def)
  next
    case Lt
    with assms(1) show thesis by (intro cmp [of CLt]) (auto simp: sort_expression_def sort_holds_def)
  next
    case Le
    with assms(1) show thesis by (intro cmp [of CLe]) (auto simp: sort_expression_def sort_holds_def)
  next
    case Gt
    with assms(1) show thesis by (intro cmp [of CGt]) (auto simp: sort_expression_def sort_holds_def)
  next
    case Ge
    with assms(1) show thesis by (intro cmp [of CGe]) (auto simp: sort_expression_def sort_holds_def)
  next
    case Between
    with assms(1) have c: "cond = '' AND '' @ expr_text (Btw ''#sk'' '':sk'' '':sk2'')" "v2 = Some (sc_value2 sc)"
      by (auto simp: sort_expression_def)
    show thesis
    proof (rule found [of "Btw ''#sk'' '':sk'' '':sk2''"])
      show "expr_holds names values it (Btw ''#sk'' '':sk'' '':sk2'') \<longleftrightarrow> sort_holds sc x"
        if "it a = Some (AV_S x)" for it x
        using t [where it = it, OF that] that names v2 [OF c(2)] Between by (simp add: av_test_def sort_holds_def)
    qed (simp_all add: c sort_tests_def)
  next
    case BeginsWith
    with assms(1) have c: "cond = '' AND '' @ expr_text (Begins ''#sk'' '':sk'')"
      by (auto simp: sort_expression_def)
    show thesis
    proof (rule found [of "Begins ''#sk'' '':sk''"])
      show "expr_holds names values it (Begins ''#sk'' '':sk'') \<longleftrightarrow> sort_holds sc x"
        if "it a = Some (AV_S x)" for it x
        using t [where it = it, OF that] BeginsWith by (simp add: sort_holds_def)
    qed (simp_all add: c sort_tests_def)
  next
    case (OtherOperator n)
    with assms(1) show thesis by (simp add: sort_expression_def)
  qed
qed

text \<open>The input that the code builds is in the form that the service's law speaks of.\<close>

lemma query_input_form:
  assumes inp: "dynamo_query_input table now pkA v skA srt opts = Inr input"
    and idx: "qo_GSIIndex (ApplyQueryOptions opts) = int i"
  obtains conds where "conds \<in> set key_conditions" "qi_key_condition input = conj_text (pk_test # conds)"
    "qi_table input = table" "qi_start input = None" "qi_filter input = disj_text ttl_tests"
    "qi_index input = (if i = 0 then None else Some (GSIIndexName (int i)))"
    "qi_names input ''#pk'' = Some pkA" "qi_names input ''#t'' = Some ''t''"
    "qi_names input ''#sk'' = Some skA \<or> conds = []"
    "qi_values input '':pk'' = Some (AV_S v)" "qi_values input '':zero'' = Some (AV_N ''0'')"
    "qi_values input '':now'' = Some (AV_N (dec_int64 now))"
    "\<And>it x. it skA = Some (AV_S x) \<Longrightarrow>
      (\<forall>e \<in> set conds. expr_holds (qi_names input) (qi_values input) it e) \<longleftrightarrow> (\<forall>sc. srt = Some sc \<longrightarrow> sort_holds sc x)"
proof -
  have ttl: "''attribute_not_exists(#t) OR #t = :zero OR #t > :now'' = disj_text ttl_tests"
    by (simp add: disj_text_def ttl_tests_def)
  show thesis
  proof (cases srt)
    case None
    with inp idx have "input = \<lparr>qi_table = table, qi_key_condition = ''#pk = :pk'',
        qi_filter = ''attribute_not_exists(#t) OR #t = :zero OR #t > :now'',
        qi_names = [''#pk'' \<mapsto> pkA, ''#t'' \<mapsto> ''t''],
        qi_values = ['':pk'' \<mapsto> AV_S v, '':zero'' \<mapsto> AV_N ''0'', '':now'' \<mapsto> AV_N (dec_int64 now)],
        qi_index = (if i = 0 then None else Some (GSIIndexName (int i))), qi_start = None\<rparr>"
      by (auto simp: dynamo_query_input_def Let_def split: if_splits)
    with None show thesis
      by (intro that [of "[]"]) (simp_all add: ttl key_conditions_def conj_text_def pk_test_def)
  next
    case (Some sc)
    with inp obtain cond v2 where sc: "sort_expression sc = Inr (cond, v2)"
      by (auto simp: dynamo_query_input_def Let_def split: if_splits sum.splits)
    let ?vs = "['':pk'' \<mapsto> AV_S v, '':zero'' \<mapsto> AV_N ''0'', '':now'' \<mapsto> AV_N (dec_int64 now), '':sk'' \<mapsto> AV_S (sc_value sc)]"
    from inp idx Some sc have input: "input = \<lparr>qi_table = table, qi_key_condition = ''#pk = :pk'' @ cond,
        qi_filter = ''attribute_not_exists(#t) OR #t = :zero OR #t > :now'',
        qi_names = [''#pk'' \<mapsto> pkA, ''#t'' \<mapsto> ''t'', ''#sk'' \<mapsto> skA],
        qi_values = (case v2 of None \<Rightarrow> ?vs | Some w \<Rightarrow> ?vs('':sk2'' \<mapsto> AV_S w)),
        qi_index = (if i = 0 then None else Some (GSIIndexName (int i))), qi_start = None\<rparr>"
      by (auto simp: dynamo_query_input_def Let_def split: if_splits)
    obtain e where e: "e \<in> set sort_tests" "cond = '' AND '' @ expr_text e"
      "\<And>it x. it skA = Some (AV_S x) \<Longrightarrow> expr_holds (qi_names input) (qi_values input) it e \<longleftrightarrow> sort_holds sc x"
      by (rule sort_expression_test [OF sc, of "qi_names input" skA "qi_values input"])
        (auto simp: input split: option.splits)
    show thesis
      by (rule that [of "[e]"])
        (use e Some in \<open>simp_all add: input ttl key_conditions_def conj_text_def pk_test_def split: option.splits\<close>)
  qed
qed

lemma unmarshal_items_ok:
  assumes "\<And>it. it \<in> set its \<Longrightarrow> um it = Inr (f it)"
  shows "unmarshal_items um its = Inr (map f its)"
  using assms by (induction its) auto

text \<open>The loop ends, and returns the rows of all the pages when no call fails.\<close>

lemma query_loop_pages:
  assumes "query_follows cl c s input pages" "\<And>it. it \<in> set (concat pages) \<Longrightarrow> dy_unmarshal cl it = Inr (f it)"
  shows "dynamo_query_loop cl c s input acc = Some (Inr (acc @ map f (concat pages)))
    \<or> (\<exists>e. dynamo_query_loop cl c s input acc = Some (Inl e))"
  using assms
proof (induction pages arbitrary: input acc)
  case (Cons p ps)
  show ?case
  proof (cases "dy_query cl c input s")
    case (Inl e)
    then show ?thesis by (subst (1 2) dynamo_query_loop.simps) simp
  next
    case (Inr q)
    obtain its lastKey where q: "q = (its, lastKey)" by (cases q)
    have its: "its = p" and um: "unmarshal_items (dy_unmarshal cl) p = Inr (map f p)"
      using Cons.prems Inr q unmarshal_items_ok [of p "dy_unmarshal cl" f] by auto
    show ?thesis
    proof (cases lastKey)
      case None
      with Cons.prems Inr q um show ?thesis
        by (subst (1 2) dynamo_query_loop.simps) simp
    next
      case (Some k)
      with Cons.prems Inr q have "query_follows cl c s (input\<lparr>qi_start := Some k\<rparr>) ps" by simp
      from Cons.IH [OF this Cons.prems(2), of "acc @ map f p"] show ?thesis
        using Inr q its Some um by (subst (1 2) dynamo_query_loop.simps) simp
    qed
  qed
qed simp

context dynamo_service
begin

lemma unmarshal_GetItem: "putable_row od \<Longrightarrow> dy_unmarshal cl (dynamo_GetItem od) = Inr (stored_row od)"
  using unmarshal [OF GetItem_shows] by (simp add: putable_row_def)

lemma rows_upd:
  "putable_row od \<Longrightarrow> dynamo_rows cl (items(k \<mapsto> dynamo_GetItem od)) = (dynamo_rows cl items)(k \<mapsto> stored_row od)"
  "dynamo_rows cl (items(k := None)) = (dynamo_rows cl items)(k := None)"
  by (auto simp: dynamo_rows_def fun_eq_iff unmarshal_GetItem)

text \<open>The items of a table and its rows correspond one to one.\<close>

definition row_of :: "item \<Rightarrow> opaque_data" where
  "row_of it = (case dy_unmarshal cl it of Inl e \<Rightarrow> empty_opaque | Inr od \<Rightarrow> od)"

lemma row_of_item:
  assumes "dynamo_items_ok items" "it \<in> ran items"
  obtains od where "putable_row od" "it = dynamo_GetItem od" "row_of it = stored_row od"
    "dy_unmarshal cl it = Inr (row_of it)" "items (od_pk (row_of it), od_sk (row_of it)) = Some it"
proof -
  from assms(2) obtain k where k: "items k = Some it" by (auto simp: ran_def)
  with assms(1) obtain od where od: "putable_row od" "it = dynamo_GetItem od" "k = (od_pk od, od_sk od)"
    unfolding dynamo_items_ok_def by blast
  with unmarshal_GetItem [OF od(1)] k show thesis by (intro that [of od]) (simp_all add: row_of_def)
qed

lemma ran_rows:
  assumes "dynamo_items_ok items"
  shows "ran (dynamo_rows cl items) = row_of ` ran items"
proof (intro equalityI subsetI)
  fix od assume "od \<in> ran (dynamo_rows cl items)"
  then obtain k where "dynamo_rows cl items k = Some od" unfolding ran_def by blast
  then obtain it where "items k = Some it" "dy_unmarshal cl it = Inr od"
    by (cases "items k"; cases "dy_unmarshal cl (the (items k))") (auto simp: dynamo_rows_def)
  then have "it \<in> ran items" "od = row_of it" by (simp_all add: row_of_def ranI)
  then show "od \<in> row_of ` ran items" by blast
next
  fix od assume "od \<in> row_of ` ran items"
  then obtain it where it: "it \<in> ran items" "od = row_of it" by auto
  from row_of_item [OF assms it(1)] obtain k where "items k = Some it" "dy_unmarshal cl it = Inr od"
    using it(2) by metis
  then have "dynamo_rows cl items k = Some od" by (simp add: dynamo_rows_def)
  then show "od \<in> ran (dynamo_rows cl items)" by (rule ranI)
qed

lemma row_of_inj: "dynamo_items_ok items \<Longrightarrow> inj_on row_of (ran items)"
  by (rule inj_onI) (metis row_of_item option.inject)

text \<open>An item is in the result of the query exactly when its row is selected.\<close>

lemma item_selected:
  assumes ok: "dynamo_items_ok items" and it: "it \<in> ran items" and i: "i \<le> 20" and v: "v \<noteq> []"
    and names: "names ''#pk'' = Some (fst (index_attrs i))" "names ''#t'' = Some ''t''"
    and vals: "values '':pk'' = Some (AV_S v)" "values '':zero'' = Some (AV_N ''0'')"
      "values '':now'' = Some (AV_N (dec_int64 now))"
    and conds: "\<And>it x. it (snd (index_attrs i)) = Some (AV_S x) \<Longrightarrow>
      (\<forall>e \<in> set conds. expr_holds names values it e) \<longleftrightarrow> (\<forall>sc. srt = Some sc \<longrightarrow> sort_holds sc x)"
  shows "it (fst (index_attrs i)) \<noteq> None \<and> it (snd (index_attrs i)) \<noteq> None
      \<and> (\<forall>e \<in> set (pk_test # conds). expr_holds names values it e)
      \<and> (\<exists>e \<in> set ttl_tests. expr_holds names values it e)
    \<longleftrightarrow> fst (row_keys i (row_of it)) = v \<and> live_at now (row_of it)
      \<and> (\<forall>sc. srt = Some sc \<longrightarrow> sort_holds sc (snd (row_keys i (row_of it))))"
proof -
  from row_of_item [OF ok it] obtain od where od: "putable_row od" "it = dynamo_GetItem od"
    "row_of it = stored_row od" by metis
  let ?pk = "fst (row_keys i (row_of it))" and ?sk = "snd (row_keys i (row_of it))"
  have sh: "shows_S (it (fst (index_attrs i))) ?pk" "shows_S (it (snd (index_attrs i))) ?sk"
    using GetItem_row_keys [OF od(1) i] od by simp_all
  have pk: "expr_holds names values it pk_test \<longleftrightarrow> ?pk = v"
    using sh(1) names(1) vals(1) v by (auto simp: pk_test_def av_test_def shows_S_def)
  have sk: "it (snd (index_attrs i)) = Some (AV_S ?sk)" if "?pk = v"
    using sh(2) row_keys_sk [OF od(1) i] v that od(3) by (auto intro: shows_S_string)
  have "shows_N (it ''t'') (od_t (row_of it))" using GetItem_ttl [OF od(1)] od by simp
  then have ttl: "(\<exists>e \<in> set ttl_tests. expr_holds names values it e) \<longleftrightarrow> live_at now (row_of it)"
    using names(2) vals(2,3)
    by (auto simp: shows_N_def ttl_tests_def av_test_def live_at_def dec_int64_def signed_eq_0_iff)
  show ?thesis
  proof (cases "?pk = v")
    case True
    with sk have "it (snd (index_attrs i)) = Some (AV_S ?sk)" by simp
    with conds [where it = it, OF this] sh(1) pk ttl True v show ?thesis by (auto simp: shows_S_def)
  next
    case False
    with pk show ?thesis by simp
  qed
qed

end

section \<open>The store keeps its contract\<close>

context dynamo_service
begin

lemma store_query:
  assumes ok: "dynamo_items_ok (tbl s)" and i: "i \<le> 20" and idx: "qo_GSIIndex (ApplyQueryOptions opts) = int i"
  shows "\<exists>r. dynamo_Query cl table now c s (fst (index_attrs i)) v (snd (index_attrs i)) srt opts = Some r
    \<and> (\<forall>ods. r = Inr ods \<longrightarrow> v \<noteq> [] \<longrightarrow> set ods = selected (dynamo_rows cl (tbl s)) now i v srt
         \<and> distinct ods \<and> sorted (map (\<lambda>od. snd (row_keys i od)) ods))"
proof (cases "dynamo_query_input table now (fst (index_attrs i)) v (snd (index_attrs i)) srt opts")
  case (Inl e)
  then show ?thesis by (simp add: dynamo_Query_def)
next
  case (Inr input)
  then obtain conds where k: "conds \<in> set key_conditions" "qi_key_condition input = conj_text (pk_test # conds)"
    and f: "qi_table input = table" "qi_start input = None" "qi_filter input = disj_text ttl_tests"
      "qi_index input = (if i = 0 then None else Some (GSIIndexName (int i)))"
    and n: "qi_names input ''#pk'' = Some (fst (index_attrs i))" "qi_names input ''#t'' = Some ''t''"
      "qi_names input ''#sk'' = Some (snd (index_attrs i)) \<or> conds = []"
    and vs: "qi_values input '':pk'' = Some (AV_S v)" "qi_values input '':zero'' = Some (AV_N ''0'')"
      "qi_values input '':now'' = Some (AV_N (dec_int64 now))"
    and conds: "\<And>it x. it (snd (index_attrs i)) = Some (AV_S x) \<Longrightarrow>
      (\<forall>e \<in> set conds. expr_holds (qi_names input) (qi_values input) it e) \<longleftrightarrow> (\<forall>sc. srt = Some sc \<longrightarrow> sort_holds sc x)"
    by (rule query_input_form [OF _ idx]) blast
  obtain pages where pages: "query_follows cl c s input pages"
    and res: "query_result (tbl s) i input conds (concat pages)"
    using query [OF f(1,2) i f(4) n(1,3) k f(3)] by blast
  have sub: "set (concat pages) \<subseteq> ran (tbl s)" using res by (auto simp: query_result_def)
  have um: "dy_unmarshal cl it = Inr (row_of it)" if "it \<in> set (concat pages)" for it
    using row_of_item [OF ok] sub that by blast
  show ?thesis
  proof (cases "\<exists>e. dynamo_query_loop cl c s input [] = Some (Inl e)")
    case True
    with Inr show ?thesis by (auto simp: dynamo_Query_def)
  next
    case False
    with query_loop_pages [OF pages um, of "[]"]
    have loop: "dynamo_query_loop cl c s input [] = Some (Inr (map row_of (concat pages)))" by simp
    let ?ods = "map row_of (concat pages)"
    have "set ?ods = selected (dynamo_rows cl (tbl s)) now i v srt" if "v \<noteq> []"
    proof -
      have "set (concat pages) = {it \<in> ran (tbl s). fst (row_keys i (row_of it)) = v \<and> live_at now (row_of it)
          \<and> (\<forall>sc. srt = Some sc \<longrightarrow> sort_holds sc (snd (row_keys i (row_of it))))}"
        unfolding conjunct1 [OF res [unfolded query_result_def]]
        by (intro Collect_cong conj_cong [OF refl] item_selected [OF ok _ i that n(1,2) vs conds])
      then show ?thesis by (auto simp: selected_def ran_rows [OF ok] simp del: set_concat)
    qed
    moreover have "distinct ?ods"
      using res inj_on_subset [OF row_of_inj [OF ok] sub] by (simp add: query_result_def distinct_map)
    moreover have "sorted (map (\<lambda>od. snd (row_keys i od)) ?ods)"
    proof -
      have "item_string it (snd (index_attrs i)) = snd (row_keys i (row_of it))" if "it \<in> set (concat pages)" for it
      proof -
        from that sub have "it \<in> ran (tbl s)" by blast
        from row_of_item [OF ok this] obtain od where "putable_row od" "it = dynamo_GetItem od" "row_of it = stored_row od"
          by metis
        with GetItem_row_keys [OF this(1) i] have
          "shows_S (it (snd (index_attrs i))) (snd (row_keys i (row_of it)))" by simp
        then show ?thesis by (auto simp: shows_S_def item_string_def)
      qed
      then have "map (\<lambda>it. item_string it (snd (index_attrs i))) (concat pages) = map (\<lambda>it. snd (row_keys i (row_of it))) (concat pages)"
        by (rule map_cong [OF refl])
      with res show ?thesis by (simp add: query_result_def comp_def)
    qed
    ultimately show ?thesis using Inr loop by (simp add: dynamo_Query_def)
  qed
qed

lemma keeps_contract:
  "opaque_store (dynamo_opaque cl table now) now (\<lambda>s. dynamo_items_ok (tbl s)) (\<lambda>s. dynamo_rows cl (tbl s))"
proof unfold_locales
  fix s s' c od assume ok: "dynamo_items_ok (tbl s)" and p: "putable_row od"
    and put: "op_put (dynamo_opaque cl table now) c s od = (s', None)"
  then have "dy_put_item cl c table (dynamo_GetItem od) s = (s', None)"
    by (auto simp: dynamo_opaque_def dynamo_Put_def split: prod.splits option.splits)
  from put_item [OF GetItem_keys this] ok p
  show "dynamo_items_ok (tbl s') \<and> dynamo_rows cl (tbl s') = (dynamo_rows cl (tbl s))((od_pk od, od_sk od) \<mapsto> stored_row od)"
    by (simp add: dynamo_items_ok_upd rows_upd)
next
  fix s s' c od e assume ok: "dynamo_items_ok (tbl s)" and p: "putable_row od"
    and put: "op_put (dynamo_opaque cl table now) c s od = (s', Some e)"
  then obtain r where "dy_put_item cl c table (dynamo_GetItem od) s = (s', r)"
    by (auto simp: dynamo_opaque_def dynamo_Put_def split: prod.splits option.splits)
  from put_item [OF GetItem_keys this] ok p
  show "dynamo_items_ok (tbl s') \<and> (dynamo_rows cl (tbl s') = dynamo_rows cl (tbl s)
      \<or> dynamo_rows cl (tbl s') = (dynamo_rows cl (tbl s))((od_pk od, od_sk od) \<mapsto> stored_row od))"
    by (auto simp: dynamo_items_ok_upd rows_upd)
next
  fix s s' c pk sk assume ok: "dynamo_items_ok (tbl s)"
    and del: "op_delete (dynamo_opaque cl table now) c s pk sk = (s', None)"
  then have "dy_delete_item cl c table (dynamo_getKey pk sk) s = (s', None)"
    by (auto simp: dynamo_opaque_def dynamo_Delete_def split: prod.splits option.splits)
  from delete_item [OF this] ok
  show "dynamo_items_ok (tbl s') \<and> dynamo_rows cl (tbl s') = (dynamo_rows cl (tbl s))((pk, sk) := None)"
    by (simp add: dynamo_items_ok_upd rows_upd)
next
  fix s s' c pk sk e assume ok: "dynamo_items_ok (tbl s)"
    and del: "op_delete (dynamo_opaque cl table now) c s pk sk = (s', Some e)"
  then obtain r where "dy_delete_item cl c table (dynamo_getKey pk sk) s = (s', r)"
    by (auto simp: dynamo_opaque_def dynamo_Delete_def split: prod.splits option.splits)
  from delete_item [OF this] ok
  show "dynamo_items_ok (tbl s') \<and> (dynamo_rows cl (tbl s') = dynamo_rows cl (tbl s)
      \<or> dynamo_rows cl (tbl s') = (dynamo_rows cl (tbl s))((pk, sk) := None))"
    by (auto simp: dynamo_items_ok_upd rows_upd)
next
  fix s c pk sk od assume "op_get (dynamo_opaque cl table now) c s pk sk = Inr od"
  then obtain it where "dy_get_item cl c table (dynamo_getKey pk sk) s = Inr (Some it)" "dy_unmarshal cl it = Inr od"
    by (auto simp: dynamo_opaque_def dynamo_Get_def split: sum.splits option.splits)
  from get_item [OF this(1), symmetric] this(2) show "dynamo_rows cl (tbl s) (pk, sk) = Some od"
    by (simp add: dynamo_rows_def)
next
  fix s c pk sk e assume ok: "dynamo_items_ok (tbl s)"
    and get: "op_get (dynamo_opaque cl table now) c s pk sk = Inl e" and missing: "err_is e ErrNotFound"
  show "dynamo_rows cl (tbl s) (pk, sk) = None"
  proof (cases "dy_get_item cl c table (dynamo_getKey pk sk) s")
    case (Inl e')
    with get get_error [OF Inl] missing show ?thesis by (auto simp: dynamo_opaque_def dynamo_Get_def)
  next
    case (Inr r)
    note r = get_item [OF Inr]
    show ?thesis
    proof (cases r)
      case None
      with r show ?thesis by (simp add: dynamo_rows_def)
    next
      case (Some it)
      with r have "it \<in> ran (tbl s)" by (simp add: ranI)
      from row_of_item [OF ok this] have "dy_unmarshal cl it = Inr (row_of it)" .
      with get Inr Some show ?thesis by (simp add: dynamo_opaque_def dynamo_Get_def)
    qed
  qed
next
  fix s i opts c v srt
  assume "dynamo_items_ok (tbl s)" "i \<le> 20" "qo_GSIIndex (ApplyQueryOptions opts) = int i"
  from store_query [OF this, of now c v srt]
  show "\<exists>r. op_query (dynamo_opaque cl table now) c s (fst (index_attrs i)) v (snd (index_attrs i)) srt opts = Some r"
    by (auto simp: dynamo_opaque_def)
next
  fix s i opts c v srt ods
  assume "dynamo_items_ok (tbl s)" "i \<le> 20" "qo_GSIIndex (ApplyQueryOptions opts) = int i"
    and q: "op_query (dynamo_opaque cl table now) c s (fst (index_attrs i)) v (snd (index_attrs i)) srt opts = Some (Inr ods)"
    and v: "v \<noteq> []"
  from store_query [OF this(1-3), of now c v srt] q v
  show "set ods = selected (dynamo_rows cl (tbl s)) now i v srt \<and> distinct ods \<and> sorted (map (\<lambda>od. snd (row_keys i od)) ods)"
    by (auto simp: dynamo_opaque_def)
qed

end

sublocale dynamo_service \<subseteq> ds: opaque_store "dynamo_opaque cl table now" now "\<lambda>s. dynamo_items_ok (tbl s)"
    "\<lambda>s. dynamo_rows cl (tbl s)" for now
  by (rule keeps_contract)

section \<open>An example\<close>

text \<open>
  A concrete DynamoDB table: a finite map from key pairs to items, whose calls all succeed and
  whose queries answer in one page, with a reader of items into rows. It has the documented
  behaviour, so the properties of the opaque store apply to it.
\<close>

definition item_number :: "item \<Rightarrow> string \<Rightarrow> int64" where
  "item_number it a = (case it a of Some (AV_N s) \<Rightarrow> word_of_int (parse_int s) | _ \<Rightarrow> 0)"

definition item_bytes :: "item \<Rightarrow> string \<Rightarrow> bytes" where
  "item_bytes it a = (case it a of Some (AV_B b) \<Rightarrow> b | _ \<Rightarrow> [])"

definition read_item :: "item \<Rightarrow> opaque_data" where
  "read_item it =
     \<lparr>od_pk = item_string it ''pk'', od_sk = item_string it ''sk'', od_t = item_number it ''t'',
      od_version = item_number it ''version'', od_body = item_bytes it ''body'',
      od_gsi = map (\<lambda>i. (item_string it (gsi_attr i ''pk''), item_string it (gsi_attr i ''sk''))) [1..<21]\<rparr>"

lemma shows_read:
  "shows_S (it a) x \<Longrightarrow> item_string it a = x" "shows_N (it a) n \<Longrightarrow> item_number it a = n"
  "shows_B (it a) b \<Longrightarrow> item_bytes it a = b"
  by (auto simp: shows_S_def shows_N_def shows_B_def item_string_def item_number_def item_bytes_def
      dec_int64_def)

lemma read_item_shows:
  assumes "item_shows it od"
  shows "read_item it = od"
proof -
  have "map (\<lambda>i. (item_string it (gsi_attr i ''pk''), item_string it (gsi_attr i ''sk''))) [1..<21] = od_gsi od"
    using assms by (intro nth_equalityI) (auto simp: item_shows_def opaque_ok_def shows_read prod_eq_iff)
  with assms show ?thesis by (simp add: read_item_def item_shows_def shows_read)
qed

type_synonym plain_table = "(string \<times> string, item) fmap"

definition plain_query :: "dynamo_query_input \<Rightarrow> plain_table \<Rightarrow> goerr + item list \<times> item option" where
  "plain_query input s =
     (case find (\<lambda>i. qi_index input = (if i = 0 then None else Some (GSIIndexName (int i)))) [0..<21] of
        None \<Rightarrow> Inl (Foreign ''index not found'')
      | Some i \<Rightarrow>
          (case find (\<lambda>conds. qi_key_condition input = conj_text (pk_test # conds)) key_conditions of
             None \<Rightarrow> Inl (Foreign ''invalid key condition'')
           | Some conds \<Rightarrow>
               Inr (sort_key (\<lambda>it. item_string it (snd (index_attrs i)))
                 (remdups (filter (\<lambda>it. it (fst (index_attrs i)) \<noteq> None \<and> it (snd (index_attrs i)) \<noteq> None
                     \<and> list_all (expr_holds (qi_names input) (qi_values input) it) (pk_test # conds)
                     \<and> list_ex (expr_holds (qi_names input) (qi_values input) it) ttl_tests)
                   (map (\<lambda>k. the (fmlookup s k)) (sorted_list_of_fset (fmdom s))))), None)))"

definition plain_dynamo :: "plain_table dynamo_client" where
  "plain_dynamo =
     \<lparr>dy_put_item = (\<lambda>c t it s. (fmupd (item_string it ''pk'', item_string it ''sk'') it s, None)),
      dy_get_item = (\<lambda>c t key s. Inr (fmlookup s (item_string key ''pk'', item_string key ''sk''))),
      dy_delete_item = (\<lambda>c t key s. (fmdrop (item_string key ''pk'', item_string key ''sk'') s, None)),
      dy_query = (\<lambda>c input s. plain_query input s),
      dy_unmarshal = (\<lambda>it. Inr (read_item it))\<rparr>"

lemma key_strings [simp]:
  "item_string (dynamo_getKey pk sk) ''pk'' = pk" "item_string (dynamo_getKey pk sk) ''sk'' = sk"
  by (simp_all add: item_string_def dynamo_getKey_def)

lemma GSIIndexName_inj: "GSIIndexName m = GSIIndexName n \<longleftrightarrow> m = n"
proof
  assume eq: "GSIIndexName m = GSIIndexName n"
  then have "length (GSIIndexName m) = length (GSIIndexName n)" by simp
  then have "length (dec_int m) = length (dec_int n)" by (simp add: GSIIndexName_def)
  with eq have "dec_int m = dec_int n" by (simp add: GSIIndexName_def)
  then show "m = n" by (simp add: dec_int_inj)
qed simp

lemma conj_text_distinct: "distinct (map (\<lambda>conds. conj_text (pk_test # conds)) key_conditions)"
  by code_simp

lemma conj_text_inj:
  "conds \<in> set key_conditions \<Longrightarrow> conds' \<in> set key_conditions \<Longrightarrow>
     conj_text (pk_test # conds) = conj_text (pk_test # conds') \<Longrightarrow> conds = conds'"
  using conj_text_distinct by (auto simp: distinct_map dest: inj_onD)

lemma ran_fmlookup_list:
  "it \<in> set (map (\<lambda>k. the (fmlookup s k)) (sorted_list_of_fset (fmdom s))) \<longleftrightarrow> it \<in> ran (fmlookup s)"
  by (force simp: ran_def fmlookup_dom_iff sorted_list_of_fset.rep_eq)

lemma plain_query_result:
  assumes i: "i \<le> 20" "qi_index input = (if i = 0 then None else Some (GSIIndexName (int i)))"
    and conds: "conds \<in> set key_conditions" "qi_key_condition input = conj_text (pk_test # conds)"
  shows "\<exists>xs. plain_query input s = Inr (xs, None) \<and> query_result (fmlookup s) i input conds xs"
proof -
  have "find (\<lambda>j. qi_index input = (if j = 0 then None else Some (GSIIndexName (int j)))) [0..<21] = Some i"
    by (rule find_unique) (use i in \<open>auto simp: GSIIndexName_inj split: if_splits\<close>)
  moreover have "find (\<lambda>cs. qi_key_condition input = conj_text (pk_test # cs)) key_conditions = Some conds"
    by (rule find_unique) (use conds conj_text_inj in auto)
  ultimately show ?thesis
    using ran_fmlookup_list [of _ s]
    by (auto simp: plain_query_def query_result_def list_all_iff list_ex_iff simp del: set_map)
qed

interpretation pd: dynamo_service plain_dynamo table fmlookup for table
proof unfold_locales
  fix input :: dynamo_query_input and i conds c s
  assume "i \<le> 20" "qi_index input = (if i = 0 then None else Some (GSIIndexName (int i)))"
    "conds \<in> set key_conditions" "qi_key_condition input = conj_text (pk_test # conds)"
  from plain_query_result [OF this, of s] obtain xs where
    "plain_query input s = Inr (xs, None)" "query_result (fmlookup s) i input conds xs" by blast
  then show "\<exists>pages. query_follows plain_dynamo c s input pages \<and> query_result (fmlookup s) i input conds (concat pages)"
    by (intro exI [of _ "[xs]"]) (simp add: plain_dynamo_def)
qed (auto simp: plain_dynamo_def item_string_def read_item_shows dynamo_getKey_def fun_eq_iff)

end
