(* ===== verification/OrderClientProperties.thy ===== *)
theory OrderClientProperties
  imports OrderShelf Strconv DynamoContract
begin

text \<open>
  The properties of the opaque data layer: DynamoDB keeps the contract of an \<open>OpaqueStore\<close>, and
  over any store that keeps it the order clients behave as two shelves, of orders and of their
  summaries, with exact gets and selects.
\<close>

section \<open>The table of orders and summaries\<close>

definition order_table ::
    "gzip \<Rightarrow> order auto_pksk \<Rightarrow> order_summary auto_pksk \<Rightarrow> opaque_rows \<Rightarrow> order shelf \<Rightarrow> order_summary shelf \<Rightarrow> bool" where
  "order_table gz ao asu rows orders sums \<longleftrightarrow>
     holds_shelf gz ao o_id order_SK rows orders \<and> holds_shelf gz asu os_id order_summary_SK rows sums
     \<and> (\<forall>k. rows k \<noteq> None \<longrightarrow> (\<exists>i. k = (order_pk i, order_SK) \<or> k = (order_pk i, order_summary_SK)))"

lemma order_keyed: "keyed_by (order_auto enc dec) o_id order_SK"
  and order_summary_keyed: "keyed_by (order_summary_auto enc' dec') os_id order_summary_SK"
  by (simp_all add: keyed_by_def order_auto_def order_summary_auto_def order_PK_def order_summary_PK_def)

lemma order_sk_not_Nil: "order_SK \<noteq> []" "order_summary_SK \<noteq> []"
  by (simp_all add: order_SK_def order_summary_SK_def)

text \<open>The slots of an order and of a summary, and the kind of row that has a given slot key.\<close>

lemma order_slots:
  "ap_GSIPK (order_auto enc dec) 1 m = ''example_app_order_v1#order#customer_id#'' @ o_customer_id m"
  "ap_GSISK (order_auto enc dec) 1 m = order_gsi1sk (o_create_at m)"
  "n \<noteq> 1 \<Longrightarrow> ap_GSIPK (order_auto enc dec) n m = ''NA''"
  by (simp_all add: order_auto_def order_GSIPK_def order_GSISK_def)

lemma order_summary_slots:
  "ap_GSIPK (order_summary_auto enc dec) 1 m
     = ''example_app_order_v1#ordersummary#customer_id#'' @ os_customer_id m"
  "ap_GSIPK (order_summary_auto enc dec) 2 m
     = ''example_app_order_v1#ordersummary#state#'' @ order_state_String (os_state m)"
  "ap_GSISK (order_summary_auto enc dec) 2 m = order_summary_gsi2sk (os_placed_at m)"
  by (simp_all add: order_summary_auto_def order_summary_GSIPK_def order_summary_GSISK_def)

lemma order_table_row:
  assumes "order_table gz ao asu rows orders sums" "rows k = Some od"
  obtains (order) i m t where "k = (order_pk i, order_SK)" "row_for gz ao m t od"
  | (summary) i m t where "k = (order_pk i, order_summary_SK)" "row_for gz asu m t od"
proof -
  have "rows k \<noteq> None" using assms(2) by simp
  with assms(1) obtain i where "k = (order_pk i, order_SK) \<or> k = (order_pk i, order_summary_SK)"
    unfolding order_table_def by blast
  then show thesis
  proof
    assume k: "k = (order_pk i, order_SK)"
    have "holds_shelf gz ao o_id order_SK rows orders" "rows (order_pk i, order_SK) = Some od"
      using assms k by (simp_all add: order_table_def)
    from holds_shelf_row [OF this] obtain m t where "row_for gz ao m t od" .
    with k show thesis by (rule order)
  next
    assume k: "k = (order_pk i, order_summary_SK)"
    have "holds_shelf gz asu os_id order_summary_SK rows sums" "rows (order_pk i, order_summary_SK) = Some od"
      using assms k by (simp_all add: order_table_def)
    from holds_shelf_row [OF this] obtain m t where "row_for gz asu m t od" .
    with k show thesis by (rule summary)
  qed
qed

lemma order_own_slot:
  assumes table: "order_table gz (order_auto enc dec) (order_summary_auto enc' dec') rows orders sums"
    and row: "rows k = Some od" and key: "fst (row_keys 1 od) = ap_GSIPK (order_auto enc dec) 1 m"
  shows "\<exists>i. k = (order_pk i, order_SK)"
  using table row
proof (cases rule: order_table_row)
  case (summary i m' t)
  have "fst (row_keys 1 od) = ap_GSIPK (order_summary_auto enc' dec') 1 m'"
    using row_forD(4) [OF summary(2), of 1] order_summary_slots(1) [of enc' dec' m'] by (simp add: norm_slot_def)
  with key show ?thesis by (simp add: order_slots order_summary_slots del: One_nat_def)
qed blast

lemma order_summary_own_slot:
  assumes table: "order_table gz (order_auto enc dec) (order_summary_auto enc' dec') rows orders sums"
    and row: "rows k = Some od" and key: "fst (row_keys 2 od) = ap_GSIPK (order_summary_auto enc' dec') 2 m"
  shows "\<exists>i. k = (order_pk i, order_summary_SK)"
  using table row
proof (cases rule: order_table_row)
  case (order i m' t)
  have "fst (row_keys 2 od) = []"
    using row_forD(4) [OF order(2), of 2] order_slots(3) [of 2 enc dec m'] by (simp add: norm_slot_def)
  with key show ?thesis by (simp add: order_summary_slots)
qed blast

section \<open>The calls that write\<close>

datatype client_call =
    AddOrderCall int order "opaque_option list"
  | DeleteOrderCall string
  | AddSummaryCall int order_summary "opaque_option list"
  | DeleteSummaryCall string

primrec client_exec ::
    "'s order_client \<Rightarrow> 's order_summary_client \<Rightarrow> ctx \<Rightarrow> client_call \<Rightarrow> 's \<Rightarrow> 's \<times> goerr option" where
  "client_exec oc sc c (AddOrderCall t d opts) s = AddOrder oc t c s d opts"
| "client_exec oc sc c (DeleteOrderCall i) s = DeleteOrder oc c s i"
| "client_exec oc sc c (AddSummaryCall t d opts) s = AddOrderSummary sc t c s d opts"
| "client_exec oc sc c (DeleteSummaryCall i) s = DeleteOrderSummary sc c s i"

text \<open>What each call does to the shelves.\<close>

primrec shelf_exec :: "client_call \<Rightarrow> order shelf \<times> order_summary shelf \<Rightarrow> order shelf \<times> order_summary shelf" where
  "shelf_exec (AddOrderCall t d opts) sh = ((fst sh)(o_id d \<mapsto> (d, expires t opts)), snd sh)"
| "shelf_exec (DeleteOrderCall i) sh = ((fst sh)(i := None), snd sh)"
| "shelf_exec (AddSummaryCall t d opts) sh = (fst sh, (snd sh)(os_id d \<mapsto> (d, expires t opts)))"
| "shelf_exec (DeleteSummaryCall i) sh = (fst sh, (snd sh)(i := None))"

lemma order_table_put_order:
  "order_table gz (order_auto enc dec) asu rows orders sums \<Longrightarrow> row_for gz (order_auto enc dec) d t od \<Longrightarrow>
     order_table gz (order_auto enc dec) asu (rows((order_pk (o_id d), order_SK) \<mapsto> od)) (orders(o_id d \<mapsto> (d, t))) sums"
  by (auto simp: order_table_def intro: holds_shelf_put holds_shelf_other)

lemma order_table_put_summary:
  "order_table gz ao (order_summary_auto enc dec) rows orders sums \<Longrightarrow> row_for gz (order_summary_auto enc dec) d t od \<Longrightarrow>
     order_table gz ao (order_summary_auto enc dec) (rows((order_pk (os_id d), order_summary_SK) \<mapsto> od)) orders
       (sums(os_id d \<mapsto> (d, t)))"
  by (auto simp: order_table_def intro: holds_shelf_put holds_shelf_other)

lemma order_table_delete:
  "order_table gz ao asu rows orders sums \<Longrightarrow>
     order_table gz ao asu (rows((order_pk i, order_SK) := None)) (orders(i := None)) sums"
  "order_table gz ao asu rows orders sums \<Longrightarrow>
     order_table gz ao asu (rows((order_pk i, order_summary_SK) := None)) orders (sums(i := None))"
  by (auto simp: order_table_def intro: holds_shelf_delete holds_shelf_other)

lemma client_exec_table:
  assumes st: "opaque_store ops now sinv rows" and s: "sinv s"
    and table: "order_table gz (order_auto enc dec) (order_summary_auto enc' dec') (rows s) orders sums"
    and run: "client_exec (NewOrderClient ops gz enc dec) (NewOrderSummaryClient ops gz enc' dec') c call s = (s', r)"
  shows "sinv s' \<and> (case_prod (order_table gz (order_auto enc dec) (order_summary_auto enc' dec') (rows s'))
        (shelf_exec call (orders, sums))
      \<or> (r \<noteq> None \<and> rows s' = rows s))"
proof (cases call)
  case (AddOrderCall t d opts)
  with run have "client_add ops gz (order_auto enc dec) ''OrderClient.AddOrder'' t c s d opts = (s', r)"
    by (simp add: AddOrder_def NewOrderClient_def)
  from opaque_store.client_add_row [OF st s order_keyed order_sk_not_Nil(1) this] AddOrderCall
  show ?thesis using order_table_put_order [OF table] by auto
next
  case (DeleteOrderCall i)
  with run have "client_delete ops (order_auto enc dec) c s (empty_order\<lparr>o_id := i\<rparr>) = (s', r)"
    by (simp add: DeleteOrder_def NewOrderClient_def)
  from opaque_store.client_delete_row [OF st s order_keyed this] DeleteOrderCall
  show ?thesis using order_table_delete(1) [OF table] by auto
next
  case (AddSummaryCall t d opts)
  with run have "client_add ops gz (order_summary_auto enc' dec') ''OrderSummaryClient.AddOrderSummary'' t c s d opts = (s', r)"
    by (simp add: AddOrderSummary_def NewOrderSummaryClient_def)
  from opaque_store.client_add_row [OF st s order_summary_keyed order_sk_not_Nil(2) this] AddSummaryCall
  show ?thesis using order_table_put_summary [OF table] by auto
next
  case (DeleteSummaryCall i)
  with run have "client_delete ops (order_summary_auto enc' dec') c s (empty_order_summary\<lparr>os_id := i\<rparr>) = (s', r)"
    by (simp add: DeleteOrderSummary_def NewOrderSummaryClient_def)
  from opaque_store.client_delete_row [OF st s order_summary_keyed this] DeleteSummaryCall
  show ?thesis using order_table_delete(2) [OF table] by auto
qed

section \<open>A concrete client\<close>

definition ex_enc :: "order \<Rightarrow> goerr + bytes" where
  "ex_enc m = (if m = empty_order\<lparr>o_id := ''7'', o_customer_id := ''c'', o_create_at := 10 ^ 15\<rparr>
     then Inr [10, 1, 55] else Inl (Foreign ''not encodable''))"

definition ex_dec :: "bytes \<Rightarrow> goerr + order" where
  "ex_dec b = Inr (empty_order\<lparr>o_id := ''7'', o_customer_id := ''c'', o_create_at := 10 ^ 15\<rparr>)"

definition ex_senc :: "order_summary \<Rightarrow> goerr + bytes" where
  "ex_senc m = (if m = empty_order_summary\<lparr>os_id := ''7'', os_state := STATE_PLACED\<rparr>
     then Inr [10, 1, 55] else Inl (Foreign ''not encodable''))"

definition ex_sdec :: "bytes \<Rightarrow> goerr + order_summary" where
  "ex_sdec b = Inr (empty_order_summary\<lparr>os_id := ''7'', os_state := STATE_PLACED\<rparr>)"

lemma ex_proto_laws:
  "proto_laws (order_auto ex_enc ex_dec)" "proto_laws (order_summary_auto ex_senc ex_sdec)"
  by (auto simp: proto_laws_def order_auto_def order_summary_auto_def ex_enc_def ex_dec_def
      ex_senc_def ex_sdec_def IsGzipped_def split: if_splits)

definition ex_ops :: "plain_table opaque_ops" where
  "ex_ops = dynamo_opaque plain_dynamo ''aggregates'' 5"

definition ex_oc :: "plain_table order_client" where
  "ex_oc = NewOrderClient ex_ops plain_gzip ex_enc ex_dec"

definition ex_sc :: "plain_table order_summary_client" where
  "ex_sc = NewOrderSummaryClient ex_ops plain_gzip ex_senc ex_sdec"

definition ex_row_order :: order where
  "ex_row_order = empty_order\<lparr>o_id := ''7'', o_customer_id := ''c'', o_create_at := 10 ^ 15\<rparr>"

definition ex_row_summary :: order_summary where
  "ex_row_summary = empty_order_summary\<lparr>os_id := ''7'', os_state := STATE_PLACED\<rparr>"

definition plain_rows :: "plain_table \<Rightarrow> opaque_rows" where
  "plain_rows s = dynamo_rows plain_dynamo (fmlookup s)"

definition plain_ok :: "plain_table \<Rightarrow> bool" where
  "plain_ok s = dynamo_items_ok (fmlookup s)"

lemma ex_store: "opaque_store ex_ops 5 plain_ok plain_rows"
  unfolding ex_ops_def plain_ok_def [abs_def] plain_rows_def [abs_def] by (rule pd.keeps_contract)

lemma ex_empty: "plain_ok fmempty" "order_table gz ao asu (plain_rows fmempty) (\<lambda>_. None) (\<lambda>_. None)"
  by (simp_all add: plain_ok_def dynamo_items_ok_def order_table_def holds_shelf_def holds_entry_def
      plain_rows_def dynamo_rows_def)

section \<open>Properties\<close>

text \<open>
  C25. DynamoDB as an opaque store. Over any DynamoDB with its documented behaviour (put, get and
  delete by key, item decoding by attribute name, queries answered in pages of the items that
  satisfy the key condition and the filter, once the service has settled), the store of
  gen/opaquedata/dynamo keeps the contract of an \<open>OpaqueStore\<close>: rows form a map, and every query
  ends and lists exactly the live rows with the queried key that satisfy the sort condition, in
  the order of the sort key.
\<close>

theorem dynamo_keeps_opaque_contract:
  assumes "dynamo_service cl table tbl"
  shows "opaque_store (dynamo_opaque cl table now) now (\<lambda>s. dynamo_items_ok (tbl s))
    (\<lambda>s. dynamo_rows cl (tbl s))"
  by (rule dynamo_service.keeps_contract [OF assms])

theorem dynamo_keeps_opaque_contract_witness:
  "opaque_store (dynamo_opaque plain_dynamo ''aggregates'' 5) 5 (\<lambda>s. dynamo_items_ok (fmlookup s))
     (\<lambda>s. dynamo_rows plain_dynamo (fmlookup s))"
  by (rule dynamo_keeps_opaque_contract [OF pd.dynamo_service_axioms])

text \<open>
  C23. The order clients refine two shelves. Over any store with the contract, a call of
  \<open>AddOrder\<close>, \<open>DeleteOrder\<close>, \<open>AddOrderSummary\<close> or \<open>DeleteOrderSummary\<close> that succeeds does to the
  table exactly what it does to the shelf of its type at its id, the entry keeping the message
  and its expiry time; one that fails does that or nothing.
\<close>

theorem order_clients_refine:
  assumes "opaque_store ops now sinv rows" "sinv s"
    and "order_table gz (order_auto enc dec) (order_summary_auto enc' dec') (rows s) orders sums"
    and "client_exec (NewOrderClient ops gz enc dec) (NewOrderSummaryClient ops gz enc' dec') c call s = (s', r)"
  shows "sinv s' \<and> (case_prod (order_table gz (order_auto enc dec) (order_summary_auto enc' dec') (rows s'))
        (shelf_exec call (orders, sums))
      \<or> (r \<noteq> None \<and> rows s' = rows s))"
  by (rule client_exec_table [OF assms])

lemma ex_add: "\<exists>s'. client_exec ex_oc ex_sc background (AddOrderCall 0 ex_row_order []) fmempty = (s', None)"
  by (simp add: AddOrder_def ex_oc_def NewOrderClient_def client_add_def NewOpaqueDataFromProto_def order_auto_def
      ex_enc_def ex_row_order_def buildOptions_def DefaultCompressThreshold_def MaybeCompress_def Let_def
      ex_ops_def dynamo_opaque_def dynamo_Put_def plain_dynamo_def)

theorem order_clients_refine_witness:
  "\<exists>s'. client_exec ex_oc ex_sc background (AddOrderCall 0 ex_row_order []) fmempty = (s', None) \<and> plain_ok s'
     \<and> order_table plain_gzip (order_auto ex_enc ex_dec) (order_summary_auto ex_senc ex_sdec) (plain_rows s')
         [''7'' \<mapsto> (ex_row_order, 0)] (\<lambda>_. None)"
proof -
  obtain s' where run: "client_exec ex_oc ex_sc background (AddOrderCall 0 ex_row_order []) fmempty = (s', None)"
    using ex_add by blast
  have t: "shelf_exec (AddOrderCall 0 ex_row_order []) (\<lambda>_. None, \<lambda>_. None) = ([''7'' \<mapsto> (ex_row_order, 0)], \<lambda>_. None)"
    by (simp add: expires_def GetTTL_def buildOptions_def ex_row_order_def)
  from order_clients_refine [OF ex_store ex_empty run [unfolded ex_oc_def ex_sc_def]] run show ?thesis
    unfolding t by auto
qed

lemma ex_table:
  "\<exists>s. plain_ok s \<and> order_table plain_gzip (order_auto ex_enc ex_dec) (order_summary_auto ex_senc ex_sdec)
     (plain_rows s) [''7'' \<mapsto> (ex_row_order, 0)] [''7'' \<mapsto> (ex_row_summary, 0)]"
proof -
  obtain s1 where "client_exec ex_oc ex_sc background (AddOrderCall 0 ex_row_order []) fmempty = (s1, None)"
    using ex_add by blast
  from client_exec_table [OF ex_store ex_empty this [unfolded ex_oc_def ex_sc_def]]
  have s1: "plain_ok s1" "order_table plain_gzip (order_auto ex_enc ex_dec) (order_summary_auto ex_senc ex_sdec)
      (plain_rows s1) [''7'' \<mapsto> (ex_row_order, 0)] (\<lambda>_. None)"
    by (simp_all add: expires_def GetTTL_def buildOptions_def ex_row_order_def)
  have "\<exists>s2. client_exec ex_oc ex_sc background (AddSummaryCall 0 ex_row_summary []) s1 = (s2, None)"
    by (simp add: AddOrderSummary_def ex_sc_def NewOrderSummaryClient_def client_add_def NewOpaqueDataFromProto_def
      order_summary_auto_def ex_senc_def ex_row_summary_def buildOptions_def DefaultCompressThreshold_def
      MaybeCompress_def Let_def ex_ops_def dynamo_opaque_def dynamo_Put_def plain_dynamo_def)
  then obtain s2 where "client_exec ex_oc ex_sc background (AddSummaryCall 0 ex_row_summary []) s1 = (s2, None)"
    by blast
  moreover have t: "shelf_exec (AddSummaryCall 0 ex_row_summary []) ([''7'' \<mapsto> (ex_row_order, 0)], \<lambda>_. None)
      = ([''7'' \<mapsto> (ex_row_order, 0)], [''7'' \<mapsto> (ex_row_summary, 0)])"
    by (simp add: expires_def GetTTL_def buildOptions_def ex_row_summary_def)
  ultimately show ?thesis
    using client_exec_table [OF ex_store s1] unfolding ex_oc_def ex_sc_def by (metis case_prod_conv)
qed

text \<open>
  \<open>GetOrder\<close> and \<open>GetOrderSummary\<close> are exact: they return the message of their shelf at the
  id, decompressed and unmarshalled, and a not-found error only when there is none; when there
  is none they return an error.
\<close>

theorem order_get_exact:
  assumes "gzip_laws gz" "proto_laws (order_auto enc dec)" "proto_laws (order_summary_auto enc' dec')"
    and "opaque_store ops now sinv rows" "sinv s"
    and "order_table gz (order_auto enc dec) (order_summary_auto enc' dec') (rows s) orders sums"
  shows "(case orders i of
        None \<Rightarrow> \<exists>e. GetOrder (NewOrderClient ops gz enc dec) c s i = Inl e
      | Some (m, t) \<Rightarrow> GetOrder (NewOrderClient ops gz enc dec) c s i = Inr m
          \<or> (\<exists>e. GetOrder (NewOrderClient ops gz enc dec) c s i = Inl e \<and> \<not> err_is e ErrNotFound))
    \<and> (case sums i of
        None \<Rightarrow> \<exists>e. GetOrderSummary (NewOrderSummaryClient ops gz enc' dec') c s i = Inl e
      | Some (m, t) \<Rightarrow> GetOrderSummary (NewOrderSummaryClient ops gz enc' dec') c s i = Inr m
          \<or> (\<exists>e. GetOrderSummary (NewOrderSummaryClient ops gz enc' dec') c s i = Inl e \<and> \<not> err_is e ErrNotFound))"
proof
  have "holds_shelf gz (order_auto enc dec) o_id order_SK (rows s) orders"
    using assms(6) by (simp add: order_table_def)
  from opaque_store.client_get_shelf [OF assms(4) assms(1,2,5) order_keyed this refl,
      where key = "empty_order\<lparr>o_id := i\<rparr>" and c = c and name = "''OrderClient.GetOrder''"]
  show "case orders i of
        None \<Rightarrow> \<exists>e. GetOrder (NewOrderClient ops gz enc dec) c s i = Inl e
      | Some (m, t) \<Rightarrow> GetOrder (NewOrderClient ops gz enc dec) c s i = Inr m
          \<or> (\<exists>e. GetOrder (NewOrderClient ops gz enc dec) c s i = Inl e \<and> \<not> err_is e ErrNotFound)"
    by (cases "orders i") (auto simp: GetOrder_def NewOrderClient_def)
next
  have "holds_shelf gz (order_summary_auto enc' dec') os_id order_summary_SK (rows s) sums"
    using assms(6) by (simp add: order_table_def)
  from opaque_store.client_get_shelf [OF assms(4) assms(1,3,5) order_summary_keyed this refl,
      where key = "empty_order_summary\<lparr>os_id := i\<rparr>" and c = c and name = "''OrderSummaryClient.GetOrderSummary''"]
  show "case sums i of
        None \<Rightarrow> \<exists>e. GetOrderSummary (NewOrderSummaryClient ops gz enc' dec') c s i = Inl e
      | Some (m, t) \<Rightarrow> GetOrderSummary (NewOrderSummaryClient ops gz enc' dec') c s i = Inr m
          \<or> (\<exists>e. GetOrderSummary (NewOrderSummaryClient ops gz enc' dec') c s i = Inl e \<and> \<not> err_is e ErrNotFound)"
    by (cases "sums i") (auto simp: GetOrderSummary_def NewOrderSummaryClient_def)
qed

theorem order_get_exact_witness:
  "\<exists>s. GetOrder ex_oc background s ''7'' = Inr ex_row_order
     \<or> (\<exists>e. GetOrder ex_oc background s ''7'' = Inl e \<and> \<not> err_is e ErrNotFound)"
proof -
  obtain s where "plain_ok s" "order_table plain_gzip (order_auto ex_enc ex_dec) (order_summary_auto ex_senc ex_sdec)
     (plain_rows s) [''7'' \<mapsto> (ex_row_order, 0)] [''7'' \<mapsto> (ex_row_summary, 0)]"
    using ex_table by blast
  from order_get_exact [OF plain_gzip_laws ex_proto_laws ex_store this, where i = "''7''" and c = background] show ?thesis
    by (auto simp: ex_oc_def)
qed

lemma sort_between_created:
  assumes "sixteen_digits lo" "sixteen_digits hi" "sixteen_digits t"
  shows "sort_holds \<lparr>sc_operator = Between, sc_value = order_gsi1sk lo, sc_value2 = order_gsi1sk hi\<rparr> (order_gsi1sk t)
    \<longleftrightarrow> sint lo \<le> sint t \<and> sint t \<le> sint hi"
  using assms unfolding sort_holds_def order_gsi1sk_def append_assoc [symmetric]
  by (simp add: append_le_same_prefix dec_int64_le del: append.simps)

text \<open>
  C24. Orders of a customer by creation time. When the timestamps have sixteen digits
  (microseconds between the years 2001 and 2286), a successful
  \<open>SelectOrderByCustomerIdWithCreateAt\<close> with \<open>Between\<close> returns exactly the live orders of that
  customer created between the two times, each once, in the order of creation, and no
  summary; a select always ends. (Outside such ranges the sort keys, which are not padded,
  compare as strings.)
\<close>

theorem order_select_between:
  assumes "gzip_laws gz" "proto_laws (order_auto enc dec)" "opaque_store ops now sinv rows" "sinv s"
    and table: "order_table gz (order_auto enc dec) (order_summary_auto enc' dec') (rows s) orders sums"
    and digits: "sixteen_digits lo" "sixteen_digits hi"
      "\<forall>i m t. orders i = Some (m, t) \<longrightarrow> sixteen_digits (o_create_at m)"
  shows "\<exists>r. SelectOrderByCustomerIdWithCreateAt (NewOrderClient ops gz enc dec) c s cid Between [lo, hi] = Some r
    \<and> (\<forall>ms. r = Inr ms \<longrightarrow>
         set ms = {m. \<exists>t. orders (o_id m) = Some (m, t) \<and> o_customer_id m = cid \<and> (t = 0 \<or> sint now < sint t)
           \<and> sint lo \<le> sint (o_create_at m) \<and> sint (o_create_at m) \<le> sint hi}
         \<and> distinct ms \<and> sorted (map (\<lambda>m. sint (o_create_at m)) ms))"
proof -
  let ?ap = "order_auto enc dec" and ?key = "empty_order\<lparr>o_customer_id := cid\<rparr>"
  let ?sc = "\<lparr>sc_operator = Between, sc_value = order_gsi1sk lo, sc_value2 = order_gsi1sk hi\<rparr>"
  let ?name = "''OrderClient.SelectOrderByCustomerIdWithCreateAt''"
  have sel: "SelectOrderByCustomerIdWithCreateAt (NewOrderClient ops gz enc dec) c s cid Between [lo, hi]
      = client_select ops gz ?ap ''Order'' ?name 1 c s ?key (Some ?sc)"
    by (simp add: SelectOrderByCustomerIdWithCreateAt_def NewOrderClient_def client_select_sorted_def client_sort_def)
  have idx: "qo_GSIIndex (ApplyQueryOptions [WithGSIIndex (int 1)]) = int 1"
    by (simp add: ApplyQueryOptions_def WithGSIIndex_def)
  have "\<exists>r. client_select ops gz ?ap ''Order'' ?name 1 c s ?key (Some ?sc) = Some r"
    using opaque_store.query_returns [OF assms(3,4) _ idx, of c "ap_GSIPK ?ap 1 ?key" "Some ?sc"]
    by (auto simp: client_select_def index_attrs_def)
  then obtain r where r: "client_select ops gz ?ap ''Order'' ?name 1 c s ?key (Some ?sc) = Some r" by blast
  have shelf: "holds_shelf gz ?ap o_id order_SK (rows s) orders" using table by (simp add: order_table_def)
  have "set ms = {m. \<exists>t. orders (o_id m) = Some (m, t) \<and> o_customer_id m = cid \<and> (t = 0 \<or> sint now < sint t)
           \<and> sint lo \<le> sint (o_create_at m) \<and> sint (o_create_at m) \<le> sint hi}
         \<and> distinct ms \<and> sorted (map (\<lambda>m. sint (o_create_at m)) ms)" if ms: "r = Inr ms" for ms
  proof -
    have res: "set ms = {m. \<exists>t. orders (o_id m) = Some (m, t) \<and> ap_GSIPK ?ap 1 m = ap_GSIPK ?ap 1 ?key
        \<and> (t = 0 \<or> sint now < sint t) \<and> (\<forall>sc. Some ?sc = Some sc \<longrightarrow> sort_holds sc (ap_GSISK ?ap 1 m))}
        \<and> distinct ms \<and> sorted (map (ap_GSISK ?ap 1) ms)"
    proof (rule opaque_store.client_select_shelf [OF assms(3) assms(1,2,4) shelf order_keyed _ _ _ _ r [unfolded ms]])
      show "ap_GSIPK ?ap 1 m \<notin> {[], ''NA''} \<and> ap_GSISK ?ap 1 m \<noteq> []" for m
        by (simp add: order_slots order_gsi1sk_def del: One_nat_def)
      show "\<exists>i. k = (order_pk i, order_SK)"
        if "rows s k = Some od" "fst (row_keys 1 od) = ap_GSIPK ?ap 1 ?key" for k od
        by (rule order_own_slot [OF table that])
    qed simp_all
    have d: "sixteen_digits (o_create_at m)" if "orders (o_id m) = Some (m, t)" for m t
      using digits(3) that by blast
    have set_eq: "set ms = {m. \<exists>t. orders (o_id m) = Some (m, t) \<and> o_customer_id m = cid \<and> (t = 0 \<or> sint now < sint t)
           \<and> sint lo \<le> sint (o_create_at m) \<and> sint (o_create_at m) \<le> sint hi}"
      unfolding conjunct1 [OF res] using sort_between_created [OF digits(1,2) d]
      by (auto simp: order_slots simp del: One_nat_def)
    have "order_gsi1sk (o_create_at x) \<le> order_gsi1sk (o_create_at y) \<longleftrightarrow> sint (o_create_at x) \<le> sint (o_create_at y)"
      if "x \<in> set ms" "y \<in> set ms" for x y
      using that d unfolding set_eq order_gsi1sk_def append_assoc [symmetric]
      by (auto simp: append_le_same_prefix dec_int64_le simp del: append.simps)
    moreover have "sorted (map (\<lambda>m. order_gsi1sk (o_create_at m)) ms)"
    proof -
      have "ap_GSISK ?ap 1 = (\<lambda>m. order_gsi1sk (o_create_at m))" by (simp only: fun_eq_iff order_slots simp_thms)
      with res show ?thesis by simp
    qed
    ultimately have "sorted (map (\<lambda>m. sint (o_create_at m)) ms)"
      by (simp add: sorted_map) (metis (no_types, lifting) sorted_wrt_mono_rel)
    with set_eq res show ?thesis by blast
  qed
  with r sel show ?thesis by auto
qed

theorem order_select_between_witness:
  "\<exists>s r. SelectOrderByCustomerIdWithCreateAt ex_oc background s ''c'' Between [10 ^ 15, 10 ^ 15 + 9] = Some r
     \<and> (r = Inr [ex_row_order] \<or> (\<exists>e. r = Inl e))"
proof -
  obtain s where s: "plain_ok s" "order_table plain_gzip (order_auto ex_enc ex_dec) (order_summary_auto ex_senc ex_sdec)
     (plain_rows s) [''7'' \<mapsto> (ex_row_order, 0)] [''7'' \<mapsto> (ex_row_summary, 0)]"
    using ex_table by blast
  have d: "sixteen_digits (10 ^ 15)" "sixteen_digits (10 ^ 15 + 9)" by (simp_all add: sixteen_digits_def)
  then have "\<forall>i m t. [''7'' \<mapsto> (ex_row_order, 0)] i = Some (m, t) \<longrightarrow> sixteen_digits (o_create_at m)"
    by (auto simp: ex_row_order_def split: if_splits)
  note sel = order_select_between [OF plain_gzip_laws ex_proto_laws(1) ex_store s d this, where c = background and cid = "''c''"]
  have one: "{m. \<exists>t. [''7'' \<mapsto> (ex_row_order, 0)] (o_id m) = Some (m, t) \<and> o_customer_id m = ''c'' \<and> (t = 0 \<or> sint (5 :: int64) < sint t)
      \<and> sint (10 ^ 15 :: int64) \<le> sint (o_create_at m) \<and> sint (o_create_at m) \<le> sint (10 ^ 15 + 9 :: int64)} = {ex_row_order}"
    by (auto simp: ex_row_order_def split: if_splits)
  from sel obtain r where r: "SelectOrderByCustomerIdWithCreateAt ex_oc background s ''c'' Between [10 ^ 15, 10 ^ 15 + 9] = Some r"
    and ms: "\<And>ms. r = Inr ms \<Longrightarrow> set ms = {ex_row_order} \<and> distinct ms"
    unfolding ex_oc_def one by blast
  have "r = Inr [ex_row_order] \<or> (\<exists>e. r = Inl e)"
  proof (cases r)
    case (Inr l)
    with ms [OF this] show ?thesis by (cases l; cases "tl l") auto
  qed simp
  with r show ?thesis by blast
qed

end
