(* ===== verification/CosmosClient.thy ===== *)
theory CosmosClient
  imports GoPrelude
begin

text \<open>
  azure/cosmosclient/cosmosclient.go: the interface of a Cosmos container that the stores use, and
  \<open>Wrap\<close>, which implements it over the Azure SDK. The SDK's container client and its pagers are
  parameters: \<open>'s\<close> is the state of the service, \<open>'r\<close> an encoded document, \<open>'p\<close> a pager.
\<close>

section \<open>Interfaces\<close>

datatype cosmos_value = CV_S string | CV_I int64

text \<open>
  A query is its text, its partition key (\<open>None\<close>: all partitions), its parameters and the page
  size hint (0 when unset).
\<close>

record cosmos_sql =
  cq_text :: string
  cq_partition :: "string option"
  cq_params :: "(string \<times> cosmos_value) list"
  cq_page_hint :: int32

text \<open>
  \<open>ContainerClient\<close> and \<open>Pager\<close>; the response of a write is not used by the stores, and a
  \<open>QueryItems\<close> whose pages never end is \<open>None\<close>.
\<close>

record ('s, 'r, 'p) cosmos_client =
  cc_create :: "ctx \<Rightarrow> string \<Rightarrow> 'r \<Rightarrow> 's \<Rightarrow> 's \<times> goerr option"
  cc_upsert :: "ctx \<Rightarrow> string \<Rightarrow> 'r \<Rightarrow> 's \<Rightarrow> 's \<times> goerr option"
  cc_read :: "ctx \<Rightarrow> string \<Rightarrow> string \<Rightarrow> 's \<Rightarrow> goerr + 'r"
  cc_delete :: "ctx \<Rightarrow> string \<Rightarrow> string \<Rightarrow> 's \<Rightarrow> 's \<times> goerr option"
  cc_query :: "ctx \<Rightarrow> cosmos_sql \<Rightarrow> 's \<Rightarrow> (goerr + 'r list) option"
  cc_pager :: "cosmos_sql \<Rightarrow> 'p"
  cc_more :: "'p \<Rightarrow> bool"
  cc_next :: "ctx \<Rightarrow> 's \<Rightarrow> 'p \<Rightarrow> 'p \<times> (goerr + 'r list)"
  cc_batch :: "ctx \<Rightarrow> string \<Rightarrow> 'r list \<Rightarrow> 's \<Rightarrow> 's \<times> goerr option"

text \<open>The parts of \<open>azcosmos.ContainerClient\<close> that \<open>Wrap\<close> uses; a batch answers with the status
  code and body of each operation.\<close>

record batch_response =
  br_success :: bool
  br_results :: "(int \<times> string) list"

record ('s, 'r, 'p) cosmos_sdk =
  sdk_create :: "ctx \<Rightarrow> string \<Rightarrow> 'r \<Rightarrow> 's \<Rightarrow> 's \<times> goerr option"
  sdk_upsert :: "ctx \<Rightarrow> string \<Rightarrow> 'r \<Rightarrow> 's \<Rightarrow> 's \<times> goerr option"
  sdk_read :: "ctx \<Rightarrow> string \<Rightarrow> string \<Rightarrow> 's \<Rightarrow> goerr + 'r"
  sdk_delete :: "ctx \<Rightarrow> string \<Rightarrow> string \<Rightarrow> 's \<Rightarrow> 's \<times> goerr option"
  sdk_pager :: "cosmos_sql \<Rightarrow> 'p"
  sdk_more :: "'p \<Rightarrow> bool"
  sdk_next :: "ctx \<Rightarrow> 's \<Rightarrow> 'p \<Rightarrow> 'p \<times> (goerr + 'r list)"
  sdk_batch :: "ctx \<Rightarrow> string \<Rightarrow> 'r list \<Rightarrow> 's \<Rightarrow> 's \<times> (goerr + batch_response)"

section \<open>Batch errors\<close>

text \<open>\<open>BatchError\<close> with its \<open>Error()\<close> text.\<close>

definition BatchError :: "int \<Rightarrow> string \<Rightarrow> goerr" where
  "BatchError code msg =
     Coded ''BatchError'' code (''cosmos batch failed (status '' @ dec_int code @ ''): '' @ msg)"

definition IsBatchConflict :: "goerr \<Rightarrow> bool" where
  "IsBatchConflict err =
     (case err_as ''BatchError'' err of None \<Rightarrow> False | Some code \<Rightarrow> code = 409)"

section \<open>The wrapper\<close>

partial_function (option) query_pages ::
    "('s, 'r, 'p) cosmos_sdk \<Rightarrow> ctx \<Rightarrow> 's \<Rightarrow> 'p \<Rightarrow> 'r list \<Rightarrow> (goerr + 'r list) option" where
  "query_pages w c s pager out =
     (if sdk_more w pager
      then (case sdk_next w c s pager of
          (pager', Inl e) \<Rightarrow> Some (Inl (errorf ''cosmosclient: query page: '' e))
        | (pager', Inr page) \<Rightarrow> query_pages w c s pager' (out @ page))
      else Some (Inr out))"

definition wrapper_QueryItems ::
    "('s, 'r, 'p) cosmos_sdk \<Rightarrow> ctx \<Rightarrow> cosmos_sql \<Rightarrow> 's \<Rightarrow> (goerr + 'r list) option" where
  "wrapper_QueryItems w c q s = query_pages w c s (sdk_pager w q) []"

definition sdkPager_NextPage ::
    "('s, 'r, 'p) cosmos_sdk \<Rightarrow> ctx \<Rightarrow> 's \<Rightarrow> 'p \<Rightarrow> 'p \<times> (goerr + 'r list)" where
  "sdkPager_NextPage w c s pager =
     (case sdk_next w c s pager of
        (pager', Inl e) \<Rightarrow> (pager', Inl (errorf ''cosmosclient: query page: '' e))
      | (pager', Inr page) \<Rightarrow> (pager', Inr page))"

definition MaxBatchOperations :: nat where "MaxBatchOperations = 100"

text \<open>The loop over the operations' results: the first that is not a failed dependency is the cause.\<close>

fun batch_cause :: "(int \<times> string) list \<Rightarrow> goerr" where
  "batch_cause [] = BatchError 0 ''transactional batch failed without a cause status''"
| "batch_cause ((code, body) # rs) = (if code \<noteq> 424 then BatchError code body else batch_cause rs)"

definition wrapper_ExecuteCreateBatch ::
    "('s, 'r, 'p) cosmos_sdk \<Rightarrow> ctx \<Rightarrow> string \<Rightarrow> 'r list \<Rightarrow> 's \<Rightarrow> 's \<times> goerr option" where
  "wrapper_ExecuteCreateBatch w c pk items s =
     (if length items = 0 then (s, None)
      else if length items > MaxBatchOperations
      then (s, Some (Foreign (''cosmosclient: batch of '' @ dec_nat (length items)
                              @ '' items exceeds Cosmos cap of '' @ dec_nat MaxBatchOperations)))
      else (case sdk_batch w c pk items s of
          (s', Inl e) \<Rightarrow> (s', Some (errorf ''cosmosclient: execute batch: '' e))
        | (s', Inr resp) \<Rightarrow>
            if br_success resp then (s', None) else (s', Some (batch_cause (br_results resp)))))"

definition cosmos_Wrap :: "('s, 'r, 'p) cosmos_sdk \<Rightarrow> ('s, 'r, 'p) cosmos_client" where
  "cosmos_Wrap w =
     \<lparr>cc_create = sdk_create w, cc_upsert = sdk_upsert w, cc_read = sdk_read w, cc_delete = sdk_delete w,
      cc_query = wrapper_QueryItems w, cc_pager = sdk_pager w, cc_more = sdk_more w,
      cc_next = sdkPager_NextPage w, cc_batch = wrapper_ExecuteCreateBatch w\<rparr>"

section \<open>JSON\<close>

text \<open>\<open>encoding/json\<close> on the documents of a container, as a parameter.\<close>

record ('d, 'r) json_codec =
  js_marshal :: "'d \<Rightarrow> goerr + 'r"
  js_unmarshal :: "'r \<Rightarrow> goerr + 'd"

section \<open>Errors of the SDK\<close>

text \<open>\<open>*azcore.ResponseError\<close> values carry the HTTP status.\<close>

definition response_status :: "goerr \<Rightarrow> int \<Rightarrow> bool" where
  "response_status err status =
     (case err_as ''azcore.ResponseError'' err of None \<Rightarrow> False | Some code \<Rightarrow> code = status)"

end
