(* ===== verification/CosmosOpaque.thy ===== *)
theory CosmosOpaque
  imports OpaqueData CosmosClient "HOL-Library.Product_Lexorder"
begin

text \<open>
  gen/opaquedata/cosmos/cosmos.go: opaque rows as JSON documents of a Cosmos container. The
  container's client and the JSON codec are parameters; the code never looks into the encoded
  documents, so their type \<open>'r\<close> is one too. \<open>now\<close> is \<open>time.Now().Unix()\<close>.
\<close>

section \<open>Documents\<close>

text \<open>\<open>document\<close>: the twenty slot pairs are the list \<open>doc_gsi\<close>, as in \<open>opaque_data\<close>.\<close>

record document =
  doc_id :: string
  doc_pk :: string
  doc_sk :: string
  doc_body :: bytes
  doc_t :: int64
  doc_ttl :: int64
  doc_version :: int64
  doc_gsi :: "(string \<times> string) list"

text \<open>\<open>isNotFound\<close>: a response error with status 404.\<close>

definition cosmos_isNotFound :: "goerr \<Rightarrow> bool" where
  "cosmos_isNotFound err = response_status err 404"

text \<open>One slot of the document, as the loop over \<open>gsiSlots\<close> writes it.\<close>

definition cosmos_slot :: "string \<times> string \<Rightarrow> string \<times> string" where
  "cosmos_slot g =
     (case g of (pkVal, skVal) \<Rightarrow>
        if pkVal \<noteq> [] \<and> pkVal \<noteq> ''NA''
        then (pkVal, if skVal = [] then ''NA'' else skVal)
        else if skVal \<noteq> [] \<and> skVal \<noteq> ''NA'' then ([], skVal)
        else ([], []))"

definition cosmos_document :: "int64 \<Rightarrow> opaque_data \<Rightarrow> document" where
  "cosmos_document now od =
     \<lparr>doc_id = od_sk od, doc_pk = od_pk od, doc_sk = od_sk od, doc_body = od_body od, doc_t = od_t od,
      doc_ttl = (if sint (od_t od) > 0
                 then (let remaining = od_t od - now in if sint remaining < 1 then 1 else remaining)
                 else 0),
      doc_version = od_version od, doc_gsi = map cosmos_slot (od_gsi od)\<rparr>"

definition cosmos_marshalItem :: "(document, 'r) json_codec \<Rightarrow> int64 \<Rightarrow> opaque_data \<Rightarrow> goerr + 'r" where
  "cosmos_marshalItem js now od = js_marshal js (cosmos_document now od)"

definition document_row :: "document \<Rightarrow> opaque_data" where
  "document_row doc =
     \<lparr>od_pk = doc_pk doc, od_sk = doc_sk doc, od_t = doc_t doc, od_version = doc_version doc,
      od_body = doc_body doc, od_gsi = doc_gsi doc\<rparr>"

definition cosmos_unmarshalItem :: "(document, 'r) json_codec \<Rightarrow> 'r \<Rightarrow> goerr + opaque_data" where
  "cosmos_unmarshalItem js raw =
     (case js_unmarshal js raw of Inl e \<Rightarrow> Inl e | Inr doc \<Rightarrow> Inr (document_row doc))"

section \<open>Put, Get and Delete\<close>

definition cosmos_Put ::
    "('s, 'r, 'p) cosmos_client \<Rightarrow> (document, 'r) json_codec \<Rightarrow> int64 \<Rightarrow> ctx \<Rightarrow> 's \<Rightarrow> opaque_data \<Rightarrow> 's \<times> goerr option" where
  "cosmos_Put cl js now c s od =
     (case cosmos_marshalItem js now od of
        Inl e \<Rightarrow> (s, Some (errorf ''cosmos.Store.Put: '' e))
      | Inr it \<Rightarrow> (case cc_upsert cl c (od_pk od) it s of
          (s', Some e) \<Rightarrow> (s', Some (errorf ''cosmos.Store.Put: '' e))
        | (s', None) \<Rightarrow> (s', None)))"

definition cosmos_Get ::
    "('s, 'r, 'p) cosmos_client \<Rightarrow> (document, 'r) json_codec \<Rightarrow> ctx \<Rightarrow> 's \<Rightarrow> string \<Rightarrow> string \<Rightarrow> goerr + opaque_data" where
  "cosmos_Get cl js c s pk sk =
     (case cc_read cl c pk sk s of
        Inl e \<Rightarrow> if cosmos_isNotFound e then Inl (Sentinel ErrNotFound)
                 else Inl (errorf ''cosmos.Store.Get: '' e)
      | Inr raw \<Rightarrow> (case cosmos_unmarshalItem js raw of
          Inl e \<Rightarrow> Inl (errorf ''cosmos.Store.Get: unmarshal: '' e)
        | Inr od \<Rightarrow> Inr od))"

definition cosmos_Delete ::
    "('s, 'r, 'p) cosmos_client \<Rightarrow> ctx \<Rightarrow> 's \<Rightarrow> string \<Rightarrow> string \<Rightarrow> 's \<times> goerr option" where
  "cosmos_Delete cl c s pk sk =
     (case cc_delete cl c pk sk s of
        (s', Some e) \<Rightarrow> if cosmos_isNotFound e then (s', None)
                        else (s', Some (errorf ''cosmos.Store.Delete: '' e))
      | (s', None) \<Rightarrow> (s', None))"

section \<open>Queries\<close>

text \<open>The loop over the digits of a slot's number; a value above 20 stops it.\<close>

fun slot_digits :: "string \<Rightarrow> nat \<Rightarrow> nat option" where
  "slot_digits [] n = Some n"
| "slot_digits (c # cs) n =
     (let d = (of_char c :: nat)
      in if d < 48 \<or> d > 57 then None
         else (let n' = n * 10 + (d - 48) in if n' > 20 then None else slot_digits cs n'))"

definition isValidOpaqueAttr :: "string \<Rightarrow> bool" where
  "isValidOpaqueAttr name =
     (if name = ''pk'' \<or> name = ''sk'' then True
      else if length name < 6 \<or> take 3 name \<noteq> ''gsi'' then False
      else if has_suffix name ''pk'' \<or> has_suffix name ''sk''
      then (let digits = take (length name - 2 - 3) (drop 3 name)
            in if digits = [] then False
               else (case slot_digits digits 0 of None \<Rightarrow> False | Some n \<Rightarrow> 1 \<le> n \<and> n \<le> 20))
      else False)"

text \<open>The getter by which a query over all partitions is sorted.\<close>

definition skValueExtractor :: "string \<Rightarrow> opaque_data \<Rightarrow> string" where
  "skValueExtractor skAttr od =
     (if skAttr = ''sk'' then od_sk od
      else (case find (\<lambda>i. skAttr = gsi_attr i ''sk'') [1..<21] of
              Some i \<Rightarrow> snd (od_gsi od ! (i - 1))
            | None \<Rightarrow> []))"

text \<open>The text and the parameters that the sort condition adds.\<close>

definition cosmos_sort ::
    "string \<Rightarrow> sort_condition \<Rightarrow> goerr + string \<times> (string \<times> cosmos_value) list" where
  "cosmos_sort skAttr srt =
     (let cmp = (\<lambda>oper. '' AND c.'' @ skAttr @ '' '' @ oper @ '' @sk'');
          one = [(''@sk'', CV_S (sc_value srt))]
      in case sc_operator srt of
           Equal \<Rightarrow> Inr (cmp ''='', one)
         | Lt \<Rightarrow> Inr (cmp ''<'', one)
         | Le \<Rightarrow> Inr (cmp ''<='', one)
         | Gt \<Rightarrow> Inr (cmp ''>'', one)
         | Ge \<Rightarrow> Inr (cmp ''>='', one)
         | Between \<Rightarrow> Inr ('' AND c.'' @ skAttr @ '' BETWEEN @sk AND @sk2'',
                           one @ [(''@sk2'', CV_S (sc_value2 srt))])
         | BeginsWith \<Rightarrow> Inr ('' AND STARTSWITH(c.'' @ skAttr @ '', @sk)'', one)
         | OtherOperator n \<Rightarrow> Inl (Foreign (''opaquedata: unknown sort operator '' @ dec_int n)))"

fun unmarshal_documents :: "(document, 'r) json_codec \<Rightarrow> 'r list \<Rightarrow> goerr + opaque_data list" where
  "unmarshal_documents js [] = Inr []"
| "unmarshal_documents js (raw # raws) =
     (case cosmos_unmarshalItem js raw of
        Inl e \<Rightarrow> Inl (errorf ''opaquedata: unmarshal item: '' e)
      | Inr od \<Rightarrow> (case unmarshal_documents js raws of Inl e \<Rightarrow> Inl e | Inr ods \<Rightarrow> Inr (od # ods)))"

definition cosmos_query_text ::
    "int64 \<Rightarrow> int \<Rightarrow> string \<Rightarrow> string \<Rightarrow> string \<Rightarrow> sort_condition option
     \<Rightarrow> goerr + string \<times> (string \<times> cosmos_value) list" where
  "cosmos_query_text now gsiIndex pkAttr pkValue skAttr srt =
     (case (case srt of None \<Rightarrow> Inr ([], []) | Some sc \<Rightarrow> cosmos_sort skAttr sc) of
        Inl e \<Rightarrow> Inl e
      | Inr (cond, extra) \<Rightarrow>
          Inr (''SELECT * FROM c WHERE c.'' @ pkAttr @ '' = @pk'' @ cond
               @ '' AND (NOT IS_DEFINED(c.t) OR c.t = 0 OR c.t > @now)''
               @ (if gsiIndex = 0 then '' ORDER BY c.'' @ skAttr @ '' ASC'' else []),
               [(''@pk'', CV_S pkValue), (''@now'', CV_I now)] @ extra))"

definition cosmos_Query ::
    "('s, 'r, 'p) cosmos_client \<Rightarrow> (document, 'r) json_codec \<Rightarrow> int64 \<Rightarrow> ctx \<Rightarrow> 's \<Rightarrow> string \<Rightarrow> string \<Rightarrow> string \<Rightarrow> sort_condition option
     \<Rightarrow> query_option list \<Rightarrow> (goerr + opaque_data list) option" where
  "cosmos_Query cl js now c s pkAttr pkValue skAttr srt opts =
     (let i = qo_GSIIndex (ApplyQueryOptions opts)
      in if i < 0 \<or> i > 20
         then Some (Inl (Foreign (''opaquedata: GSI index '' @ dec_int i @ '' out of range [0,20]'')))
         else if \<not> isValidOpaqueAttr pkAttr
         then Some (Inl (Foreign (''opaquedata: invalid pk attribute '' @ Quote pkAttr)))
         else if \<not> isValidOpaqueAttr skAttr
         then Some (Inl (Foreign (''opaquedata: invalid sk attribute '' @ Quote skAttr)))
         else (case cosmos_query_text now i pkAttr pkValue skAttr srt of
             Inl e \<Rightarrow> Some (Inl e)
           | Inr (qtext, params) \<Rightarrow>
               map_option (\<lambda>r. case r of
                   Inl e \<Rightarrow> Inl (errorf ''opaquedata: query: '' e)
                 | Inr items \<Rightarrow> (case unmarshal_documents js items of
                     Inl e \<Rightarrow> Inl e
                   | Inr results \<Rightarrow>
                       Inr (if i > 0 then sort_key (skValueExtractor skAttr) results else results)))
                 (cc_query cl c \<lparr>cq_text = qtext, cq_partition = (if i = 0 then Some pkValue else None),
                                  cq_params = params, cq_page_hint = 0\<rparr> s)))"

definition cosmos_opaque :: "('s, 'r, 'p) cosmos_client \<Rightarrow> (document, 'r) json_codec \<Rightarrow> int64 \<Rightarrow> 's opaque_ops" where
  "cosmos_opaque cl js now =
     \<lparr>op_put = cosmos_Put cl js now, op_get = cosmos_Get cl js, op_delete = cosmos_Delete cl,
      op_query = cosmos_Query cl js now\<rparr>"

end
