(* ===== verification/CosmosContract.thy ===== *)
theory CosmosContract
  imports CosmosOpaque "HOL-Library.Finite_Map"
begin

text \<open>
  The documented behaviour of Cosmos DB that the opaque store relies on, as the locale
  \<open>cosmos_service\<close> over the documents of a container by partition key and id, and the proof that
  the store keeps the same contract of an \<open>OpaqueStore\<close> as the one on DynamoDB.
\<close>

section \<open>Attribute names\<close>

text \<open>\<open>isValidOpaqueAttr\<close> accepts every name of the schema.\<close>

lemma valid_index_attrs:
  assumes "i \<le> 20"
  shows "isValidOpaqueAttr (fst (index_attrs i))" "isValidOpaqueAttr (snd (index_attrs i))"
proof -
  have "list_all (\<lambda>i. isValidOpaqueAttr (fst (index_attrs i)) \<and> isValidOpaqueAttr (snd (index_attrs i))) [0..<21]"
    by code_simp
  with assms show "isValidOpaqueAttr (fst (index_attrs i))" "isValidOpaqueAttr (snd (index_attrs i))"
    by (auto simp: list_all_iff simp del: upt_Suc)
qed

lemma slot_digits_chars: "slot_digits ds n = Some m \<Longrightarrow> list_all (\<lambda>c. 48 \<le> (of_char c :: nat) \<and> (of_char c :: nat) \<le> 57) ds"
  by (induction ds n rule: slot_digits.induct) (auto simp: Let_def split: if_splits)

lemma skValueExtractor_index:
  assumes "i \<le> 20"
  shows "skValueExtractor (snd (index_attrs i)) od = snd (row_keys i od)"
proof (cases "i = 0")
  case False
  have "find (\<lambda>j. gsi_attr i ''sk'' = gsi_attr j ''sk'') [1..<21] = Some i"
    by (rule find_unique) (use False assms in \<open>auto simp: gsi_attr_inj\<close>)
  moreover have "gsi_attr i ''sk'' \<noteq> ''sk''" by (simp add: gsi_attr_def)
  ultimately show ?thesis using False
    by (simp add: skValueExtractor_def index_attrs_def row_keys_def del: upt_Suc)
qed (simp add: skValueExtractor_def index_attrs_def row_keys_def)

section \<open>The query language\<close>

text \<open>The sort conditions that the store builds: their text and their meaning.\<close>

datatype cosmos_cond = CC_None | CC_Cmp comparator | CC_Between | CC_StartsWith

primrec cond_text :: "string \<Rightarrow> cosmos_cond \<Rightarrow> string" where
  "cond_text skA CC_None = []"
| "cond_text skA (CC_Cmp c) = '' AND c.'' @ skA @ '' '' @ comparator_text c @ '' @sk''"
| "cond_text skA CC_Between = '' AND c.'' @ skA @ '' BETWEEN @sk AND @sk2''"
| "cond_text skA CC_StartsWith = '' AND STARTSWITH(c.'' @ skA @ '', @sk)''"

definition param_test :: "(string \<times> cosmos_value) list \<Rightarrow> string \<Rightarrow> (string \<Rightarrow> bool) \<Rightarrow> bool" where
  "param_test params n test = (case map_of params n of Some (CV_S y) \<Rightarrow> test y | _ \<Rightarrow> False)"

primrec cond_holds :: "(string \<times> cosmos_value) list \<Rightarrow> string \<Rightarrow> cosmos_cond \<Rightarrow> bool" where
  "cond_holds params x CC_None = True"
| "cond_holds params x (CC_Cmp c) = param_test params ''@sk'' (compare_with c x)"
| "cond_holds params x CC_Between \<longleftrightarrow>
     param_test params ''@sk'' (\<lambda>y. y \<le> x) \<and> param_test params ''@sk2'' (\<lambda>y. x \<le> y)"
| "cond_holds params x CC_StartsWith = param_test params ''@sk'' (has_prefix x)"

definition container_text :: "nat \<Rightarrow> cosmos_cond \<Rightarrow> string" where
  "container_text i cond =
     ''SELECT * FROM c WHERE c.'' @ fst (index_attrs i) @ '' = @pk'' @ cond_text (snd (index_attrs i)) cond
       @ '' AND (NOT IS_DEFINED(c.t) OR c.t = 0 OR c.t > @now)''
       @ (if i = 0 then '' ORDER BY c.'' @ snd (index_attrs i) @ '' ASC'' else [])"

text \<open>The key fields of a document; an empty slot field is left out, so it satisfies nothing.\<close>

definition doc_keys :: "nat \<Rightarrow> document \<Rightarrow> string \<times> string" where
  "doc_keys i d = row_keys i (document_row d)"

definition container_result ::
    "(string \<times> string \<Rightarrow> document option) \<Rightarrow> nat \<Rightarrow> string \<Rightarrow> cosmos_cond \<Rightarrow> (string \<times> cosmos_value) list \<Rightarrow> int64
     \<Rightarrow> document list \<Rightarrow> bool" where
  "container_result docs i v cond params now ds \<longleftrightarrow>
     set ds = {d \<in> ran docs. fst (doc_keys i d) = v
       \<and> (cond = CC_None \<or> snd (doc_keys i d) \<noteq> [] \<and> cond_holds params (snd (doc_keys i d)) cond)
       \<and> (doc_t d = 0 \<or> sint now < sint (doc_t d))}
     \<and> distinct ds \<and> (i = 0 \<longrightarrow> sorted (map (\<lambda>d. snd (doc_keys i d)) ds))"

section \<open>The service\<close>

definition container_query ::
    "nat \<Rightarrow> string \<Rightarrow> cosmos_cond \<Rightarrow> (string \<times> cosmos_value) list \<Rightarrow> cosmos_sql" where
  "container_query i v cond params =
     \<lparr>cq_text = container_text i cond, cq_partition = (if i = 0 then Some v else None),
      cq_params = params, cq_page_hint = 0\<rparr>"

locale cosmos_service =
  fixes cl :: "('s, 'r, 'p) cosmos_client" and js :: "(document, 'r) json_codec"
    and tbl :: "'s \<Rightarrow> string \<times> string \<Rightarrow> document option"
  assumes upsert: "js_marshal js d = Inr raw \<Longrightarrow> cc_upsert cl c (doc_pk d) raw s = (s', r) \<Longrightarrow>
      tbl s' = (tbl s)((doc_pk d, doc_id d) \<mapsto> d) \<or> (r \<noteq> None \<and> tbl s' = tbl s)"
    and delete: "cc_delete cl c pk di s = (s', r) \<Longrightarrow>
      tbl s' = (tbl s)((pk, di) := None)
      \<or> (tbl s' = tbl s \<and> (\<exists>e. r = Some e \<and> (cosmos_isNotFound e \<longrightarrow> tbl s (pk, di) = None)))"
    and read: "cc_read cl c pk di s = Inr raw \<Longrightarrow> \<exists>d. tbl s (pk, di) = Some d \<and> js_unmarshal js raw = Inr d"
    and read_error: "cc_read cl c pk di s = Inl e \<Longrightarrow>
      \<not> err_is e ErrNotFound \<and> (cosmos_isNotFound e \<longrightarrow> tbl s (pk, di) = None)"
    and query_ends: "\<exists>r. cc_query cl c q s = Some r"
    and query: "i \<le> 20 \<Longrightarrow> v \<noteq> [] \<Longrightarrow> map_of params ''@pk'' = Some (CV_S v) \<Longrightarrow> map_of params ''@now'' = Some (CV_I now) \<Longrightarrow>
      cc_query cl c (container_query i v cond params) s = Some (Inr raws) \<Longrightarrow>
      \<exists>ds. list_all2 (\<lambda>raw d. js_unmarshal js raw = Inr d) raws ds \<and> container_result (tbl s) i v cond params now ds"

text \<open>The documents that \<open>Put\<close> writes, and the rows they are read as.\<close>

definition cosmos_docs_ok :: "(string \<times> string \<Rightarrow> document option) \<Rightarrow> bool" where
  "cosmos_docs_ok docs \<longleftrightarrow>
     (\<forall>k d. docs k = Some d \<longrightarrow>
        (\<exists>t od. putable_row od \<and> d = cosmos_document t od \<and> k = (od_pk od, od_sk od)))"

definition cosmos_rows :: "(string \<times> string \<Rightarrow> document option) \<Rightarrow> opaque_rows" where
  "cosmos_rows docs k = map_option document_row (docs k)"

lemma cosmos_slot_norm: "cosmos_slot = norm_slot"
  by (auto simp: fun_eq_iff cosmos_slot_def norm_slot_def)

lemma document_row_stored: "document_row (cosmos_document t od) = stored_row od"
  by (simp add: document_row_def cosmos_document_def stored_row_def cosmos_slot_norm)

lemma cosmos_docs_ok_upd:
  "cosmos_docs_ok docs \<Longrightarrow> putable_row od \<Longrightarrow> cosmos_docs_ok (docs((od_pk od, od_sk od) \<mapsto> cosmos_document t od))"
  "cosmos_docs_ok docs \<Longrightarrow> cosmos_docs_ok (docs(k := None))"
  by (auto simp: cosmos_docs_ok_def)

lemma cosmos_rows_upd:
  "cosmos_rows (docs(k \<mapsto> cosmos_document t od)) = (cosmos_rows docs)(k \<mapsto> stored_row od)"
  "cosmos_rows (docs(k := None)) = (cosmos_rows docs)(k := None)"
  by (auto simp: cosmos_rows_def fun_eq_iff document_row_stored)

lemma cosmos_ran_rows: "ran (cosmos_rows docs) = document_row ` ran docs"
  by (auto simp: ran_def cosmos_rows_def)

lemma cosmos_row_inj: "cosmos_docs_ok docs \<Longrightarrow> inj_on document_row (ran docs)"
proof (rule inj_onI)
  fix x y assume ok: "cosmos_docs_ok docs" and xy: "x \<in> ran docs" "y \<in> ran docs" "document_row x = document_row y"
  have "docs (od_pk (document_row d), od_sk (document_row d)) = Some d" if "d \<in> ran docs" for d
  proof -
    from that obtain k where k: "docs k = Some d" by (auto simp: ran_def)
    with ok obtain t od where "d = cosmos_document t od" "k = (od_pk od, od_sk od)"
      unfolding cosmos_docs_ok_def by blast
    with k show ?thesis by (simp add: document_row_stored)
  qed
  from this [OF xy(1)] this [OF xy(2)] xy(3) show "x = y" by (metis option.inject)
qed

text \<open>A document with a slot's partition key has its sort key too.\<close>

lemma cosmos_doc_sk:
  assumes "cosmos_docs_ok docs" "d \<in> ran docs" "i \<le> 20" "fst (doc_keys i d) \<noteq> []"
  shows "snd (doc_keys i d) \<noteq> []"
proof -
  from assms(2) obtain k where "docs k = Some d" by (auto simp: ran_def)
  with assms(1) obtain t od where od: "putable_row od" "d = cosmos_document t od"
    unfolding cosmos_docs_ok_def by blast
  show ?thesis
  proof (cases "i = 0")
    case True
    with od show ?thesis by (simp add: doc_keys_def document_row_stored stored_row_keys row_keys_def putable_row_def)
  next
    case False
    then have "doc_keys i d = norm_slot (row_keys i od)"
      using od assms(3) by (simp add: doc_keys_def document_row_stored stored_row_keys putable_row_def)
    with assms(4) show ?thesis by (auto simp: norm_slot_def split: if_splits)
  qed
qed

section \<open>Queries\<close>

lemma query_text_form:
  assumes "cosmos_query_text now (int i) (fst (index_attrs i)) v (snd (index_attrs i)) srt = Inr (qtext, params)"
  obtains cond where "qtext = container_text i cond"
    "map_of params ''@pk'' = Some (CV_S v)" "map_of params ''@now'' = Some (CV_I now)"
    "cond = CC_None \<longleftrightarrow> srt = None" "\<And>x. cond_holds params x cond \<longleftrightarrow> (\<forall>sc. srt = Some sc \<longrightarrow> sort_holds sc x)"
proof (cases srt)
  case None
  with assms show thesis
    by (intro that [of CC_None]) (auto simp: cosmos_query_text_def container_text_def)
next
  case (Some sc)
  with assms obtain ctext extra where c: "cosmos_sort (snd (index_attrs i)) sc = Inr (ctext, extra)"
    by (auto simp: cosmos_query_text_def split: sum.splits)
  note found = that
  have cmp: thesis if cond: "ctext = cond_text (snd (index_attrs i)) cond" "cond \<noteq> CC_None"
    and ps: "map_of extra ''@pk'' = None" "map_of extra ''@now'' = None"
    and op: "\<And>x. cond_holds extra x cond \<longleftrightarrow> sort_holds sc x" for cond
  proof (rule found [of cond])
    have params: "params = [(''@pk'', CV_S v), (''@now'', CV_I now)] @ extra"
      and qt: "qtext = container_text i cond"
      using assms Some c cond by (auto simp: cosmos_query_text_def container_text_def)
    show "qtext = container_text i cond" by (rule qt)
    show "map_of params ''@pk'' = Some (CV_S v)" "map_of params ''@now'' = Some (CV_I now)" by (simp_all add: params)
    show "cond = CC_None \<longleftrightarrow> srt = None" using Some cond(2) by simp
    have "param_test params n = param_test extra n" if "n \<in> {''@sk'', ''@sk2''}" for n
      using that by (auto simp: params param_test_def fun_eq_iff)
    then have "cond_holds params x cond = cond_holds extra x cond" for x by (cases cond) simp_all
    with op Some show "cond_holds params x cond \<longleftrightarrow> (\<forall>sc. srt = Some sc \<longrightarrow> sort_holds sc x)" for x by simp
  qed
  show thesis
  proof (cases "sc_operator sc")
    case Equal
    with c show thesis by (intro cmp [of "CC_Cmp CEq"]) (auto simp: cosmos_sort_def sort_holds_def param_test_def)
  next
    case Lt
    with c show thesis by (intro cmp [of "CC_Cmp CLt"]) (auto simp: cosmos_sort_def sort_holds_def param_test_def)
  next
    case Le
    with c show thesis by (intro cmp [of "CC_Cmp CLe"]) (auto simp: cosmos_sort_def sort_holds_def param_test_def)
  next
    case Gt
    with c show thesis by (intro cmp [of "CC_Cmp CGt"]) (auto simp: cosmos_sort_def sort_holds_def param_test_def)
  next
    case Ge
    with c show thesis by (intro cmp [of "CC_Cmp CGe"]) (auto simp: cosmos_sort_def sort_holds_def param_test_def)
  next
    case Between
    with c show thesis by (intro cmp [of CC_Between]) (auto simp: cosmos_sort_def sort_holds_def param_test_def)
  next
    case BeginsWith
    with c show thesis by (intro cmp [of CC_StartsWith]) (auto simp: cosmos_sort_def sort_holds_def param_test_def)
  next
    case (OtherOperator n)
    with c show thesis by (simp add: cosmos_sort_def)
  qed
qed

lemma unmarshal_documents_ok:
  "list_all2 (\<lambda>raw d. js_unmarshal js raw = Inr d) raws ds \<Longrightarrow>
     unmarshal_documents js raws = Inr (map document_row ds)"
  by (induction rule: list_all2_induct) (simp_all add: cosmos_unmarshalItem_def)

context cosmos_service
begin

lemma store_query:
  assumes ok: "cosmos_docs_ok (tbl s)" and i: "i \<le> 20" "qo_GSIIndex (ApplyQueryOptions opts) = int i" and v: "v \<noteq> []"
    and q: "cosmos_Query cl js now c s (fst (index_attrs i)) v (snd (index_attrs i)) srt opts = Some (Inr ods)"
  shows "set ods = selected (cosmos_rows (tbl s)) now i v srt \<and> distinct ods
    \<and> sorted (map (\<lambda>od. snd (row_keys i od)) ods)"
proof -
  obtain qtext params where t: "cosmos_query_text now (int i) (fst (index_attrs i)) v (snd (index_attrs i)) srt = Inr (qtext, params)"
    using q i valid_index_attrs [OF i(1)] by (auto simp: cosmos_Query_def Let_def split: sum.splits)
  then obtain cond where cond: "qtext = container_text i cond"
    "map_of params ''@pk'' = Some (CV_S v)" "map_of params ''@now'' = Some (CV_I now)"
    "cond = CC_None \<longleftrightarrow> srt = None" "\<And>x. cond_holds params x cond \<longleftrightarrow> (\<forall>sc. srt = Some sc \<longrightarrow> sort_holds sc x)"
    by (rule query_text_form) blast
  obtain raws where raws: "cc_query cl c (container_query i v cond params) s = Some (Inr raws)"
  proof (cases "cc_query cl c (container_query i v cond params) s")
    case (Some r)
    with q i valid_index_attrs [OF i(1)] t that show thesis
      by (cases r) (auto simp: cosmos_Query_def container_query_def cond(1))
  next
    case None
    with query_ends [of c "container_query i v cond params" s] show thesis by simp
  qed
  obtain ds where ds: "list_all2 (\<lambda>raw d. js_unmarshal js raw = Inr d) raws ds" "container_result (tbl s) i v cond params now ds"
    using query [OF i(1) v cond(2,3) raws] by blast
  have ods: "ods = (if i = 0 then map document_row ds else sort_key (\<lambda>od. snd (row_keys i od)) (map document_row ds))"
    using q i valid_index_attrs [OF i(1)] t raws unmarshal_documents_ok [OF ds(1)] skValueExtractor_index [OF i(1), abs_def]
    by (auto simp: cosmos_Query_def container_query_def cond(1))
  have sub: "set ds \<subseteq> ran (tbl s)" using ds(2) by (auto simp: container_result_def)
  have "set ds = {d \<in> ran (tbl s). fst (row_keys i (document_row d)) = v \<and> live_at now (document_row d)
      \<and> (\<forall>sc. srt = Some sc \<longrightarrow> sort_holds sc (snd (row_keys i (document_row d))))}"
    unfolding conjunct1 [OF ds(2) [unfolded container_result_def]]
  proof (intro Collect_cong conj_cong [OF refl])
    fix d assume d: "d \<in> ran (tbl s)"
    have "snd (doc_keys i d) \<noteq> []" if "fst (doc_keys i d) = v"
      using cosmos_doc_sk [OF ok d i(1)] that v by simp
    then show "(fst (doc_keys i d) = v \<and> (cond = CC_None \<or> snd (doc_keys i d) \<noteq> [] \<and> cond_holds params (snd (doc_keys i d)) cond)
        \<and> (doc_t d = 0 \<or> sint now < sint (doc_t d)))
      \<longleftrightarrow> (fst (row_keys i (document_row d)) = v \<and> live_at now (document_row d)
        \<and> (\<forall>sc. srt = Some sc \<longrightarrow> sort_holds sc (snd (row_keys i (document_row d)))))"
      using cond(4,5) by (auto simp: doc_keys_def live_at_def document_row_def)
  qed
  then have "set ods = selected (cosmos_rows (tbl s)) now i v srt"
    by (auto simp: ods selected_def cosmos_ran_rows)
  moreover have "distinct ods"
  proof -
    have "distinct ds" using ds(2) by (simp add: container_result_def)
    with inj_on_subset [OF cosmos_row_inj [OF ok] sub] show ?thesis by (simp add: ods distinct_map)
  qed
  moreover have "sorted (map (\<lambda>od. snd (row_keys i od)) ods)"
    using ds(2) by (auto simp: ods container_result_def doc_keys_def comp_def)
  ultimately show ?thesis by blast
qed

lemma keeps_contract:
  "opaque_store (cosmos_opaque cl js now) now (\<lambda>s. cosmos_docs_ok (tbl s)) (\<lambda>s. cosmos_rows (tbl s))"
proof unfold_locales
  fix s s' c od assume ok: "cosmos_docs_ok (tbl s)" and p: "putable_row od"
    and put: "op_put (cosmos_opaque cl js now) c s od = (s', None)"
  then obtain raw where "js_marshal js (cosmos_document now od) = Inr raw" "cc_upsert cl c (od_pk od) raw s = (s', None)"
    by (auto simp: cosmos_opaque_def cosmos_Put_def cosmos_marshalItem_def split: prod.splits option.splits sum.splits)
  from upsert [OF this(1), of c s s' None] this(2) ok p
  show "cosmos_docs_ok (tbl s') \<and> cosmos_rows (tbl s') = (cosmos_rows (tbl s))((od_pk od, od_sk od) \<mapsto> stored_row od)"
    by (simp add: cosmos_docs_ok_upd cosmos_rows_upd cosmos_document_def [of now od, THEN arg_cong [of _ _ doc_pk]]
        cosmos_document_def [of now od, THEN arg_cong [of _ _ doc_id]])
next
  fix s s' c od e assume ok: "cosmos_docs_ok (tbl s)" and p: "putable_row od"
    and put: "op_put (cosmos_opaque cl js now) c s od = (s', Some e)"
  then have "s' = s \<or> (\<exists>raw r. js_marshal js (cosmos_document now od) = Inr raw \<and> cc_upsert cl c (od_pk od) raw s = (s', r))"
    by (auto simp: cosmos_opaque_def cosmos_Put_def cosmos_marshalItem_def split: prod.splits option.splits sum.splits)
  with upsert [of "cosmos_document now od" _ c s s'] ok p
  show "cosmos_docs_ok (tbl s') \<and> (cosmos_rows (tbl s') = cosmos_rows (tbl s)
      \<or> cosmos_rows (tbl s') = (cosmos_rows (tbl s))((od_pk od, od_sk od) \<mapsto> stored_row od))"
    by (fastforce simp: cosmos_docs_ok_upd cosmos_rows_upd cosmos_document_def [of now od, THEN arg_cong [of _ _ doc_pk]]
        cosmos_document_def [of now od, THEN arg_cong [of _ _ doc_id]])
next
  fix s s' c pk sk assume ok: "cosmos_docs_ok (tbl s)"
    and del: "op_delete (cosmos_opaque cl js now) c s pk sk = (s', None)"
  then obtain r where "cc_delete cl c pk sk s = (s', r)" "\<And>e. r = Some e \<Longrightarrow> cosmos_isNotFound e"
    by (auto simp: cosmos_opaque_def cosmos_Delete_def split: prod.splits option.splits if_splits)
  with delete [OF this(1)] have "tbl s' = (tbl s)((pk, sk) := None)" by (auto simp: fun_upd_idem)
  with ok show "cosmos_docs_ok (tbl s') \<and> cosmos_rows (tbl s') = (cosmos_rows (tbl s))((pk, sk) := None)"
    by (simp add: cosmos_docs_ok_upd cosmos_rows_upd)
next
  fix s s' c pk sk e assume ok: "cosmos_docs_ok (tbl s)"
    and del: "op_delete (cosmos_opaque cl js now) c s pk sk = (s', Some e)"
  then obtain r where "cc_delete cl c pk sk s = (s', r)"
    by (auto simp: cosmos_opaque_def cosmos_Delete_def split: prod.splits option.splits if_splits)
  from delete [OF this] ok
  show "cosmos_docs_ok (tbl s') \<and> (cosmos_rows (tbl s') = cosmos_rows (tbl s)
      \<or> cosmos_rows (tbl s') = (cosmos_rows (tbl s))((pk, sk) := None))"
    by (auto simp: cosmos_docs_ok_upd cosmos_rows_upd)
next
  fix s c pk sk od assume "op_get (cosmos_opaque cl js now) c s pk sk = Inr od"
  then obtain raw where raw: "cc_read cl c pk sk s = Inr raw" "cosmos_unmarshalItem js raw = Inr od"
    by (auto simp: cosmos_opaque_def cosmos_Get_def split: sum.splits if_splits)
  from read [OF raw(1)] raw(2) show "cosmos_rows (tbl s) (pk, sk) = Some od"
    by (auto simp: cosmos_rows_def cosmos_unmarshalItem_def)
next
  fix s c pk sk e assume ok: "cosmos_docs_ok (tbl s)"
    and get: "op_get (cosmos_opaque cl js now) c s pk sk = Inl e" and missing: "err_is e ErrNotFound"
  show "cosmos_rows (tbl s) (pk, sk) = None"
  proof (cases "cc_read cl c pk sk s")
    case (Inl e')
    with get read_error [OF Inl] missing show ?thesis
      by (auto simp: cosmos_opaque_def cosmos_Get_def cosmos_rows_def split: if_splits)
  next
    case (Inr raw)
    with get read [OF Inr] show ?thesis by (auto simp: cosmos_opaque_def cosmos_Get_def cosmos_unmarshalItem_def)
  qed
next
  fix s i opts c v srt
  show "\<exists>r. op_query (cosmos_opaque cl js now) c s (fst (index_attrs i)) v (snd (index_attrs i)) srt opts = Some r"
    using query_ends by (auto simp: cosmos_opaque_def cosmos_Query_def Let_def split: sum.splits)
next
  fix s i opts c v srt ods
  assume "cosmos_docs_ok (tbl s)" "i \<le> 20" "qo_GSIIndex (ApplyQueryOptions opts) = int i"
    and q: "op_query (cosmos_opaque cl js now) c s (fst (index_attrs i)) v (snd (index_attrs i)) srt opts = Some (Inr ods)"
    and v: "v \<noteq> []"
  from store_query [OF this(1-3) v, of now c srt ods] q
  show "set ods = selected (cosmos_rows (tbl s)) now i v srt \<and> distinct ods \<and> sorted (map (\<lambda>od. snd (row_keys i od)) ods)"
    by (auto simp: cosmos_opaque_def)
qed

end

sublocale cosmos_service \<subseteq> cs: opaque_store "cosmos_opaque cl js now" now "\<lambda>s. cosmos_docs_ok (tbl s)"
    "\<lambda>s. cosmos_rows (tbl s)" for now
  by (rule keeps_contract)

section \<open>The wrapper over the SDK\<close>

text \<open>
  The same documents behind azcosmos's \<open>ContainerClient\<close>: a query is answered in pages, \<open>left\<close> is what
  a pager has still to give and \<open>todo\<close> bounds its pages. The loop of \<open>QueryItems\<close> in azure/cosmosclient
  then ends, and the wrapped client is a container as above.
\<close>

locale cosmos_sdk_container =
  fixes w :: "('s, 'r, 'p) cosmos_sdk" and js :: "(document, 'r) json_codec"
    and tbl :: "'s \<Rightarrow> string \<times> string \<Rightarrow> document option"
    and left :: "'s \<Rightarrow> 'p \<Rightarrow> 'r list" and todo :: "'s \<Rightarrow> 'p \<Rightarrow> nat"
  assumes upsert: "js_marshal js d = Inr raw \<Longrightarrow> sdk_upsert w c (doc_pk d) raw s = (s', r) \<Longrightarrow>
      tbl s' = (tbl s)((doc_pk d, doc_id d) \<mapsto> d) \<or> (r \<noteq> None \<and> tbl s' = tbl s)"
    and delete: "sdk_delete w c pk di s = (s', r) \<Longrightarrow>
      tbl s' = (tbl s)((pk, di) := None)
      \<or> (tbl s' = tbl s \<and> (\<exists>e. r = Some e \<and> (cosmos_isNotFound e \<longrightarrow> tbl s (pk, di) = None)))"
    and read: "sdk_read w c pk di s = Inr raw \<Longrightarrow> \<exists>d. tbl s (pk, di) = Some d \<and> js_unmarshal js raw = Inr d"
    and read_error: "sdk_read w c pk di s = Inl e \<Longrightarrow>
      \<not> err_is e ErrNotFound \<and> (cosmos_isNotFound e \<longrightarrow> tbl s (pk, di) = None)"
    and pager_done: "\<not> sdk_more w p \<Longrightarrow> left s p = []"
    and pager_next: "sdk_more w p \<Longrightarrow> sdk_next w c s p = (p', Inr page) \<Longrightarrow>
      left s p = page @ left s p' \<and> todo s p' < todo s p"
    and pager_start: "i \<le> 20 \<Longrightarrow> v \<noteq> [] \<Longrightarrow> map_of params ''@pk'' = Some (CV_S v) \<Longrightarrow> map_of params ''@now'' = Some (CV_I now) \<Longrightarrow>
      (\<exists>ds. list_all2 (\<lambda>raw d. js_unmarshal js raw = Inr d) (left s (sdk_pager w (container_query i v cond params))) ds
         \<and> container_result (tbl s) i v cond params now ds)
      \<or> (\<forall>c. \<exists>p' e. sdk_next w c s (sdk_pager w (container_query i v cond params)) = (p', Inl e))
        \<and> sdk_more w (sdk_pager w (container_query i v cond params))"
begin

lemma query_pages_end:
  "\<exists>r. query_pages w c s p out = Some r \<and> (\<forall>raws. r = Inr raws \<longrightarrow> raws = out @ left s p)"
proof (induction "todo s p" arbitrary: p out rule: less_induct)
  case less
  show ?case
  proof (cases "sdk_more w p")
    case False
    then show ?thesis by (subst query_pages.simps) (simp add: pager_done)
  next
    case more: True
    obtain p' res where nxt: "sdk_next w c s p = (p', res)" by fastforce
    show ?thesis
    proof (cases res)
      case (Inl e)
      with more nxt show ?thesis by (subst query_pages.simps) simp
    next
      case (Inr page)
      with nxt have page: "sdk_next w c s p = (p', Inr page)" by simp
      have "query_pages w c s p out = query_pages w c s p' (out @ page)"
        using more page by (subst query_pages.simps) simp
      with less [of p' "out @ page"] pager_next [OF more page] show ?thesis by simp
    qed
  qed
qed

lemma wrapped_container: "cosmos_service (cosmos_Wrap w) js tbl"
proof unfold_locales
  fix d raw c s s' r
  assume "js_marshal js d = Inr raw" "cc_upsert (cosmos_Wrap w) c (doc_pk d) raw s = (s', r)"
  with upsert show "tbl s' = (tbl s)((doc_pk d, doc_id d) \<mapsto> d) \<or> (r \<noteq> None \<and> tbl s' = tbl s)"
    by (simp add: cosmos_Wrap_def)
next
  fix c q s
  show "\<exists>r. cc_query (cosmos_Wrap w) c q s = Some r"
    using query_pages_end [of c s "sdk_pager w q" "[]"] by (auto simp: cosmos_Wrap_def wrapper_QueryItems_def)
next
  fix i v params now c cond s raws
  let ?p = "sdk_pager w (container_query i v cond params)"
  assume q: "i \<le> 20" "v \<noteq> []" "map_of params ''@pk'' = Some (CV_S v)" "map_of params ''@now'' = Some (CV_I now)"
    and "cc_query (cosmos_Wrap w) c (container_query i v cond params) s = Some (Inr raws)"
  then have run: "query_pages w c s ?p [] = Some (Inr raws)" by (simp add: cosmos_Wrap_def wrapper_QueryItems_def)
  with query_pages_end [of c s ?p "[]"] have "raws = left s ?p" by auto
  moreover have False if "sdk_next w c s ?p = (p', Inl e)" "sdk_more w ?p" for p' e
    using run that by (subst (asm) query_pages.simps) simp
  ultimately show "\<exists>ds. list_all2 (\<lambda>raw d. js_unmarshal js raw = Inr d) raws ds
      \<and> container_result (tbl s) i v cond params now ds"
    using pager_start [OF q] by metis
qed (simp_all add: cosmos_Wrap_def delete read read_error)

end

sublocale cosmos_sdk_container \<subseteq> cw: cosmos_service "cosmos_Wrap w" js tbl
  by (rule wrapped_container)

section \<open>An example\<close>

text \<open>
  A concrete Cosmos container: a finite map from partition key and id to documents, which answers
  the store's queries and refuses to read or delete what is absent with a 404. It has the
  documented behaviour, so the properties of the opaque store apply to it.
\<close>

type_synonym plain_container = "(string \<times> string, document) fmap"

definition cosmos_404 :: goerr where
  "cosmos_404 = Coded ''azcore.ResponseError'' 404 ''404 Not Found''"

definition cosmos_409 :: goerr where
  "cosmos_409 = Coded ''azcore.ResponseError'' 409 ''409 Conflict''"

definition cosmos_conds :: "cosmos_cond list" where
  "cosmos_conds = CC_None # map CC_Cmp [CEq, CLt, CLe, CGt, CGe] @ [CC_Between, CC_StartsWith]"

definition queried_attr :: "string \<Rightarrow> string" where
  "queried_attr q = takeWhile (\<lambda>c. c \<noteq> CHR '' '') (drop 24 q)"

definition plain_container_query ::
    "string \<Rightarrow> (string \<times> cosmos_value) list \<Rightarrow> plain_container \<Rightarrow> goerr + document list" where
  "plain_container_query q params s =
     (case find (\<lambda>i. fst (index_attrs i) = queried_attr q) [0..<21] of
        None \<Rightarrow> Inl (Foreign ''400 Bad Request'')
      | Some i \<Rightarrow>
          (case (find (\<lambda>cond. q = container_text i cond) cosmos_conds, map_of params ''@pk'', map_of params ''@now'') of
             (Some cond, Some (CV_S v), Some (CV_I now)) \<Rightarrow>
               Inr ((if i = 0 then sort_key (\<lambda>d. snd (doc_keys i d)) else id)
                 (remdups (filter (\<lambda>d. fst (doc_keys i d) = v
                     \<and> (cond = CC_None \<or> snd (doc_keys i d) \<noteq> [] \<and> cond_holds params (snd (doc_keys i d)) cond)
                     \<and> (doc_t d = 0 \<or> sint now < sint (doc_t d)))
                   (map (\<lambda>k. the (fmlookup s k)) (sorted_list_of_fset (fmdom s))))))
           | _ \<Rightarrow> Inl (Foreign ''400 Bad Request'')))"

text \<open>
  A pager is its query with the number of documents given so far, or \<open>None\<close> after the last page; a
  page holds two documents.
\<close>

type_synonym container_pager = "(cosmos_sql \<times> nat) option"

definition plain_next ::
    "plain_container \<Rightarrow> container_pager \<Rightarrow> container_pager \<times> (goerr + document list)" where
  "plain_next s p =
     (case p of
        None \<Rightarrow> (None, Inr [])
      | Some (q, k) \<Rightarrow> (case plain_container_query (cq_text q) (cq_params q) s of
          Inl e \<Rightarrow> (p, Inl e)
        | Inr ds \<Rightarrow> (if k + 2 < length ds then Some (q, k + 2) else None, Inr (take 2 (drop k ds)))))"

definition plain_docs_left :: "plain_container \<Rightarrow> container_pager \<Rightarrow> document list" where
  "plain_docs_left s p =
     (case p of None \<Rightarrow> []
      | Some (q, k) \<Rightarrow> (case plain_container_query (cq_text q) (cq_params q) s of Inl e \<Rightarrow> [] | Inr ds \<Rightarrow> drop k ds))"

definition plain_pages_left :: "plain_container \<Rightarrow> container_pager \<Rightarrow> nat" where
  "plain_pages_left s p = (if p = None then 0 else Suc (length (plain_docs_left s p)))"

definition plain_azure :: "(plain_container, document, container_pager) cosmos_sdk" where
  "plain_azure =
     \<lparr>sdk_create = (\<lambda>c pk d s. if fmlookup s (pk, doc_id d) = None then (fmupd (pk, doc_id d) d s, None) else (s, Some cosmos_409)),
      sdk_upsert = (\<lambda>c pk d s. (fmupd (pk, doc_id d) d s, None)),
      sdk_read = (\<lambda>c pk di s. case fmlookup s (pk, di) of None \<Rightarrow> Inl cosmos_404 | Some d \<Rightarrow> Inr d),
      sdk_delete = (\<lambda>c pk di s. if fmlookup s (pk, di) = None then (s, Some cosmos_404) else (fmdrop (pk, di) s, None)),
      sdk_pager = (\<lambda>q. Some (q, 0)), sdk_more = (\<lambda>p. p \<noteq> None), sdk_next = (\<lambda>c. plain_next),
      sdk_batch = (\<lambda>c pk ds s. (s, Inl cosmos_409))\<rparr>"

definition plain_json :: "('d, 'd) json_codec" where
  "plain_json = \<lparr>js_marshal = Inr, js_unmarshal = Inr\<rparr>"

text \<open>The text of a query determines its index and its condition.\<close>

lemma queried_attr_text: "i \<le> 20 \<Longrightarrow> queried_attr (container_text i cond) = fst (index_attrs i)"
proof -
  assume i: "i \<le> 20"
  have "list_all (\<lambda>i. list_all (\<lambda>c. c \<noteq> CHR '' '') (fst (index_attrs i))) [0..<21]" by code_simp
  with i have "\<forall>c \<in> set (fst (index_attrs i)). c \<noteq> CHR '' ''"
    unfolding list_all_iff by (elim ballE [where x = i]) (simp_all del: upt_Suc)
  then have "takeWhile (\<lambda>c. c \<noteq> CHR '' '') (fst (index_attrs i) @ CHR '' '' # ys) = fst (index_attrs i)" for ys
    by (simp add: takeWhile_tail)
  then show ?thesis by (simp add: queried_attr_def container_text_def)
qed

lemma index_attr_inj: "fst (index_attrs i) = fst (index_attrs j) \<longleftrightarrow> i = j"
  by (auto simp: index_attrs_def gsi_attr_inj dest: sym)

lemma cosmos_cond_cases: "cond \<in> set cosmos_conds"
proof (cases cond)
  case (CC_Cmp c)
  then show ?thesis by (cases c) (simp_all add: cosmos_conds_def)
qed (simp_all add: cosmos_conds_def)

lemma cond_text_inj: "cond_text a cond = cond_text a cond' \<longleftrightarrow> cond = cond'"
proof -
  have "comparator_text c = comparator_text c' \<longleftrightarrow> c = c'" for c c' by (cases c; cases c') simp_all
  moreover have "comparator_text c @ '' @sk'' \<noteq> ''BETWEEN @sk AND @sk2''" for c by (cases c) simp_all
  ultimately show ?thesis by (cases cond; cases cond') (auto dest: sym)
qed

lemma container_text_inj: "container_text i cond = container_text i cond' \<longleftrightarrow> cond = cond'"
  by (simp add: container_text_def cond_text_inj)

lemma ran_container:
  "d \<in> set (map (\<lambda>k. the (fmlookup s k)) (sorted_list_of_fset (fmdom s))) \<longleftrightarrow> d \<in> ran (fmlookup s)"
  by (force simp: ran_def fmlookup_dom_iff sorted_list_of_fset.rep_eq)

lemma container_query_result:
  assumes i: "i \<le> 20" and params: "map_of params ''@pk'' = Some (CV_S v)" "map_of params ''@now'' = Some (CV_I now)"
    and q: "plain_container_query (container_text i cond) params s = Inr ds"
  shows "container_result (fmlookup s) i v cond params now ds"
proof -
  have "find (\<lambda>j. fst (index_attrs j) = queried_attr (container_text i cond)) [0..<21] = Some i"
    by (rule find_unique) (use i in \<open>auto simp: queried_attr_text index_attr_inj simp del: upt_Suc\<close>)
  moreover have "find (\<lambda>cond'. container_text i cond = container_text i cond') cosmos_conds = Some cond"
    by (rule find_unique) (use container_text_inj cosmos_cond_cases in auto)
  ultimately have "ds = (if i = 0 then sort_key (\<lambda>d. snd (doc_keys i d)) else id)
      (remdups (filter (\<lambda>d. fst (doc_keys i d) = v
          \<and> (cond = CC_None \<or> snd (doc_keys i d) \<noteq> [] \<and> cond_holds params (snd (doc_keys i d)) cond)
          \<and> (doc_t d = 0 \<or> sint now < sint (doc_t d)))
        (map (\<lambda>k. the (fmlookup s k)) (sorted_list_of_fset (fmdom s)))))"
    using q params by (simp add: plain_container_query_def del: upt_Suc)
  then show ?thesis using ran_container [of _ s] by (cases "i = 0") (simp_all add: container_result_def del: set_map)
qed

interpretation pc: cosmos_sdk_container plain_azure plain_json fmlookup plain_docs_left plain_pages_left
proof unfold_locales
  fix p c s p' page
  assume "sdk_more plain_azure p" "sdk_next plain_azure c s p = (p', Inr page)"
  then obtain q k ds where p: "p = Some (q, k)" "plain_container_query (cq_text q) (cq_params q) s = Inr ds"
    "p' = (if k + 2 < length ds then Some (q, k + 2) else None)" "page = take 2 (drop k ds)"
    by (auto simp: plain_azure_def plain_next_def split: sum.splits)
  have "drop k ds = take 2 (drop k ds) @ drop (k + 2) ds" by (metis append_take_drop_id drop_drop add.commute)
  with p show "plain_docs_left s p = page @ plain_docs_left s p' \<and> plain_pages_left s p' < plain_pages_left s p"
    by (auto simp: plain_docs_left_def plain_pages_left_def)
next
  fix i v params now s cond
  let ?q = "container_query i v cond params"
  assume i: "i \<le> 20" and params: "map_of params ''@pk'' = Some (CV_S v)" "map_of params ''@now'' = Some (CV_I now)"
  show "(\<exists>ds. list_all2 (\<lambda>raw d. js_unmarshal plain_json raw = Inr d) (plain_docs_left s (sdk_pager plain_azure ?q)) ds
         \<and> container_result (fmlookup s) i v cond params now ds)
      \<or> (\<forall>c. \<exists>p' e. sdk_next plain_azure c s (sdk_pager plain_azure ?q) = (p', Inl e))
        \<and> sdk_more plain_azure (sdk_pager plain_azure ?q)"
  proof (cases "plain_container_query (container_text i cond) params s")
    case (Inl e)
    then show ?thesis by (simp add: plain_azure_def plain_next_def container_query_def)
  next
    case (Inr ds)
    with container_query_result [OF i params Inr] show ?thesis
      by (intro disjI1 exI [of _ ds])
        (simp add: plain_azure_def plain_docs_left_def container_query_def plain_json_def list.rel_refl)
  qed
qed (auto simp: plain_azure_def plain_json_def plain_docs_left_def cosmos_404_def split: option.splits if_splits)

end
