(* ===== verification/CosmosProperties.thy ===== *)
theory CosmosProperties
  imports CosmosContract OrderClientProperties Strconv
begin

text \<open>
  The properties of the opaque store on Cosmos DB: its contract, the attribute names it lets into
  the text of a query.
\<close>

section \<open>Attribute names\<close>

lemma undec_ge: "n \<le> foldl (\<lambda>n c. n * 10 + (of_char c - 48)) n ds" for n :: nat
proof (induction ds arbitrary: n)
  case (Cons c ds)
  have "n \<le> n * 10 + (of_char c - 48)" by simp
  also have "\<dots> \<le> foldl (\<lambda>n c. n * 10 + (of_char c - 48)) (n * 10 + (of_char c - 48)) ds" by (rule Cons.IH)
  finally show ?case by simp
qed simp

lemma slot_digits_eq:
  "n \<le> 20 \<Longrightarrow> slot_digits ds n =
     (if list_all (\<lambda>c. 48 \<le> (of_char c :: nat) \<and> (of_char c :: nat) \<le> 57) ds
        \<and> foldl (\<lambda>n c. n * 10 + (of_char c - 48)) n ds \<le> 20
      then Some (foldl (\<lambda>n c. n * 10 + (of_char c - 48)) n ds) else None)"
proof (induction ds n rule: slot_digits.induct)
  case (2 c cs n)
  let ?n' = "n * 10 + (of_char c - 48)"
  show ?case
  proof (cases "?n' \<le> 20")
    case False
    with undec_ge [of ?n' cs] show ?thesis by (auto simp: Let_def)
  next
    case True
    with 2 show ?thesis by (auto simp: Let_def)
  qed
qed simp

lemma slot_name_split:
  assumes "6 \<le> length name" "take 3 name = ''gsi''" "has_suffix name suf" "length suf = 2"
  shows "name = ''gsi'' @ take (length name - 2 - 3) (drop 3 name) @ suf"
proof -
  have "drop (length name - 5) (drop 3 name) = suf" using assms by (simp add: has_suffix_def)
  then show ?thesis
    using append_take_drop_id [of 3 name] append_take_drop_id [of "length name - 5" "drop 3 name"] assms(2)
    by simp
qed

section \<open>Properties\<close>

text \<open>
  C26. Cosmos DB as an opaque store. Over any Cosmos container with its documented behaviour
  (upsert, read and delete by partition key and id, 404 for what is absent, SQL queries with the
  conditions that the store writes), the store of gen/opaquedata/cosmos keeps the same contract of
  an \<open>OpaqueStore\<close> as the one on DynamoDB, the client-side sorting of cross-partition queries
  included. The client of azure/cosmosclient over an SDK whose pages end is such a container
  (\<open>wrapped_container\<close>), and the witness goes through it.
\<close>

theorem cosmos_keeps_opaque_contract:
  assumes "cosmos_service cl js tbl"
  shows "opaque_store (cosmos_opaque cl js now) now (\<lambda>s. cosmos_docs_ok (tbl s)) (\<lambda>s. cosmos_rows (tbl s))"
  by (rule cosmos_service.keeps_contract [OF assms])

theorem cosmos_keeps_opaque_contract_witness:
  "opaque_store (cosmos_opaque (cosmos_Wrap plain_azure) plain_json 5) 5
     (\<lambda>s. cosmos_docs_ok (fmlookup s)) (\<lambda>s. cosmos_rows (fmlookup s))"
  by (rule cosmos_keeps_opaque_contract [OF pc.wrapped_container])

text \<open>
  The names that \<open>isValidOpaqueAttr\<close> lets into the text of a Cosmos query are exactly \<open>pk\<close>,
  \<open>sk\<close>, and \<open>gsi\<close> followed by decimal digits of a number from 1 to 20 (leading zeros allowed) and
  \<open>pk\<close> or \<open>sk\<close>; so no other character reaches the query.
\<close>

theorem cosmos_attr_exact:
  "isValidOpaqueAttr name \<longleftrightarrow>
     name = ''pk'' \<or> name = ''sk''
     \<or> (\<exists>ds suf. name = ''gsi'' @ ds @ suf \<and> (suf = ''pk'' \<or> suf = ''sk'')
          \<and> all_digits ds \<and> 1 \<le> undec ds \<and> undec ds \<le> 20)"
proof -
  have valid: "isValidOpaqueAttr (''gsi'' @ ds @ suf)"
    if "suf = ''pk'' \<or> suf = ''sk''" "all_digits ds" "1 \<le> undec ds" "undec ds \<le> 20" for ds suf
    using that by (cases ds) (auto simp: isValidOpaqueAttr_def has_suffix_def slot_digits_eq all_digits_def undec_def)
  have "\<exists>ds suf. name = ''gsi'' @ ds @ suf \<and> (suf = ''pk'' \<or> suf = ''sk'') \<and> all_digits ds \<and> 1 \<le> undec ds \<and> undec ds \<le> 20"
    if v: "isValidOpaqueAttr name" and n: "name \<noteq> ''pk''" "name \<noteq> ''sk''"
  proof -
    let ?ds = "take (length name - 2 - 3) (drop 3 name)"
    from v n have len: "6 \<le> length name" "take 3 name = ''gsi''"
      and suf: "has_suffix name ''pk'' \<or> has_suffix name ''sk''"
      and ds: "?ds \<noteq> []" "case slot_digits ?ds 0 of None \<Rightarrow> False | Some n \<Rightarrow> 1 \<le> n \<and> n \<le> 20"
      unfolding isValidOpaqueAttr_def Let_def by (simp_all split: if_splits)
    obtain s where s: "s = ''pk'' \<or> s = ''sk''" "has_suffix name s" using suf by blast
    then have "name = ''gsi'' @ ?ds @ s" using len by (intro slot_name_split) auto
    moreover have "all_digits ?ds \<and> 1 \<le> undec ?ds \<and> undec ?ds \<le> 20"
      using ds by (auto simp: slot_digits_eq all_digits_def undec_def split: if_splits)
    ultimately show ?thesis using s(1) by blast
  qed
  moreover have "isValidOpaqueAttr ''pk''" "isValidOpaqueAttr ''sk''" by (simp_all add: isValidOpaqueAttr_def)
  ultimately show ?thesis using valid by blast
qed

end
