(* ===== verification/DynamoStore.thy ===== *)
theory DynamoStore
  imports DynamoOpaque Contracts Strconv
begin

text \<open>
  stores/dynamodbstore/dynamodbstore.go: the event store on a DynamoDB table with the aggregate
  id as partition key and the version as sort key. The two calls of the client that it makes
  are parameters over the state \<open>'s\<close> of the service; \<open>now\<close> is the clock of a call in
  nanoseconds.
\<close>

section \<open>The store\<close>

definition DefaultEventsTable :: string where "DefaultEventsTable = ''events''"
definition maxTransactItems :: nat where "maxTransactItems = 100"

record transact_put =
  tp_table :: string
  tp_item :: item
  tp_condition :: string

record events_query =
  eq_table :: string
  eq_consistent :: bool
  eq_forward :: bool
  eq_limit :: "int option"
  eq_condition :: string
  eq_values :: item
  eq_start :: "item option"

record 's events_client =
  ec_transact :: "'s \<Rightarrow> transact_put list \<Rightarrow> 's \<times> goerr option"
  ec_query :: "'s \<Rightarrow> events_query \<Rightarrow> goerr + item list \<times> item option"

text \<open>The client is \<open>None\<close> when it is nil.\<close>

record 's dynamodb_store =
  ds_client :: "'s events_client option"
  ds_eventsTable :: string
  ds_opaqueStore :: "'s opaque_ops option"
  ds_ttl :: int64

type_synonym 's dynamodb_option = "'s dynamodb_store \<Rightarrow> 's dynamodb_store"

definition WithEventsTable :: "string \<Rightarrow> 's dynamodb_option" where
  "WithEventsTable name s = s\<lparr>ds_eventsTable := name\<rparr>"

definition WithOpaqueStore :: "'s opaque_ops \<Rightarrow> 's dynamodb_option" where
  "WithOpaqueStore store s = s\<lparr>ds_opaqueStore := Some store\<rparr>"

definition dynamodb_WithTTL :: "int64 \<Rightarrow> 's dynamodb_option" where
  "dynamodb_WithTTL ttl s = s\<lparr>ds_ttl := ttl\<rparr>"

definition dynamodb_New ::
    "'s events_client option \<Rightarrow> 's dynamodb_option list \<Rightarrow> goerr + 's dynamodb_store" where
  "dynamodb_New client opts =
     (let s = fold (\<lambda>opt s. opt s) opts
        \<lparr>ds_client = client, ds_eventsTable = DefaultEventsTable, ds_opaqueStore = None, ds_ttl = 0\<rparr>
      in if ds_client s = None then Inl (Foreign ''dynamodbstore.New: client must not be nil'') else Inr s)"

section \<open>Save\<close>

definition event_item :: "'s dynamodb_store \<Rightarrow> int \<Rightarrow> string \<Rightarrow> pb_record \<Rightarrow> item" where
  "event_item st now aggregateID rec =
     (let it = [''a'' \<mapsto> AV_S aggregateID, ''v'' \<mapsto> AV_N (dec_int64 (rec_version rec)),
                ''d'' \<mapsto> AV_B (rec_data rec)]
      in if sint (rec_ttl rec) > 0 then it(''t'' \<mapsto> AV_N (dec_int64 (rec_ttl rec)))
         else if sint (ds_ttl st) > 0
         then it(''t'' \<mapsto> AV_N (dec_int64 (word_of_int ((now + sint (ds_ttl st)) div 1000000000))))
         else it)"

definition not_exists_condition :: string where
  "not_exists_condition = ''attribute_not_exists(a) AND attribute_not_exists(v)''"

definition event_put :: "'s dynamodb_store \<Rightarrow> int \<Rightarrow> string \<Rightarrow> pb_record \<Rightarrow> transact_put" where
  "event_put st now aggregateID rec =
     \<lparr>tp_table = ds_eventsTable st, tp_item = event_item st now aggregateID rec,
      tp_condition = not_exists_condition\<rparr>"

text \<open>The loop over the batches; the records not yet written are those from index \<open>i\<close> on.\<close>

function save_batches ::
    "'s events_client \<Rightarrow> 's dynamodb_store \<Rightarrow> int \<Rightarrow> 's \<Rightarrow> string \<Rightarrow> pb_record list \<Rightarrow> nat \<Rightarrow> 's \<times> goerr option" where
  "save_batches cl st now s aggregateID records i =
     (if i < length records
      then (let bound = (if i + maxTransactItems > length records then length records else i + maxTransactItems);
                batch = drop i (take bound records)
            in case ec_transact cl s (map (event_put st now aggregateID) batch) of
                 (s', Some e) \<Rightarrow> (s', Some (errorf ''dynamodbstore.Save: '' e))
               | (s', None) \<Rightarrow> save_batches cl st now s' aggregateID records (i + maxTransactItems))
      else (s, None))"
  by pat_completeness auto
termination
  by (relation "measure (\<lambda>(cl, st, now, s, aggregateID, records, i). length records - i)")
    (auto simp: maxTransactItems_def)

declare save_batches.simps [simp del]

definition dynamodb_Save ::
    "'s events_client \<Rightarrow> 's dynamodb_store \<Rightarrow> int \<Rightarrow> goerr option \<Rightarrow> 's \<Rightarrow> string \<Rightarrow> pb_record list
     \<Rightarrow> 's \<times> goerr option" where
  "dynamodb_Save cl st now ctxErr s aggregateID records =
     (case ctxErr of
        Some e \<Rightarrow> (s, Some (errorf ''dynamodbstore.Save: '' e))
      | None \<Rightarrow> if length records = 0 then (s, None)
                else save_batches cl st now s aggregateID records 0)"

section \<open>Load and LoadTail\<close>

definition itemToRecord :: "item \<Rightarrow> goerr + pb_record" where
  "itemToRecord it =
     (case it ''v'' of
        Some (AV_N v) \<Rightarrow>
          (case ParseInt64 v of
             Inl e \<Rightarrow> Inl (errorf ''failed to parse version: '' e)
           | Inr version \<Rightarrow>
               (case it ''d'' of
                  Some (AV_B d) \<Rightarrow> Inr \<lparr>rec_version = version, rec_data = d, rec_ttl = 0\<rparr>
                | _ \<Rightarrow> Inl (Foreign ''data attribute is not binary'')))
      | _ \<Rightarrow> Inl (Foreign ''version attribute is not a number''))"

fun items_to_records :: "item list \<Rightarrow> goerr + history" where
  "items_to_records [] = Inr []"
| "items_to_records (it # its) =
     (case itemToRecord it of
        Inl e \<Rightarrow> Inl (errorf ''dynamodbstore.Load: '' e)
      | Inr rec \<Rightarrow> (case items_to_records its of Inl e \<Rightarrow> Inl e | Inr recs \<Rightarrow> Inr (rec # recs)))"

definition load_query :: "'s dynamodb_store \<Rightarrow> string \<Rightarrow> item option \<Rightarrow> events_query" where
  "load_query st aggregateID start =
     \<lparr>eq_table = ds_eventsTable st, eq_consistent = True, eq_forward = True, eq_limit = None,
      eq_condition = ''a = :id'', eq_values = ['':id'' \<mapsto> AV_S aggregateID], eq_start = start\<rparr>"

text \<open>The loop over the pages, whose value is \<open>None\<close> when it does not end.\<close>

partial_function (option) dynamodb_load_loop ::
    "'s events_client \<Rightarrow> 's dynamodb_store \<Rightarrow> 's \<Rightarrow> string \<Rightarrow> item option \<Rightarrow> history \<Rightarrow> (goerr + history) option" where
  "dynamodb_load_loop cl st s aggregateID start records =
     (case ec_query cl s (load_query st aggregateID start) of
        Inl e \<Rightarrow> Some (Inl (errorf ''dynamodbstore.Load: '' e))
      | Inr (its, lastKey) \<Rightarrow>
          (case items_to_records its of
             Inl e \<Rightarrow> Some (Inl e)
           | Inr recs \<Rightarrow> (case lastKey of
               None \<Rightarrow> Some (Inr (records @ recs))
             | Some k \<Rightarrow> dynamodb_load_loop cl st s aggregateID (Some k) (records @ recs))))"

definition dynamodb_Load ::
    "'s events_client \<Rightarrow> 's dynamodb_store \<Rightarrow> goerr option \<Rightarrow> 's \<Rightarrow> string \<Rightarrow> (goerr + history) option" where
  "dynamodb_Load cl st ctxErr s aggregateID =
     (case ctxErr of
        Some e \<Rightarrow> Some (Inl (errorf ''dynamodbstore.Load: '' e))
      | None \<Rightarrow> dynamodb_load_loop cl st s aggregateID None [])"

definition maxInt32 :: int where "maxInt32 = 2147483647"

definition tail_query :: "'s dynamodb_store \<Rightarrow> string \<Rightarrow> int \<Rightarrow> item option \<Rightarrow> events_query" where
  "tail_query st aggregateID remaining start =
     \<lparr>eq_table = ds_eventsTable st, eq_consistent = True, eq_forward = False,
      eq_limit = Some (if remaining > maxInt32 then maxInt32 else remaining),
      eq_condition = ''a = :id'', eq_values = ['':id'' \<mapsto> AV_S aggregateID], eq_start = start\<rparr>"

text \<open>The loop over a page's items, with the records still wanted.\<close>

fun tail_items :: "item list \<Rightarrow> int \<Rightarrow> goerr + history \<times> int" where
  "tail_items [] remaining = Inr ([], remaining)"
| "tail_items (it # its) remaining =
     (if remaining \<le> 0 then Inr ([], remaining)
      else (case itemToRecord it of
          Inl e \<Rightarrow> Inl (errorf ''dynamodbstore.LoadTail: '' e)
        | Inr rec \<Rightarrow> (case tail_items its (remaining - 1) of
            Inl e \<Rightarrow> Inl e
          | Inr (recs, left) \<Rightarrow> Inr (rec # recs, left))))"

partial_function (option) dynamodb_tail_loop ::
    "'s events_client \<Rightarrow> 's dynamodb_store \<Rightarrow> 's \<Rightarrow> string \<Rightarrow> int \<Rightarrow> item option \<Rightarrow> history
     \<Rightarrow> (goerr + history) option" where
  "dynamodb_tail_loop cl st s aggregateID remaining start records =
     (if remaining > 0
      then (case ec_query cl s (tail_query st aggregateID remaining start) of
          Inl e \<Rightarrow> Some (Inl (errorf ''dynamodbstore.LoadTail: '' e))
        | Inr (its, lastKey) \<Rightarrow>
            (case tail_items its remaining of
               Inl e \<Rightarrow> Some (Inl e)
             | Inr (recs, left) \<Rightarrow>
                 (if lastKey = None \<or> left \<le> 0 then Some (Inr (records @ recs))
                  else dynamodb_tail_loop cl st s aggregateID left lastKey (records @ recs))))
      else Some (Inr records))"

definition dynamodb_LoadTail ::
    "'s events_client \<Rightarrow> 's dynamodb_store \<Rightarrow> goerr option \<Rightarrow> 's \<Rightarrow> string \<Rightarrow> int \<Rightarrow> (goerr + history) option" where
  "dynamodb_LoadTail cl st ctxErr s aggregateID n =
     (case ctxErr of
        Some e \<Rightarrow> Some (Inl (errorf ''dynamodbstore.LoadTail: '' e))
      | None \<Rightarrow>
          if n \<le> 0 then Some (Inr [])
          else map_option (map_sum id rev) (dynamodb_tail_loop cl st s aggregateID n None []))"

section \<open>SaveAggregate\<close>

text \<open>The dynamic type of a message: its name, its \<open>AutoPKSK\<close> and \<open>EventTTLer\<close> methods if any.\<close>

record 'm message_ops =
  mo_type_name :: "'m \<Rightarrow> string"
  mo_auto :: "'m \<Rightarrow> 'm auto_pksk option"
  mo_ttl_seconds :: "'m \<Rightarrow> int64 option"

definition aggregate_ttl_opts :: "string \<Rightarrow> 'm message_ops \<Rightarrow> 'm \<Rightarrow> goerr + opaque_option list" where
  "aggregate_ttl_opts pre mo aggregate =
     (case mo_ttl_seconds mo aggregate of
        None \<Rightarrow> Inr []
      | Some ttlSec \<Rightarrow>
          if sint ttlSec > 0
          then (if sint ttlSec > (2 ^ 63 - 1) div 1000000000
                then Inl (Foreign (pre @ '': event_ttl_seconds '' @ dec_int64 ttlSec
                                   @ '' overflows time.Duration''))
                else Inr [WithTTL (ttlSec * 1000000000)])
          else Inr [])"

text \<open>The body that the two stores' \<open>SaveAggregate\<close> share but for the name in the error texts.\<close>

definition save_aggregate ::
    "string \<Rightarrow> 's opaque_ops option \<Rightarrow> gzip \<Rightarrow> 'm message_ops \<Rightarrow> int \<Rightarrow> ctx \<Rightarrow> goerr option \<Rightarrow> 's \<Rightarrow> 'm \<Rightarrow> 's \<times> goerr option" where
  "save_aggregate pre opaqueStore gz mo now c ctxErr s aggregate =
     (case ctxErr of
        Some e \<Rightarrow> (s, Some (errorf (pre @ '': '') e))
      | None \<Rightarrow> (case opaqueStore of
          None \<Rightarrow> (s, Some (Foreign (pre @ '': no OpaqueStore configured (use WithOpaqueStore)'')))
        | Some store \<Rightarrow> (case mo_auto mo aggregate of
            None \<Rightarrow> (s, Some (Foreign (pre @ '': aggregate '' @ mo_type_name mo aggregate
                                       @ '' does not implement opaquedata.AutoPKSK'')))
          | Some ap \<Rightarrow> (case aggregate_ttl_opts pre mo aggregate of
              Inl e \<Rightarrow> (s, Some e)
            | Inr opts \<Rightarrow> (case NewOpaqueDataFromProto gz ap now opts aggregate of
                Inl e \<Rightarrow> (s, Some (errorf (pre @ '': opaquedata: '') e))
              | Inr od \<Rightarrow> (case op_put store c s od of
                  (s', Some e) \<Rightarrow> (s', Some (errorf (pre @ '': '') e))
                | (s', None) \<Rightarrow> (s', None)))))))"

definition dynamodb_SaveAggregate ::
    "'s dynamodb_store \<Rightarrow> gzip \<Rightarrow> 'm message_ops \<Rightarrow> int \<Rightarrow> ctx \<Rightarrow> goerr option \<Rightarrow> 's \<Rightarrow> 'm \<Rightarrow> 's \<times> goerr option" where
  "dynamodb_SaveAggregate st = save_aggregate ''dynamodbstore.SaveAggregate'' (ds_opaqueStore st)"

text \<open>
  The store as the repository sees it; a load that never ends has no result, for which the
  record's total operations give an error.
\<close>

definition load_result :: "(goerr + history) option \<Rightarrow> goerr + history" where
  "load_result r = (case r of Some x \<Rightarrow> x | None \<Rightarrow> Inl (Foreign ''load does not return''))"

definition dynamodb_ops ::
    "'s events_client \<Rightarrow> 's dynamodb_store \<Rightarrow> gzip \<Rightarrow> 'm message_ops \<Rightarrow> int \<Rightarrow> ctx \<Rightarrow> ('s, 'm) store_ops" where
  "dynamodb_ops cl st gz mo now c =
     \<lparr>st_save = dynamodb_Save cl st now,
      st_load = (\<lambda>ce s k. (s, load_result (dynamodb_Load cl st ce s k))),
      st_writeback = (\<lambda>s k h. s),
      st_load_tail = Some (\<lambda>ce s k n. (s, load_result (dynamodb_LoadTail cl st ce s k n))),
      st_save_aggregate = Some (dynamodb_SaveAggregate st gz mo now c)\<rparr>"

end
