(* ===== verification/Batches.thy ===== *)
theory Batches
  imports Contracts
begin

text \<open>
  Loops that write a list of records in batches of a hundred, as the DynamoDB and the Cosmos store
  do, and materializing into an opaque store beside the log: what they do to an abstract log.
\<close>

text \<open>The records that are still to be written extend the log.\<close>

definition pending_ok ::
    "('s \<Rightarrow> bool) \<Rightarrow> ('s \<Rightarrow> string \<Rightarrow> (int64 \<times> bytes) list) \<Rightarrow> 's \<Rightarrow> string \<Rightarrow> pb_record list \<Rightarrow> bool" where
  "pending_ok sinv log s k recs \<longleftrightarrow> sinv s \<and> extends_log (log s k) recs"

lemma pending_ok_drop:
  assumes "pending_ok sinv log s k recs" "sinv s'" "log s' = (log s)(k := log s k @ map rec_vd (take n recs))"
  shows "pending_ok sinv log s' k (drop n recs)"
proof -
  have "map rec_version recs = map rec_version (take n recs) @ map rec_version (drop n recs)"
    by (simp flip: map_append)
  with assms show ?thesis by (simp add: pending_ok_def extends_log_def comp_def)
qed

locale batch_writer =
  fixes sinv :: "'s \<Rightarrow> bool" and log :: "'s \<Rightarrow> string \<Rightarrow> (int64 \<times> bytes) list"
    and ex :: "string \<Rightarrow> nat \<Rightarrow> 's \<Rightarrow> pb_record list \<Rightarrow> 's \<times> goerr option"
  assumes batch_done: "pending_ok sinv log s k (batch @ pend) \<Longrightarrow> batch \<noteq> [] \<Longrightarrow> length batch \<le> 100 \<Longrightarrow>
      ex k i s batch = (s', None) \<Longrightarrow> sinv s' \<and> log s' = (log s)(k := log s k @ map rec_vd batch)"
    and batch_failed: "pending_ok sinv log s k (batch @ pend) \<Longrightarrow> batch \<noteq> [] \<Longrightarrow> length batch \<le> 100 \<Longrightarrow>
      ex k i s batch = (s', Some e) \<Longrightarrow> sinv s' \<and> log s' = log s"
begin

definition batch_loop :: "('s \<Rightarrow> nat \<Rightarrow> 's \<times> goerr option) \<Rightarrow> string \<Rightarrow> pb_record list \<Rightarrow> bool" where
  "batch_loop f k recs \<longleftrightarrow>
     (\<forall>s i. f s i =
        (if drop i recs = [] then (s, None)
         else (case ex k i s (take 100 (drop i recs)) of
                 (s', Some e) \<Rightarrow> (s', Some e)
               | (s', None) \<Rightarrow> f s' (i + 100))))"

lemma batch_loop_log:
  assumes loop: "batch_loop f k recs" and "pending_ok sinv log s k (drop i recs)" "f s i = (s', r)"
  shows "sinv s' \<and> (if r = None then log s' = (log s)(k := log s k @ map rec_vd (drop i recs))
    else \<exists>n. log s' = (log s)(k := log s k @ take n (map rec_vd (drop i recs)))
      \<and> (length (drop i recs) \<le> 100 \<longrightarrow> n = 0))"
  using assms(2-)
proof (induction "length recs - i" arbitrary: s i rule: less_induct)
  case less
  note step = loop [unfolded batch_loop_def, rule_format, of s i]
  let ?pend = "drop i recs" and ?batch = "take 100 (drop i recs)"
  show ?case
  proof (cases "?pend = []")
    case True
    with less.prems step show ?thesis by (simp add: pending_ok_def)
  next
    case False
    have pend: "pending_ok sinv log s k (?batch @ drop 100 ?pend)"
      unfolding append_take_drop_id by (rule less.prems(1))
    have b: "?batch \<noteq> []" "length ?batch \<le> 100" using False by simp_all
    obtain s1 r1 where ex: "ex k i s ?batch = (s1, r1)" by fastforce
    show ?thesis
    proof (cases r1)
      case (Some e)
      with ex have "ex k i s ?batch = (s1, Some e)" by simp
      from batch_failed [OF pend b this] have "sinv s1" "log s1 = log s" by simp_all
      moreover have "s' = s1" "r = Some e" using less.prems(2) step False ex Some by simp_all
      ultimately show ?thesis by (auto intro: exI [of _ 0])
    next
      case None
      with ex have "ex k i s ?batch = (s1, None)" by simp
      from batch_done [OF pend b this]
      have s1: "sinv s1" "log s1 = (log s)(k := log s k @ map rec_vd ?batch)" by simp_all
      have "pending_ok sinv log s1 k (drop (i + 100) recs)"
        using pending_ok_drop [OF less.prems(1) s1] by (simp add: add.commute)
      moreover have run: "f s1 (i + 100) = (s', r)" using less.prems(2) step False ex None by simp
      moreover have "length recs - (i + 100) < length recs - i" using False by simp
      ultimately have rest: "sinv s' \<and> (if r = None then log s' = (log s1)(k := log s1 k @ map rec_vd (drop (i + 100) recs))
          else \<exists>n. log s' = (log s1)(k := log s1 k @ take n (map rec_vd (drop (i + 100) recs)))
            \<and> (length (drop (i + 100) recs) \<le> 100 \<longrightarrow> n = 0))"
        using less.hyps by blast
      have split: "map rec_vd ?pend = map rec_vd ?batch @ map rec_vd (drop (i + 100) recs)"
        using append_take_drop_id [of 100 ?pend] by (simp add: add.commute flip: map_append)
      show ?thesis
      proof (cases "r = None")
        case True
        with rest s1(2) split show ?thesis by simp
      next
        case r: False
        then obtain n where n: "log s' = (log s1)(k := log s1 k @ take n (map rec_vd (drop (i + 100) recs)))"
          using rest unfolding if_not_P [OF r] by blast
        have long: "100 < length ?pend"
        proof (rule ccontr)
          assume "\<not> 100 < length ?pend"
          then have "drop (i + 100) recs = []" by simp
          with run r show False using loop [unfolded batch_loop_def, rule_format, of s1 "i + 100"] by simp
        qed
        then have "take (100 + n) (map rec_vd ?pend) = map rec_vd ?batch @ take n (map rec_vd (drop (i + 100) recs))"
          by (simp add: split)
        with n s1(2) have "log s' = (log s)(k := log s k @ take (100 + n) (map rec_vd ?pend))" by simp
        with rest r long show ?thesis by (intro conjI) auto
      qed
    qed
  qed
qed

lemma batch_save_log:
  assumes "batch_loop f k recs" "sinv s" "extends_log (log s k) recs" "f s 0 = (s', r)"
  shows "sinv s' \<and> (if r = None then log s' = (log s)(k := log s k @ map rec_vd recs)
    else \<exists>n. log s' = (log s)(k := log s k @ take n (map rec_vd recs)) \<and> (length recs \<le> 100 \<longrightarrow> n = 0))"
  using batch_loop_log [OF assms(1) _ assms(4)] assms(2,3) unfolding pending_ok_def drop_0 by blast

end

end
