(* ===== verification/DynamoStoreContract.thy ===== *)
theory DynamoStoreContract
  imports DynamoStore Batches
begin

text \<open>
  The documented behaviour of DynamoDB that the event store relies on, over the items \<open>evs\<close> of
  each aggregate in version order, and the proof that the store keeps the event-log contract,
  and refuses versions that are taken.

  A transaction is all or nothing, and one that reports an error has changed nothing. A query
  answers a non-empty page of what is left after its start key, or the last page, and never more
  than its limit.
\<close>

definition item_version :: "item \<Rightarrow> int" where
  "item_version it = (case it ''v'' of Some (AV_N v) \<Rightarrow> parse_int v | _ \<Rightarrow> 0)"

text \<open>Writes of items of the aggregate \<open>k\<close>, on the condition that they do not exist.\<close>

definition event_puts :: "string \<Rightarrow> string \<Rightarrow> transact_put list \<Rightarrow> bool" where
  "event_puts table k puts \<longleftrightarrow>
     (\<forall>p \<in> set puts. tp_table p = table \<and> tp_condition p = ''attribute_not_exists(a) AND attribute_not_exists(v)'' \<and> tp_item p ''a'' = Some (AV_S k))"

locale dynamo_events =
  fixes cl :: "'s events_client" and table :: string
    and evs :: "'s \<Rightarrow> string \<Rightarrow> item list"
    and rest :: "'s \<Rightarrow> string \<Rightarrow> bool \<Rightarrow> item option \<Rightarrow> item list"
  assumes transact_done: "event_puts table k puts \<Longrightarrow> length puts \<le> 100 \<Longrightarrow> ec_transact cl s puts = (s', None) \<Longrightarrow>
      distinct (map item_version (evs s k @ map tp_item puts))
      \<and> evs s' = (evs s)(k := sort_key item_version (evs s k @ map tp_item puts))"
    and transact_failed: "event_puts table k puts \<Longrightarrow> ec_transact cl s puts = (s', Some e) \<Longrightarrow> evs s' = evs s"
    and rest_start: "rest s k fwd None = (if fwd then evs s k else rev (evs s k))"
    and query_page: "eq_table q = table \<Longrightarrow> eq_consistent q \<Longrightarrow> eq_condition q = ''a = :id'' \<Longrightarrow>
      eq_values q = ['':id'' \<mapsto> AV_S k] \<Longrightarrow> eq_limit q = None \<or> (\<exists>l > 0. eq_limit q = Some l) \<Longrightarrow>
      ec_query cl s q = Inr (its, lastKey) \<Longrightarrow>
      \<exists>left. rest s k (eq_forward q) (eq_start q) = its @ left
        \<and> (\<forall>l. eq_limit q = Some l \<longrightarrow> int (length its) \<le> l)
        \<and> (lastKey = None \<longrightarrow> left = []) \<and> (\<forall>j. lastKey = Some j \<longrightarrow> its \<noteq> [] \<and> rest s k (eq_forward q) (Some j) = left)"

section \<open>Items and records\<close>

definition event_item_ok :: "string \<Rightarrow> item \<Rightarrow> bool" where
  "event_item_ok k it \<longleftrightarrow> it ''a'' = Some (AV_S k)
     \<and> (\<exists>v d. it ''v'' = Some (AV_N (dec_int64 v)) \<and> it ''d'' = Some (AV_B d))"

definition item_record :: "item \<Rightarrow> pb_record" where
  "item_record it =
     (case itemToRecord it of Inr r \<Rightarrow> r | Inl e \<Rightarrow> \<lparr>rec_version = 0, rec_data = [], rec_ttl = 0\<rparr>)"

lemma event_item_record:
  assumes "event_item_ok k it"
  shows "itemToRecord it = Inr (item_record it)" "item_version it = sint (rec_version (item_record it))"
  using assms by (auto simp: event_item_ok_def itemToRecord_def item_record_def item_version_def)

lemma event_item_new:
  "event_item_ok k (event_item st now k r)" "rec_vd (item_record (event_item st now k r)) = rec_vd r"
  by (auto simp: event_item_ok_def event_item_def itemToRecord_def item_record_def rec_vd_def Let_def)

lemma items_to_records_ok:
  "\<forall>it \<in> set its. event_item_ok k it \<Longrightarrow> items_to_records its = Inr (map item_record its)"
  by (induction its) (auto simp: event_item_record)

lemma tail_items_ok:
  "\<forall>it \<in> set its. event_item_ok k it \<Longrightarrow> int (length its) \<le> n \<Longrightarrow>
     tail_items its n = Inr (map item_record its, n - int (length its))"
  by (induction its arbitrary: n) (auto simp: event_item_record)

section \<open>The loops over the pages\<close>

definition dynamodb_log :: "('s \<Rightarrow> string \<Rightarrow> item list) \<Rightarrow> 's \<Rightarrow> string \<Rightarrow> (int64 \<times> bytes) list" where
  "dynamodb_log evs s k = map (\<lambda>it. rec_vd (item_record it)) (evs s k)"

definition dynamodb_inv :: "('s \<Rightarrow> string \<Rightarrow> item list) \<Rightarrow> 's \<Rightarrow> bool" where
  "dynamodb_inv evs s \<longleftrightarrow> (\<forall>k. \<forall>it \<in> set (evs s k). event_item_ok k it)"

context dynamo_events
begin

lemma load_page:
  assumes "ds_eventsTable st = table" "ec_query cl s (load_query st k start) = Inr (its, lastKey)"
  shows "\<exists>left. rest s k True start = its @ left
    \<and> (lastKey = None \<longrightarrow> left = []) \<and> (\<forall>j. lastKey = Some j \<longrightarrow> its \<noteq> [] \<and> rest s k True (Some j) = left)"
  using query_page [OF _ _ _ _ _ assms(2), of k] assms(1) by (simp add: load_query_def)

lemma tail_page:
  assumes "ds_eventsTable st = table" "ec_query cl s (tail_query st k n start) = Inr (its, lastKey)" "0 < n"
  shows "\<exists>left. rest s k False start = its @ left \<and> int (length its) \<le> n
    \<and> (lastKey = None \<longrightarrow> left = []) \<and> (\<forall>j. lastKey = Some j \<longrightarrow> its \<noteq> [] \<and> rest s k False (Some j) = left)"
proof -
  let ?l = "if n > maxInt32 then maxInt32 else n"
  have "0 < ?l" "?l \<le> n" using assms(3) by (simp_all add: maxInt32_def)
  with query_page [OF _ _ _ _ _ assms(2), of k] assms(1) obtain left where
    "rest s k False start = its @ left" "int (length its) \<le> ?l"
    "lastKey = None \<longrightarrow> left = []" "\<forall>j. lastKey = Some j \<longrightarrow> its \<noteq> [] \<and> rest s k False (Some j) = left"
    unfolding tail_query_def by auto
  with \<open>?l \<le> n\<close> show ?thesis by (intro exI [of _ left]) auto
qed

lemma load_loop:
  assumes "ds_eventsTable st = table" "\<forall>it \<in> set (rest s k True start). event_item_ok k it"
  shows "dynamodb_load_loop cl st s k start acc = Some (Inr (acc @ map item_record (rest s k True start)))
    \<or> (\<exists>e. dynamodb_load_loop cl st s k start acc = Some (Inl e))"
  using assms
proof (induction "length (rest s k True start)" arbitrary: start acc rule: less_induct)
  case less
  let ?q = "load_query st k start"
  show ?case
  proof (cases "ec_query cl s ?q")
    case (Inl e)
    then show ?thesis by (subst (1 2) dynamodb_load_loop.simps) simp
  next
    case (Inr x)
    obtain its lastKey where x: "x = (its, lastKey)" by (cases x)
    from load_page [OF less.prems(1) Inr [unfolded x]] obtain left where
      left: "rest s k True start = its @ left"
        "lastKey = None \<longrightarrow> left = []" "\<forall>j. lastKey = Some j \<longrightarrow> its \<noteq> [] \<and> rest s k True (Some j) = left"
      by blast
    have recs: "items_to_records its = Inr (map item_record its)"
      using less.prems(2) left(1) by (intro items_to_records_ok) auto
    show ?thesis
    proof (cases lastKey)
      case None
      with left Inr x recs show ?thesis by (subst (1 2) dynamodb_load_loop.simps) simp
    next
      case (Some j)
      with left have "length (rest s k True (Some j)) < length (rest s k True start)"
        and "\<forall>it \<in> set (rest s k True (Some j)). event_item_ok k it"
        using less.prems(2) by auto
      from less.hyps [OF this(1) less.prems(1) this(2), of "acc @ map item_record its"] show ?thesis
        using left Inr x recs Some by (subst (1 2) dynamodb_load_loop.simps) simp
    qed
  qed
qed

lemma tail_loop:
  assumes "ds_eventsTable st = table" "\<forall>it \<in> set (rest s k False start). event_item_ok k it"
  shows "dynamodb_tail_loop cl st s k n start acc
      = Some (Inr (acc @ map item_record (take (nat n) (rest s k False start))))
    \<or> (\<exists>e. dynamodb_tail_loop cl st s k n start acc = Some (Inl e))"
  using assms
proof (induction "length (rest s k False start)" arbitrary: start acc n rule: less_induct)
  case less
  let ?q = "tail_query st k n start"
  show ?case
  proof (cases "0 < n")
    case False
    then show ?thesis by (subst (1 2) dynamodb_tail_loop.simps) simp
  next
    case n: True
    show ?thesis
    proof (cases "ec_query cl s ?q")
      case (Inl e)
      with n show ?thesis by (subst (1 2) dynamodb_tail_loop.simps) simp
    next
      case (Inr x)
      obtain its lastKey where x: "x = (its, lastKey)" by (cases x)
      from tail_page [OF less.prems(1) Inr [unfolded x] n] obtain left where
        left: "rest s k False start = its @ left" "int (length its) \<le> n"
          "lastKey = None \<longrightarrow> left = []" "\<forall>j. lastKey = Some j \<longrightarrow> its \<noteq> [] \<and> rest s k False (Some j) = left"
        by blast
      have recs: "tail_items its n = Inr (map item_record its, n - int (length its))"
        using less.prems(2) left by (intro tail_items_ok) auto
      show ?thesis
      proof (cases "lastKey = None \<or> n - int (length its) \<le> 0")
        case True
        then have "take (nat n) (rest s k False start) = its"
          using left by (auto simp: nat_le_iff)
        with True left Inr x recs n show ?thesis by (subst (1 2) dynamodb_tail_loop.simps) simp
      next
        case False
        then obtain j where j: "lastKey = Some j" by auto
        with left have shorter: "length (rest s k False (Some j)) < length (rest s k False start)"
          and ok: "\<forall>it \<in> set (rest s k False (Some j)). event_item_ok k it"
          using less.prems(2) by auto
        have "take (nat n) (rest s k False start)
            = its @ take (nat (n - int (length its))) (rest s k False (Some j))"
          using left j False by (simp add: nat_diff_distrib)
        with less.hyps [OF shorter less.prems(1) ok, of "n - int (length its)" "acc @ map item_record its"]
        show ?thesis using left Inr x recs n j False by (subst (1 2) dynamodb_tail_loop.simps) simp
      qed
    qed
  qed
qed

end

section \<open>Save\<close>

text \<open>One step of the loop, on the records that are left.\<close>

lemma save_batches_step:
  "save_batches cl st now s k recs i =
     (if drop i recs = [] then (s, None)
      else (case ec_transact cl s (map (event_put st now k) (take 100 (drop i recs))) of
              (s', Some e) \<Rightarrow> (s', Some (errorf ''dynamodbstore.Save: '' e))
            | (s', None) \<Rightarrow> save_batches cl st now s' k recs (i + 100)))"
proof -
  have "drop i (take (if i + 100 > length recs then length recs else i + 100) recs) = take 100 (drop i recs)"
    by (simp add: drop_take)
  note batch = this
  show ?thesis
    by (subst save_batches.simps, unfold maxTransactItems_def Let_def batch) (simp add: not_less)
qed

lemma log_versions:
  "dynamodb_inv evs s \<Longrightarrow> map item_version (evs s k) = map sint (map fst (dynamodb_log evs s k))"
proof -
  assume inv: "dynamodb_inv evs s"
  have "item_version it = sint (fst (rec_vd (item_record it)))" if "it \<in> set (evs s k)" for it
  proof -
    have "event_item_ok k it" using inv that by (simp add: dynamodb_inv_def)
    from event_item_record(2) [OF this] show ?thesis by simp
  qed
  then show ?thesis by (simp add: dynamodb_log_def)
qed

lemma new_versions: "map item_version (map (event_item st now k) recs) = map sint (map rec_version recs)"
proof -
  have "item_version (event_item st now k r) = sint (rec_version r)" for r
    using event_item_record(2) [OF event_item_new(1)] event_item_new(2) [of st now k r]
    by (metis rec_vd_simps(1))
  then show ?thesis by simp
qed

lemma dynamodb_append:
  assumes "dynamodb_inv evs s" "evs s' = (evs s)(k := evs s k @ map (event_item st now k) recs)"
  shows "dynamodb_inv evs s'"
    and "dynamodb_log evs s' = (dynamodb_log evs s)(k := dynamodb_log evs s k @ map rec_vd recs)"
  using assms by (auto simp: dynamodb_inv_def dynamodb_log_def event_item_new fun_eq_iff)

text \<open>One batch.\<close>

definition dynamodb_batch ::
    "'s events_client \<Rightarrow> 's dynamodb_store \<Rightarrow> int \<Rightarrow> string \<Rightarrow> nat \<Rightarrow> 's \<Rightarrow> pb_record list \<Rightarrow> 's \<times> goerr option" where
  "dynamodb_batch cl st now k i s batch =
     (case ec_transact cl s (map (event_put st now k) batch) of
        (s', Some e) \<Rightarrow> (s', Some (errorf ''dynamodbstore.Save: '' e))
      | (s', None) \<Rightarrow> (s', None))"

context dynamo_events
begin

lemma batch_puts:
  "ds_eventsTable st = table \<Longrightarrow> event_puts table k (map (event_put st now k) recs)"
  by (auto simp: event_puts_def event_put_def event_item_def not_exists_condition_def Let_def)

lemma dynamodb_batch_done:
  assumes st: "ds_eventsTable st = table" and ok: "pending_ok (dynamodb_inv evs) (dynamodb_log evs) s k (batch @ pend)"
    and len: "length batch \<le> 100" and run: "ec_transact cl s (map (event_put st now k) batch) = (s', None)"
  shows "dynamodb_inv evs s' \<and> dynamodb_log evs s' = (dynamodb_log evs s)(k := dynamodb_log evs s k @ map rec_vd batch)"
proof -
  have items: "map tp_item (map (event_put st now k) batch) = map (event_item st now k) batch"
    by (simp add: event_put_def)
  have inv: "dynamodb_inv evs s" using ok by (simp add: pending_ok_def)
  have "ascending ((map fst (dynamodb_log evs s k) @ map rec_version batch) @ map rec_version pend)"
    using ok by (simp add: pending_ok_def extends_log_def)
  from ascending_append_drop [OF this]
  have "sorted (map item_version (evs s k @ map (event_item st now k) batch))"
    unfolding map_append log_versions [OF inv] new_versions ascending_def strict_sorted_iff map_append by blast
  with transact_done [OF batch_puts [OF st] _ run] len
  have "evs s' = (evs s)(k := evs s k @ map (event_item st now k) batch)"
    unfolding items by (simp add: sort_key_id_if_sorted)
  from dynamodb_append [OF inv this] show ?thesis by simp
qed

lemma dynamodb_batches:
  assumes st: "ds_eventsTable st = table"
  shows "batch_writer (dynamodb_inv evs) (dynamodb_log evs) (dynamodb_batch cl st now)"
proof unfold_locales
  fix s s' k i and batch pend :: "pb_record list"
  assume "pending_ok (dynamodb_inv evs) (dynamodb_log evs) s k (batch @ pend)" "length batch \<le> 100"
    and "dynamodb_batch cl st now k i s batch = (s', None)"
  then show "dynamodb_inv evs s' \<and> dynamodb_log evs s' = (dynamodb_log evs s)(k := dynamodb_log evs s k @ map rec_vd batch)"
    by (intro dynamodb_batch_done [OF st]) (auto simp: dynamodb_batch_def split: prod.splits option.splits)
next
  fix s s' k i e and batch pend :: "pb_record list"
  assume ok: "pending_ok (dynamodb_inv evs) (dynamodb_log evs) s k (batch @ pend)"
    and "dynamodb_batch cl st now k i s batch = (s', Some e)"
  then obtain e' where "ec_transact cl s (map (event_put st now k) batch) = (s', Some e')"
    by (auto simp: dynamodb_batch_def split: prod.splits option.splits)
  from transact_failed [OF batch_puts [OF st] this] ok
  show "dynamodb_inv evs s' \<and> dynamodb_log evs s' = dynamodb_log evs s"
    by (simp add: pending_ok_def dynamodb_inv_def dynamodb_log_def fun_eq_iff)
qed

end

section \<open>The store keeps its contract\<close>

text \<open>Materializing aggregates goes to another table.\<close>

definition opaque_apart :: "('s \<Rightarrow> string \<Rightarrow> 'i list) \<Rightarrow> 's opaque_ops option \<Rightarrow> bool" where
  "opaque_apart evs store \<longleftrightarrow>
     (\<forall>ops c s od s' r. store = Some ops \<longrightarrow> op_put ops c s od = (s', r) \<longrightarrow> evs s' = evs s)"

lemma SaveAggregate_apart:
  assumes "opaque_apart evs store" "save_aggregate pre store gz mo now c ce s m = (s', r)"
  shows "evs s' = evs s"
proof -
  have put: "evs s1 = evs s" if "store = Some ops" "op_put ops c s od = (s1, r1)" for ops od s1 r1
    using assms(1) that unfolding opaque_apart_def by blast
  from assms(2) show ?thesis
    unfolding save_aggregate_def by (auto split: option.splits sum.splits prod.splits dest: put)
qed

context dynamo_events
begin

lemma dynamodb_load_returns:
  assumes "ds_eventsTable st = table" "dynamodb_inv evs s"
  shows "\<exists>r. dynamodb_Load cl st ce s k = Some r \<and> (\<forall>h. r = Inr h \<longrightarrow> map rec_vd h = dynamodb_log evs s k)"
    and "\<exists>r. dynamodb_LoadTail cl st ce s k n = Some r
      \<and> (\<forall>h. r = Inr h \<longrightarrow> map rec_vd h = last_n (nat n) (dynamodb_log evs s k))"
proof -
  have ok: "\<forall>it \<in> set (rest s k fwd None). event_item_ok k it" for fwd
    using assms(2) by (simp add: rest_start dynamodb_inv_def)
  from load_loop [OF assms(1) ok, of "[]"]
  show "\<exists>r. dynamodb_Load cl st ce s k = Some r \<and> (\<forall>h. r = Inr h \<longrightarrow> map rec_vd h = dynamodb_log evs s k)"
    by (auto simp: dynamodb_Load_def dynamodb_log_def rest_start comp_def split: option.splits)
  have "map rec_vd (rev (map item_record (take (nat n) (rev (evs s k))))) = last_n (nat n) (dynamodb_log evs s k)"
    by (simp add: dynamodb_log_def rev_map rev_take_rev map_last_n comp_def)
  with tail_loop [OF assms(1) ok, of n "[]"]
  show "\<exists>r. dynamodb_LoadTail cl st ce s k n = Some r
      \<and> (\<forall>h. r = Inr h \<longrightarrow> map rec_vd h = last_n (nat n) (dynamodb_log evs s k))"
    by (auto simp: dynamodb_LoadTail_def rest_start last_n_def split: option.splits)
qed

lemma dynamodb_Save_log:
  assumes st: "ds_eventsTable st = table" and inv: "dynamodb_inv evs s"
    and ext: "extends_log (dynamodb_log evs s k) rs" and run: "dynamodb_Save cl st now ce s k rs = (s', r)"
  shows "dynamodb_inv evs s' \<and>
    (if r = None then dynamodb_log evs s' = (dynamodb_log evs s)(k := dynamodb_log evs s k @ map rec_vd rs)
     else \<exists>n. dynamodb_log evs s' = (dynamodb_log evs s)(k := dynamodb_log evs s k @ take n (map rec_vd rs))
       \<and> (length rs \<le> 100 \<longrightarrow> n = 0))"
proof (cases "ce = None \<and> rs \<noteq> []")
  case False
  with run have "s' = s" "r = None \<Longrightarrow> rs = []" by (auto simp: dynamodb_Save_def split: option.splits)
  with inv show ?thesis by (auto intro: exI [of _ 0])
next
  case True
  with run have b: "save_batches cl st now s k rs 0 = (s', r)" by (simp add: dynamodb_Save_def)
  have "batch_writer.batch_loop (dynamodb_batch cl st now) (\<lambda>s i. save_batches cl st now s k rs i) k rs"
    unfolding batch_writer.batch_loop_def [OF dynamodb_batches [OF st]]
    by (subst save_batches_step) (auto simp: dynamodb_batch_def split: prod.splits option.splits)
  from batch_writer.batch_save_log [OF dynamodb_batches [OF st] this inv ext] b show ?thesis by blast
qed

lemma dynamodb_version_taken:
  assumes st: "ds_eventsTable st = table" and inv: "dynamodb_inv evs s"
    and few: "rs \<noteq> []" "length rs \<le> 100"
    and taken: "\<not> distinct (map fst (dynamodb_log evs s k) @ map rec_version rs)"
    and run: "dynamodb_Save cl st now ce s k rs = (s', r)"
  shows "r \<noteq> None \<and> evs s' = evs s"
proof (cases ce)
  case (Some e)
  with run show ?thesis by (auto simp: dynamodb_Save_def)
next
  case None
  obtain s1 r1 where tr: "ec_transact cl s (map (event_put st now k) rs) = (s1, r1)" by fastforce
  have "r1 \<noteq> None"
  proof
    assume "r1 = None"
    with tr have ok1: "ec_transact cl s (map (event_put st now k) rs) = (s1, None)" by simp
    have "distinct (map item_version (evs s k @ map tp_item (map (event_put st now k) rs)))"
      using transact_done [OF batch_puts [OF st] _ ok1] few(2) by simp
    moreover have "map tp_item (map (event_put st now k) rs) = map (event_item st now k) rs"
      by (simp add: event_put_def)
    ultimately have "distinct (map sint (map fst (dynamodb_log evs s k) @ map rec_version rs))"
      unfolding map_append by (simp only: log_versions [OF inv] new_versions)
    with taken show False unfolding distinct_map by blast
  qed
  then obtain e where e: "r1 = Some e" by auto
  have "evs s1 = evs s" using transact_failed [OF batch_puts [OF st]] tr e by blast
  moreover have "s' = s1 \<and> r \<noteq> None"
    using run None few tr e by (auto simp: dynamodb_Save_def save_batches_step [of _ _ _ _ _ _ 0])
  ultimately show ?thesis by simp
qed

lemma keeps_log_contract:
  assumes st: "ds_eventsTable st = table" and apart: "opaque_apart evs (ds_opaqueStore st)"
  shows "event_log_store (dynamodb_ops cl st gz mo now c) (dynamodb_inv evs) (dynamodb_log evs)"
proof unfold_locales
  fix s s' ce k r assume inv: "dynamodb_inv evs s" and "st_load (dynamodb_ops cl st gz mo now c) ce s k = (s', r)"
  with dynamodb_load_returns(1) [OF st inv, of ce k]
  show "dynamodb_inv evs s' \<and> dynamodb_log evs s' = dynamodb_log evs s \<and> (\<forall>h. r = Inr h \<longrightarrow> map rec_vd h = dynamodb_log evs s k)"
    by (auto simp: dynamodb_ops_def load_result_def)
next
  fix s s' ce k rs assume inv: "dynamodb_inv evs s" and ext: "extends_log (dynamodb_log evs s k) rs"
    and "st_save (dynamodb_ops cl st gz mo now c) ce s k rs = (s', None)"
  with dynamodb_Save_log [OF st inv ext, of now ce s' None]
  show "dynamodb_inv evs s' \<and> dynamodb_log evs s' = (dynamodb_log evs s)(k := dynamodb_log evs s k @ map rec_vd rs)"
    by (simp add: dynamodb_ops_def)
next
  fix s s' ce k rs e assume inv: "dynamodb_inv evs s" and ext: "extends_log (dynamodb_log evs s k) rs"
    and "st_save (dynamodb_ops cl st gz mo now c) ce s k rs = (s', Some e)"
  with dynamodb_Save_log [OF st inv ext, of now ce s' "Some e"]
  show "dynamodb_inv evs s' \<and> (\<exists>n. dynamodb_log evs s' = (dynamodb_log evs s)(k := dynamodb_log evs s k @ take n (map rec_vd rs))
      \<and> (length rs \<le> 100 \<longrightarrow> n = 0))"
    by (simp add: dynamodb_ops_def)
next
  fix s s' tail ce k n r assume inv: "dynamodb_inv evs s"
    and "st_load_tail (dynamodb_ops cl st gz mo now c) = Some tail" "tail ce s k n = (s', r)"
  with dynamodb_load_returns(2) [OF st inv, of ce k n]
  show "dynamodb_inv evs s' \<and> dynamodb_log evs s' = dynamodb_log evs s
      \<and> (\<forall>h. r = Inr h \<longrightarrow> map rec_vd h = last_n (nat n) (dynamodb_log evs s k))"
    by (auto simp: dynamodb_ops_def load_result_def)
next
  fix s s' f ce m r' assume inv: "dynamodb_inv evs s"
    and "st_save_aggregate (dynamodb_ops cl st gz mo now c) = Some f" "f ce s m = (s', r')"
  then have "save_aggregate ''dynamodbstore.SaveAggregate'' (ds_opaqueStore st) gz mo now c ce s m = (s', r')"
    by (simp add: dynamodb_ops_def dynamodb_SaveAggregate_def)
  from SaveAggregate_apart [OF apart this] inv
  show "dynamodb_inv evs s' \<and> dynamodb_log evs s' = dynamodb_log evs s"
    by (simp add: dynamodb_inv_def dynamodb_log_def fun_eq_iff)
next
  fix s s' ce k h and h' :: history assume inv: "dynamodb_inv evs s"
    and "st_load (dynamodb_ops cl st gz mo now c) ce s k = (s', Inr h)"
  then show "dynamodb_inv evs (st_writeback (dynamodb_ops cl st gz mo now c) s' k h')
      \<and> (dynamodb_log evs (st_writeback (dynamodb_ops cl st gz mo now c) s' k h') = dynamodb_log evs s'
        \<or> dynamodb_log evs (st_writeback (dynamodb_ops cl st gz mo now c) s' k h') = (dynamodb_log evs s')(k := map rec_vd h'))"
    by (auto simp: dynamodb_ops_def)
qed (simp add: dynamodb_ops_def)

end

end
