(* ===== verification/DynamoStoreProperties.thy ===== *)
theory DynamoStoreProperties
  imports DynamoStoreContract
begin

text \<open>
  The properties of the DynamoDB event store, with a concrete table for the witnesses: the items
  of each aggregate in version order, served in pages of two whose start key is a position.
\<close>

section \<open>A concrete events table\<close>

type_synonym plain_events = "string \<Rightarrow> item list"

definition item_text :: "item \<Rightarrow> string \<Rightarrow> string" where
  "item_text it a = (case it a of Some (AV_S s) \<Rightarrow> s | _ \<Rightarrow> [])"

definition plain_transact :: "plain_events \<Rightarrow> transact_put list \<Rightarrow> plain_events \<times> goerr option" where
  "plain_transact s puts =
     (case puts of
        [] \<Rightarrow> (s, Some (Foreign ''ValidationException''))
      | p # _ \<Rightarrow>
          (let k = item_text (tp_item p) ''a''; its = s k @ map tp_item puts
           in if distinct (map item_version its) then (s(k := sort_key item_version its), None)
              else (s, Some (Foreign ''TransactionCanceledException''))))"

definition start_position :: "item option \<Rightarrow> nat" where
  "start_position start =
     (case start of None \<Rightarrow> 0
      | Some it \<Rightarrow> (case it ''n'' of Some (AV_N v) \<Rightarrow> nat (parse_int v) | _ \<Rightarrow> 0))"

definition plain_rest :: "plain_events \<Rightarrow> string \<Rightarrow> bool \<Rightarrow> item option \<Rightarrow> item list" where
  "plain_rest s k fwd start = drop (start_position start) (if fwd then s k else rev (s k))"

definition plain_events_query :: "plain_events \<Rightarrow> events_query \<Rightarrow> goerr + item list \<times> item option" where
  "plain_events_query s q =
     (let left = plain_rest s (item_text (eq_values q) '':id'') (eq_forward q) (eq_start q);
          size = (case eq_limit q of None \<Rightarrow> 2 | Some l \<Rightarrow> nat (min 2 l))
      in Inr (take size left,
              if drop size left = [] then None
              else Some [''n'' \<mapsto> AV_N (dec_int (int (start_position (eq_start q) + size)))]))"

definition plain_events_client :: "plain_events events_client" where
  "plain_events_client = \<lparr>ec_transact = plain_transact, ec_query = plain_events_query\<rparr>"

lemma start_position_next [simp]: "start_position (Some [''n'' \<mapsto> AV_N (dec_int (int n))]) = n"
  by (simp add: start_position_def)

interpretation pe: dynamo_events plain_events_client table "\<lambda>s. s" plain_rest for table
proof unfold_locales
  fix k and puts :: "transact_put list" and s s' :: plain_events
  assume puts: "event_puts table k puts" "ec_transact plain_events_client s puts = (s', None)"
  then obtain p ps where p: "puts = p # ps" "item_text (tp_item p) ''a'' = k"
    by (cases puts) (auto simp: plain_events_client_def plain_transact_def event_puts_def item_text_def)
  with puts(2) show "distinct (map item_version (s k @ map tp_item puts))
      \<and> s' = s(k := sort_key item_version (s k @ map tp_item puts))"
    by (auto simp: plain_events_client_def plain_transact_def Let_def split: if_splits)
next
  fix k and puts :: "transact_put list" and s s' :: plain_events and e
  assume "ec_transact plain_events_client s puts = (s', Some e)"
  then show "s' = s"
    by (auto simp: plain_events_client_def plain_transact_def Let_def split: list.splits if_splits)
next
  fix q :: events_query and k and s :: plain_events and its lastKey
  assume v: "eq_values q = ['':id'' \<mapsto> AV_S k]" and lim: "eq_limit q = None \<or> (\<exists>l > 0. eq_limit q = Some l)"
    and run: "ec_query plain_events_client s q = Inr (its, lastKey)"
  let ?left = "plain_rest s k (eq_forward q) (eq_start q)"
  let ?size = "case eq_limit q of None \<Rightarrow> 2 | Some l \<Rightarrow> nat (min 2 l)"
  have k: "item_text (eq_values q) '':id'' = k" by (simp add: v item_text_def)
  have its: "its = take ?size ?left"
    and last: "lastKey = (if drop ?size ?left = [] then None
        else Some [''n'' \<mapsto> AV_N (dec_int (int (start_position (eq_start q) + ?size)))])"
    using run by (auto simp: plain_events_client_def plain_events_query_def Let_def k)
  have pos: "0 < ?size" using lim by (auto split: option.splits)
  have "plain_rest s k (eq_forward q) (Some [''n'' \<mapsto> AV_N (dec_int (int (start_position (eq_start q) + ?size)))])
      = drop ?size ?left"
    unfolding plain_rest_def start_position_next drop_drop by (simp add: add.commute)
  moreover have "its \<noteq> []" if "drop ?size ?left \<noteq> []" using that pos its by auto
  moreover have "int (length its) \<le> l" if "eq_limit q = Some l" for l
  proof -
    have "l > 0" using lim that by auto
    have "length its \<le> nat (min 2 l)" using its that by simp
    then have "int (length its) \<le> int (nat (min 2 l))" by linarith
    with \<open>l > 0\<close> show ?thesis by simp
  qed
  ultimately show "\<exists>left. ?left = its @ left \<and> (\<forall>l. eq_limit q = Some l \<longrightarrow> int (length its) \<le> l)
      \<and> (lastKey = None \<longrightarrow> left = [])
      \<and> (\<forall>j. lastKey = Some j \<longrightarrow> its \<noteq> [] \<and> plain_rest s k (eq_forward q) (Some j) = left)"
    using last by (intro exI [of _ "drop ?size ?left"]) (auto simp: its split: if_splits)
qed (simp add: plain_rest_def start_position_def)

definition ex_dynamodb :: "plain_events dynamodb_store" where
  "ex_dynamodb = \<lparr>ds_client = Some plain_events_client, ds_eventsTable = ''events'',
     ds_opaqueStore = None, ds_ttl = 0\<rparr>"

lemma ex_dynamodb_New: "dynamodb_New (Some plain_events_client) [] = Inr ex_dynamodb"
  by (simp add: dynamodb_New_def DefaultEventsTable_def ex_dynamodb_def Let_def)

lemma ex_dynamodb_ok: "ds_eventsTable ex_dynamodb = ''events''" "opaque_apart evs (ds_opaqueStore ex_dynamodb)"
  by (simp_all add: ex_dynamodb_def opaque_apart_def)

interpretation pw: batch_writer "dynamodb_inv (\<lambda>s. s)" "dynamodb_log (\<lambda>s. s)"
    "dynamodb_batch plain_events_client ex_dynamodb now" for now
  by (rule pe.dynamodb_batches [OF refl])

section \<open>Properties\<close>

text \<open>
  C27. The DynamoDB store is an event-log store: over any DynamoDB with its documented behaviour
  (transactions are all or nothing, query pages follow one another), when aggregates are
  materialized into another table, it keeps the whole contract that the repository relies on;
  of a failed save of more than a hundred records a prefix of whole batches stays written.
\<close>

theorem dynamodb_keeps_contract:
  assumes "dynamo_events cl (ds_eventsTable st) evs rest" "opaque_apart evs (ds_opaqueStore st)"
  shows "event_log_store (dynamodb_ops cl st gz mo now c) (dynamodb_inv evs) (dynamodb_log evs)"
  by (rule dynamo_events.keeps_log_contract [OF assms(1) refl assms(2)])

definition ex_message_ops :: "string message_ops" where
  "ex_message_ops = \<lparr>mo_type_name = (\<lambda>_. ''*v1.Order''), mo_auto = (\<lambda>_. None), mo_ttl_seconds = (\<lambda>_. None)\<rparr>"

theorem dynamodb_keeps_contract_witness:
  "event_log_store (dynamodb_ops plain_events_client ex_dynamodb plain_gzip ex_message_ops 0 background)
     (dynamodb_inv (\<lambda>s. s)) (dynamodb_log (\<lambda>s. s))"
  by (rule dynamodb_keeps_contract [OF pe.dynamo_events_axioms ex_dynamodb_ok(2)])

text \<open>
  C28. Concurrent writers cannot overwrite each other: a save of at most a hundred records one of
  whose versions is already in the log, or occurs twice among them, fails and changes nothing.
\<close>

theorem dynamodb_refuses_taken_versions:
  assumes "dynamo_events cl (ds_eventsTable st) evs rest" "dynamodb_inv evs s"
    and "rs \<noteq> []" "length rs \<le> 100" "\<not> distinct (map fst (dynamodb_log evs s k) @ map rec_version rs)"
    and "dynamodb_Save cl st now ce s k rs = (s', r)"
  shows "r \<noteq> None \<and> evs s' = evs s"
  by (rule dynamo_events.dynamodb_version_taken [OF assms(1) refl assms(2-6)])

definition ex_item :: item where
  "ex_item = [''a'' \<mapsto> AV_S ''k'', ''v'' \<mapsto> AV_N (dec_int64 1), ''d'' \<mapsto> AV_B [5]]"

lemma ex_item_ok: "event_item_ok ''k'' ex_item" "rec_vd (item_record ex_item) = (1, [5])"
  by (auto simp: event_item_ok_def ex_item_def item_record_def itemToRecord_def rec_vd_def)

definition ex_events :: plain_events where
  "ex_events = (\<lambda>_. [])(''k'' := [ex_item])"

lemma ex_events_inv: "dynamodb_inv (\<lambda>s. s) ex_events"
  using ex_item_ok by (simp add: dynamodb_inv_def ex_events_def)

theorem dynamodb_refuses_taken_versions_witness:
  "snd (dynamodb_Save plain_events_client ex_dynamodb 0 None ex_events ''k''
     [\<lparr>rec_version = 1, rec_data = [6], rec_ttl = 0\<rparr>]) \<noteq> None
   \<and> fst (dynamodb_Save plain_events_client ex_dynamodb 0 None ex_events ''k''
     [\<lparr>rec_version = 1, rec_data = [6], rec_ttl = 0\<rparr>]) = ex_events"
proof -
  let ?rs = "[\<lparr>rec_version = 1, rec_data = [6], rec_ttl = 0\<rparr>] :: pb_record list"
  have taken: "\<not> distinct (map fst (dynamodb_log (\<lambda>s. s) ex_events ''k'') @ map rec_version ?rs)"
    by (simp add: dynamodb_log_def ex_events_def ex_item_ok)
  show ?thesis
    using dynamodb_refuses_taken_versions [OF pe.dynamo_events_axioms ex_events_inv _ _ taken prod.collapse [symmetric],
        where st = ex_dynamodb and now = 0 and ce = None] by simp
qed

text \<open>
  C29. Loads end. The paging loops of \<open>Load\<close> and \<open>LoadTail\<close> always return, whatever the sizes of
  the pages, and a load that reports no error returns the whole log, a tail load its last
  \<open>n\<close> records in ascending order.
\<close>

theorem dynamodb_loads_return:
  assumes "dynamo_events cl (ds_eventsTable st) evs rest" "dynamodb_inv evs s"
  shows "(\<exists>r. dynamodb_Load cl st ce s k = Some r \<and> (\<forall>h. r = Inr h \<longrightarrow> map rec_vd h = dynamodb_log evs s k))
    \<and> (\<exists>r. dynamodb_LoadTail cl st ce s k n = Some r
        \<and> (\<forall>h. r = Inr h \<longrightarrow> map rec_vd h = last_n (nat n) (dynamodb_log evs s k)))"
  using dynamo_events.dynamodb_load_returns [OF assms(1) refl assms(2)] by blast

theorem dynamodb_loads_return_witness:
  "(\<exists>r. dynamodb_Load plain_events_client ex_dynamodb None ex_events ''k'' = Some r
      \<and> (map_sum id (map rec_vd) r = Inr [(1, [5])] \<or> (\<exists>e. r = Inl e)))"
proof -
  obtain r where r: "dynamodb_Load plain_events_client ex_dynamodb None ex_events ''k'' = Some r"
    and h: "\<And>h. r = Inr h \<Longrightarrow> map rec_vd h = dynamodb_log (\<lambda>s. s) ex_events ''k''"
    using dynamodb_loads_return [OF pe.dynamo_events_axioms ex_events_inv, where st = ex_dynamodb and ce = None and k = "''k''"]
    by blast
  have "dynamodb_log (\<lambda>s. s) ex_events ''k'' = [(1, [5])]"
    by (simp add: dynamodb_log_def ex_events_def ex_item_ok)
  with r h show ?thesis by (cases r) auto
qed

end
