(* ===== verification/CosmosStore.thy ===== *)
theory CosmosStore
  imports CosmosClient DynamoStore
begin

text \<open>
  stores/cosmosdbstore/cosmosdbstore.go: the event store on a Cosmos container, whose documents
  have the aggregate id as partition key and the version as id. The container client is the one
  of \<open>CosmosClient\<close>; \<open>'r\<close> is an encoded document. \<open>now i\<close> is the clock, in nanoseconds, when the
  batch that starts at record \<open>i\<close> is written.
\<close>

section \<open>The store\<close>

definition DefaultEventsContainer :: string where "DefaultEventsContainer = ''events''"
definition DefaultAggregatesContainer :: string where "DefaultAggregatesContainer = ''aggregates''"
definition maxBatchItems :: nat where "maxBatchItems = 100"

record ('s, 'r, 'p) cosmosdb_store =
  cst_events :: "('s, 'r, 'p) cosmos_client"
  cst_opaqueStore :: "'s opaque_ops option"
  cst_ttl :: int64

type_synonym ('s, 'r, 'p) cosmosdb_option = "('s, 'r, 'p) cosmosdb_store \<Rightarrow> ('s, 'r, 'p) cosmosdb_store"

text \<open>The client is \<open>None\<close> when it is nil.\<close>

definition cosmosdb_New ::
    "('s, 'r, 'p) cosmos_client option \<Rightarrow> ('s, 'r, 'p) cosmosdb_option list \<Rightarrow> goerr + ('s, 'r, 'p) cosmosdb_store" where
  "cosmosdb_New events opts =
     (case events of
        None \<Rightarrow> Inl (Foreign ''cosmosdbstore.New: events client must not be nil'')
      | Some cl \<Rightarrow> Inr (fold (\<lambda>opt s. opt s) opts \<lparr>cst_events = cl, cst_opaqueStore = None, cst_ttl = 0\<rparr>))"

definition cosmosdb_WithOpaqueStore :: "'s opaque_ops \<Rightarrow> ('s, 'r, 'p) cosmosdb_option" where
  "cosmosdb_WithOpaqueStore store s = s\<lparr>cst_opaqueStore := Some store\<rparr>"

definition cosmosdb_WithTTL :: "int64 \<Rightarrow> ('s, 'r, 'p) cosmosdb_option" where
  "cosmosdb_WithTTL ttl s = s\<lparr>cst_ttl := ttl\<rparr>"

section \<open>Save\<close>

record event_doc =
  ed_id :: string
  ed_a :: string
  ed_v :: int64
  ed_d :: bytes
  ed_t :: int64
  ed_ttl :: int64

definition event_document ::
    "('s, 'r, 'p) cosmosdb_store \<Rightarrow> int \<Rightarrow> string \<Rightarrow> pb_record \<Rightarrow> event_doc" where
  "event_document st now aggregateID rec =
     (let t = (if sint (rec_ttl rec) > 0 then rec_ttl rec
               else if sint (cst_ttl st) > 0 then word_of_int ((now + sint (cst_ttl st)) div 1000000000)
               else 0);
          ttl = (if sint t > 0
                 then (let left = t - word_of_int (now div 1000000000) in if sint left < 1 then 1 else left)
                 else 0)
      in \<lparr>ed_id = dec_int64 (rec_version rec), ed_a = aggregateID, ed_v = rec_version rec,
          ed_d = rec_data rec, ed_t = t, ed_ttl = ttl\<rparr>)"

text \<open>The loop over the records of a batch.\<close>

fun marshal_docs ::
    "('s, 'r, 'p) cosmosdb_store \<Rightarrow> (event_doc, 'r) json_codec \<Rightarrow> int \<Rightarrow> string \<Rightarrow> pb_record list \<Rightarrow> goerr + 'r list" where
  "marshal_docs st js now aggregateID [] = Inr []"
| "marshal_docs st js now aggregateID (rec # recs) =
     (case js_marshal js (event_document st now aggregateID rec) of
        Inl e \<Rightarrow> Inl (errorf (''cosmosdbstore.Save: marshal record '' @ dec_int64 (rec_version rec) @ '': '') e)
      | Inr body \<Rightarrow> (case marshal_docs st js now aggregateID recs of
          Inl e \<Rightarrow> Inl e
        | Inr bodies \<Rightarrow> Inr (body # bodies)))"

text \<open>One batch.\<close>

definition cosmosdb_batch ::
    "('s, 'r, 'p) cosmosdb_store \<Rightarrow> (event_doc, 'r) json_codec \<Rightarrow> int \<Rightarrow> ctx \<Rightarrow> string \<Rightarrow> 's \<Rightarrow> pb_record list
     \<Rightarrow> 's \<times> goerr option" where
  "cosmosdb_batch st js now c aggregateID s batch =
     (case marshal_docs st js now aggregateID batch of
        Inl e \<Rightarrow> (s, Some e)
      | Inr bodies \<Rightarrow> (case cc_batch (cst_events st) c aggregateID bodies s of
          (s', Some e) \<Rightarrow> (s', Some (errorf ''cosmosdbstore.Save: '' e))
        | (s', None) \<Rightarrow> (s', None)))"

function cosmosdb_save_loop ::
    "('s, 'r, 'p) cosmosdb_store \<Rightarrow> (event_doc, 'r) json_codec \<Rightarrow> (nat \<Rightarrow> int) \<Rightarrow> ctx \<Rightarrow> string \<Rightarrow> pb_record list
     \<Rightarrow> 's \<Rightarrow> nat \<Rightarrow> 's \<times> goerr option" where
  "cosmosdb_save_loop st js now c aggregateID records s i =
     (if i < length records
      then (let bound = (if i + maxBatchItems > length records then length records else i + maxBatchItems)
            in case cosmosdb_batch st js (now i) c aggregateID s (drop i (take bound records)) of
                 (s', Some e) \<Rightarrow> (s', Some e)
               | (s', None) \<Rightarrow> cosmosdb_save_loop st js now c aggregateID records s' (i + maxBatchItems))
      else (s, None))"
  by pat_completeness auto
termination
  by (relation "measure (\<lambda>(st, js, now, c, aggregateID, records, s, i). length records - i)")
    (auto simp: maxBatchItems_def)

declare cosmosdb_save_loop.simps [simp del]

definition cosmosdb_Save ::
    "('s, 'r, 'p) cosmosdb_store \<Rightarrow> (event_doc, 'r) json_codec \<Rightarrow> (nat \<Rightarrow> int) \<Rightarrow> ctx \<Rightarrow> goerr option \<Rightarrow> 's \<Rightarrow> string
     \<Rightarrow> pb_record list \<Rightarrow> 's \<times> goerr option" where
  "cosmosdb_Save st js now c ctxErr s aggregateID records =
     (case ctxErr of
        Some e \<Rightarrow> (s, Some (errorf ''cosmosdbstore.Save: '' e))
      | None \<Rightarrow> if length records = 0 then (s, None)
                else cosmosdb_save_loop st js now c aggregateID records s 0)"

section \<open>Load and LoadTail\<close>

definition docToRecord :: "(event_doc, 'r) json_codec \<Rightarrow> 'r \<Rightarrow> goerr + pb_record" where
  "docToRecord js raw =
     (case js_unmarshal js raw of
        Inl e \<Rightarrow> Inl (errorf ''unmarshal event doc: '' e)
      | Inr doc \<Rightarrow> Inr \<lparr>rec_version = ed_v doc, rec_data = ed_d doc, rec_ttl = 0\<rparr>)"

fun docs_to_records :: "(event_doc, 'r) json_codec \<Rightarrow> 'r list \<Rightarrow> goerr + history" where
  "docs_to_records js [] = Inr []"
| "docs_to_records js (raw # raws) =
     (case docToRecord js raw of
        Inl e \<Rightarrow> Inl (errorf ''cosmosdbstore.Load: '' e)
      | Inr rec \<Rightarrow> (case docs_to_records js raws of Inl e \<Rightarrow> Inl e | Inr recs \<Rightarrow> Inr (rec # recs)))"

definition cosmos_events_query :: "bool \<Rightarrow> string \<Rightarrow> int32 \<Rightarrow> cosmos_sql" where
  "cosmos_events_query asc aggregateID hint =
     \<lparr>cq_text = (if asc then ''SELECT * FROM c WHERE c.a = @id ORDER BY c.v ASC''
                 else ''SELECT * FROM c WHERE c.a = @id ORDER BY c.v DESC''),
      cq_partition = Some aggregateID, cq_params = [(''@id'', CV_S aggregateID)], cq_page_hint = hint\<rparr>"

definition cosmosdb_Load ::
    "('s, 'r, 'p) cosmosdb_store \<Rightarrow> (event_doc, 'r) json_codec \<Rightarrow> ctx \<Rightarrow> goerr option \<Rightarrow> 's \<Rightarrow> string
     \<Rightarrow> (goerr + history) option" where
  "cosmosdb_Load st js c ctxErr s aggregateID =
     (case ctxErr of
        Some e \<Rightarrow> Some (Inl (errorf ''cosmosdbstore.Load: '' e))
      | None \<Rightarrow>
          map_option (\<lambda>r. case r of
              Inl e \<Rightarrow> Inl (errorf ''cosmosdbstore.Load: '' e)
            | Inr pages \<Rightarrow> docs_to_records js pages)
            (cc_query (cst_events st) c (cosmos_events_query True aggregateID 0) s))"

text \<open>The loop over a page, with the records still wanted.\<close>

fun tail_docs :: "(event_doc, 'r) json_codec \<Rightarrow> 'r list \<Rightarrow> int \<Rightarrow> goerr + history \<times> int" where
  "tail_docs js [] remaining = Inr ([], remaining)"
| "tail_docs js (raw # raws) remaining =
     (if remaining \<le> 0 then Inr ([], remaining)
      else (case docToRecord js raw of
          Inl e \<Rightarrow> Inl (errorf ''cosmosdbstore.LoadTail: '' e)
        | Inr rec \<Rightarrow> (case tail_docs js raws (remaining - 1) of
            Inl e \<Rightarrow> Inl e
          | Inr (recs, left) \<Rightarrow> Inr (rec # recs, left))))"

partial_function (option) cosmosdb_tail_loop ::
    "('s, 'r, 'p) cosmosdb_store \<Rightarrow> (event_doc, 'r) json_codec \<Rightarrow> ctx \<Rightarrow> 's \<Rightarrow> 'p \<Rightarrow> int \<Rightarrow> history
     \<Rightarrow> (goerr + history) option" where
  "cosmosdb_tail_loop st js c s pager remaining records =
     (if remaining > 0 \<and> cc_more (cst_events st) pager
      then (case cc_next (cst_events st) c s pager of
          (pager', Inl e) \<Rightarrow> Some (Inl (errorf ''cosmosdbstore.LoadTail: '' e))
        | (pager', Inr page) \<Rightarrow>
            (case tail_docs js page remaining of
               Inl e \<Rightarrow> Some (Inl e)
             | Inr (recs, left) \<Rightarrow> cosmosdb_tail_loop st js c s pager' left (records @ recs)))
      else Some (Inr records))"

definition cosmosdb_LoadTail ::
    "('s, 'r, 'p) cosmosdb_store \<Rightarrow> (event_doc, 'r) json_codec \<Rightarrow> ctx \<Rightarrow> goerr option \<Rightarrow> 's \<Rightarrow> string \<Rightarrow> int
     \<Rightarrow> (goerr + history) option" where
  "cosmosdb_LoadTail st js c ctxErr s aggregateID n =
     (case ctxErr of
        Some e \<Rightarrow> Some (Inl (errorf ''cosmosdbstore.LoadTail: '' e))
      | None \<Rightarrow>
          if n \<le> 0 then Some (Inr [])
          else (let pageHint = word_of_int (if n > maxInt32 then maxInt32 else n);
                    pager = cc_pager (cst_events st) (cosmos_events_query False aggregateID pageHint)
                in map_option (map_sum id rev) (cosmosdb_tail_loop st js c s pager n [])))"

section \<open>SaveAggregate and conflicts\<close>

definition cosmosdb_SaveAggregate ::
    "('s, 'r, 'p) cosmosdb_store \<Rightarrow> gzip \<Rightarrow> 'm message_ops \<Rightarrow> int \<Rightarrow> ctx \<Rightarrow> goerr option \<Rightarrow> 's \<Rightarrow> 'm
     \<Rightarrow> 's \<times> goerr option" where
  "cosmosdb_SaveAggregate st = save_aggregate ''cosmosdbstore.SaveAggregate'' (cst_opaqueStore st)"

definition cosmosdb_IsConflict :: "goerr \<Rightarrow> bool" where
  "cosmosdb_IsConflict err = (if IsBatchConflict err then True else response_status err 409)"

definition cosmosdb_ops ::
    "('s, 'r, 'p) cosmosdb_store \<Rightarrow> (event_doc, 'r) json_codec \<Rightarrow> gzip \<Rightarrow> 'm message_ops \<Rightarrow> (nat \<Rightarrow> int) \<Rightarrow> ctx
     \<Rightarrow> ('s, 'm) store_ops" where
  "cosmosdb_ops st js gz mo now c =
     \<lparr>st_save = cosmosdb_Save st js now c,
      st_load = (\<lambda>ce s k. (s, load_result (cosmosdb_Load st js c ce s k))),
      st_writeback = (\<lambda>s k h. s),
      st_load_tail = Some (\<lambda>ce s k n. (s, load_result (cosmosdb_LoadTail st js c ce s k n))),
      st_save_aggregate = Some (cosmosdb_SaveAggregate st gz mo (now 0) c)\<rparr>"

end
