(* ===== verification/CosmosStoreContract.thy ===== *)
theory CosmosStoreContract
  imports CosmosStore DynamoStoreContract
begin

text \<open>
  The documented behaviour of a Cosmos container that the event store relies on, over the documents
  \<open>evs\<close> of each aggregate in version order, and the proof that the store keeps the event-log
  contract over the wrapped SDK client and classifies version conflicts.

  A transactional batch is all or nothing; its answer lists a status per operation, and when an
  id is taken it is 409 for the first operation at fault and 424 for the others. A pager hands
  out what is left of its query, page by page (pages may be empty), and ends: \<open>todo\<close> bounds the
  pages that are left.
\<close>

definition event_docs_of :: "string \<Rightarrow> event_doc list \<Rightarrow> bool" where
  "event_docs_of k ds \<longleftrightarrow> (\<forall>d \<in> set ds. ed_a d = k \<and> ed_id d = dec_int64 (ed_v d))"

locale cosmos_events =
  fixes w :: "('s, 'r, 'p) cosmos_sdk" and js :: "(event_doc, 'r) json_codec"
    and evs :: "'s \<Rightarrow> string \<Rightarrow> event_doc list"
    and left :: "'s \<Rightarrow> 'p \<Rightarrow> event_doc list" and todo :: "'s \<Rightarrow> 'p \<Rightarrow> nat"
  assumes json: "js_marshal js d = Inr raw \<Longrightarrow> js_unmarshal js raw = Inr d"
    and batch_done: "event_docs_of k ds \<Longrightarrow> ds \<noteq> [] \<Longrightarrow> length ds \<le> 100 \<Longrightarrow>
      list_all2 (\<lambda>d raw. js_marshal js d = Inr raw) ds raws \<Longrightarrow>
      sdk_batch w c k raws s = (s', Inr resp) \<Longrightarrow> br_success resp \<Longrightarrow>
      distinct (map ed_id (evs s k @ ds)) \<and> evs s' = (evs s)(k := sort_key (\<lambda>d. sint (ed_v d)) (evs s k @ ds))"
    and batch_refused: "sdk_batch w c k raws s = (s', Inr resp) \<Longrightarrow> \<not> br_success resp \<Longrightarrow> evs s' = evs s"
    and batch_error: "sdk_batch w c k raws s = (s', Inl e) \<Longrightarrow> evs s' = evs s"
    and batch_conflict: "event_docs_of k ds \<Longrightarrow> ds \<noteq> [] \<Longrightarrow> length ds \<le> 100 \<Longrightarrow>
      list_all2 (\<lambda>d raw. js_marshal js d = Inr raw) ds raws \<Longrightarrow> \<not> distinct (map ed_id (evs s k @ ds)) \<Longrightarrow>
      sdk_batch w c k raws s = (s', Inr resp) \<Longrightarrow>
      \<exists>pre body post. br_results resp = pre @ (409, body) # post \<and> (\<forall>r \<in> set pre. fst r = 424)"
    and pager_start: "left s (sdk_pager w (cosmos_events_query asc k hint)) = (if asc then evs s k else rev (evs s k))"
    and pager_done: "\<not> sdk_more w p \<Longrightarrow> left s p = []"
    and pager_next: "sdk_more w p \<Longrightarrow> sdk_next w c s p = (p', Inr page) \<Longrightarrow>
      \<exists>ds. list_all2 (\<lambda>raw d. js_unmarshal js raw = Inr d) page ds \<and> left s p = ds @ left s p' \<and> todo s p' < todo s p"

section \<open>Documents and records\<close>

definition doc_vd :: "event_doc \<Rightarrow> int64 \<times> bytes" where
  "doc_vd d = (ed_v d, ed_d d)"

definition doc_record :: "event_doc \<Rightarrow> pb_record" where
  "doc_record d = \<lparr>rec_version = ed_v d, rec_data = ed_d d, rec_ttl = 0\<rparr>"

lemma doc_record_vd [simp]: "rec_vd (doc_record d) = doc_vd d" "rec_vd \<circ> doc_record = doc_vd"
  by (simp_all add: doc_record_def doc_vd_def rec_vd_def fun_eq_iff)

lemma event_document_simps [simp]:
  "ed_id (event_document st now k r) = dec_int64 (rec_version r)" "ed_a (event_document st now k r) = k"
  "ed_v (event_document st now k r) = rec_version r" "doc_vd (event_document st now k r) = rec_vd r"
  "ed_v \<circ> event_document st now k = rec_version"
  by (simp_all add: event_document_def doc_vd_def rec_vd_def Let_def fun_eq_iff)

lemma event_docs_new [simp]: "event_docs_of k (map (event_document st now k) recs)"
  by (simp add: event_docs_of_def)

lemma event_docs_ids: "event_docs_of k ds \<Longrightarrow> map ed_id ds = map dec_int64 (map ed_v ds)"
  by (simp add: event_docs_of_def)

lemma distinct_ids:
  "event_docs_of k ds \<Longrightarrow> distinct (map ed_id ds) \<longleftrightarrow> distinct (map ed_v ds)"
  unfolding event_docs_ids distinct_map by (auto simp: inj_on_def dec_int64_inj)

lemma marshal_docs_all:
  "marshal_docs st js now k recs = Inr bodies \<Longrightarrow>
     list_all2 (\<lambda>d raw. js_marshal js d = Inr raw) (map (event_document st now k) recs) bodies"
  by (induction recs arbitrary: bodies) (auto split: sum.splits)

lemma docs_to_records_ok:
  "list_all2 (\<lambda>raw d. js_unmarshal js raw = Inr d) raws ds \<Longrightarrow> docs_to_records js raws = Inr (map doc_record ds)"
  by (induction rule: list_all2_induct) (simp_all add: docToRecord_def doc_record_def)

lemma tail_docs_ok:
  "list_all2 (\<lambda>raw d. js_unmarshal js raw = Inr d) raws ds \<Longrightarrow> 0 \<le> n \<Longrightarrow>
     tail_docs js raws n = Inr (map doc_record (take (nat n) ds), n - min n (int (length ds)))"
proof (induction arbitrary: n rule: list_all2_induct)
  case (Cons raw raws d ds)
  show ?case
  proof (cases "n = 0")
    case False
    then have n: "nat n = Suc (nat (n - 1))" "0 \<le> n - 1" using Cons.prems by simp_all
    with Cons.IH [OF n(2)] Cons.hyps(1) False Cons.prems show ?thesis
      by (simp add: docToRecord_def doc_record_def)
  qed simp
qed simp

section \<open>The state of the container\<close>

definition cosmosdb_log :: "('s \<Rightarrow> string \<Rightarrow> event_doc list) \<Rightarrow> 's \<Rightarrow> string \<Rightarrow> (int64 \<times> bytes) list" where
  "cosmosdb_log evs s k = map doc_vd (evs s k)"

definition cosmosdb_inv :: "('s \<Rightarrow> string \<Rightarrow> event_doc list) \<Rightarrow> 's \<Rightarrow> bool" where
  "cosmosdb_inv evs s \<longleftrightarrow> (\<forall>k. event_docs_of k (evs s k))"

lemma cosmosdb_log_versions: "map fst (cosmosdb_log evs s k) = map ed_v (evs s k)"
  by (simp add: cosmosdb_log_def doc_vd_def comp_def)

lemma cosmosdb_append:
  assumes "cosmosdb_inv evs s" "evs s' = (evs s)(k := evs s k @ map (event_document st now k) recs)"
  shows "cosmosdb_inv evs s'"
    and "cosmosdb_log evs s' = (cosmosdb_log evs s)(k := cosmosdb_log evs s k @ map rec_vd recs)"
  using assms by (auto simp: cosmosdb_inv_def event_docs_of_def cosmosdb_log_def fun_eq_iff)

lemma cosmosdb_same: "evs s' = evs s \<Longrightarrow> cosmosdb_inv evs s' = cosmosdb_inv evs s \<and> cosmosdb_log evs s' = cosmosdb_log evs s"
  by (simp add: cosmosdb_inv_def cosmosdb_log_def fun_eq_iff)

lemma batch_cause_found: "\<forall>r \<in> set pre. fst r = 424 \<Longrightarrow> batch_cause (pre @ (409, body) # post) = BatchError 409 body"
  by (induction pre) auto

section \<open>Batches\<close>

lemma wrapped_batch:
  assumes "cst_events st = cosmos_Wrap w" "ds \<noteq> []" "length ds \<le> 100"
    and "marshal_docs st js now k ds = Inr bodies"
  shows "cosmosdb_batch st js now c k s ds =
    (case sdk_batch w c k bodies s of
       (s', Inl e) \<Rightarrow> (s', Some (errorf ''cosmosdbstore.Save: '' (errorf ''cosmosclient: execute batch: '' e)))
     | (s', Inr resp) \<Rightarrow> (s', if br_success resp then None
         else Some (errorf ''cosmosdbstore.Save: '' (batch_cause (br_results resp)))))"
proof -
  have "length bodies = length ds" using list_all2_lengthD [OF marshal_docs_all [OF assms(4)]] by simp
  moreover from this assms(2) have "bodies \<noteq> []" by auto
  ultimately show ?thesis using assms
    by (auto simp: cosmosdb_batch_def cosmos_Wrap_def wrapper_ExecuteCreateBatch_def MaxBatchOperations_def
        split: prod.splits sum.splits)
qed

context cosmos_events
begin

lemma cosmosdb_batch_done:
  assumes st: "cst_events st = cosmos_Wrap w" and ok: "pending_ok (cosmosdb_inv evs) (cosmosdb_log evs) s k (batch @ pend)"
    and b: "batch \<noteq> []" "length batch \<le> 100" and run: "cosmosdb_batch st js now c k s batch = (s', None)"
  shows "cosmosdb_inv evs s' \<and> cosmosdb_log evs s' = (cosmosdb_log evs s)(k := cosmosdb_log evs s k @ map rec_vd batch)"
proof -
  let ?new = "map (event_document st now k) batch"
  obtain bodies where m: "marshal_docs st js now k batch = Inr bodies"
    using run by (auto simp: cosmosdb_batch_def split: sum.splits)
  obtain resp where resp: "sdk_batch w c k bodies s = (s', Inr resp)" "br_success resp"
    using run unfolding wrapped_batch [OF st b m] by (auto split: prod.splits sum.splits if_splits)
  have evs: "evs s' = (evs s)(k := sort_key (\<lambda>d. sint (ed_v d)) (evs s k @ ?new))"
    using batch_done [OF _ _ _ marshal_docs_all [OF m] resp] b by simp
  have inv: "cosmosdb_inv evs s" using ok by (simp add: pending_ok_def)
  have "ascending ((map fst (cosmosdb_log evs s k) @ map rec_version batch) @ map rec_version pend)"
    using ok by (simp add: pending_ok_def extends_log_def)
  from ascending_append_drop [OF this] have "sorted (map sint (map ed_v (evs s k) @ map rec_version batch))"
    unfolding ascending_def strict_sorted_iff cosmosdb_log_versions by blast
  then have "sorted (map (\<lambda>d. sint (ed_v d)) (evs s k @ ?new))" by (simp add: comp_def)
  then have "evs s' = (evs s)(k := evs s k @ ?new)" by (simp add: evs sort_key_id_if_sorted)
  from cosmosdb_append [where recs = batch, OF inv this] show ?thesis by simp
qed

lemma cosmosdb_batch_failed:
  assumes st: "cst_events st = cosmos_Wrap w" and b: "batch \<noteq> []" "length batch \<le> 100"
    and run: "cosmosdb_batch st js now c k s batch = (s', Some e)"
  shows "evs s' = evs s"
proof (cases "marshal_docs st js now k batch")
  case (Inl e)
  with run show ?thesis by (simp add: cosmosdb_batch_def)
next
  case (Inr bodies)
  with run show ?thesis unfolding wrapped_batch [OF st b Inr]
    by (auto split: prod.splits sum.splits if_splits dest: batch_error batch_refused)
qed

lemma cosmosdb_batches:
  assumes st: "cst_events st = cosmos_Wrap w"
  shows "batch_writer (cosmosdb_inv evs) (cosmosdb_log evs) (\<lambda>k i. cosmosdb_batch st js (now i) c k)"
proof unfold_locales
  fix s s' k i and batch pend :: "pb_record list"
  assume "pending_ok (cosmosdb_inv evs) (cosmosdb_log evs) s k (batch @ pend)" "batch \<noteq> []" "length batch \<le> 100"
    and "cosmosdb_batch st js (now i) c k s batch = (s', None)"
  then show "cosmosdb_inv evs s' \<and> cosmosdb_log evs s' = (cosmosdb_log evs s)(k := cosmosdb_log evs s k @ map rec_vd batch)"
    by (rule cosmosdb_batch_done [OF st])
next
  fix s s' k i e and batch pend :: "pb_record list"
  assume "pending_ok (cosmosdb_inv evs) (cosmosdb_log evs) s k (batch @ pend)" "batch \<noteq> []" "length batch \<le> 100"
    and "cosmosdb_batch st js (now i) c k s batch = (s', Some e)"
  then have ok: "evs s' = evs s" "cosmosdb_inv evs s" by (simp_all add: cosmosdb_batch_failed [OF st] pending_ok_def)
  from cosmosdb_same [where evs = evs, OF ok(1)] ok(2)
  show "cosmosdb_inv evs s' \<and> cosmosdb_log evs s' = cosmosdb_log evs s" by simp
qed

lemma cosmosdb_Save_log:
  assumes st: "cst_events st = cosmos_Wrap w" and inv: "cosmosdb_inv evs s"
    and ext: "extends_log (cosmosdb_log evs s k) rs" and run: "cosmosdb_Save st js now c ce s k rs = (s', r)"
  shows "cosmosdb_inv evs s' \<and>
    (if r = None then cosmosdb_log evs s' = (cosmosdb_log evs s)(k := cosmosdb_log evs s k @ map rec_vd rs)
     else \<exists>n. cosmosdb_log evs s' = (cosmosdb_log evs s)(k := cosmosdb_log evs s k @ take n (map rec_vd rs))
       \<and> (length rs \<le> 100 \<longrightarrow> n = 0))"
proof (cases "ce = None \<and> rs \<noteq> []")
  case False
  with run have "s' = s" "r = None \<Longrightarrow> rs = []" by (auto simp: cosmosdb_Save_def split: option.splits)
  with inv show ?thesis by (auto intro: exI [of _ 0])
next
  case True
  with run have b: "cosmosdb_save_loop st js now c k rs s 0 = (s', r)" by (simp add: cosmosdb_Save_def)
  have "drop i (take (if i + 100 > length rs then length rs else i + 100) rs) = take 100 (drop i rs)" for i
    by (simp add: drop_take)
  then have "batch_writer.batch_loop (\<lambda>k i. cosmosdb_batch st js (now i) c k) (cosmosdb_save_loop st js now c k rs) k rs"
    unfolding batch_writer.batch_loop_def [OF cosmosdb_batches [OF st]]
    by (subst cosmosdb_save_loop.simps, unfold maxBatchItems_def Let_def) (simp add: not_less)
  from batch_writer.batch_save_log [OF cosmosdb_batches [OF st] this inv ext b] show ?thesis .
qed

lemma cosmosdb_conflict:
  assumes st: "cst_events st = cosmos_Wrap w" and inv: "cosmosdb_inv evs s"
    and few: "rs \<noteq> []" "length rs \<le> 100"
    and taken: "\<not> distinct (map fst (cosmosdb_log evs s k) @ map rec_version rs)"
    and marsh: "\<exists>bodies. marshal_docs st js (now 0) k rs = Inr bodies"
    and answer: "\<forall>bodies. \<exists>s1 resp. sdk_batch w c k bodies s = (s1, Inr resp)"
    and run: "cosmosdb_Save st js now c None s k rs = (s', r)"
  shows "\<exists>e. r = Some e \<and> cosmosdb_IsConflict e \<and> evs s' = evs s"
proof -
  let ?ds = "map (event_document st (now 0) k) rs"
  obtain bodies where m: "marshal_docs st js (now 0) k rs = Inr bodies" using marsh by blast
  obtain s1 resp where sdk: "sdk_batch w c k bodies s = (s1, Inr resp)" using answer by blast
  have docs: "event_docs_of k (evs s k @ ?ds)"
    using inv event_docs_new [of k st "now 0" rs] by (auto simp: cosmosdb_inv_def event_docs_of_def)
  have dup: "\<not> distinct (map ed_id (evs s k @ ?ds))"
    using taken unfolding distinct_ids [OF docs] cosmosdb_log_versions by simp
  have refused: "\<not> br_success resp"
    using batch_done [OF event_docs_new _ _ marshal_docs_all [OF m] sdk] dup few by auto
  have cause: "\<exists>body. batch_cause (br_results resp) = BatchError 409 body"
    using batch_conflict [OF event_docs_new _ _ marshal_docs_all [OF m] dup sdk] few
    by (auto simp: batch_cause_found)
  then obtain body where "cosmosdb_batch st js (now 0) c k s rs
      = (s1, Some (errorf ''cosmosdbstore.Save: '' (BatchError 409 body)))"
    unfolding wrapped_batch [OF st few m] using sdk refused by auto
  then have "s' = s1" "r = Some (errorf ''cosmosdbstore.Save: '' (BatchError 409 body))"
    using run few by (simp_all add: cosmosdb_Save_def cosmosdb_save_loop.simps [of _ _ _ _ _ _ _ 0] maxBatchItems_def)
  moreover have "evs s1 = evs s" by (rule batch_refused [OF sdk refused])
  ultimately show ?thesis
    by (simp add: cosmosdb_IsConflict_def IsBatchConflict_def BatchError_def)
qed

end

section \<open>Loads\<close>

context cosmos_events
begin

lemma query_pages_all:
  "\<exists>r. query_pages w c s p out = Some r
    \<and> (\<forall>raws. r = Inr raws \<longrightarrow> (\<exists>new. raws = out @ new \<and> list_all2 (\<lambda>raw d. js_unmarshal js raw = Inr d) new (left s p)))"
proof (induction "todo s p" arbitrary: p out rule: less_induct)
  case less
  show ?case
  proof (cases "sdk_more w p")
    case False
    then show ?thesis by (subst query_pages.simps) (simp add: pager_done)
  next
    case more: True
    obtain p' x where nxt: "sdk_next w c s p = (p', x)" by fastforce
    show ?thesis
    proof (cases x)
      case (Inl e)
      with more nxt show ?thesis by (subst query_pages.simps) simp
    next
      case (Inr page)
      with pager_next [OF more] nxt obtain ds where
        ds: "list_all2 (\<lambda>raw d. js_unmarshal js raw = Inr d) page ds" "left s p = ds @ left s p'" "todo s p' < todo s p"
        by blast
      have step: "query_pages w c s p out = query_pages w c s p' (out @ page)"
        using more nxt Inr by (subst query_pages.simps) simp
      obtain r where r: "query_pages w c s p' (out @ page) = Some r"
        and rest: "\<forall>raws. r = Inr raws \<longrightarrow> (\<exists>new. raws = (out @ page) @ new
          \<and> list_all2 (\<lambda>raw d. js_unmarshal js raw = Inr d) new (left s p'))"
        using less.hyps [OF ds(3)] by blast
      have "\<exists>new. raws = out @ new \<and> list_all2 (\<lambda>raw d. js_unmarshal js raw = Inr d) new (left s p)"
        if raws: "r = Inr raws" for raws
      proof -
        obtain new where "raws = (out @ page) @ new" "list_all2 (\<lambda>raw d. js_unmarshal js raw = Inr d) new (left s p')"
          using rest raws by blast
        with ds(1,2) show ?thesis by (intro exI [of _ "page @ new"]) (simp add: list_all2_appendI)
      qed
      with step r show ?thesis by simp
    qed
  qed
qed

lemma cosmosdb_tail_loop_takes:
  assumes st: "cst_events st = cosmos_Wrap w"
  shows "0 \<le> n \<Longrightarrow> cosmosdb_tail_loop st js c s p n acc = Some (Inr (acc @ map doc_record (take (nat n) (left s p))))
    \<or> (\<exists>e. cosmosdb_tail_loop st js c s p n acc = Some (Inl e))"
proof (induction "todo s p" arbitrary: p n acc rule: less_induct)
  case less
  have cl: "cc_more (cst_events st) = sdk_more w" "cc_next (cst_events st) = sdkPager_NextPage w"
    by (simp_all add: st cosmos_Wrap_def)
  show ?case
  proof (cases "0 < n \<and> sdk_more w p")
    case False
    with pager_done [of p s] show ?thesis by (subst cosmosdb_tail_loop.simps) (auto simp: cl)
  next
    case more: True
    obtain p' x where nxt: "sdk_next w c s p = (p', x)" by fastforce
    show ?thesis
    proof (cases x)
      case (Inl e)
      with more nxt show ?thesis by (subst (2) cosmosdb_tail_loop.simps) (simp add: cl sdkPager_NextPage_def)
    next
      case (Inr page)
      with pager_next [of p c s p' page] nxt more obtain ds where
        ds: "list_all2 (\<lambda>raw d. js_unmarshal js raw = Inr d) page ds" "left s p = ds @ left s p'" "todo s p' < todo s p"
        by blast
      let ?rest = "n - min n (int (length ds))" and ?recs = "map doc_record (take (nat n) ds)"
      have step: "cosmosdb_tail_loop st js c s p n acc = cosmosdb_tail_loop st js c s p' ?rest (acc @ ?recs)"
        using more nxt Inr tail_docs_ok [OF ds(1), of n]
        by (subst cosmosdb_tail_loop.simps) (simp add: cl sdkPager_NextPage_def)
      have "nat ?rest = nat n - length ds" using more by (simp add: min_def nat_diff_distrib)
      then have "acc @ map doc_record (take (nat n) (left s p))
          = (acc @ ?recs) @ map doc_record (take (nat ?rest) (left s p'))"
        by (simp add: ds(2))
      with less.hyps [OF ds(3), of ?rest "acc @ ?recs"] step show ?thesis by simp
    qed
  qed
qed

lemma cosmosdb_load_returns:
  assumes st: "cst_events st = cosmos_Wrap w"
  shows "\<exists>r. cosmosdb_Load st js c ce s k = Some r \<and> (\<forall>h. r = Inr h \<longrightarrow> map rec_vd h = cosmosdb_log evs s k)"
    and "\<exists>r. cosmosdb_LoadTail st js c ce s k n = Some r
      \<and> (\<forall>h. r = Inr h \<longrightarrow> map rec_vd h = last_n (nat n) (cosmosdb_log evs s k))"
proof -
  obtain q where q: "wrapper_QueryItems w c (cosmos_events_query True k 0) s = Some q"
    and raws: "\<forall>raws. q = Inr raws \<longrightarrow> list_all2 (\<lambda>raw d. js_unmarshal js raw = Inr d) raws (evs s k)"
    using query_pages_all [of c s "sdk_pager w (cosmos_events_query True k 0)" "[]"] pager_start [of s True k 0]
    by (auto simp: wrapper_QueryItems_def)
  then show "\<exists>r. cosmosdb_Load st js c ce s k = Some r \<and> (\<forall>h. r = Inr h \<longrightarrow> map rec_vd h = cosmosdb_log evs s k)"
    by (cases q) (auto simp: cosmosdb_Load_def st cosmos_Wrap_def cosmosdb_log_def docs_to_records_ok split: option.splits)
next
  let ?hint = "word_of_int (if n > maxInt32 then maxInt32 else n)"
  let ?p = "sdk_pager w (cosmos_events_query False k ?hint)"
  have "map rec_vd (rev (map doc_record (take (nat n) (rev (evs s k))))) = last_n (nat n) (cosmosdb_log evs s k)"
    by (simp add: cosmosdb_log_def rev_map rev_take_rev map_last_n comp_def)
  moreover have "cosmosdb_tail_loop st js c s ?p n [] = Some (Inr (map doc_record (take (nat n) (rev (evs s k)))))
      \<or> (\<exists>e. cosmosdb_tail_loop st js c s ?p n [] = Some (Inl e))" if "0 < n"
    using cosmosdb_tail_loop_takes [OF st, of n c s ?p "[]"] that pager_start [of s False k ?hint] by simp
  ultimately show "\<exists>r. cosmosdb_LoadTail st js c ce s k n = Some r
      \<and> (\<forall>h. r = Inr h \<longrightarrow> map rec_vd h = last_n (nat n) (cosmosdb_log evs s k))"
    by (cases "0 < n") (auto simp: cosmosdb_LoadTail_def Let_def st cosmos_Wrap_def last_n_def split: option.splits)
qed

section \<open>The store keeps its contract\<close>

lemma keeps_log_contract:
  assumes st: "cst_events st = cosmos_Wrap w" and apart: "opaque_apart evs (cst_opaqueStore st)"
  shows "event_log_store (cosmosdb_ops st js gz mo now c) (cosmosdb_inv evs) (cosmosdb_log evs)"
proof unfold_locales
  fix s s' ce k r assume inv: "cosmosdb_inv evs s" and "st_load (cosmosdb_ops st js gz mo now c) ce s k = (s', r)"
  with cosmosdb_load_returns(1) [OF st, of c ce s k]
  show "cosmosdb_inv evs s' \<and> cosmosdb_log evs s' = cosmosdb_log evs s \<and> (\<forall>h. r = Inr h \<longrightarrow> map rec_vd h = cosmosdb_log evs s k)"
    by (auto simp: cosmosdb_ops_def load_result_def)
next
  fix s s' ce k rs assume inv: "cosmosdb_inv evs s" and ext: "extends_log (cosmosdb_log evs s k) rs"
    and "st_save (cosmosdb_ops st js gz mo now c) ce s k rs = (s', None)"
  with cosmosdb_Save_log [OF st inv ext, of now c ce s' None]
  show "cosmosdb_inv evs s' \<and> cosmosdb_log evs s' = (cosmosdb_log evs s)(k := cosmosdb_log evs s k @ map rec_vd rs)"
    by (simp add: cosmosdb_ops_def)
next
  fix s s' ce k rs e assume inv: "cosmosdb_inv evs s" and ext: "extends_log (cosmosdb_log evs s k) rs"
    and "st_save (cosmosdb_ops st js gz mo now c) ce s k rs = (s', Some e)"
  with cosmosdb_Save_log [OF st inv ext, of now c ce s' "Some e"]
  show "cosmosdb_inv evs s' \<and> (\<exists>n. cosmosdb_log evs s' = (cosmosdb_log evs s)(k := cosmosdb_log evs s k @ take n (map rec_vd rs))
      \<and> (length rs \<le> 100 \<longrightarrow> n = 0))"
    by (simp add: cosmosdb_ops_def)
next
  fix s s' tail ce k n r assume inv: "cosmosdb_inv evs s"
    and "st_load_tail (cosmosdb_ops st js gz mo now c) = Some tail" "tail ce s k n = (s', r)"
  with cosmosdb_load_returns(2) [OF st, of c ce s k n]
  show "cosmosdb_inv evs s' \<and> cosmosdb_log evs s' = cosmosdb_log evs s
      \<and> (\<forall>h. r = Inr h \<longrightarrow> map rec_vd h = last_n (nat n) (cosmosdb_log evs s k))"
    by (auto simp: cosmosdb_ops_def load_result_def)
next
  fix s s' f ce m r' assume inv: "cosmosdb_inv evs s"
    and "st_save_aggregate (cosmosdb_ops st js gz mo now c) = Some f" "f ce s m = (s', r')"
  then have "save_aggregate ''cosmosdbstore.SaveAggregate'' (cst_opaqueStore st) gz mo (now 0) c ce s m = (s', r')"
    by (simp add: cosmosdb_ops_def cosmosdb_SaveAggregate_def)
  from cosmosdb_same [where evs = evs, OF SaveAggregate_apart [OF apart this]] inv
  show "cosmosdb_inv evs s' \<and> cosmosdb_log evs s' = cosmosdb_log evs s" by simp
next
  fix s s' ce k h and h' :: history assume "cosmosdb_inv evs s"
    and "st_load (cosmosdb_ops st js gz mo now c) ce s k = (s', Inr h)"
  then show "cosmosdb_inv evs (st_writeback (cosmosdb_ops st js gz mo now c) s' k h')
      \<and> (cosmosdb_log evs (st_writeback (cosmosdb_ops st js gz mo now c) s' k h') = cosmosdb_log evs s'
        \<or> cosmosdb_log evs (st_writeback (cosmosdb_ops st js gz mo now c) s' k h') = (cosmosdb_log evs s')(k := map rec_vd h'))"
    by (auto simp: cosmosdb_ops_def)
qed (simp add: cosmosdb_ops_def)

end

end
