(* ===== verification/CosmosStoreProperties.thy ===== *)
theory CosmosStoreProperties
  imports CosmosStoreContract CosmosContract
begin

text \<open>
  The properties of the Cosmos event store, with a concrete container for the witnesses: the
  documents of each partition in version order, served in pages of two.
\<close>

section \<open>A concrete events container\<close>

type_synonym plain_docs = "string \<Rightarrow> event_doc list"
type_synonym plain_pager = "cosmos_sql \<times> nat \<times> bool"

definition plain_left :: "plain_docs \<Rightarrow> plain_pager \<Rightarrow> event_doc list" where
  "plain_left s p =
     (case p of (q, pos, finished) \<Rightarrow>
        if finished then []
        else (case cq_partition q of
            None \<Rightarrow> []
          | Some k \<Rightarrow> drop pos (if cq_text q = cq_text (cosmos_events_query True k 0) then s k else rev (s k))))"

definition plain_next :: "ctx \<Rightarrow> plain_docs \<Rightarrow> plain_pager \<Rightarrow> plain_pager \<times> (goerr + event_doc list)" where
  "plain_next c s p =
     (case p of (q, pos, finished) \<Rightarrow>
        ((q, pos + 2, drop 2 (plain_left s p) = []), Inr (take 2 (plain_left s p))))"

definition plain_batch :: "ctx \<Rightarrow> string \<Rightarrow> event_doc list \<Rightarrow> plain_docs \<Rightarrow> plain_docs \<times> (goerr + batch_response)" where
  "plain_batch c k ds s =
     (if distinct (map ed_id (s k @ ds))
      then (s(k := sort_key (\<lambda>d. sint (ed_v d)) (s k @ ds)),
            Inr \<lparr>br_success = True, br_results = map (\<lambda>d. (201, [])) ds\<rparr>)
      else (s, Inr \<lparr>br_success = False, br_results = [(424, []), (409, ''Conflict'')]\<rparr>))"

definition plain_sdk :: "(plain_docs, event_doc, plain_pager) cosmos_sdk" where
  "plain_sdk =
     \<lparr>sdk_create = (\<lambda>c k d s. (s, Some cosmos_409)), sdk_upsert = (\<lambda>c k d s. (s, Some cosmos_409)),
      sdk_read = (\<lambda>c k i s. Inl cosmos_404), sdk_delete = (\<lambda>c k i s. (s, Some cosmos_404)),
      sdk_pager = (\<lambda>q. (q, 0, False)), sdk_more = (\<lambda>(q, pos, finished). \<not> finished),
      sdk_next = plain_next, sdk_batch = plain_batch\<rparr>"

definition plain_todo :: "plain_docs \<Rightarrow> plain_pager \<Rightarrow> nat" where
  "plain_todo s p = (if snd (snd p) then 0 else Suc (length (plain_left s p)))"

lemma list_all2_plain: "list_all2 (\<lambda>d raw. js_marshal plain_json d = Inr raw) ds raws \<longleftrightarrow> raws = ds"
  by (auto simp: plain_json_def list_all2_conv_all_nth intro: nth_equalityI)

lemma plain_next_left:
  assumes "plain_next c s p = (p', Inr page)" "\<not> snd (snd p)"
  shows "plain_left s p = page @ plain_left s p'" "plain_todo s p' < plain_todo s p"
proof -
  obtain q pos where p: "p = (q, pos, False)" using assms(2) by (cases p) auto
  let ?xs = "plain_left s p"
  have p': "p' = (q, pos + 2, drop 2 ?xs = [])" and page: "page = take 2 ?xs"
    using assms(1) by (auto simp: plain_next_def p)
  have left: "plain_left s p' = drop 2 ?xs"
    by (auto simp: p' p plain_left_def add.commute split: option.splits)
  then show "?xs = page @ plain_left s p'" by (simp add: page)
  have "plain_todo s p' = (if drop 2 ?xs = [] then 0 else Suc (length (drop 2 ?xs)))"
    unfolding plain_todo_def left by (simp add: p')
  moreover have "plain_todo s p = Suc (length ?xs)" by (simp add: plain_todo_def p)
  ultimately show "plain_todo s p' < plain_todo s p" by auto
qed

interpretation pq: cosmos_events plain_sdk plain_json "\<lambda>s. s" plain_left plain_todo
proof unfold_locales
  fix k raws s s' resp c and ds :: "event_doc list"
  assume "list_all2 (\<lambda>d raw. js_marshal plain_json d = Inr raw) ds raws"
    "sdk_batch plain_sdk c k raws s = (s', Inr resp)" "br_success resp"
  then show "distinct (map ed_id (s k @ ds)) \<and> s' = s(k := sort_key (\<lambda>d. sint (ed_v d)) (s k @ ds))"
    by (auto simp: list_all2_plain plain_sdk_def plain_batch_def split: if_splits)
next
  fix k raws s s' resp c and ds :: "event_doc list"
  assume "list_all2 (\<lambda>d raw. js_marshal plain_json d = Inr raw) ds raws" "\<not> distinct (map ed_id (s k @ ds))"
    "sdk_batch plain_sdk c k raws s = (s', Inr resp)"
  then have "br_results resp = [(424, [])] @ (409, ''Conflict'') # []"
    unfolding list_all2_plain plain_sdk_def by (auto simp: plain_batch_def simp del: distinct_append)
  then show "\<exists>pre body post. br_results resp = pre @ (409, body) # post \<and> (\<forall>r \<in> set pre. fst r = 424)"
    by (intro exI [of _ "[(424, [])]"] exI [of _ "''Conflict''"] exI [of _ "[]"]) simp
next
  fix p c s p' page
  assume "sdk_more plain_sdk p" "sdk_next plain_sdk c s p = (p', Inr page)"
  then show "\<exists>ds. list_all2 (\<lambda>raw d. js_unmarshal plain_json raw = Inr d) page ds
      \<and> plain_left s p = ds @ plain_left s p' \<and> plain_todo s p' < plain_todo s p"
    using plain_next_left [of c s p p' page]
    by (intro exI [of _ page]) (auto simp: plain_json_def list.rel_refl plain_sdk_def split: prod.splits)
qed (auto simp: plain_json_def plain_sdk_def plain_batch_def plain_left_def cosmos_events_query_def
    split: if_splits prod.splits option.splits)

definition ex_cosmosdb :: "(plain_docs, event_doc, plain_pager) cosmosdb_store" where
  "ex_cosmosdb = \<lparr>cst_events = cosmos_Wrap plain_sdk, cst_opaqueStore = None, cst_ttl = 0\<rparr>"

lemma ex_cosmosdb_ok:
  "cst_events ex_cosmosdb = cosmos_Wrap plain_sdk" "opaque_apart evs (cst_opaqueStore ex_cosmosdb)"
  by (simp_all add: ex_cosmosdb_def opaque_apart_def)

interpretation cw: batch_writer "cosmosdb_inv (\<lambda>s. s)" "cosmosdb_log (\<lambda>s. s)"
    "\<lambda>k i. cosmosdb_batch ex_cosmosdb plain_json (now i) background k" for now
  by (rule pq.cosmosdb_batches [OF ex_cosmosdb_ok(1)])

definition ex_docs :: plain_docs where
  "ex_docs = (\<lambda>_. [])(''k'' := [\<lparr>ed_id = dec_int64 1, ed_a = ''k'', ed_v = 1, ed_d = [5], ed_t = 0, ed_ttl = 0\<rparr>])"

lemma ex_docs_inv: "cosmosdb_inv (\<lambda>s. s) ex_docs"
  by (simp add: cosmosdb_inv_def event_docs_of_def ex_docs_def)

section \<open>Properties\<close>

text \<open>
  C34. The Cosmos store is an event-log store: over the wrapped SDK client of any Cosmos container
  with its documented behaviour, when aggregates are materialized elsewhere, it keeps the whole
  contract that the repository relies on, its loops over pages (empty ones included) end, and a
  load without an error returns the whole log, a tail load its last records.
\<close>

theorem cosmosdb_keeps_contract:
  assumes "cosmos_events w js evs left todo" "cst_events st = cosmos_Wrap w"
    and "opaque_apart evs (cst_opaqueStore st)"
  shows "event_log_store (cosmosdb_ops st js gz mo now c) (cosmosdb_inv evs) (cosmosdb_log evs)
    \<and> (\<exists>r. cosmosdb_Load st js c ce s k = Some r) \<and> (\<exists>r. cosmosdb_LoadTail st js c ce s k n = Some r)"
  using cosmos_events.keeps_log_contract [OF assms] cosmos_events.cosmosdb_load_returns [OF assms(1,2)] by blast

definition ex_text_ops :: "string message_ops" where
  "ex_text_ops = \<lparr>mo_type_name = (\<lambda>_. ''*v1.Order''), mo_auto = (\<lambda>_. None), mo_ttl_seconds = (\<lambda>_. None)\<rparr>"

theorem cosmosdb_keeps_contract_witness:
  "event_log_store (cosmosdb_ops ex_cosmosdb plain_json plain_gzip ex_text_ops (\<lambda>_. 0) background)
      (cosmosdb_inv (\<lambda>s. s)) (cosmosdb_log (\<lambda>s. s))
    \<and> (\<exists>r. cosmosdb_Load ex_cosmosdb plain_json background None ex_docs ''k'' = Some r)
    \<and> (\<exists>r. cosmosdb_LoadTail ex_cosmosdb plain_json background None ex_docs ''k'' 1 = Some r)"
  by (rule cosmosdb_keeps_contract [OF pq.cosmos_events_axioms ex_cosmosdb_ok])

text \<open>
  C35. Version conflicts are recognized: a save of at most a hundred records one of whose versions is
  already in the log, or occurs twice among them, changes nothing and returns an error that
  \<open>IsConflict\<close> classifies as a conflict, provided that the SDK answers the batch.
\<close>

theorem cosmosdb_conflict_recognized:
  assumes "cosmos_events w js evs left todo" "cst_events st = cosmos_Wrap w" "cosmosdb_inv evs s"
    and "rs \<noteq> []" "length rs \<le> 100" "\<not> distinct (map fst (cosmosdb_log evs s k) @ map rec_version rs)"
    and "\<exists>bodies. marshal_docs st js (now 0) k rs = Inr bodies"
    and "\<forall>bodies. \<exists>s1 resp. sdk_batch w c k bodies s = (s1, Inr resp)"
    and "cosmosdb_Save st js now c None s k rs = (s', r)"
  shows "\<exists>e. r = Some e \<and> cosmosdb_IsConflict e \<and> evs s' = evs s"
  by (rule cosmos_events.cosmosdb_conflict [OF assms])

theorem cosmosdb_conflict_recognized_witness:
  "\<exists>e. snd (cosmosdb_Save ex_cosmosdb plain_json (\<lambda>_. 0) background None ex_docs ''k''
       [\<lparr>rec_version = 1, rec_data = [6], rec_ttl = 0\<rparr>]) = Some e \<and> cosmosdb_IsConflict e"
proof -
  let ?rs = "[\<lparr>rec_version = 1, rec_data = [6], rec_ttl = 0\<rparr>] :: pb_record list"
  have taken: "\<not> distinct (map fst (cosmosdb_log (\<lambda>s. s) ex_docs ''k'') @ map rec_version ?rs)"
    by (simp add: cosmosdb_log_def doc_vd_def ex_docs_def)
  have marsh: "\<exists>bodies. marshal_docs ex_cosmosdb plain_json 0 ''k'' ?rs = Inr bodies" by (simp add: plain_json_def)
  have answer: "\<forall>bodies. \<exists>s1 resp. sdk_batch plain_sdk background ''k'' bodies ex_docs = (s1, Inr resp)"
    by (simp add: plain_sdk_def plain_batch_def)
  show ?thesis
    using cosmosdb_conflict_recognized [OF pq.cosmos_events_axioms ex_cosmosdb_ok(1) ex_docs_inv _ _ taken marsh answer
        prod.collapse [symmetric]] by auto
qed

end
