(* ===== verification/Provisioning.thy ===== *)
theory Provisioning
  imports CosmosClient DynamoOpaque
begin

text \<open>
  stores/dynamodbstore/tables.go and stores/cosmosdbstore/containers.go: creating the tables and
  containers when they are missing. The administration clients are parameters.
\<close>

section \<open>DynamoDB tables\<close>

datatype attr_type = AttrS | AttrN
datatype key_type = KeyHash | KeyRange

record gsi_spec =
  gs_name :: string
  gs_keys :: "(string \<times> key_type) list"
  gs_projection :: string

record table_spec =
  tb_name :: string
  tb_attrs :: "(string \<times> attr_type) list"
  tb_keys :: "(string \<times> key_type) list"
  tb_gsis :: "gsi_spec list"
  tb_billing :: string
  tb_protected :: bool

text \<open>The calls of \<open>dynamodb.Client\<close>; \<open>da_wait\<close> is the table-exists waiter.\<close>

record 's dynamo_admin =
  da_describe :: "string \<Rightarrow> 's \<Rightarrow> goerr option"
  da_create :: "table_spec \<Rightarrow> 's \<Rightarrow> 's \<times> goerr option"
  da_wait :: "string \<Rightarrow> 's \<Rightarrow> goerr option"
  da_backups :: "string \<Rightarrow> 's \<Rightarrow> 's \<times> goerr option"
  da_ttl :: "string \<Rightarrow> string \<Rightarrow> 's \<Rightarrow> 's \<times> goerr option"

definition NumGSIs :: nat where "NumGSIs = 20"

definition tableExists :: "'s dynamo_admin \<Rightarrow> string \<Rightarrow> 's \<Rightarrow> goerr + bool" where
  "tableExists cl name s =
     (case da_describe cl name s of
        None \<Rightarrow> Inr True
      | Some e \<Rightarrow> if err_as ''types.ResourceNotFoundException'' e \<noteq> None then Inr False else Inl e)"

definition enablePITR :: "'s dynamo_admin \<Rightarrow> string \<Rightarrow> 's \<Rightarrow> 's" where
  "enablePITR cl name s = fst (da_backups cl name s)"

definition enableTTL :: "'s dynamo_admin \<Rightarrow> string \<Rightarrow> 's \<Rightarrow> 's" where
  "enableTTL cl name s = fst (da_ttl cl name ''t'' s)"

definition events_table :: "string \<Rightarrow> table_spec" where
  "events_table name =
     \<lparr>tb_name = name, tb_attrs = [(''a'', AttrS), (''v'', AttrN)],
      tb_keys = [(''a'', KeyHash), (''v'', KeyRange)], tb_gsis = [],
      tb_billing = ''PAY_PER_REQUEST'', tb_protected = True\<rparr>"

text \<open>The loop over the slots: their two attributes and their index.\<close>

definition slot_attrs :: "nat \<Rightarrow> (string \<times> attr_type) list" where
  "slot_attrs i = [(''gsi'' @ dec_nat i @ ''pk'', AttrS), (''gsi'' @ dec_nat i @ ''sk'', AttrS)]"

definition slot_index :: "nat \<Rightarrow> gsi_spec" where
  "slot_index i =
     (let pkAttr = ''gsi'' @ dec_nat i @ ''pk''; skAttr = ''gsi'' @ dec_nat i @ ''sk''
      in \<lparr>gs_name = pkAttr @ ''-'' @ skAttr @ ''-index'',
          gs_keys = [(pkAttr, KeyHash), (skAttr, KeyRange)], gs_projection = ''ALL''\<rparr>)"

definition aggregates_table :: "string \<Rightarrow> table_spec" where
  "aggregates_table name =
     \<lparr>tb_name = name,
      tb_attrs = [(''pk'', AttrS), (''sk'', AttrS)] @ concat (map slot_attrs [1..<Suc NumGSIs]),
      tb_keys = [(''pk'', KeyHash), (''sk'', KeyRange)], tb_gsis = map slot_index [1..<Suc NumGSIs],
      tb_billing = ''PAY_PER_REQUEST'', tb_protected = True\<rparr>"

text \<open>What \<open>ensureEventsTable\<close> and \<open>ensureAggregatesTable\<close> do with the table they describe.\<close>

definition ensure_table :: "'s dynamo_admin \<Rightarrow> table_spec \<Rightarrow> 's \<Rightarrow> 's \<times> goerr option" where
  "ensure_table cl spec s =
     (case tableExists cl (tb_name spec) s of
        Inl e \<Rightarrow> (s, Some e)
      | Inr True \<Rightarrow> (s, None)
      | Inr False \<Rightarrow> (case da_create cl spec s of
          (s1, Some e) \<Rightarrow> (s1, Some (errorf ''CreateTable: '' e))
        | (s1, None) \<Rightarrow> (case da_wait cl (tb_name spec) s1 of
            Some e \<Rightarrow> (s1, Some e)
          | None \<Rightarrow> (enableTTL cl (tb_name spec) (enablePITR cl (tb_name spec) s1), None))))"

definition ensureEventsTable :: "'s dynamo_admin \<Rightarrow> string \<Rightarrow> 's \<Rightarrow> 's \<times> goerr option" where
  "ensureEventsTable cl name s = ensure_table cl (events_table name) s"

definition ensureAggregatesTable :: "'s dynamo_admin \<Rightarrow> string \<Rightarrow> 's \<Rightarrow> 's \<times> goerr option" where
  "ensureAggregatesTable cl name s = ensure_table cl (aggregates_table name) s"

definition EnsureTables :: "'s dynamo_admin \<Rightarrow> string \<Rightarrow> string \<Rightarrow> 's \<Rightarrow> 's \<times> goerr option" where
  "EnsureTables cl eventsTable aggregatesTable s =
     (case ensureEventsTable cl eventsTable s of
        (s1, Some e) \<Rightarrow> (s1, Some (errorf (''ensure events table '' @ Quote eventsTable @ '': '') e))
      | (s1, None) \<Rightarrow> (case ensureAggregatesTable cl aggregatesTable s1 of
          (s2, Some e) \<Rightarrow> (s2, Some (errorf (''ensure aggregates table '' @ Quote aggregatesTable @ '': '') e))
        | (s2, None) \<Rightarrow> (s2, None)))"

section \<open>Cosmos containers\<close>

record container_spec =
  ct_id :: string
  ct_paths :: "string list"
  ct_default_ttl :: int

text \<open>The calls of \<open>azcosmos.Client\<close> and \<open>azcosmos.DatabaseClient\<close>; handles are their ids.\<close>

record 's cosmos_admin =
  ca_new_database :: "string \<Rightarrow> goerr option"
  ca_read_database :: "string \<Rightarrow> 's \<Rightarrow> goerr option"
  ca_create_database :: "string \<Rightarrow> 's \<Rightarrow> 's \<times> goerr option"
  ca_new_container :: "string \<Rightarrow> string \<Rightarrow> goerr option"
  ca_read_container :: "string \<Rightarrow> string \<Rightarrow> 's \<Rightarrow> goerr option"
  ca_create_container :: "string \<Rightarrow> container_spec \<Rightarrow> 's \<Rightarrow> 's \<times> goerr option"

definition containers_isNotFound :: "goerr \<Rightarrow> bool" where
  "containers_isNotFound err = response_status err 404"

definition containers_isConflict :: "goerr \<Rightarrow> bool" where
  "containers_isConflict err = response_status err 409"

definition defaultTTLMinusOne :: int where "defaultTTLMinusOne = -1"

definition EnsureDatabase :: "'s cosmos_admin \<Rightarrow> string \<Rightarrow> 's \<Rightarrow> 's \<times> (goerr + string)" where
  "EnsureDatabase cl databaseID s =
     (case ca_new_database cl databaseID of
        Some e \<Rightarrow> (s, Inl (errorf ''cosmosdbstore.EnsureDatabase: handle: '' e))
      | None \<Rightarrow> (case ca_read_database cl databaseID s of
          None \<Rightarrow> (s, Inr databaseID)
        | Some e \<Rightarrow>
            if \<not> containers_isNotFound e then (s, Inl (errorf ''cosmosdbstore.EnsureDatabase: read: '' e))
            else (case ca_create_database cl databaseID s of
                (s1, Some e1) \<Rightarrow>
                  if \<not> containers_isConflict e1 then (s1, Inl (errorf ''cosmosdbstore.EnsureDatabase: create: '' e1))
                  else (s1, Inr databaseID)
              | (s1, None) \<Rightarrow> (s1, Inr databaseID))))"

definition ensureContainer ::
    "'s cosmos_admin \<Rightarrow> string \<Rightarrow> string \<Rightarrow> string \<Rightarrow> 's \<Rightarrow> 's \<times> goerr option" where
  "ensureContainer cl db cid partitionKeyPath s =
     (case ca_new_container cl db cid of
        Some e \<Rightarrow> (s, Some (errorf ''handle: '' e))
      | None \<Rightarrow> (case ca_read_container cl db cid s of
          None \<Rightarrow> (s, None)
        | Some e \<Rightarrow>
            if \<not> containers_isNotFound e then (s, Some (errorf ''read: '' e))
            else (let props = \<lparr>ct_id = cid, ct_paths = [partitionKeyPath], ct_default_ttl = defaultTTLMinusOne\<rparr>
                  in case ca_create_container cl db props s of
                       (s1, Some e1) \<Rightarrow>
                         if \<not> containers_isConflict e1 then (s1, Some (errorf ''create: '' e1)) else (s1, None)
                     | (s1, None) \<Rightarrow> (s1, None))))"

definition EnsureContainers ::
    "'s cosmos_admin \<Rightarrow> string \<Rightarrow> string \<Rightarrow> string \<Rightarrow> 's \<Rightarrow> 's \<times> goerr option" where
  "EnsureContainers cl db eventsContainer aggregatesContainer s =
     (case ensureContainer cl db eventsContainer (''/'' @ ''a'') s of
        (s1, Some e) \<Rightarrow> (s1, Some (errorf (''ensure events container '' @ Quote eventsContainer @ '': '') e))
      | (s1, None) \<Rightarrow> (case ensureContainer cl db aggregatesContainer ''/pk'' s1 of
          (s2, Some e) \<Rightarrow>
            (s2, Some (errorf (''ensure aggregates container '' @ Quote aggregatesContainer @ '': '') e))
        | (s2, None) \<Rightarrow> (s2, None)))"

end
