(* ===== verification/ProvisioningProperties.thy ===== *)
theory ProvisioningProperties
  imports Provisioning "HOL-Library.Finite_Map"
begin

text \<open>
  What creating tables and containers does, over the documented behaviour of the administration
  clients: \<open>tables\<close> and \<open>containers\<close> are what exists. A create call that answers 409 has found
  another process's container.
\<close>

section \<open>The services\<close>

locale dynamo_tables =
  fixes cl :: "'s dynamo_admin" and tables :: "'s \<Rightarrow> string \<Rightarrow> table_spec option"
  assumes describe: "da_describe cl name s = None \<Longrightarrow> tables s name \<noteq> None"
    and describe_missing: "da_describe cl name s = Some e \<Longrightarrow> err_as ''types.ResourceNotFoundException'' e \<noteq> None \<Longrightarrow>
      tables s name = None"
    and create_done: "da_create cl spec s = (s', None) \<Longrightarrow> tables s' = (tables s)(tb_name spec \<mapsto> spec)"
    and create_failed: "da_create cl spec s = (s', Some e) \<Longrightarrow> tables s' = tables s"
    and backups: "da_backups cl name s = (s', r) \<Longrightarrow> tables s' = tables s"
    and ttl: "da_ttl cl name attr s = (s', r) \<Longrightarrow> tables s' = tables s"
begin

lemma ensure_table_exact:
  assumes "ensure_table cl spec s = (s', r)"
  shows "tables s' = tables s \<or> (tables s (tb_name spec) = None \<and> tables s' = (tables s)(tb_name spec \<mapsto> spec))"
    and "r = None \<Longrightarrow> tables s' (tb_name spec) \<noteq> None"
proof -
  have keep: "tables (enableTTL cl n (enablePITR cl n s1)) = tables s1" for n s1
    using ttl [OF prod.collapse [symmetric]] backups [OF prod.collapse [symmetric]]
    by (simp add: enableTTL_def enablePITR_def)
  obtain s1 r1 where c: "da_create cl spec s = (s1, r1)" by fastforce
  show "tables s' = tables s \<or> (tables s (tb_name spec) = None \<and> tables s' = (tables s)(tb_name spec \<mapsto> spec))"
    "r = None \<Longrightarrow> tables s' (tb_name spec) \<noteq> None"
    using assms c describe [of "tb_name spec" s] describe_missing [of "tb_name spec" s]
      create_done [of spec s s1] create_failed [of spec s s1]
    by (cases r1; auto simp: ensure_table_def tableExists_def keep split: option.splits sum.splits if_splits)+
qed

end

locale cosmos_containers =
  fixes cl :: "'s cosmos_admin" and db :: string and containers :: "'s \<Rightarrow> string \<Rightarrow> container_spec option"
  assumes read: "ca_read_container cl db n s = None \<Longrightarrow> containers s n \<noteq> None"
    and create: "ca_create_container cl db spec s = (s', r) \<Longrightarrow> containers s \<subseteq>\<^sub>m containers s'
      \<and> (r = None \<longrightarrow> containers s' (ct_id spec) = Some spec)
      \<and> (\<forall>e. r = Some e \<longrightarrow> containers_isConflict e \<longrightarrow> containers s' (ct_id spec) \<noteq> None)"
begin

lemma ensureContainer_exists:
  assumes "ensureContainer cl db n path s = (s', r)"
  shows "containers s \<subseteq>\<^sub>m containers s'" "r = None \<Longrightarrow> containers s' n \<noteq> None"
proof -
  let ?spec = "\<lparr>ct_id = n, ct_paths = [path], ct_default_ttl = defaultTTLMinusOne\<rparr>"
  obtain s1 r1 where c: "ca_create_container cl db ?spec s = (s1, r1)" by fastforce
  show "containers s \<subseteq>\<^sub>m containers s'" "r = None \<Longrightarrow> containers s' n \<noteq> None"
    using assms c read [of n s] create [OF c]
    by (auto simp: ensureContainer_def Let_def split: option.splits if_splits)
qed

end

section \<open>Concrete services\<close>

definition table_missing :: goerr where
  "table_missing = Coded ''types.ResourceNotFoundException'' 400 ''ResourceNotFoundException''"

definition plain_tables :: "(string, table_spec) fmap dynamo_admin" where
  "plain_tables =
     \<lparr>da_describe = (\<lambda>n s. if fmlookup s n = None then Some table_missing else None),
      da_create = (\<lambda>spec s. (fmupd (tb_name spec) spec s, None)), da_wait = (\<lambda>n s. None),
      da_backups = (\<lambda>n s. (s, Some (Foreign ''not supported''))),
      da_ttl = (\<lambda>n a s. (s, Some (Foreign ''not supported'')))\<rparr>"

interpretation pt: dynamo_tables plain_tables fmlookup
  by unfold_locales (auto simp: plain_tables_def table_missing_def split: if_splits)

definition container_missing :: goerr where
  "container_missing = Coded ''azcore.ResponseError'' 404 ''404 Not Found''"

definition container_taken :: goerr where
  "container_taken = Coded ''azcore.ResponseError'' 409 ''409 Conflict''"

text \<open>A service in which another process creates a container while ours is being created.\<close>

definition racing_containers :: "(string, container_spec) fmap cosmos_admin" where
  "racing_containers =
     \<lparr>ca_new_database = (\<lambda>n. None), ca_read_database = (\<lambda>n s. None), ca_create_database = (\<lambda>n s. (s, None)),
      ca_new_container = (\<lambda>d n. None),
      ca_read_container = (\<lambda>d n s. if fmlookup s n = None then Some container_missing else None),
      ca_create_container = (\<lambda>d spec s. if fmlookup s (ct_id spec) = None
        then (fmupd (ct_id spec) \<lparr>ct_id = ct_id spec, ct_paths = [''/a''], ct_default_ttl = 5\<rparr> s, Some container_taken)
        else (s, Some container_taken))\<rparr>"

interpretation pcc: cosmos_containers racing_containers "''db''" fmlookup
  by unfold_locales (auto simp: racing_containers_def container_taken_def container_missing_def containers_isConflict_def
      response_status_def map_le_def dom_def split: if_splits)

section \<open>Properties\<close>

text \<open>
  Creating tables is safe and idempotent: \<open>EnsureTables\<close> never changes a table that exists, nor
  any table but the two; on success both exist, those it made with the key schema of the events
  table and of the aggregates table; run again after a success it changes no table.
\<close>

theorem ensure_tables_idempotent:
  assumes "dynamo_tables cl tables" "EnsureTables cl ev ag s = (s1, None)" "EnsureTables cl ev ag s1 = (s2, r)"
  shows "tables s1 ev = (case tables s ev of None \<Rightarrow> Some (events_table ev) | Some t \<Rightarrow> Some t)
    \<and> (ev \<noteq> ag \<longrightarrow> tables s1 ag = (case tables s ag of None \<Rightarrow> Some (aggregates_table ag) | Some t \<Rightarrow> Some t))
    \<and> (\<forall>n. n \<noteq> ev \<longrightarrow> n \<noteq> ag \<longrightarrow> tables s1 n = tables s n) \<and> tables s2 = tables s1"
proof -
  have names: "tb_name (events_table ev) = ev" "tb_name (aggregates_table ag) = ag"
    by (simp_all add: events_table_def aggregates_table_def)
  obtain sa where a: "ensure_table cl (events_table ev) s = (sa, None)" "ensure_table cl (aggregates_table ag) sa = (s1, None)"
    using assms(2) by (auto simp: EnsureTables_def ensureEventsTable_def ensureAggregatesTable_def split: prod.splits option.splits)
  note ea = dynamo_tables.ensure_table_exact [OF assms(1) a(1), unfolded names]
  note eb = dynamo_tables.ensure_table_exact [OF assms(1) a(2), unfolded names]
  obtain sb rb where b: "ensure_table cl (events_table ev) s1 = (sb, rb)" by fastforce
  note ec = dynamo_tables.ensure_table_exact [OF assms(1) b, unfolded names]
  have ex: "tables s1 ev \<noteq> None" "tables s1 ag \<noteq> None" using ea eb by auto
  have sb: "tables sb = tables s1" using ec(1) ex(1) by auto
  have "tables s2 = tables s1"
  proof (cases rb)
    case (Some e)
    with assms(3) b sb show ?thesis by (simp add: EnsureTables_def ensureEventsTable_def)
  next
    case None
    obtain sc rc where c: "ensure_table cl (aggregates_table ag) sb = (sc, rc)" by fastforce
    note ed = dynamo_tables.ensure_table_exact [OF assms(1) c, unfolded names]
    have "tables sc = tables s1" using ed(1) ex(2) sb by auto
    moreover have "s2 = sc"
      using assms(3) b None c
      by (auto simp: EnsureTables_def ensureEventsTable_def ensureAggregatesTable_def split: option.splits)
    ultimately show ?thesis by simp
  qed
  moreover have "tables s1 ev = (case tables s ev of None \<Rightarrow> Some (events_table ev) | Some t \<Rightarrow> Some t)"
    using ea eb(1) by (auto split: option.splits)
  moreover have "ev \<noteq> ag \<Longrightarrow> tables s1 ag = (case tables s ag of None \<Rightarrow> Some (aggregates_table ag) | Some t \<Rightarrow> Some t)"
    using ea(1) eb by (auto split: option.splits)
  moreover have "\<forall>n. n \<noteq> ev \<longrightarrow> n \<noteq> ag \<longrightarrow> tables s1 n = tables s n" using ea(1) eb(1) by auto
  ultimately show ?thesis by blast
qed

theorem ensure_tables_idempotent_witness:
  "fmlookup (fst (EnsureTables plain_tables ''ev'' ''ag'' fmempty)) ''ag'' = Some (aggregates_table ''ag'')"
proof -
  have run: "snd (EnsureTables plain_tables ''ev'' ''ag'' fmempty) = None"
    by (simp add: EnsureTables_def ensureEventsTable_def ensureAggregatesTable_def ensure_table_def tableExists_def
        plain_tables_def table_missing_def events_table_def aggregates_table_def enableTTL_def enablePITR_def)
  then have run1: "EnsureTables plain_tables ''ev'' ''ag'' fmempty = (fst (EnsureTables plain_tables ''ev'' ''ag'' fmempty), None)"
    by (simp add: prod_eq_iff)
  from ensure_tables_idempotent [OF pt.dynamo_tables_axioms run1 prod.collapse [symmetric]] show ?thesis by simp
qed

text \<open>
  C37. The aggregates table has the indexes that the opaque store queries: for each slot from 1 to 20
  exactly one index has the name \<open>GSIIndexName\<close> gives the query, and its keys are the two
  attributes that the store's items and queries use for the slot, both declared as strings.
\<close>

theorem aggregates_table_serves_queries:
  "length (tb_gsis (aggregates_table n)) = 20 \<and> tb_keys (aggregates_table n) = [(fst (index_attrs 0), KeyHash), (snd (index_attrs 0), KeyRange)]
   \<and> (\<forall>i \<in> {1..20}. tb_gsis (aggregates_table n) ! (i - 1)
        = \<lparr>gs_name = GSIIndexName (int i), gs_keys = [(fst (index_attrs i), KeyHash), (snd (index_attrs i), KeyRange)],
           gs_projection = ''ALL''\<rparr>
      \<and> (fst (index_attrs i), AttrS) \<in> set (tb_attrs (aggregates_table n))
      \<and> (snd (index_attrs i), AttrS) \<in> set (tb_attrs (aggregates_table n)))"
proof (intro conjI ballI)
  fix i :: nat assume i: "i \<in> {1..20}"
  then have "map slot_index [1..<Suc NumGSIs] ! (i - 1) = slot_index i"
    by (subst nth_map) (auto simp: NumGSIs_def simp del: upt_Suc)
  then have "tb_gsis (aggregates_table n) ! (i - 1) = slot_index i" by (simp add: aggregates_table_def del: upt_Suc One_nat_def)
  then show "tb_gsis (aggregates_table n) ! (i - 1)
      = \<lparr>gs_name = GSIIndexName (int i), gs_keys = [(fst (index_attrs i), KeyHash), (snd (index_attrs i), KeyRange)],
         gs_projection = ''ALL''\<rparr>"
    using i by (simp add: slot_index_def GSIIndexName_def index_attrs_def gsi_attr_def dec_int_def Let_def)
  have "i \<in> set [1..<Suc NumGSIs]" using i by (simp add: NumGSIs_def)
  then show "(fst (index_attrs i), AttrS) \<in> set (tb_attrs (aggregates_table n))"
    "(snd (index_attrs i), AttrS) \<in> set (tb_attrs (aggregates_table n))"
    using i by (auto simp: aggregates_table_def slot_attrs_def index_attrs_def gsi_attr_def simp del: upt_Suc)
qed (simp_all add: aggregates_table_def NumGSIs_def index_attrs_def del: upt_Suc)

theorem aggregates_table_serves_queries_witness:
  "gs_name (tb_gsis (aggregates_table ''t'') ! 0) = GSIIndexName 1"
  using bspec [OF conjunct2 [OF conjunct2 [OF aggregates_table_serves_queries [of "''t''"]]], of 1] by simp

text \<open>
  Creating containers tolerates races: \<open>EnsureContainers\<close> never changes a container that exists,
  and on success both containers exist, also when another process made one between the read and
  the create (409).
\<close>

theorem ensure_containers_exist:
  assumes "cosmos_containers cl db containers" "EnsureContainers cl db ev ag s = (s', r)"
  shows "containers s \<subseteq>\<^sub>m containers s' \<and> (r = None \<longrightarrow> containers s' ev \<noteq> None \<and> containers s' ag \<noteq> None)"
proof -
  obtain s1 r1 where a: "ensureContainer cl db ev ''/a'' s = (s1, r1)" by fastforce
  obtain s2 r2 where b: "ensureContainer cl db ag ''/pk'' s1 = (s2, r2)" by fastforce
  note ea = cosmos_containers.ensureContainer_exists [OF assms(1) a]
  note eb = cosmos_containers.ensureContainer_exists [OF assms(1) b]
  have "(s' = s1 \<and> r1 \<noteq> None \<and> r \<noteq> None) \<or> (s' = s2 \<and> r1 = None \<and> (r = None \<longrightarrow> r2 = None))"
    using assms(2) a b by (auto simp: EnsureContainers_def split: option.splits)
  with ea eb map_le_trans [OF ea(1) eb(1)] show ?thesis by (auto simp: map_le_def dom_def)
qed

theorem ensure_containers_exist_witness:
  "fmlookup (fst (EnsureContainers racing_containers ''db'' ''events'' ''aggregates'' fmempty)) ''aggregates'' \<noteq> None"
proof -
  have "snd (EnsureContainers racing_containers ''db'' ''events'' ''aggregates'' fmempty) = None"
    by (simp add: EnsureContainers_def ensureContainer_def racing_containers_def container_missing_def container_taken_def
        containers_isNotFound_def containers_isConflict_def response_status_def)
  with ensure_containers_exist [OF pcc.cosmos_containers_axioms prod.collapse [symmetric]] show ?thesis by blast
qed

end
