(* ===== verification/Adapters.thy ===== *)
theory Adapters
  imports Router Strconv
begin

text \<open>
  adapters/awslambda/adapter.go and adapters/httpstandard/adapter.go: handlers and routers behind
  AWS API Gateway and behind net/http. A Go map that the code ranges over is the list of its
  entries in the order of the iteration, or comes with a function \<open>order\<close> that gives the keys
  in that order. \<open>http.Cookie.String\<close> is a parameter \<open>ck\<close> (empty for an invalid cookie).
\<close>

section \<open>AWS Lambda\<close>

text \<open>The fields of \<open>events.APIGatewayProxyRequest\<close> and \<open>APIGatewayProxyResponse\<close> that are used.\<close>

record api_request =
  ar_method :: string
  ar_path :: string
  ar_headers :: "(string \<times> string) list"
  ar_query :: string_map
  ar_path_params :: string_map
  ar_body :: string
  ar_base64 :: bool

record api_response =
  as_status :: int
  as_headers :: string_map
  as_multi_headers :: "(string \<times> string list) list"
  as_body :: string
  as_base64 :: bool

definition lowercaseHeaders :: "(string \<times> string) list \<Rightarrow> string_map" where
  "lowercaseHeaders hs = fold (\<lambda>(k, v) out. out(to_lower k \<mapsto> v)) hs (\<lambda>_. None)"

definition decodeRequest :: "api_request \<Rightarrow> request option" where
  "decodeRequest rq =
     map_option (\<lambda>body. \<lparr>rq_body = body, rq_path_parameters = ar_path_params rq,
                          rq_query_parameters = ar_query rq, rq_headers = lowercaseHeaders (ar_headers rq)\<rparr>)
       (if ar_base64 rq then map_option string_of_bytes (DecodeString (ar_body rq)) else Some (ar_body rq))"

definition encodeResponse :: "('k \<Rightarrow> string) \<Rightarrow> 'k response \<Rightarrow> api_response" where
  "encodeResponse ck resp =
     (let ct = get_or_empty (rs_headers resp) ''Content-Type'';
          isBinary = (ct = ''application/protobuf'' \<or> ct = ''application/octet-stream'');
          setCookies = filter (\<lambda>c. c \<noteq> []) (map ck (rs_cookies resp))
      in \<lparr>as_status = rs_status resp, as_headers = rs_headers resp,
          as_multi_headers = (if setCookies \<noteq> [] then [(''Set-Cookie'', setCookies)] else []),
          as_body = (if isBinary then EncodeToString (bytes_of_string (rs_body resp)) else rs_body resp),
          as_base64 = isBinary\<rparr>)"

definition bad_base64 :: "'k response" where
  "bad_base64 =
     \<lparr>rs_status = 400, rs_body = error_body ''failed to decode base64 request body'',
      rs_headers = json_headers, rs_cookies = []\<rparr>"

definition lambda_Handle ::
    "('k \<Rightarrow> string) \<Rightarrow> ('s, 'k) handler_func \<Rightarrow> ctx \<Rightarrow> api_request \<Rightarrow> 's \<Rightarrow> 's \<times> api_response" where
  "lambda_Handle ck handler c rq s =
     (case decodeRequest rq of
        None \<Rightarrow> (s, encodeResponse ck bad_base64)
      | Some req \<Rightarrow> (case handler c req s of (s', resp) \<Rightarrow> (s', encodeResponse ck resp)))"

definition lambda_Wrap ::
    "('k \<Rightarrow> string) \<Rightarrow> ('s, 'k) handler_func \<Rightarrow> ctx \<Rightarrow> api_request \<Rightarrow> 's \<Rightarrow> 's \<times> api_response" where
  "lambda_Wrap ck handler = lambda_Handle ck handler"

definition lambda_WrapRouter ::
    "('k \<Rightarrow> string) \<Rightarrow> ('s, 'k) router \<Rightarrow> ctx \<Rightarrow> api_request \<Rightarrow> 's \<Rightarrow> 's \<times> api_response" where
  "lambda_WrapRouter ck router c rq s =
     (case decodeRequest rq of
        None \<Rightarrow> (s, encodeResponse ck bad_base64)
      | Some req \<Rightarrow>
          (case router_Dispatch router c (ar_method rq) (ar_path rq) req s of
             (s', resp) \<Rightarrow> (s', encodeResponse ck resp)))"

section \<open>net/http\<close>

text \<open>
  \<open>textproto.CanonicalMIMEHeaderKey\<close>: a key of token characters has its letters after the start or
  a hyphen in upper case and the others in lower case; any other key stays.
\<close>

definition token_char :: "char \<Rightarrow> bool" where
  "token_char c \<longleftrightarrow>
     (let n = (of_char c :: nat)
      in (65 \<le> n \<and> n \<le> 90) \<or> (97 \<le> n \<and> n \<le> 122) \<or> (48 \<le> n \<and> n \<le> 57)
         \<or> n \<in> {33, 35, 36, 37, 38, 39, 42, 43, 45, 46, 94, 95, 96, 124, 126})"

fun canonical_chars :: "bool \<Rightarrow> string \<Rightarrow> string" where
  "canonical_chars up [] = []"
| "canonical_chars up (c # cs) = (if up then char_upper c else char_lower c) # canonical_chars (c = CHR ''-'') cs"

definition canonical_key :: "string \<Rightarrow> string" where
  "canonical_key k = (if list_all token_char k then canonical_chars True k else k)"

type_synonym header_list = "(string \<times> string list) list"

text \<open>\<open>Header.Get\<close>: the first value of the canonical key.\<close>

definition header_get :: "header_list \<Rightarrow> string \<Rightarrow> string" where
  "header_get h k = (case map_of h (canonical_key k) of Some (v # vs) \<Rightarrow> v | _ \<Rightarrow> [])"

text \<open>\<open>hr_body\<close> is what \<open>io.ReadAll(r.Body)\<close> returns, \<open>hr_query\<close> what \<open>r.URL.Query()\<close> does.\<close>

record http_request =
  hr_method :: string
  hr_path :: string
  hr_header :: header_list
  hr_host :: string
  hr_query :: header_list
  hr_path_value :: "string \<Rightarrow> string"
  hr_body :: "goerr + bytes"

text \<open>What a \<open>ResponseWriter\<close> has been told: a header maps canonical keys to their values.\<close>

type_synonym written_header = "string \<Rightarrow> string list"

record http_written =
  hw_status :: int
  hw_header :: written_header
  hw_body :: string

definition header_set :: "string \<Rightarrow> string \<Rightarrow> written_header \<Rightarrow> written_header" where
  "header_set k v h = h(canonical_key k := [v])"

definition header_add :: "string \<Rightarrow> string \<Rightarrow> written_header \<Rightarrow> written_header" where
  "header_add k v h = h(canonical_key k := h (canonical_key k) @ [v])"

definition unreadable_body :: http_written where
  "unreadable_body =
     \<lparr>hw_status = 400, hw_header = header_set ''Content-Type'' ''application/json'' (\<lambda>_. []),
      hw_body = error_body ''failed to read request body''\<rparr>"

definition http_queryParams :: "header_list \<Rightarrow> string_map" where
  "http_queryParams q = fold (\<lambda>(k, v) m. if length v > 0 then m(k \<mapsto> v ! 0) else m) q (\<lambda>_. None)"

definition http_headers :: "http_request \<Rightarrow> string_map" where
  "http_headers r =
     (fold (\<lambda>(k, v) m. m(to_lower k \<mapsto> header_get (hr_header r) k)) (hr_header r) (\<lambda>_. None))(''host'' \<mapsto> hr_host r)"

definition http_SetCookie :: "('k \<Rightarrow> string) \<Rightarrow> 'k \<Rightarrow> written_header \<Rightarrow> written_header" where
  "http_SetCookie ck c h = (if ck c \<noteq> [] then header_add ''Set-Cookie'' (ck c) h else h)"

definition write_response :: "(string_map \<Rightarrow> string list) \<Rightarrow> ('k \<Rightarrow> string) \<Rightarrow> 'k response \<Rightarrow> http_written" where
  "write_response order ck resp =
     (let h1 = fold (\<lambda>k h. header_set k (get_or_empty (rs_headers resp) k) h) (order (rs_headers resp)) (\<lambda>_. []);
          h2 = fold (http_SetCookie ck) (rs_cookies resp) h1
      in \<lparr>hw_status = rs_status resp, hw_header = h2, hw_body = rs_body resp\<rparr>)"

definition http_Wrap ::
    "(string_map \<Rightarrow> string list) \<Rightarrow> ('k \<Rightarrow> string) \<Rightarrow> ('s, 'k) handler_func \<Rightarrow> ctx \<Rightarrow> http_request \<Rightarrow> 's
     \<Rightarrow> 's \<times> http_written" where
  "http_Wrap order ck handler c r s =
     (case hr_body r of
        Inl e \<Rightarrow> (s, unreadable_body)
      | Inr body \<Rightarrow>
          (let pathParams = (if hr_path_value r ''id'' \<noteq> [] then [''id'' \<mapsto> hr_path_value r ''id''] else (\<lambda>_. None));
               req = \<lparr>rq_body = string_of_bytes body, rq_path_parameters = pathParams,
                      rq_query_parameters = http_queryParams (hr_query r), rq_headers = http_headers r\<rparr>
           in case handler c req s of (s', resp) \<Rightarrow> (s', write_response order ck resp)))"

definition http_WrapRouter ::
    "(string_map \<Rightarrow> string list) \<Rightarrow> ('k \<Rightarrow> string) \<Rightarrow> ('s, 'k) router \<Rightarrow> ctx \<Rightarrow> http_request \<Rightarrow> 's
     \<Rightarrow> 's \<times> http_written" where
  "http_WrapRouter order ck router c r s =
     (case hr_body r of
        Inl e \<Rightarrow> (s, unreadable_body)
      | Inr body \<Rightarrow>
          (let req = \<lparr>rq_body = string_of_bytes body, rq_path_parameters = (\<lambda>_. None),
                      rq_query_parameters = http_queryParams (hr_query r), rq_headers = http_headers r\<rparr>
           in case router_Dispatch router c (hr_method r) (hr_path r) req s of
                (s', resp) \<Rightarrow> (s', write_response order ck resp)))"

definition BearerTokenExtractor :: "http_request \<Rightarrow> string" where
  "BearerTokenExtractor r =
     (let auth = header_get (hr_header r) ''Authorization''
      in if length auth > 7 \<and> take 7 auth = ''Bearer '' then drop 7 auth else [])"

definition HeaderExtractor :: "string \<Rightarrow> http_request \<Rightarrow> string" where
  "HeaderExtractor header r = header_get (hr_header r) header"

end
