(* ===== verification/NetURL.thy ===== *)
theory NetURL
  imports GoPrelude "HOL-Library.List_Lexorder" "HOL-Library.Char_ord"
begin

text \<open>
  Package net/url: escaping of path segments and query components, the encoding of query values,
  and the unescaping of a path that a server does.
\<close>

definition unreserved :: "char \<Rightarrow> bool" where
  "unreserved c \<longleftrightarrow>
     (let n = (of_char c :: nat)
      in (65 \<le> n \<and> n \<le> 90) \<or> (97 \<le> n \<and> n \<le> 122) \<or> (48 \<le> n \<and> n \<le> 57))
     \<or> c \<in> {CHR ''-'', CHR ''_'', CHR ''.'', CHR ''~''}"

definition hex_digit :: "nat \<Rightarrow> char" where
  "hex_digit n = (if n < 10 then char_of (48 + n) else char_of (55 + n))"

definition hex_value :: "char \<Rightarrow> nat option" where
  "hex_value c =
     (let n = (of_char c :: nat)
      in if 48 \<le> n \<and> n \<le> 57 then Some (n - 48) else if 65 \<le> n \<and> n \<le> 70 then Some (n - 55)
         else if 97 \<le> n \<and> n \<le> 102 then Some (n - 87) else None)"

definition percent :: "char \<Rightarrow> string" where
  "percent c = [CHR ''%'', hex_digit (of_char c div 16), hex_digit (of_char c mod 16)]"

definition PathEscape :: "string \<Rightarrow> string" where
  "PathEscape s = concat (map (\<lambda>c.
     if unreserved c \<or> c \<in> {CHR ''$'', CHR ''&'', CHR ''+'', CHR '':'', CHR ''='', CHR ''@''} then [c]
     else percent c) s)"

definition QueryEscape :: "string \<Rightarrow> string" where
  "QueryEscape s = concat (map (\<lambda>c. if unreserved c then [c] else if c = CHR '' '' then ''+'' else percent c) s)"

text \<open>\<open>Values.Encode\<close> for one value per key: the entries by key.\<close>

definition values_Encode :: "(string \<times> string) list \<Rightarrow> string" where
  "values_Encode vs = join ''&'' (map (\<lambda>(k, v). QueryEscape k @ ''='' @ QueryEscape v) (sort_key fst vs))"

fun path_unescape :: "string \<Rightarrow> string option" where
  "path_unescape [] = Some []"
| "path_unescape (c # cs) =
     (if c = CHR ''%''
      then (case cs of
          h # l # rest \<Rightarrow> (case (hex_value h, hex_value l) of
              (Some a, Some b) \<Rightarrow> map_option ((#) (char_of (a * 16 + b))) (path_unescape rest)
            | _ \<Rightarrow> None)
        | _ \<Rightarrow> None)
      else map_option ((#) c) (path_unescape cs))"

section \<open>Unescaping inverts escaping\<close>

definition hex_ok :: "nat \<Rightarrow> bool" where
  "hex_ok n \<longleftrightarrow> hex_value (hex_digit n) = Some n \<and> hex_digit n \<noteq> CHR ''/''"

lemma hex_value_digit: "n < 16 \<Longrightarrow> hex_value (hex_digit n) = Some n" "n < 16 \<Longrightarrow> hex_digit n \<noteq> CHR ''/''"
proof -
  have all: "list_all hex_ok [0..<16]" by code_simp
  have ok: "hex_ok n" if "n < 16"
  proof -
    have "n \<in> set [0..<16]" using that by simp
    with all show ?thesis unfolding list_all_iff by (rule bspec)
  qed
  show "n < 16 \<Longrightarrow> hex_value (hex_digit n) = Some n" "n < 16 \<Longrightarrow> hex_digit n \<noteq> CHR ''/''"
    using ok unfolding hex_ok_def by blast+
qed

lemma nibbles: "(of_char (c :: char) :: nat) div 16 < 16" "(of_char (c :: char) :: nat) mod 16 < 16"
proof -
  have "(of_char c :: nat) < 256" by simp
  then show "(of_char c :: nat) div 16 < 16" by linarith
qed simp

lemma path_unescape_percent: "path_unescape (percent c @ s) = map_option ((#) c) (path_unescape s)"
proof -
  let ?n = "of_char c :: nat"
  have digits: "hex_value (hex_digit (?n div 16)) = Some (?n div 16)" "hex_value (hex_digit (?n mod 16)) = Some (?n mod 16)"
    by (rule hex_value_digit(1) [OF nibbles(1)], rule hex_value_digit(1) [OF nibbles(2)])
  have "char_of (?n div 16 * 16 + ?n mod 16) = c" by (simp only: div_mult_mod_eq char_of_char)
  with digits show ?thesis by (simp add: percent_def)
qed

lemma path_unescape_plain: "c \<noteq> CHR ''%'' \<Longrightarrow> path_unescape (c # s) = map_option ((#) c) (path_unescape s)"
  by (simp split: list.splits)

lemma path_unescape_PathEscape: "path_unescape (PathEscape s @ t) = map_option ((@) s) (path_unescape t)"
proof (induction s)
  case (Cons c s)
  let ?keep = "unreserved c \<or> c \<in> {CHR ''$'', CHR ''&'', CHR ''+'', CHR '':'', CHR ''='', CHR ''@''}"
  have e: "PathEscape (c # s) = (if ?keep then [c] else percent c) @ PathEscape s" by (simp add: PathEscape_def)
  have "path_unescape ((if ?keep then [c] else percent c) @ u) = map_option ((#) c) (path_unescape u)" for u
  proof (cases ?keep)
    case True
    then have "c \<noteq> CHR ''%''" by (auto simp: unreserved_def)
    with True show ?thesis by (simp add: path_unescape_plain del: path_unescape.simps)
  qed (simp add: path_unescape_percent)
  then show ?case unfolding e append_assoc by (simp add: Cons.IH option.map_comp comp_def)
qed (simp add: PathEscape_def option.map_ident)

lemma path_unescape_no_percent: "CHR ''%'' \<notin> set s \<Longrightarrow> path_unescape (s @ t) = map_option ((@) s) (path_unescape t)"
proof (induction s)
  case (Cons c s)
  then have "c \<noteq> CHR ''%''" by auto
  then have "path_unescape ((c # s) @ t) = map_option ((#) c) (path_unescape (s @ t))"
    by (simp add: path_unescape_plain del: path_unescape.simps)
  with Cons show ?case by (simp add: option.map_comp comp_def del: path_unescape.simps)
qed (cases "path_unescape t"; simp)

lemma PathEscape_no_slash: "CHR ''/'' \<notin> set (PathEscape s)"
proof -
  have "CHR ''/'' \<notin> set (percent c)" for c
    using hex_value_digit(2) [OF nibbles(1) [of c]] hex_value_digit(2) [OF nibbles(2) [of c]]
    by (simp add: percent_def not_sym [OF hex_value_digit(2) [OF nibbles(1) [of c]]] not_sym [OF hex_value_digit(2) [OF nibbles(2) [of c]]])
  moreover have "\<not> unreserved (CHR ''/'')" by (simp add: unreserved_def)
  ultimately show ?thesis by (auto simp: PathEscape_def split: if_splits)
qed

section \<open>Reading a query\<close>

text \<open>
  Package net/url: the query of a URL as a server reads it, and that reading inverts
  \<open>Values.Encode\<close>.
\<close>

section \<open>Parsing\<close>

definition before_query :: "string \<Rightarrow> string" where
  "before_query url = takeWhile (\<lambda>c. c \<noteq> CHR ''?'') url"

definition after_query :: "string \<Rightarrow> string" where
  "after_query url = tl (dropWhile (\<lambda>c. c \<noteq> CHR ''?'') url)"

fun query_unescape :: "string \<Rightarrow> string option" where
  "query_unescape [] = Some []"
| "query_unescape (c # cs) =
     (if c = CHR ''%''
      then (case cs of
          h # l # rest \<Rightarrow> (case (hex_value h, hex_value l) of
              (Some a, Some b) \<Rightarrow> map_option ((#) (char_of (a * 16 + b))) (query_unescape rest)
            | _ \<Rightarrow> None)
        | _ \<Rightarrow> None)
      else map_option ((#) (if c = CHR ''+'' then CHR '' '' else c)) (query_unescape cs))"

text \<open>\<open>url.Values\<close> as an association list, in the order in which keys appear.\<close>

fun add_value :: "string \<Rightarrow> string \<Rightarrow> (string \<times> string list) list \<Rightarrow> (string \<times> string list) list" where
  "add_value k v [] = [(k, [v])]"
| "add_value k v ((k', vs) # m) = (if k' = k then (k', vs @ [v]) # m else (k', vs) # add_value k v m)"

text \<open>One pair: bad pairs are skipped, as \<open>URL.Query\<close> does by dropping the error of \<open>ParseQuery\<close>.\<close>

definition query_pair :: "string \<Rightarrow> (string \<times> string list) list \<Rightarrow> (string \<times> string list) list" where
  "query_pair pair m =
     (if pair = [] \<or> CHR '';'' \<in> set pair then m
      else (case (query_unescape (takeWhile (\<lambda>c. c \<noteq> CHR ''='') pair),
                  query_unescape (tl (dropWhile (\<lambda>c. c \<noteq> CHR ''='') pair))) of
          (Some k, Some v) \<Rightarrow> add_value k v m
        | _ \<Rightarrow> m))"

definition ParseQuery :: "string \<Rightarrow> (string \<times> string list) list" where
  "ParseQuery q = fold query_pair (split_on CHR ''&'' q) []"

section \<open>Parsing inverts encoding\<close>

lemma hex_digit_plain: "n < 16 \<Longrightarrow> hex_digit n \<notin> {CHR ''&'', CHR '';'', CHR ''='', CHR ''?''}"
proof -
  have "list_all (\<lambda>n. hex_digit n \<notin> {CHR ''&'', CHR '';'', CHR ''='', CHR ''?''}) [0..<16]" by code_simp
  then show "n < 16 \<Longrightarrow> ?thesis" unfolding list_all_iff by (rule bspec) simp
qed

lemma percent_plain: "set (percent c) \<inter> {CHR ''&'', CHR '';'', CHR ''='', CHR ''?''} = {}"
  using hex_digit_plain [OF nibbles(1) [of c]] hex_digit_plain [OF nibbles(2) [of c]] by (simp add: percent_def)

lemma QueryEscape_plain: "set (QueryEscape s) \<inter> {CHR ''&'', CHR '';'', CHR ''='', CHR ''?''} = {}"
proof -
  have "c \<notin> {CHR ''&'', CHR '';'', CHR ''='', CHR ''?''}" if "unreserved c" for c
    using that by (auto simp: unreserved_def Let_def)
  with percent_plain show ?thesis by (auto simp: QueryEscape_def split: if_splits)
qed

lemma PathEscape_no_query: "CHR ''?'' \<notin> set (PathEscape s)"
proof -
  have "\<not> unreserved CHR ''?''" by (simp add: unreserved_def Let_def)
  with percent_plain show ?thesis by (fastforce simp: PathEscape_def split: if_splits)
qed

lemma query_unescape_plain:
  "c \<noteq> CHR ''%'' \<Longrightarrow> query_unescape (c # s) = map_option ((#) (if c = CHR ''+'' then CHR '' '' else c)) (query_unescape s)"
  by (simp split: list.splits)

lemma query_unescape_percent: "query_unescape (percent c @ s) = map_option ((#) c) (query_unescape s)"
proof -
  let ?n = "of_char c :: nat"
  have digits: "hex_value (hex_digit (?n div 16)) = Some (?n div 16)" "hex_value (hex_digit (?n mod 16)) = Some (?n mod 16)"
    by (rule hex_value_digit(1) [OF nibbles(1)], rule hex_value_digit(1) [OF nibbles(2)])
  have "char_of (?n div 16 * 16 + ?n mod 16) = c" by (simp only: div_mult_mod_eq char_of_char)
  with digits show ?thesis by (simp add: percent_def)
qed

lemma query_unescape_escape: "query_unescape (QueryEscape s) = Some s"
proof (induction s)
  case (Cons c s)
  let ?e = "if unreserved c then [c] else if c = CHR '' '' then ''+'' else percent c"
  have e: "QueryEscape (c # s) = ?e @ QueryEscape s" by (simp add: QueryEscape_def)
  have "query_unescape (?e @ u) = map_option ((#) c) (query_unescape u)" for u
  proof (cases "unreserved c")
    case True
    then have "c \<noteq> CHR ''%''" "c \<noteq> CHR ''+''" by (auto simp: unreserved_def Let_def)
    with True show ?thesis by (simp add: query_unescape_plain del: query_unescape.simps)
  next
    case False
    then show ?thesis
      by (cases "c = CHR '' ''") (simp_all add: query_unescape_percent query_unescape_plain del: query_unescape.simps)
  qed
  then show ?case unfolding e by (simp add: Cons.IH)
qed (simp add: QueryEscape_def)

lemma query_pair_encoded:
  "query_pair (QueryEscape k @ ''='' @ QueryEscape v) m = add_value k v m"
proof -
  have no: "\<forall>c \<in> set (QueryEscape k). c \<noteq> CHR ''=''" "CHR '';'' \<notin> set (QueryEscape k @ ''='' @ QueryEscape v)"
    using QueryEscape_plain [of k] QueryEscape_plain [of v] by auto
  then have "takeWhile (\<lambda>c. c \<noteq> CHR ''='') (QueryEscape k @ ''='' @ QueryEscape v) = QueryEscape k"
    "dropWhile (\<lambda>c. c \<noteq> CHR ''='') (QueryEscape k @ ''='' @ QueryEscape v) = ''='' @ QueryEscape v"
    by (simp_all add: takeWhile_append2 dropWhile_append2)
  with no(2) show ?thesis by (simp add: query_pair_def query_unescape_escape)
qed

lemma add_value_new: "k \<notin> fst ` set m \<Longrightarrow> add_value k v m = m @ [(k, [v])]"
  by (induction m) auto

lemma fold_add_values:
  "distinct (map fst vs) \<Longrightarrow> fst ` set vs \<inter> fst ` set m = {} \<Longrightarrow>
     fold (\<lambda>(k, v). add_value k v) vs m = m @ map (\<lambda>(k, v). (k, [v])) vs"
  by (induction vs arbitrary: m) (auto simp: add_value_new)

text \<open>\<open>Values.Encode\<close> and \<open>URL.Query\<close>: every key with its value, whatever characters they have.\<close>

lemma ParseQuery_Encode:
  assumes "distinct (map fst vs)"
  shows "ParseQuery (values_Encode vs) = map (\<lambda>(k, v). (k, [v])) (sort_key fst vs)"
proof (cases "vs = []")
  case False
  let ?vs = "sort_key fst vs" and ?f = "\<lambda>(k, v). QueryEscape k @ ''='' @ QueryEscape v"
  have "split_on CHR ''&'' (values_Encode vs) = map ?f ?vs"
    unfolding values_Encode_def
  proof (rule split_on_join)
    show "map ?f ?vs \<noteq> []" using False by (metis length_sort length_0_conv length_map)
    show "\<forall>p \<in> set (map ?f ?vs). CHR ''&'' \<notin> set p" using QueryEscape_plain by fastforce
  qed
  then have "ParseQuery (values_Encode vs) = fold (query_pair \<circ> ?f) ?vs []"
    by (simp add: ParseQuery_def fold_map)
  also have "\<dots> = fold (\<lambda>(k, v). add_value k v) ?vs []"
    by (rule fold_cong) (auto simp: query_pair_encoded [simplified])
  also have "\<dots> = map (\<lambda>(k, v). (k, [v])) ?vs"
  proof -
    have "distinct (map fst ?vs)" using assms by (simp add: distinct_map)
    from fold_add_values [OF this, of "[]"] show ?thesis by simp
  qed
  finally show ?thesis .
qed (simp add: ParseQuery_def values_Encode_def query_pair_def)

end
