(* ===== verification/HttpClient.thy ===== *)
theory HttpClient
  imports NetURL Adapters
begin

text \<open>
  httpclient: the generic client of the generated HTTP services. \<open>net/http\<close>'s client, the request
  constructor and the protobuf and protojson codecs of the messages are parameters; \<open>'s\<close> is the
  state of the world behind the network, \<open>'q\<close> a command, \<open>'m\<close> a message read from a response.
\<close>

section \<open>Requests, responses and codecs\<close>

record out_request =
  ou_method :: string
  ou_url :: string
  ou_header :: written_header
  ou_body :: bytes

text \<open>A response: its status, its \<open>Content-Type\<close> header and what \<open>io.ReadAll\<close> of its body returns.\<close>

record in_response =
  in_status :: int
  in_content_type :: string
  in_body :: "goerr + bytes"

text \<open>\<open>http.NewRequestWithContext\<close>'s error for a method and URL, and \<open>http.Client.Do\<close>.\<close>

record 's http_env =
  he_new_request :: "string \<Rightarrow> string \<Rightarrow> goerr option"
  he_do :: "out_request \<Rightarrow> 's \<Rightarrow> 's \<times> (goerr + in_response)"

record 'm codec =
  co_json :: "'m \<Rightarrow> goerr + bytes"
  co_proto :: "'m \<Rightarrow> goerr + bytes"
  co_from_json :: "bytes \<Rightarrow> goerr + 'm"
  co_from_proto :: "bytes \<Rightarrow> goerr + 'm"

text \<open>What the client learns of a command by reflection: its name and whether field 2 is a string.\<close>

record 'q reflection =
  rf_name :: "'q \<Rightarrow> string"
  rf_string_field2 :: "'q \<Rightarrow> bool"
  rf_set_field2 :: "'q \<Rightarrow> string \<Rightarrow> 'q"

section \<open>Authentication\<close>

record auth_provider =
  au_authenticate :: "out_request \<Rightarrow> out_request \<times> goerr option"
  au_actor :: string

definition NewBearerTokenAuth :: "string \<Rightarrow> string \<Rightarrow> auth_provider" where
  "NewBearerTokenAuth token actor =
     \<lparr>au_authenticate = (\<lambda>rq.
        (rq\<lparr>ou_header := header_set ''Authorization'' (''Bearer '' @ token) (ou_header rq)\<rparr>, None)),
      au_actor = actor\<rparr>"

definition NewNoAuth :: "string \<Rightarrow> auth_provider" where
  "NewNoAuth actor = \<lparr>au_authenticate = (\<lambda>rq. (rq, None)), au_actor = actor\<rparr>"

section \<open>The client\<close>

record 's http_client =
  hc_http :: "'s http_env"
  hc_baseURL :: string
  hc_useJSON :: bool
  hc_auth :: auth_provider

type_synonym 's client_option = "'s http_client \<Rightarrow> 's http_client"

definition WithHTTPClient :: "'s http_env \<Rightarrow> 's client_option" where
  "WithHTTPClient env c = c\<lparr>hc_http := env\<rparr>"

definition WithJSON :: "'s client_option" where
  "WithJSON c = c\<lparr>hc_useJSON := True\<rparr>"

text \<open>\<open>strings.TrimRight(s, "/")\<close>; \<open>New\<close> panics (\<open>None\<close>) when the provider is nil.\<close>

definition trim_right_slashes :: "string \<Rightarrow> string" where
  "trim_right_slashes s = rev (dropWhile (\<lambda>c. c = CHR ''/'') (rev s))"

definition httpclient_New ::
    "'s http_env \<Rightarrow> string \<Rightarrow> auth_provider option \<Rightarrow> 's client_option list \<Rightarrow> 's http_client option" where
  "httpclient_New defaultClient baseURL auth opts =
     map_option (\<lambda>au. fold (\<lambda>opt c. opt c) opts
         \<lparr>hc_http = defaultClient, hc_baseURL = trim_right_slashes baseURL, hc_useJSON = False, hc_auth = au\<rparr>) auth"

definition setActorField :: "'q reflection \<Rightarrow> 'q \<Rightarrow> string \<Rightarrow> 'q" where
  "setActorField rf msg actor = (if rf_string_field2 rf msg then rf_set_field2 rf msg actor else msg)"

definition client_acceptHeader :: "'s http_client \<Rightarrow> string" where
  "client_acceptHeader c = (if hc_useJSON c then ''application/json'' else ''application/protobuf'')"

definition client_marshal :: "'s http_client \<Rightarrow> 'q codec \<Rightarrow> 'q \<Rightarrow> goerr + bytes \<times> string \<times> string" where
  "client_marshal c cd msg =
     (if hc_useJSON c
      then (case co_json cd msg of Inl e \<Rightarrow> Inl e | Inr b \<Rightarrow> Inr (b, ''application/json'', ''application/json''))
      else (case co_proto cd msg of Inl e \<Rightarrow> Inl e | Inr b \<Rightarrow> Inr (b, ''application/protobuf'', ''application/protobuf'')))"

definition client_unmarshal :: "'m codec \<Rightarrow> bytes \<Rightarrow> string \<Rightarrow> goerr + 'm" where
  "client_unmarshal cd body contentType =
     (if contains_str contentType ''json''
      then (case co_from_json cd body of Inl e \<Rightarrow> Inl (errorf ''httpclient: unmarshal json: '' e) | Inr m \<Rightarrow> Inr m)
      else (case co_from_proto cd body of Inl e \<Rightarrow> Inl (errorf ''httpclient: unmarshal protobuf: '' e) | Inr m \<Rightarrow> Inr m))"

section \<open>Errors of the server\<close>

text \<open>\<open>apierror.v1.Error\<close>, the error body of the generated services.\<close>

record wire_error =
  we_code :: string
  we_message :: string
  we_detail :: string

record api_error =
  ae_status :: int
  ae_code :: string
  ae_message :: string
  ae_detail :: string

definition api_error_text :: "api_error \<Rightarrow> string" where
  "api_error_text e =
     (if ae_detail e \<noteq> []
      then ''httpclient: '' @ dec_int (ae_status e) @ '' '' @ ae_code e @ '': '' @ ae_message e @ '' ('' @ ae_detail e @ '')''
      else ''httpclient: '' @ dec_int (ae_status e) @ '' '' @ ae_code e @ '': '' @ ae_message e)"

text \<open>The error value: its status can be found by \<open>errors.As\<close>.\<close>

definition APIError :: "api_error \<Rightarrow> goerr" where
  "APIError e = Coded ''*httpclient.APIError'' (ae_status e) (api_error_text e)"

definition parseAPIError :: "wire_error codec \<Rightarrow> int \<Rightarrow> string \<Rightarrow> bytes \<Rightarrow> api_error" where
  "parseAPIError cd statusCode contentType body =
     (case (if contains_str contentType ''json'' then co_from_json cd body else co_from_proto cd body) of
        Inl e \<Rightarrow> \<lparr>ae_status = statusCode, ae_code = ''UNKNOWN'', ae_message = string_of_bytes body, ae_detail = []\<rparr>
      | Inr wire \<Rightarrow>
          if we_code wire = []
          then \<lparr>ae_status = statusCode, ae_code = ''UNKNOWN'', ae_message = string_of_bytes body, ae_detail = []\<rparr>
          else \<lparr>ae_status = statusCode, ae_code = we_code wire, ae_message = we_message wire, ae_detail = we_detail wire\<rparr>)"

section \<open>Calls\<close>

text \<open>What \<open>Apply\<close> and \<open>getInto\<close> do with their request: authenticate, send and read the answer.\<close>

definition client_roundtrip ::
    "'s http_client \<Rightarrow> wire_error codec \<Rightarrow> 'm codec \<Rightarrow> out_request \<Rightarrow> 's \<Rightarrow> 's \<times> (goerr + 'm)" where
  "client_roundtrip c we cd req s =
     (case he_new_request (hc_http c) (ou_method req) (ou_url req) of
        Some e \<Rightarrow> (s, Inl (errorf ''httpclient: create request: '' e))
      | None \<Rightarrow> (case au_authenticate (hc_auth c) req of
          (req', Some e) \<Rightarrow> (s, Inl (errorf ''httpclient: authenticate: '' e))
        | (req', None) \<Rightarrow> (case he_do (hc_http c) req' s of
            (s', Inl e) \<Rightarrow> (s', Inl (errorf ''httpclient: do request: '' e))
          | (s', Inr resp) \<Rightarrow> (case in_body resp of
              Inl e \<Rightarrow> (s', Inl (errorf ''httpclient: read response: '' e))
            | Inr body \<Rightarrow>
                if in_status resp \<ge> 400
                then (s', Inl (APIError (parseAPIError we (in_status resp) (in_content_type resp) body)))
                else (s', client_unmarshal cd body (in_content_type resp))))))"

definition client_Apply ::
    "'s http_client \<Rightarrow> wire_error codec \<Rightarrow> 'q reflection \<Rightarrow> 'q codec \<Rightarrow> 'm codec \<Rightarrow> string \<Rightarrow> 'q \<Rightarrow> 's
     \<Rightarrow> 's \<times> (goerr + 'm)" where
  "client_Apply c we rf qc rc routePath cmd s =
     (let cmd' = setActorField rf cmd (au_actor (hc_auth c));
          url = hc_baseURL c @ ''/'' @ routePath @ ''/'' @ to_lower (rf_name rf cmd')
      in case client_marshal c qc cmd' of
           Inl e \<Rightarrow> (s, Inl (errorf ''httpclient: marshal command: '' e))
         | Inr (body, contentType, accept) \<Rightarrow>
             client_roundtrip c we rc
               \<lparr>ou_method = ''POST'', ou_url = url,
                ou_header = header_set ''Accept'' accept (header_set ''Content-Type'' contentType (\<lambda>_. [])),
                ou_body = body\<rparr> s)"

definition client_getInto ::
    "'s http_client \<Rightarrow> wire_error codec \<Rightarrow> 'm codec \<Rightarrow> string \<Rightarrow> 's \<Rightarrow> 's \<times> (goerr + 'm)" where
  "client_getInto c we cd reqURL s =
     client_roundtrip c we cd
       \<lparr>ou_method = ''GET'', ou_url = reqURL, ou_header = header_set ''Accept'' (client_acceptHeader c) (\<lambda>_. []),
        ou_body = []\<rparr> s"

definition load_url :: "string \<Rightarrow> string \<Rightarrow> string \<Rightarrow> string" where
  "load_url base routePath i = base @ ''/'' @ routePath @ ''/load/'' @ PathEscape i"

definition get_url :: "string \<Rightarrow> string \<Rightarrow> string \<Rightarrow> string" where
  "get_url base routePath i = base @ ''/'' @ routePath @ ''/'' @ PathEscape i"

definition history_url :: "string \<Rightarrow> string \<Rightarrow> string \<Rightarrow> string" where
  "history_url base routePath i = base @ ''/'' @ routePath @ ''/'' @ PathEscape i @ ''/history''"

text \<open>The parameters are the entries of the map, in any order.\<close>

definition query_url :: "string \<Rightarrow> string \<Rightarrow> string \<Rightarrow> (string \<times> string) list \<Rightarrow> string" where
  "query_url base routePath queryPath params =
     base @ ''/'' @ routePath @ ''/query/'' @ PathEscape queryPath
       @ (if length params > 0 then ''?'' @ values_Encode params else [])"

definition client_Load ::
    "'s http_client \<Rightarrow> wire_error codec \<Rightarrow> 'm codec \<Rightarrow> string \<Rightarrow> string \<Rightarrow> 's \<Rightarrow> 's \<times> (goerr + 'm)" where
  "client_Load c we cd routePath i s = client_getInto c we cd (load_url (hc_baseURL c) routePath i) s"

definition client_Get ::
    "'s http_client \<Rightarrow> wire_error codec \<Rightarrow> 'm codec \<Rightarrow> string \<Rightarrow> string \<Rightarrow> 's \<Rightarrow> 's \<times> (goerr + 'm)" where
  "client_Get c we cd routePath i s = client_getInto c we cd (get_url (hc_baseURL c) routePath i) s"

definition client_History ::
    "'s http_client \<Rightarrow> wire_error codec \<Rightarrow> 'h codec \<Rightarrow> string \<Rightarrow> string \<Rightarrow> 's \<Rightarrow> 's \<times> (goerr + 'h)" where
  "client_History c we hcd routePath i s = client_getInto c we hcd (history_url (hc_baseURL c) routePath i) s"

definition client_Query ::
    "'s http_client \<Rightarrow> wire_error codec \<Rightarrow> 'm codec \<Rightarrow> string \<Rightarrow> string \<Rightarrow> (string \<times> string) list \<Rightarrow> 's
     \<Rightarrow> 's \<times> (goerr + 'm)" where
  "client_Query c we cd routePath queryPath params s =
     client_getInto c we cd (query_url (hc_baseURL c) routePath queryPath params) s"

end
