(* ===== verification/HttpClientProperties.thy ===== *)
theory HttpClientProperties
  imports HttpClient RouterProperties
begin

text \<open>
  The properties of the HTTP client: its URLs reach the routes that the generated services
  register, whatever characters an id has, and it reports the errors of the server.
\<close>

section \<open>Routes\<close>

text \<open>The path that a server reads from a URL, and the GET routes that a generated service registers.\<close>

definition server_path :: "string \<Rightarrow> string \<Rightarrow> string option" where
  "server_path base url = path_unescape (drop (length base) url)"

definition aggregate_get_routes ::
    "string \<Rightarrow> ('s, 'k) handler_func \<Rightarrow> ('s, 'k) handler_func \<Rightarrow> ('s, 'k) handler_func \<Rightarrow> ('s, 'k) router" where
  "aggregate_get_routes rp handleLoad handleGet handleHistory =
     NewRouter [router_Handle ''GET'' (rp @ ''/load/{id}'') handleLoad,
                router_Handle ''GET'' (rp @ ''/{id}'') handleGet,
                router_Handle ''GET'' (rp @ ''/{id}/history'') handleHistory]"

lemma match_loop_common:
  "\<forall>seg \<in> set r. \<not> is_param seg \<Longrightarrow> match_loop (r @ u) (r @ v) params = match_loop u v params"
  by (induction r) auto

lemma matchSegments_common:
  "\<forall>seg \<in> set r. \<not> is_param seg \<Longrightarrow> matchSegments (r @ u) (r @ v) = matchSegments u v"
  by (simp add: matchSegments_def match_loop_common)

lemma id_param: "is_param ''{id}''" "param_name ''{id}'' = ''id''" "\<not> is_param ''load''" "\<not> is_param ''history''"
  by (simp_all add: is_param_def param_name_def)

lemma short_matches:
  "matchSegments [''load'', ''{id}''] [''load'', i] = Some [''id'' \<mapsto> i]" "matchSegments [''load'', ''{id}''] [i] = None"
  "matchSegments [''{id}''] [i] = Some [''id'' \<mapsto> i]" "matchSegments [''{id}''] [i, j] = None"
  "i \<noteq> ''load'' \<Longrightarrow> matchSegments [''load'', ''{id}''] [i, j] = None"
  "matchSegments [''{id}'', ''history''] [i, ''history''] = Some [''id'' \<mapsto> i]"
  by (auto simp: matchSegments_def id_param)

lemma segments_one: "p \<noteq> [] \<Longrightarrow> CHR ''/'' \<notin> set p \<Longrightarrow> splitPath p = [p]"
  using splitPath_join [of "[p]"] by simp

lemma aggregate_routes:
  "ro_routes (aggregate_get_routes rp hl hg hh) =
     [\<lparr>rt_method = ''GET'', rt_segments = splitPath rp @ [''load'', ''{id}''], rt_handler = hl\<rparr>,
      \<lparr>rt_method = ''GET'', rt_segments = splitPath rp @ [''{id}''], rt_handler = hg\<rparr>,
      \<lparr>rt_method = ''GET'', rt_segments = splitPath rp @ [''{id}'', ''history''], rt_handler = hh\<rparr>]"
  "ro_cors (aggregate_get_routes rp hl hg hh) = None"
proof -
  have "splitPath (rp @ ''/load/{id}'') = splitPath rp @ [''load'', ''{id}'']" "splitPath (rp @ ''/{id}'') = splitPath rp @ [''{id}'']"
    "splitPath (rp @ ''/{id}/history'') = splitPath rp @ [''{id}'', ''history'']"
    using splitPath_append [of rp "''load/{id}''"] splitPath_append [of rp "''{id}''"] splitPath_append [of rp "''{id}/history''"]
    by (simp_all add: splitPath_def)
  then show "ro_routes (aggregate_get_routes rp hl hg hh) =
     [\<lparr>rt_method = ''GET'', rt_segments = splitPath rp @ [''load'', ''{id}''], rt_handler = hl\<rparr>,
      \<lparr>rt_method = ''GET'', rt_segments = splitPath rp @ [''{id}''], rt_handler = hg\<rparr>,
      \<lparr>rt_method = ''GET'', rt_segments = splitPath rp @ [''{id}'', ''history''], rt_handler = hh\<rparr>]"
    "ro_cors (aggregate_get_routes rp hl hg hh) = None"
    by (simp_all add: aggregate_get_routes_def NewRouter_def router_Handle_def)
qed

lemma aggregate_dispatch:
  assumes "\<forall>seg \<in> set (splitPath rp). \<not> is_param seg"
  shows "splitPath p = splitPath rp @ [''load'', i] \<Longrightarrow>
      router_Dispatch (aggregate_get_routes rp hl hg hh) c ''GET'' p rq s
        = hl c (rq\<lparr>rq_path_parameters := rq_path_parameters rq ++ [''id'' \<mapsto> i]\<rparr>) s"
    and "splitPath p = splitPath rp @ [i] \<Longrightarrow>
      router_Dispatch (aggregate_get_routes rp hl hg hh) c ''GET'' p rq s
        = hg c (rq\<lparr>rq_path_parameters := rq_path_parameters rq ++ [''id'' \<mapsto> i]\<rparr>) s"
    and "splitPath p = splitPath rp @ [i, ''history''] \<Longrightarrow> i \<noteq> ''load'' \<Longrightarrow>
      router_Dispatch (aggregate_get_routes rp hl hg hh) c ''GET'' p rq s
        = hh c (rq\<lparr>rq_path_parameters := rq_path_parameters rq ++ [''id'' \<mapsto> i]\<rparr>) s"
  by (simp_all add: router_Dispatch_def aggregate_routes matchSegments_common [OF assms] router_applyCORS_def Let_def
      short_matches split: prod.splits)

lemma server_path_decodes:
  assumes "CHR ''%'' \<notin> set rp" "CHR ''%'' \<notin> set pre" "CHR ''%'' \<notin> set suf"
  shows "server_path base (base @ ''/'' @ rp @ pre @ PathEscape i @ suf) = Some (''/'' @ rp @ pre @ i @ suf)"
proof -
  have "server_path base (base @ ''/'' @ rp @ pre @ PathEscape i @ suf)
      = path_unescape ((''/'' @ rp @ pre) @ PathEscape i @ (suf @ []))"
    by (simp add: server_path_def)
  also have "\<dots> = Some ((''/'' @ rp @ pre) @ i @ suf @ [])"
    using assms by (subst path_unescape_no_percent) (simp_all add: path_unescape_PathEscape path_unescape_no_percent del: append_Nil2 append_assoc)
  finally show ?thesis by simp
qed

section \<open>Properties\<close>

text \<open>
  The client's URLs reach the right handlers. For every base URL and every id that is not empty
  and has no slash, whatever other characters it has, the server decodes the URL that \<open>Load\<close>,
  \<open>Get\<close> or \<open>History\<close> builds to a path that the router dispatches to the handler of that name with
  exactly that id, for \<open>History\<close> unless the id is \<open>load\<close> (which the route of \<open>Load\<close> takes).
\<close>

theorem client_urls_reach_handlers:
  assumes "CHR ''%'' \<notin> set rp" "\<forall>seg \<in> set (splitPath rp). \<not> is_param seg" "i \<noteq> []" "CHR ''/'' \<notin> set i"
  shows "\<exists>pl pg ph. server_path base (load_url base rp i) = Some pl \<and> server_path base (get_url base rp i) = Some pg
    \<and> server_path base (history_url base rp i) = Some ph
    \<and> router_Dispatch (aggregate_get_routes rp hl hg hh) c ''GET'' pl rq s
        = hl c (rq\<lparr>rq_path_parameters := rq_path_parameters rq ++ [''id'' \<mapsto> i]\<rparr>) s
    \<and> router_Dispatch (aggregate_get_routes rp hl hg hh) c ''GET'' pg rq s
        = hg c (rq\<lparr>rq_path_parameters := rq_path_parameters rq ++ [''id'' \<mapsto> i]\<rparr>) s
    \<and> (i \<noteq> ''load'' \<longrightarrow> router_Dispatch (aggregate_get_routes rp hl hg hh) c ''GET'' ph rq s
        = hh c (rq\<lparr>rq_path_parameters := rq_path_parameters rq ++ [''id'' \<mapsto> i]\<rparr>) s)"
proof -
  let ?pl = "''/'' @ rp @ ''/load/'' @ i" and ?pg = "''/'' @ rp @ ''/'' @ i" and ?ph = "''/'' @ rp @ ''/'' @ i @ ''/history''"
  have i: "splitPath i = [i]" using assms(3,4) by (rule segments_one)
  have cat: "splitPath (''/'' @ rp @ ''/'' @ t) = splitPath rp @ splitPath t" for t
    using splitPath_append [of rp t] by (simp add: splitPath_slash)
  have "splitPath (''load/'' @ i) = [''load'', i]" "splitPath (i @ ''/history'') = [i, ''history'']"
    using splitPath_append [of "''load''" i] splitPath_append [of i "''history''"] i by (simp_all add: segments_one)
  then have split: "splitPath ?pl = splitPath rp @ [''load'', i]" "splitPath ?pg = splitPath rp @ [i]"
    "splitPath ?ph = splitPath rp @ [i, ''history'']"
    using cat [of "''load/'' @ i"] cat [of i] cat [of "i @ ''/history''"] i by simp_all
  have "server_path base (load_url base rp i) = Some ?pl" "server_path base (get_url base rp i) = Some ?pg"
    "server_path base (history_url base rp i) = Some ?ph"
    using server_path_decodes [OF assms(1), of "''/load/''" "[]" base i] server_path_decodes [OF assms(1), of "''/''" "[]" base i]
      server_path_decodes [OF assms(1), of "''/''" "''/history''" base i]
    by (simp_all add: load_url_def get_url_def history_url_def)
  note urls = this
  note dispatch = aggregate_dispatch(1) [OF assms(2) split(1)] aggregate_dispatch(2) [OF assms(2) split(2)]
    aggregate_dispatch(3) [OF assms(2) split(3)]
  show ?thesis
    by (rule exI [of _ ?pl], rule exI [of _ ?pg], rule exI [of _ ?ph], intro conjI impI urls dispatch)
qed

text \<open>A handler that answers with the id it was given.\<close>

definition echo_id :: "(nat, unit) handler_func" where
  "echo_id c rq n = (Suc n, \<lparr>rs_status = 200, rs_body = get_or_empty (rq_path_parameters rq) ''id'',
     rs_headers = (\<lambda>_. None), rs_cookies = []\<rparr>)"

theorem client_urls_reach_handlers_witness:
  "\<exists>p. server_path ''https://h'' (load_url ''https://h'' ''app/order/v1'' ''a b%2Fc'') = Some p
     \<and> rs_body (snd (router_Dispatch (aggregate_get_routes ''app/order/v1'' echo_id echo_id echo_id) background ''GET'' p
         ex_request 0)) = ''a b%2Fc''"
proof -
  have rp: "CHR ''%'' \<notin> set ''app/order/v1''" "\<forall>seg \<in> set (splitPath ''app/order/v1''). \<not> is_param seg"
    "''a b%2Fc'' \<noteq> []" "CHR ''/'' \<notin> set ''a b%2Fc''"
    by (simp_all add: splitPath_def is_param_def)
  from client_urls_reach_handlers [OF rp, of "''https://h''" echo_id echo_id echo_id background ex_request 0]
  obtain p where p: "server_path ''https://h'' (load_url ''https://h'' ''app/order/v1'' ''a b%2Fc'') = Some p"
    and d: "router_Dispatch (aggregate_get_routes ''app/order/v1'' echo_id echo_id echo_id) background ''GET'' p ex_request 0
      = echo_id background (ex_request\<lparr>rq_path_parameters := rq_path_parameters ex_request ++ [''id'' \<mapsto> ''a b%2Fc'']\<rparr>) 0"
    by blast
  from d have "rs_body (snd (router_Dispatch (aggregate_get_routes ''app/order/v1'' echo_id echo_id echo_id) background ''GET'' p
      ex_request 0)) = ''a b%2Fc''" by (simp add: echo_id_def get_or_empty_def)
  with p show ?thesis by blast
qed

text \<open>
  The server's errors are reported. When the server answers a call with a status of 400 or more,
  the call fails with an \<open>APIError\<close> of that status: with the code, message and detail of the error
  in the body when the body is one with a code, and otherwise with the code \<open>UNKNOWN\<close> and the body
  itself as the message. The state is the one the server leaves.
\<close>

theorem client_reports_errors:
  assumes "he_new_request (hc_http c) (ou_method req) (ou_url req) = None"
    and "au_authenticate (hc_auth c) req = (req', None)" "he_do (hc_http c) req' s = (s', Inr resp)"
    and "in_body resp = Inr body" "400 \<le> in_status resp"
  shows "\<exists>e. client_roundtrip c we cd req s = (s', Inl (APIError e)) \<and> ae_status e = in_status resp
    \<and> err_as ''*httpclient.APIError'' (APIError e) = Some (in_status resp)
    \<and> (case (if contains_str (in_content_type resp) ''json'' then co_from_json we body else co_from_proto we body) of
         Inr w \<Rightarrow> if we_code w \<noteq> [] then ae_code e = we_code w \<and> ae_message e = we_message w \<and> ae_detail e = we_detail w
           else ae_code e = ''UNKNOWN'' \<and> ae_message e = string_of_bytes body
       | Inl _ \<Rightarrow> ae_code e = ''UNKNOWN'' \<and> ae_message e = string_of_bytes body)"
  using assms
  by (intro exI [of _ "parseAPIError we (in_status resp) (in_content_type resp) body"])
    (auto simp: client_roundtrip_def parseAPIError_def APIError_def split: sum.splits)

definition plain_text_codec :: "wire_error codec" where
  "plain_text_codec = \<lparr>co_json = (\<lambda>_. Inr []), co_proto = (\<lambda>_. Inr []),
     co_from_json = (\<lambda>_. Inl (Foreign ''syntax error'')), co_from_proto = (\<lambda>_. Inl (Foreign ''syntax error''))\<rparr>"

definition ex_env :: "nat http_env" where
  "ex_env = \<lparr>he_new_request = (\<lambda>_ _. None),
     he_do = (\<lambda>rq n. (Suc n, Inr \<lparr>in_status = 502, in_content_type = ''text/plain'', in_body = Inr (bytes_of_string ''bad gateway'')\<rparr>))\<rparr>"

definition ex_client :: "nat http_client" where
  "ex_client = \<lparr>hc_http = ex_env, hc_baseURL = ''https://h'', hc_useJSON = False, hc_auth = NewNoAuth ''me''\<rparr>"

theorem client_reports_errors_witness:
  "\<exists>e. client_Load ex_client plain_text_codec plain_text_codec ''app/order/v1'' ''7'' 0 = (1, Inl (APIError e))
     \<and> ae_status e = 502 \<and> ae_code e = ''UNKNOWN'' \<and> ae_message e = ''bad gateway''"
proof -
  let ?req = "\<lparr>ou_method = ''GET'', ou_url = load_url (hc_baseURL ex_client) ''app/order/v1'' ''7'',
    ou_header = header_set ''Accept'' (client_acceptHeader ex_client) (\<lambda>_. []), ou_body = []\<rparr>"
  let ?resp = "\<lparr>in_status = 502, in_content_type = ''text/plain'', in_body = Inr (bytes_of_string ''bad gateway'')\<rparr>"
  have h: "he_new_request (hc_http ex_client) (ou_method ?req) (ou_url ?req) = None"
    "au_authenticate (hc_auth ex_client) ?req = (?req, None)" "he_do (hc_http ex_client) ?req 0 = (1, Inr ?resp)"
    "in_body ?resp = Inr (bytes_of_string ''bad gateway'')" "400 \<le> in_status ?resp"
    by (simp_all add: ex_client_def ex_env_def NewNoAuth_def)
  have codec: "(if b then co_from_json plain_text_codec x else co_from_proto plain_text_codec x) = Inl (Foreign ''syntax error'')"
    for b x by (simp add: plain_text_codec_def)
  from client_reports_errors [OF h, of plain_text_codec plain_text_codec, unfolded codec] show ?thesis
    by (auto simp: client_Load_def client_getInto_def)
qed

end
