(* ===== verification/Serializers.thy ===== *)
theory Serializers
  imports BoltDB Contracts Strconv
begin

text \<open>
  serializers/protobinaryserializer and serializers/protojsonserializer: events as records through
  an \<open>anypb.Any\<close>, and the stream of length-prefixed events of the binary serializer. The protobuf
  library is a parameter: \<open>'n\<close> is an \<open>Any\<close>, \<open>'p\<close> a message that was unpacked from one.
\<close>

section \<open>Events as bytes\<close>

text \<open>
  \<open>anypb.New\<close>, the marshalling of an \<open>Any\<close> (\<open>proto\<close> or \<open>protojson\<close>) and back,
  \<open>anypb.UnmarshalNew\<close>, the type assertion to \<open>Event\<close> and \<open>%T\<close>; \<open>ay_name\<close> is the name of the
  package in the error texts.
\<close>

record ('e, 'n, 'p) any_lib =
  ay_name :: string
  ay_new :: "'e \<Rightarrow> goerr + 'n"
  ay_marshal :: "'n \<Rightarrow> goerr + bytes"
  ay_unmarshal :: "bytes \<Rightarrow> goerr + 'n"
  ay_unmarshal_new :: "'n \<Rightarrow> goerr + 'p"
  ay_as_event :: "'p \<Rightarrow> 'e option"
  ay_type_name :: "'p \<Rightarrow> string"

definition MarshalEvent :: "('e, 'n, 'p) any_lib \<Rightarrow> 'e \<Rightarrow> goerr + bytes" where
  "MarshalEvent lib event =
     (case ay_new lib event of
        Inl e \<Rightarrow> Inl (errorf ''failed anypb.New(event): '' e)
      | Inr a \<Rightarrow> (case ay_marshal lib a of
          Inl e \<Rightarrow> Inl (errorf (''failed '' @ ay_name lib @ ''.Marshal: '') e)
        | Inr data \<Rightarrow> Inr data))"

definition UnmarshalEvent :: "('e, 'n, 'p) any_lib \<Rightarrow> bytes \<Rightarrow> goerr + 'e" where
  "UnmarshalEvent lib data =
     (case ay_unmarshal lib data of
        Inl e \<Rightarrow> Inl (errorf (''failed '' @ ay_name lib @ ''.Unmarshal: '') e)
      | Inr a \<Rightarrow> (case ay_unmarshal_new lib a of
          Inl e \<Rightarrow> Inl (errorf ''failed anypb.UnmarshalNew: '' e)
        | Inr m \<Rightarrow> (case ay_as_event lib m of
            None \<Rightarrow> Inl (Foreign (''message '' @ ay_type_name lib m @ '' does not implement protosource.Event''))
          | Some event \<Rightarrow> Inr event)))"

text \<open>The methods of the two \<open>Serializer\<close> types, which differ in the library alone.\<close>

definition serializer_MarshalEvent ::
    "('e, 'n, 'p) any_lib \<Rightarrow> 'e event_ops \<Rightarrow> 'e \<Rightarrow> goerr + pb_record" where
  "serializer_MarshalEvent lib ev event =
     (case MarshalEvent lib event of
        Inl e \<Rightarrow> Inl e
      | Inr data \<Rightarrow> Inr \<lparr>rec_version = ev_version ev event, rec_data = data, rec_ttl = 0\<rparr>)"

definition serializer_UnmarshalEvent :: "('e, 'n, 'p) any_lib \<Rightarrow> pb_record \<Rightarrow> goerr + 'e" where
  "serializer_UnmarshalEvent lib rec = UnmarshalEvent lib (rec_data rec)"

definition NewSerializer :: "('e, 'n, 'p) any_lib \<Rightarrow> 'e event_ops \<Rightarrow> 'e serializer" where
  "NewSerializer lib ev =
     \<lparr>sz_marshal_event = serializer_MarshalEvent lib ev, sz_unmarshal_event = serializer_UnmarshalEvent lib\<rparr>"

text \<open>\<open>NewSerializer\<close> of the two packages; in the second, an \<open>Any\<close> is marshalled as JSON.\<close>

definition protobinary_NewSerializer :: "('e, 'n, 'p) any_lib \<Rightarrow> 'e event_ops \<Rightarrow> 'e serializer" where
  "protobinary_NewSerializer lib ev = NewSerializer (lib\<lparr>ay_name := ''proto''\<rparr>) ev"

definition protojson_MarshalEvent :: "('e, 'n, 'p) any_lib \<Rightarrow> 'e \<Rightarrow> goerr + bytes" where
  "protojson_MarshalEvent lib = MarshalEvent (lib\<lparr>ay_name := ''protojson''\<rparr>)"

definition protojson_UnmarshalEvent :: "('e, 'n, 'p) any_lib \<Rightarrow> bytes \<Rightarrow> goerr + 'e" where
  "protojson_UnmarshalEvent lib = UnmarshalEvent (lib\<lparr>ay_name := ''protojson''\<rparr>)"

definition protojson_NewSerializer :: "('e, 'n, 'p) any_lib \<Rightarrow> 'e event_ops \<Rightarrow> 'e serializer" where
  "protojson_NewSerializer lib ev = NewSerializer (lib\<lparr>ay_name := ''protojson''\<rparr>) ev"

section \<open>Streams of events\<close>

definition little_PutUint64 :: "uint64 \<Rightarrow> bytes" where
  "little_PutUint64 v = rev (PutUint64 v)"

definition little_Uint64 :: "bytes \<Rightarrow> uint64" where
  "little_Uint64 bs = Uint64 (rev (take 8 bs))"

text \<open>\<open>io.Writer.Write\<close> on a writer of type \<open>'w\<close>: the bytes written and an error.\<close>

type_synonym 'w write_fn = "'w \<Rightarrow> bytes \<Rightarrow> 'w \<times> int \<times> goerr option"

text \<open>The two writes of \<open>WriteEvent\<close> and \<open>WriteBase64\<close>.\<close>

definition write_frame :: "'w write_fn \<Rightarrow> 'w \<Rightarrow> bytes \<Rightarrow> 'w \<times> (goerr + int)" where
  "write_frame wr w data =
     (case wr w (little_PutUint64 (word_of_nat (length data))) of
        (w1, n1, Some e) \<Rightarrow> (w1, Inl e)
      | (w1, n1, None) \<Rightarrow> (case wr w1 data of
          (w2, n, Some e) \<Rightarrow> (w2, Inl e)
        | (w2, n, None) \<Rightarrow> (w2, Inr (n + 8))))"

definition WriteEvent :: "('e, 'n, 'p) any_lib \<Rightarrow> 'w write_fn \<Rightarrow> 'w \<Rightarrow> 'e \<Rightarrow> 'w \<times> (goerr + int)" where
  "WriteEvent lib wr w event =
     (case MarshalEvent lib event of
        Inl e \<Rightarrow> (w, Inl e)
      | Inr data \<Rightarrow> write_frame wr w data)"

definition WriteBase64 :: "'w write_fn \<Rightarrow> 'w \<Rightarrow> string \<Rightarrow> 'w \<times> (goerr + int)" where
  "WriteBase64 wr w b64 =
     (case DecodeString b64 of
        None \<Rightarrow> (w, Inl (errorf ''failed base64.StdEncoding.DecodeString: '' (Foreign ''illegal base64 data'')))
      | Some data \<Rightarrow> write_frame wr w data)"

text \<open>A \<open>bufio.Reader\<close> is the bytes that are left of its stream.\<close>

definition ReadByte :: "bytes \<Rightarrow> bytes \<times> (goerr + byte)" where
  "ReadByte r = (case r of [] \<Rightarrow> ([], Inl (Foreign ''EOF'')) | b # bs \<Rightarrow> (bs, Inr b))"

fun read_loop :: "nat \<Rightarrow> bytes \<Rightarrow> bytes \<Rightarrow> bytes \<times> (goerr + bytes)" where
  "read_loop 0 r scratch = (r, Inr scratch)"
| "read_loop (Suc n) r scratch =
     (case ReadByte r of
        (r', Inl e) \<Rightarrow> (r', Inl e)
      | (r', Inr b) \<Rightarrow> read_loop n r' (scratch @ [b]))"

definition readN :: "bytes \<Rightarrow> uint64 \<Rightarrow> bytes \<times> (goerr + bytes)" where
  "readN r n = read_loop (unat n) r []"

definition ReadEvent :: "('e, 'n, 'p) any_lib \<Rightarrow> bytes \<Rightarrow> bytes \<times> (goerr + 'e)" where
  "ReadEvent lib r =
     (case readN r 8 of
        (r1, Inl e) \<Rightarrow> (r1, Inl e)
      | (r1, Inr data) \<Rightarrow> (case readN r1 (little_Uint64 data) of
          (r2, Inl e) \<Rightarrow> (r2, Inl e)
        | (r2, Inr data') \<Rightarrow> (case UnmarshalEvent lib data' of
            Inl e \<Rightarrow> (r2, Inl e)
          | Inr event \<Rightarrow> (r2, Inr event))))"

section \<open>Frames\<close>

lemma little_Uint64_Put [simp]: "little_Uint64 (little_PutUint64 v) = v"
  by (simp add: little_Uint64_def little_PutUint64_def)

lemma length_little [simp]: "length (little_PutUint64 v) = 8"
  by (simp add: little_PutUint64_def)

lemma read_loop_take: "read_loop (length xs) (xs @ r) scratch = (r, Inr (scratch @ xs))"
  by (induction xs arbitrary: scratch) (simp_all add: ReadByte_def)

lemma read_loop_eof: "length r < n \<Longrightarrow> read_loop n r scratch = ([], Inl (Foreign ''EOF''))"
  by (induction n r scratch rule: read_loop.induct) (auto simp: ReadByte_def split: list.splits)

definition frame :: "bytes \<Rightarrow> bytes" where
  "frame data = little_PutUint64 (word_of_nat (length data)) @ data"

lemma ReadEvent_frame:
  assumes "length data < 2 ^ 64"
  shows "ReadEvent lib (frame data @ r) = (r, UnmarshalEvent lib data)"
proof -
  have "readN (frame data @ r) 8 = (data @ r, Inr (little_PutUint64 (word_of_nat (length data))))"
    using read_loop_take [of "little_PutUint64 (word_of_nat (length data))" "data @ r" "[]"] by (simp add: readN_def frame_def)
  moreover have "readN (data @ r) (word_of_nat (length data)) = (r, Inr data)"
    using read_loop_take [of data r "[]"] assms by (simp add: readN_def unsigned_of_nat take_bit_nat_eq_self)
  ultimately show ?thesis by (simp add: ReadEvent_def split: sum.split)
qed

end
