(* ===== verification/SerializerProperties.thy ===== *)
theory SerializerProperties
  imports Serializers
begin

text \<open>
  The properties of the serializers: they keep the contract that the repository assumes of a
  serializer, and a stream of events reads back as it was written.
\<close>

section \<open>The libraries\<close>

text \<open>
  The documented behaviour of the protobuf library on events: what was marshalled unmarshals to the
  event, and looks like no gzip data; no Go slice is longer than an \<open>int\<close> can say.
\<close>

definition any_laws :: "('e, 'n, 'p) any_lib \<Rightarrow> bool" where
  "any_laws lib \<longleftrightarrow>
     (\<forall>e a b. ay_new lib e = Inr a \<longrightarrow> ay_marshal lib a = Inr b \<longrightarrow>
        \<not> IsGzipped b \<and> length b < 2 ^ 63 \<and> ay_unmarshal lib b = Inr a
        \<and> (\<exists>m. ay_unmarshal_new lib a = Inr m \<and> ay_as_event lib m = Some e))"

lemma MarshalEvent_laws:
  assumes "any_laws lib" "MarshalEvent lib e = Inr b"
  shows "\<not> IsGzipped b" "length b < 2 ^ 64" "UnmarshalEvent lib b = Inr e"
proof -
  obtain a where a: "ay_new lib e = Inr a" "ay_marshal lib a = Inr b"
    using assms(2) by (auto simp: MarshalEvent_def split: sum.splits)
  then have "\<not> IsGzipped b \<and> length b < 2 ^ 63 \<and> ay_unmarshal lib b = Inr a
      \<and> (\<exists>m. ay_unmarshal_new lib a = Inr m \<and> ay_as_event lib m = Some e)"
    using assms(1) by (simp add: any_laws_def)
  then show "\<not> IsGzipped b" "length b < 2 ^ 64" "UnmarshalEvent lib b = Inr e"
    by (auto simp: UnmarshalEvent_def)
qed

lemma NewSerializer_laws:
  assumes "any_laws lib"
  shows "serializer_laws (NewSerializer lib ev) ev"
  unfolding serializer_laws_def
proof (intro allI impI)
  fix e r assume "sz_marshal_event (NewSerializer lib ev) e = Inr r"
  then obtain b where "MarshalEvent lib e = Inr b" "r = \<lparr>rec_version = ev_version ev e, rec_data = b, rec_ttl = 0\<rparr>"
    by (auto simp: NewSerializer_def serializer_MarshalEvent_def split: sum.splits)
  with MarshalEvent_laws [OF assms this(1)]
  show "rec_version r = ev_version ev e \<and> \<not> IsGzipped (rec_data r)
      \<and> (\<forall>t. sz_unmarshal_event (NewSerializer lib ev) (r\<lparr>rec_ttl := t\<rparr>) = Inr e)"
    by (simp add: NewSerializer_def serializer_UnmarshalEvent_def)
qed

text \<open>A writer that appends to its contents.\<close>

locale byte_writer =
  fixes wr :: "'w write_fn" and contents :: "'w \<Rightarrow> bytes"
  assumes write_all: "wr w b = (w', n, None) \<Longrightarrow> contents w' = contents w @ b \<and> n = int (length b)"
begin

lemma write_frame_contents:
  "write_frame wr w data = (w', Inr n) \<Longrightarrow> contents w' = contents w @ frame data \<and> n = int (length (frame data))"
  by (auto simp: write_frame_def frame_def split: prod.splits option.splits dest!: write_all)

end

text \<open>A \<open>bytes.Buffer\<close>.\<close>

definition buffer_write :: "bytes write_fn" where
  "buffer_write w b = (w @ b, int (length b), None)"

interpretation bb: byte_writer buffer_write "\<lambda>w. w"
  by unfold_locales (auto simp: buffer_write_def)

section \<open>Streams\<close>

text \<open>Writing events one after the other, and reading a number of them.\<close>

fun write_events :: "('e, 'n, 'p) any_lib \<Rightarrow> 'w write_fn \<Rightarrow> 'w \<Rightarrow> 'e list \<Rightarrow> 'w \<times> goerr option" where
  "write_events lib wr w [] = (w, None)"
| "write_events lib wr w (e # es) =
     (case WriteEvent lib wr w e of
        (w', Inl err) \<Rightarrow> (w', Some err)
      | (w', Inr n) \<Rightarrow> write_events lib wr w' es)"

fun read_events :: "('e, 'n, 'p) any_lib \<Rightarrow> nat \<Rightarrow> bytes \<Rightarrow> bytes \<times> (goerr + 'e list)" where
  "read_events lib 0 r = (r, Inr [])"
| "read_events lib (Suc n) r =
     (case ReadEvent lib r of
        (r', Inl err) \<Rightarrow> (r', Inl err)
      | (r', Inr e) \<Rightarrow> (case read_events lib n r' of
          (r'', Inl err) \<Rightarrow> (r'', Inl err)
        | (r'', Inr es) \<Rightarrow> (r'', Inr (e # es))))"

text \<open>A library for events that are numbers below 100, one byte each after the tag of an \<open>Any\<close>.\<close>

definition number_any :: "(nat, nat, nat) any_lib" where
  "number_any = \<lparr>ay_name = ''proto'', ay_new = (\<lambda>e. if e < 100 then Inr e else Inl (Foreign ''too large'')),
     ay_marshal = (\<lambda>a. Inr [10, word_of_nat a]),
     ay_unmarshal = (\<lambda>b. case b of [t, x] \<Rightarrow> Inr (unat x) | _ \<Rightarrow> Inl (Foreign ''cannot parse'')),
     ay_unmarshal_new = Inr, ay_as_event = Some, ay_type_name = (\<lambda>_. ''*v1.Number'')\<rparr>"

lemma number_any_laws: "any_laws number_any"
  by (auto simp: any_laws_def number_any_def IsGzipped_def unat_byte split: if_splits)

definition number_events :: "nat event_ops" where
  "number_events = \<lparr>ev_id = (\<lambda>_. ''n''), ev_version = word_of_nat, ev_at = (\<lambda>_. 0), ev_actor = (\<lambda>_. []), ev_type_name = (\<lambda>_. ''Number'')\<rparr>"

section \<open>Properties\<close>

text \<open>
  C39. The serializers keep the contract that the repository's properties assume: over a protobuf
  library with its documented round trips, a marshalled event is a record with the event's
  version and data that is not taken for gzip, and unmarshalling it, whatever its TTL, gives the
  event back.
\<close>

theorem serializers_keep_laws:
  assumes "any_laws binary" "any_laws json"
  shows "serializer_laws (protobinary_NewSerializer binary ev) ev \<and> serializer_laws (protojson_NewSerializer json ev) ev"
  using NewSerializer_laws [of "binary\<lparr>ay_name := ''proto''\<rparr>" ev] NewSerializer_laws [of "json\<lparr>ay_name := ''protojson''\<rparr>" ev] assms
  by (simp add: any_laws_def protobinary_NewSerializer_def protojson_NewSerializer_def)

theorem serializers_keep_laws_witness:
  "serializer_laws (protobinary_NewSerializer number_any number_events) number_events
   \<and> serializer_laws (protojson_NewSerializer number_any number_events) number_events"
  by (rule serializers_keep_laws [OF number_any_laws number_any_laws])

text \<open>
  A stream of events reads back: when writing a list of events with the \<open>Encoder\<close> succeeds, the
  bytes it appended are such that the \<open>Decoder\<close>, whatever follows them, reads exactly these events
  in order and stops right after them.
\<close>

theorem event_stream_roundtrip:
  assumes "byte_writer wr contents" "any_laws lib" "write_events lib wr w es = (w', None)"
  shows "\<exists>data. contents w' = contents w @ data \<and> (\<forall>r. read_events lib (length es) (data @ r) = (r, Inr es))"
  using assms(3)
proof (induction es arbitrary: w)
  case (Cons e es)
  obtain w1 n where w1: "WriteEvent lib wr w e = (w1, Inr n)" "write_events lib wr w1 es = (w', None)"
    using Cons.prems by (auto split: prod.splits sum.splits)
  then obtain b where b: "MarshalEvent lib e = Inr b" "write_frame wr w b = (w1, Inr n)"
    by (auto simp: WriteEvent_def split: sum.splits)
  have c: "contents w1 = contents w @ frame b" using byte_writer.write_frame_contents [OF assms(1) b(2)] by simp
  obtain data where data: "contents w' = contents w1 @ data" "\<forall>r. read_events lib (length es) (data @ r) = (r, Inr es)"
    using Cons.IH [OF w1(2)] by blast
  have "read_events lib (length (e # es)) ((frame b @ data) @ r) = (r, Inr (e # es))" for r
    using ReadEvent_frame [of b lib "data @ r"] MarshalEvent_laws(2,3) [OF assms(2) b(1)] data(2) by simp
  with c data(1) show ?case by (intro exI [of _ "frame b @ data"]) simp
qed simp

theorem event_stream_roundtrip_witness:
  "\<exists>data. fst (write_events number_any buffer_write [] [7, 9]) = data
     \<and> read_events number_any 2 (data @ [1]) = ([1], Inr [7, 9])"
proof -
  have "write_events number_any buffer_write [] [7, 9] = (fst (write_events number_any buffer_write [] [7, 9]), None)"
    by (simp add: WriteEvent_def MarshalEvent_def number_any_def write_frame_def buffer_write_def)
  from event_stream_roundtrip [OF bb.byte_writer_axioms number_any_laws this] show ?thesis
    by (simp add: numeral_2_eq_2 del: write_events.simps read_events.simps)
qed

end
