(* ===== verification/MysqlStore.thy ===== *)
theory MysqlStore
  imports Contracts
begin

text \<open>
  stores/mysqlstore/mysql_store.go over \<open>database/sql\<close> with a MySQL driver as a parameter: \<open>'s\<close> is
  the state of the server, \<open>'t\<close> a transaction, \<open>'q\<close> a prepared statement. Closing statements and
  rows has no effect here. At the end, what MySQL's documented check of an INSERT means for \<open>Save\<close>.
\<close>

section \<open>The driver\<close>

datatype sql_value = SQL_text string | SQL_int int64 | SQL_blob bytes

text \<open>The rows of a query: what scanning each of them gives, and the error of the iteration.\<close>

record sql_rows =
  sr_scans :: "(goerr + int64 \<times> bytes) list"
  sr_err :: "goerr option"

record ('s, 't, 'q) sql_db =
  sq_begin :: "ctx \<Rightarrow> 's \<Rightarrow> 's \<times> (goerr + 't)"
  sq_prepare :: "ctx \<Rightarrow> 't \<Rightarrow> string \<Rightarrow> 's \<Rightarrow> 's \<times> (goerr + 'q)"
  sq_exec :: "ctx \<Rightarrow> 'q \<Rightarrow> sql_value list \<Rightarrow> 's \<Rightarrow> 's \<times> goerr option"
  sq_rollback :: "'t \<Rightarrow> 's \<Rightarrow> 's"
  sq_commit :: "'t \<Rightarrow> 's \<Rightarrow> 's \<times> goerr option"
  sq_query :: "ctx \<Rightarrow> string \<Rightarrow> sql_value list \<Rightarrow> 's \<Rightarrow> goerr + sql_rows"

record ('s, 't, 'q) mysql_store =
  my_db :: "('s, 't, 'q) sql_db"
  my_snapshotInterval :: int64

definition NewMySQLStore :: "('s, 't, 'q) sql_db \<Rightarrow> int64 \<Rightarrow> ('s, 't, 'q) mysql_store" where
  "NewMySQLStore db snapshotInterval = \<lparr>my_db = db, my_snapshotInterval = snapshotInterval\<rparr>"

definition mysql_SnapshotInterval :: "('s, 't, 'q) mysql_store \<Rightarrow> int64" where
  "mysql_SnapshotInterval m = my_snapshotInterval m"

section \<open>Save\<close>

definition mysql_insert :: string where
  "mysql_insert = ''INSERT INTO records (aggregate_id, version, payload, timestamp) VALUES (?, ?, ?)''"

text \<open>The loop over the records; an error rolls the transaction back.\<close>

fun mysql_insert_all ::
    "('s, 't, 'q) sql_db \<Rightarrow> ctx \<Rightarrow> 't \<Rightarrow> 'q \<Rightarrow> string \<Rightarrow> pb_record list \<Rightarrow> 's \<Rightarrow> 's \<times> goerr option" where
  "mysql_insert_all db c tx stmt aggregateId [] s = (s, None)"
| "mysql_insert_all db c tx stmt aggregateId (rec # recs) s =
     (case sq_exec db c stmt [SQL_text aggregateId, SQL_int (rec_version rec), SQL_blob (rec_data rec)] s of
        (s', Some e) \<Rightarrow> (sq_rollback db tx s', Some (errorf ''mysqlstore.Save: failed to insert record: '' e))
      | (s', None) \<Rightarrow> mysql_insert_all db c tx stmt aggregateId recs s')"

definition mysql_Save ::
    "('s, 't, 'q) mysql_store \<Rightarrow> ctx \<Rightarrow> 's \<Rightarrow> string \<Rightarrow> pb_record list \<Rightarrow> 's \<times> goerr option" where
  "mysql_Save m c s aggregateId records =
     (let db = my_db m
      in if length records = 0 then (s, Some (Foreign ''mysqlstore.Save: no records to save''))
         else (case sq_begin db c s of
             (s1, Inl e) \<Rightarrow> (s1, Some (errorf ''mysqlstore.Save: failed to begin transaction: '' e))
           | (s1, Inr tx) \<Rightarrow> (case sq_prepare db c tx mysql_insert s1 of
               (s2, Inl e) \<Rightarrow> (sq_rollback db tx s2, Some (errorf ''mysqlstore.Save: failed to prepare statement: '' e))
             | (s2, Inr stmt) \<Rightarrow> (case mysql_insert_all db c tx stmt aggregateId records s2 of
                 (s3, Some e) \<Rightarrow> (s3, Some e)
               | (s3, None) \<Rightarrow> (case sq_commit db tx s3 of
                   (s4, Some e) \<Rightarrow> (s4, Some (errorf ''mysqlstore.Save: failed to commit transaction: '' e))
                 | (s4, None) \<Rightarrow> (s4, None))))))"

section \<open>Load\<close>

definition mysql_select :: string where
  "mysql_select = ''SELECT version, payload FROM records WHERE aggregate_id = ? ORDER BY version ASC''"

fun mysql_scan_all :: "(goerr + int64 \<times> bytes) list \<Rightarrow> goerr + history" where
  "mysql_scan_all [] = Inr []"
| "mysql_scan_all (scan # scans) =
     (case scan of
        Inl e \<Rightarrow> Inl (errorf ''mysqlstore.Load: failed to scan record: '' e)
      | Inr (version, payload) \<Rightarrow> (case mysql_scan_all scans of
          Inl e \<Rightarrow> Inl e
        | Inr recs \<Rightarrow> Inr (\<lparr>rec_version = version, rec_data = payload, rec_ttl = 0\<rparr> # recs)))"

definition mysql_Load ::
    "('s, 't, 'q) mysql_store \<Rightarrow> ctx \<Rightarrow> 's \<Rightarrow> string \<Rightarrow> goerr + history" where
  "mysql_Load m c s aggregateId =
     (case sq_query (my_db m) c mysql_select [SQL_text aggregateId] s of
        Inl e \<Rightarrow> Inl (errorf ''mysqlstore.Load: failed to query records: '' e)
      | Inr rows \<Rightarrow> (case mysql_scan_all (sr_scans rows) of
          Inl e \<Rightarrow> Inl e
        | Inr recs \<Rightarrow> (case sr_err rows of
            Some e \<Rightarrow> Inl (errorf ''mysqlstore.Load: row iteration error: '' e)
          | None \<Rightarrow> Inr recs)))"

section \<open>The check of an INSERT\<close>


text \<open>
  The statement \<open>INSERT INTO table (c1, ..., cn) VALUES (?, ..., ?)\<close> with as many placeholders as
  \<open>m\<close> says, over names of letters and underscores; there is nothing else in its parentheses.
\<close>

definition sql_name :: "string \<Rightarrow> bool" where
  "sql_name s \<longleftrightarrow> s \<noteq> [] \<and> set s \<subseteq> set ''abcdefghijklmnopqrstuvwxyz_''"

definition insert_text :: "string \<Rightarrow> string list \<Rightarrow> nat \<Rightarrow> string" where
  "insert_text table cols m = ''INSERT INTO '' @ table @ '' ('' @ join '', '' cols @ '') VALUES (''
     @ join '', '' (replicate m ''?'') @ '')''"

text \<open>
  What MySQL documents: such a statement, with another number of values than of columns, is refused
  (ER_WRONG_VALUE_COUNT_ON_ROW, 1136) when it is prepared; starting, preparing and rolling back
  leave the committed rows \<open>tbl\<close> as they are; a SELECT gives the rows in the order asked for.
\<close>

locale mysql_server =
  fixes db :: "('s, 't, 'q) sql_db" and tbl :: "'s \<Rightarrow> string \<Rightarrow> (int64 \<times> bytes) list"
  assumes prepare_checks: "sql_name table \<Longrightarrow> \<forall>col \<in> set cols. sql_name col \<Longrightarrow> cols \<noteq> [] \<Longrightarrow> 0 < m \<Longrightarrow>
      m \<noteq> length cols \<Longrightarrow> sq_prepare db c tx (insert_text table cols m) s = (s', r) \<Longrightarrow> \<exists>e. r = Inl e"
    and begin_keeps: "sq_begin db c s = (s', b) \<Longrightarrow> tbl s' = tbl s"
    and prepare_keeps: "sq_prepare db c tx q s = (s', p) \<Longrightarrow> tbl s' = tbl s"
    and rollback_keeps: "tbl (sq_rollback db tx s) = tbl s"
    and select_rows: "sq_query db c mysql_select [SQL_text k] s = Inr rows \<Longrightarrow> sr_err rows = None \<Longrightarrow>
      sr_scans rows = map Inr (tbl s k)"
begin

lemma insert_refused: "sq_prepare db c tx mysql_insert s = (s', r) \<Longrightarrow> \<exists>e. r = Inl e"
proof -
  let ?cols = "[''aggregate_id'', ''version'', ''payload'', ''timestamp'']"
  have ins: "mysql_insert = insert_text ''records'' ?cols 3" by code_simp
  have names: "sql_name ''records''" "\<forall>col \<in> set ?cols. sql_name col" by (simp_all add: sql_name_def)
  assume "sq_prepare db c tx mysql_insert s = (s', r)"
  from prepare_checks [OF names _ _ _ this [unfolded ins]] show ?thesis by simp
qed

lemma mysql_Save_fails:
  assumes "my_db m = db" "mysql_Save m c s k records = (s', r)"
  shows "r \<noteq> None \<and> tbl s' = tbl s
    \<and> (records \<noteq> [] \<and> (\<exists>s1 tx. sq_begin db c s = (s1, Inr tx)) \<longrightarrow>
        (\<exists>e. r = Some (errorf ''mysqlstore.Save: failed to prepare statement: '' e)))"
proof (cases "records = []")
  case True
  with assms(2) show ?thesis by (auto simp: mysql_Save_def)
next
  case False
  obtain s1 b where b: "sq_begin db c s = (s1, b)" by fastforce
  show ?thesis
  proof (cases b)
    case (Inl e)
    with assms b False begin_keeps [OF b] show ?thesis by (auto simp: mysql_Save_def Let_def)
  next
    case (Inr tx)
    obtain s2 p where p: "sq_prepare db c tx mysql_insert s1 = (s2, p)" by fastforce
    from insert_refused [OF p] obtain e where "p = Inl e" by blast
    with assms b False Inr p begin_keeps [OF b] prepare_keeps [OF p] rollback_keeps [of tx s2]
    show ?thesis by (auto simp: mysql_Save_def Let_def)
  qed
qed

lemma mysql_scan_rows: "mysql_scan_all (map Inr vs) = Inr (map (\<lambda>(v, d). \<lparr>rec_version = v, rec_data = d, rec_ttl = 0\<rparr>) vs)"
  by (induction vs) auto

lemma mysql_Load_rows:
  assumes "my_db m = db" "mysql_Load m c s k = Inr h"
  shows "map rec_vd h = tbl s k"
proof -
  obtain rows where rows: "sq_query db c mysql_select [SQL_text k] s = Inr rows" "sr_err rows = None"
    using assms by (auto simp: mysql_Load_def split: sum.splits option.splits)
  with select_rows [OF rows] assms have "h = map (\<lambda>(v, d). \<lparr>rec_version = v, rec_data = d, rec_ttl = 0\<rparr>) (tbl s k)"
    by (simp add: mysql_Load_def mysql_scan_rows)
  then show ?thesis by (simp add: comp_def rec_vd_def split_def)
qed

end

text \<open>
  A server with some committed rows, which checks an INSERT by counting the commas in its two
  parentheses.
\<close>

fun paren_groups :: "string \<Rightarrow> string option \<Rightarrow> string list" where
  "paren_groups [] g = []"
| "paren_groups (c # cs) None = (if c = CHR ''('' then paren_groups cs (Some []) else paren_groups cs None)"
| "paren_groups (c # cs) (Some g) =
     (if c = CHR '')'' then rev g # paren_groups cs None else paren_groups cs (Some (c # g)))"

definition commas :: "string \<Rightarrow> nat" where
  "commas s = length (filter (\<lambda>c. c = CHR '','') s)"

definition count_mismatch :: "string \<Rightarrow> bool" where
  "count_mismatch q =
     (has_prefix q ''INSERT INTO '' \<and>
      (case paren_groups q None of [cols, vals] \<Rightarrow> commas cols \<noteq> commas vals | _ \<Rightarrow> False))"

lemma paren_groups_outside: "CHR ''('' \<notin> set xs \<Longrightarrow> paren_groups (xs @ ys) None = paren_groups ys None"
  by (induction xs) auto

lemma paren_groups_inside:
  "CHR '')'' \<notin> set xs \<Longrightarrow> paren_groups (xs @ CHR '')'' # ys) (Some g) = (rev g @ xs) # paren_groups ys None"
  by (induction xs arbitrary: g) auto

lemma commas_join: "ps \<noteq> [] \<Longrightarrow> \<forall>p \<in> set ps. CHR '','' \<notin> set p \<Longrightarrow> commas (join '', '' ps) = length ps - 1"
  by (induction "'', ''" ps rule: join.induct) (auto simp: commas_def filter_empty_conv)

lemma join_chars: "c \<in> set (join sep ps) \<Longrightarrow> c \<in> set sep \<or> (\<exists>p \<in> set ps. c \<in> set p)"
  by (induction sep ps rule: join.induct) auto

lemma insert_text_mismatch:
  assumes "sql_name table" "\<forall>col \<in> set cols. sql_name col" "cols \<noteq> []" "0 < m" "m \<noteq> length cols"
  shows "count_mismatch (insert_text table cols m)"
proof -
  let ?cols = "join '', '' cols" and ?vals = "join '', '' (replicate m ''?'')"
  have plain: "c \<notin> set table \<and> c \<notin> set ?cols \<and> c \<notin> set ?vals" if "c = CHR ''('' \<or> c = CHR '')''" for c
    using assms(1,2) that by (auto simp: sql_name_def dest!: join_chars)
  have no_comma: "\<forall>col \<in> set cols. CHR '','' \<notin> set col" using assms(2) by (auto simp: sql_name_def)
  have "paren_groups (insert_text table cols m) None
      = paren_groups ((''INSERT INTO '' @ table @ '' '') @ ''('' @ ?cols @ '')'' @ '' VALUES '' @ ''('' @ ?vals @ '')'') None"
    by (simp add: insert_text_def)
  also have "\<dots> = paren_groups (''('' @ ?cols @ '')'' @ '' VALUES '' @ ''('' @ ?vals @ '')'') None"
    using plain by (intro paren_groups_outside) simp
  also have "\<dots> = [?cols, ?vals]"
    using plain by (simp add: paren_groups_inside)
  finally have groups: "paren_groups (insert_text table cols m) None = [?cols, ?vals]" .
  have "commas ?cols = length cols - 1" "commas ?vals = m - 1"
    using commas_join [OF assms(3) no_comma] commas_join [of "replicate m ''?''"] assms(4) by simp_all
  with assms(3-5) have "commas ?cols \<noteq> commas ?vals" by (cases cols) auto
  with groups show ?thesis by (simp add: count_mismatch_def insert_text_def has_prefix_def)
qed

definition plain_mysql :: "(string \<Rightarrow> (int64 \<times> bytes) list, unit, unit) sql_db" where
  "plain_mysql =
     \<lparr>sq_begin = (\<lambda>c s. (s, Inr ())),
      sq_prepare = (\<lambda>c tx q s. (s, if count_mismatch q then Inl (Coded ''*mysql.MySQLError'' 1136 ''Column count does not match value count'')
                                    else Inr ())),
      sq_exec = (\<lambda>c q args s. (s, None)), sq_rollback = (\<lambda>tx s. s), sq_commit = (\<lambda>tx s. (s, None)),
      sq_query = (\<lambda>c q args s. case args of
          [SQL_text k] \<Rightarrow> Inr \<lparr>sr_scans = map Inr (s k), sr_err = None\<rparr>
        | _ \<Rightarrow> Inl (Foreign ''bad query''))\<rparr>"

interpretation pm: mysql_server plain_mysql "\<lambda>s. s"
proof unfold_locales
  fix table cols m c tx s s' r
  assume "sql_name table" "\<forall>col \<in> set cols. sql_name col" "cols \<noteq> []" "0 < m" "m \<noteq> length cols"
    and p: "sq_prepare plain_mysql c tx (insert_text table cols m) s = (s', r)"
  from insert_text_mismatch [OF this(1-5)] p show "\<exists>e. r = Inl e" by (auto simp: plain_mysql_def)
qed (auto simp: plain_mysql_def split: if_splits)

section \<open>Properties\<close>

text \<open>
  C40. The MySQL store never saves: over a server that refuses to prepare an INSERT of placeholders
  with another number of values than of columns, as MySQL documents, every call of \<open>Save\<close>, whatever
  the records, returns an error and leaves the committed rows as they were, because its INSERT
  names four columns and has three values. Once a transaction has begun, the error is always the
  one about preparing the statement.
\<close>

theorem mysql_save_never_succeeds:
  assumes "mysql_server (my_db m) tbl" "mysql_Save m c s k records = (s', r)"
  shows "r \<noteq> None \<and> tbl s' = tbl s
    \<and> (records \<noteq> [] \<and> (\<exists>s1 tx. sq_begin (my_db m) c s = (s1, Inr tx)) \<longrightarrow>
        (\<exists>e. r = Some (errorf ''mysqlstore.Save: failed to prepare statement: '' e)))"
  using mysql_server.mysql_Save_fails [OF assms(1) refl assms(2)] by blast

theorem mysql_save_never_succeeds_witness:
  "\<exists>e. snd (mysql_Save (NewMySQLStore plain_mysql 10) background (\<lambda>_. []) ''k''
      [\<lparr>rec_version = 1, rec_data = [7], rec_ttl = 0\<rparr>])
     = Some (errorf ''mysqlstore.Save: failed to prepare statement: '' e)"
proof -
  have "mysql_server (my_db (NewMySQLStore plain_mysql 10)) (\<lambda>s. s)"
    using pm.mysql_server_axioms by (simp add: NewMySQLStore_def)
  from mysql_save_never_succeeds [OF this prod.collapse [symmetric], of background "\<lambda>_. []" "''k''"
      "[\<lparr>rec_version = 1, rec_data = [7], rec_ttl = 0\<rparr>]"]
  show ?thesis by (simp add: NewMySQLStore_def plain_mysql_def)
qed

end
