(* ===== verification/ProtoAst.thy ===== *)
theory ProtoAst
  imports GoPrelude "HOL-Library.Multiset"
begin

text \<open>
  What the generator plugins under cmd/ see of a proto file: the messages, fields and enums of
  protoc-gen-star's syntax tree, with the options of gen/options/v1 on them. The tree is data made
  by that library; the records hold what its accessors return.

  \<^item> A message type that a field or an element refers to is a \<open>type_ref\<close>; \<open>Embed()\<close> and \<open>Enum()\<close> are
    nil, here \<open>None\<close>, unless \<open>IsEmbed()\<close>, \<open>IsEnum()\<close>. The fields of the message that is referred to
    are looked up by its full name, since messages may refer to each other.
  \<^item> A field is singular, repeated with an element, or a map with key and element; \<open>IsRepeated()\<close> is
    false for a map.
  \<^item> \<open>Extension\<close> is the outcome of reading the options: an error, nothing, or the options.
  \<^item> Enum numbers of the options, field orders and enum values, with which the code does no
    arithmetic that could wrap, are integers.
\<close>

section \<open>The syntax tree\<close>

datatype proto_type =
    DoubleT | FloatT | Int64T | UInt64T | Int32T | Fixed64T | Fixed32T | BoolT | StringT | GroupT
  | MessageT | BytesT | UInt32T | EnumT | SFixed32 | SFixed64 | SInt32 | SInt64

text \<open>\<open>ProtoType.String()\<close>: the name of the descriptor's type.\<close>

fun ProtoType_String :: "proto_type \<Rightarrow> string" where
  "ProtoType_String DoubleT = ''TYPE_DOUBLE''"
| "ProtoType_String FloatT = ''TYPE_FLOAT''"
| "ProtoType_String Int64T = ''TYPE_INT64''"
| "ProtoType_String UInt64T = ''TYPE_UINT64''"
| "ProtoType_String Int32T = ''TYPE_INT32''"
| "ProtoType_String Fixed64T = ''TYPE_FIXED64''"
| "ProtoType_String Fixed32T = ''TYPE_FIXED32''"
| "ProtoType_String BoolT = ''TYPE_BOOL''"
| "ProtoType_String StringT = ''TYPE_STRING''"
| "ProtoType_String GroupT = ''TYPE_GROUP''"
| "ProtoType_String MessageT = ''TYPE_MESSAGE''"
| "ProtoType_String BytesT = ''TYPE_BYTES''"
| "ProtoType_String UInt32T = ''TYPE_UINT32''"
| "ProtoType_String EnumT = ''TYPE_ENUM''"
| "ProtoType_String SFixed32 = ''TYPE_SFIXED32''"
| "ProtoType_String SFixed64 = ''TYPE_SFIXED64''"
| "ProtoType_String SInt32 = ''TYPE_SINT32''"
| "ProtoType_String SInt64 = ''TYPE_SINT64''"

record type_ref =
  tr_Name :: string
  tr_FQN :: string

record field_elem =
  el_ProtoType :: proto_type
  el_Embed :: "type_ref option"

datatype container = Singular | RepeatedOf field_elem | MapOf field_elem field_elem

record field_type =
  ft_ProtoType :: proto_type
  ft_container :: container
  ft_Embed :: "type_ref option"
  ft_Enum :: "type_ref option"

definition IsMap :: "field_type \<Rightarrow> bool" where
  "IsMap t = (case ft_container t of MapOf k e \<Rightarrow> True | _ \<Rightarrow> False)"

definition IsRepeated :: "field_type \<Rightarrow> bool" where
  "IsRepeated t = (case ft_container t of RepeatedOf e \<Rightarrow> True | _ \<Rightarrow> False)"

definition Element :: "field_type \<Rightarrow> field_elem option" where
  "Element t = (case ft_container t of Singular \<Rightarrow> None | RepeatedOf e \<Rightarrow> Some e | MapOf k e \<Rightarrow> Some e)"

abbreviation IsEmbed :: "field_type \<Rightarrow> bool" where
  "IsEmbed t \<equiv> ft_Embed t \<noteq> None"

abbreviation IsEnum :: "field_type \<Rightarrow> bool" where
  "IsEnum t \<equiv> ft_Enum t \<noteq> None"

section \<open>Options\<close>

type_synonym key_type = int

record opaque_key_mapping =
  ok_Type :: key_type
  ok_Order :: int

record pgs_field =
  f_Name :: string
  f_FQN :: string
  f_Number :: int
  f_Type :: field_type
  f_Extension :: "goerr + opaque_key_mapping list option"

definition LIFECYCLE_CREATION :: int where "LIFECYCLE_CREATION = 1"
definition LIFECYCLE_MUTATION :: int where "LIFECYCLE_MUTATION = 2"

record command_options =
  co_ProducesEvents :: "string list"
  co_Lifecycle :: int
  co_AllowedStates :: "string list"

definition ACTION_UNSPECIFIED :: int where "ACTION_UNSPECIFIED = 0"
definition ACTION_ADD :: int where "ACTION_ADD = 1"
definition ACTION_REMOVE :: int where "ACTION_REMOVE = 2"

record collection_mapping =
  cm_Target :: string
  cm_Action :: int
  cm_KeyField :: string

record event_options =
  eo_AggregateType :: string
  eo_SetsState :: string
  eo_Collection :: "collection_mapping option"

record aggregate_options =
  ao_StreamPrefix :: string
  ao_EventTtlSeconds :: int64

record projection_options =
  po_SourceAggregates :: "string list"

record snapshot_options =
  so_EveryNEvents :: uint32
  so_Disabled :: bool

text \<open>\<open>MessageOptions\<close>: a oneof, which may be unset.\<close>

datatype role =
    RoleCommand command_options | RoleEvent event_options | RoleAggregate aggregate_options
  | RoleProjection projection_options | RoleSnapshot snapshot_options

record message_options =
  mo_Role :: "role option"

definition GetCommand :: "message_options \<Rightarrow> command_options option" where
  "GetCommand x = (case mo_Role x of Some (RoleCommand c) \<Rightarrow> Some c | _ \<Rightarrow> None)"

definition GetEvent :: "message_options \<Rightarrow> event_options option" where
  "GetEvent x = (case mo_Role x of Some (RoleEvent e) \<Rightarrow> Some e | _ \<Rightarrow> None)"

definition GetAggregate :: "message_options \<Rightarrow> aggregate_options option" where
  "GetAggregate x = (case mo_Role x of Some (RoleAggregate a) \<Rightarrow> Some a | _ \<Rightarrow> None)"

definition GetProjection :: "message_options \<Rightarrow> projection_options option" where
  "GetProjection x = (case mo_Role x of Some (RoleProjection r) \<Rightarrow> Some r | _ \<Rightarrow> None)"

definition GetSnapshot :: "message_options \<Rightarrow> snapshot_options option" where
  "GetSnapshot x = (case mo_Role x of Some (RoleSnapshot s) \<Rightarrow> Some s | _ \<Rightarrow> None)"

record pgs_message =
  m_Name :: string
  m_FQN :: string
  m_Fields :: "pgs_field list"
  m_Extension :: "goerr + message_options option"

record enum_value =
  ev_Name :: string
  ev_FQN :: string
  ev_Value :: int

text \<open>The options of an enum hold one flag, \<open>display_names_disabled\<close>, those of a file \<open>enabled\<close>.\<close>

record pgs_enum =
  en_Name :: string
  en_FQN :: string
  en_Values :: "enum_value list"
  en_Extension :: "goerr + bool option"

record pgs_file =
  pf_Name :: string
  pf_InputBase :: string
  pf_Package :: string
  pf_Messages :: "pgs_message list"
  pf_AllMessages :: "pgs_message list"
  pf_AllEnums :: "pgs_enum list"
  pf_Extension :: "goerr + bool option"

section \<open>The key slots\<close>

text \<open>\<open>OpaqueKeyType.String()\<close>: the name from the table of names, or the number.\<close>

definition OpaqueKeyType_String :: "key_type \<Rightarrow> string" where
  "OpaqueKeyType_String kt =
     (if kt = 0 then ''OPAQUE_KEY_TYPE_UNSPECIFIED''
      else if kt = 1 then ''OPAQUE_KEY_TYPE_PK''
      else if kt = 2 then ''OPAQUE_KEY_TYPE_SK''
      else if 3 \<le> kt \<and> kt \<le> 42 then
        ''OPAQUE_KEY_TYPE_GSI'' @ dec_int ((kt - 3) div 2 + 1) @ (if odd kt then ''PK'' else ''SK'')
      else dec_int kt)"

text \<open>\<open>opaqueFieldMapping\<close>: a field with its order in a composite key.\<close>

record opaque_field_mapping =
  fm_Field :: pgs_field
  fm_Order :: int

section \<open>The plugins' parameters\<close>

text \<open>
  \<open>pgsgo.Context\<close>, which gives Go names, types and paths; the fields of a message by full name;
  the plugin parameter \<open>module\<close>, empty when it is not given; \<open>sort.Slice\<close> by order, which is not
  stable; the order in which Go ranges over a map with the given keys; and the names of the
  templates in the order of the walk.
\<close>

record plugin =
  p_FieldName :: "pgs_field \<Rightarrow> string"
  p_TypeName :: "type_ref \<Rightarrow> string"
  p_EnumName :: "pgs_enum \<Rightarrow> string"
  p_ValueName :: "enum_value \<Rightarrow> string"
  p_GoType :: "pgs_field \<Rightarrow> string"
  p_ImportPath :: "pgs_file \<Rightarrow> string"
  p_OutputPath :: "pgs_file \<Rightarrow> string"
  p_FieldsOf :: "string \<Rightarrow> pgs_field list"
  p_module :: string
  p_sort_slice :: "opaque_field_mapping list \<Rightarrow> opaque_field_mapping list"
  p_map_order :: "key_type list \<Rightarrow> key_type list"
  p_templates :: "string list"

text \<open>What the standard library promises of the two orders.\<close>

definition plugin_laws :: "plugin \<Rightarrow> bool" where
  "plugin_laws p \<longleftrightarrow>
     (\<forall>xs. mset (p_sort_slice p xs) = mset xs \<and> sorted (map fm_Order (p_sort_slice p xs))) \<and>
     (\<forall>ks. mset (p_map_order p ks) = mset ks)"

end
