(* ===== verification/Annotations.thy ===== *)
theory Annotations
  imports ProtoAst "HOL-Library.AList"
begin

text \<open>
  cmd/protoc-gen-protosource/protosourceify.go, the reading of annotations: the functions that the
  validators and the templates call on messages, fields and enums. The Go functions that return
  the empty string or nil when there is nothing to find return \<open>[]\<close> or \<open>None\<close>. A Go map is an
  association list with distinct keys, whose order means nothing.
\<close>

section \<open>Roles\<close>

definition messageOptions :: "pgs_message \<Rightarrow> message_options option" where
  "messageOptions m = (case m_Extension m of Inr (Some opts) \<Rightarrow> Some opts | _ \<Rightarrow> None)"

definition isAggregate :: "pgs_message \<Rightarrow> bool" where
  "isAggregate m = (case messageOptions m of None \<Rightarrow> False | Some opts \<Rightarrow> GetAggregate opts \<noteq> None)"

definition isCommand :: "pgs_message \<Rightarrow> bool" where
  "isCommand m = (case messageOptions m of None \<Rightarrow> False | Some opts \<Rightarrow> GetCommand opts \<noteq> None)"

definition isEvent :: "pgs_message \<Rightarrow> bool" where
  "isEvent m = (case messageOptions m of None \<Rightarrow> False | Some opts \<Rightarrow> GetEvent opts \<noteq> None)"

definition isProjection :: "pgs_message \<Rightarrow> bool" where
  "isProjection m = (case messageOptions m of None \<Rightarrow> False | Some opts \<Rightarrow> GetProjection opts \<noteq> None)"

definition isSnapshot :: "pgs_message \<Rightarrow> bool" where
  "isSnapshot m = (case messageOptions m of None \<Rightarrow> False | Some opts \<Rightarrow> GetSnapshot opts \<noteq> None)"

section \<open>Commands\<close>

definition commandOptions :: "pgs_message \<Rightarrow> command_options option" where
  "commandOptions m = (case messageOptions m of None \<Rightarrow> None | Some opts \<Rightarrow> GetCommand opts)"

definition commandLifecycle :: "pgs_message \<Rightarrow> string" where
  "commandLifecycle m =
     (case commandOptions m of
        None \<Rightarrow> ''UNSPECIFIED''
      | Some c \<Rightarrow>
          (if co_Lifecycle c = LIFECYCLE_CREATION then ''CREATION''
           else if co_Lifecycle c = LIFECYCLE_MUTATION then ''MUTATION''
           else ''UNSPECIFIED''))"

definition commandEvents :: "pgs_message \<Rightarrow> string list" where
  "commandEvents m = (case commandOptions m of None \<Rightarrow> [] | Some c \<Rightarrow> co_ProducesEvents c)"

definition commandAllowedStates :: "pgs_message \<Rightarrow> string list" where
  "commandAllowedStates m = (case commandOptions m of None \<Rightarrow> [] | Some c \<Rightarrow> co_AllowedStates c)"

text \<open>The nested loops of \<open>isCreationEvent\<close>: one command after the other, with its early return.\<close>

fun scan_producers :: "string \<Rightarrow> pgs_message list \<Rightarrow> bool \<Rightarrow> bool" where
  "scan_producers eventName [] producedByCreation = producedByCreation"
| "scan_producers eventName (msg # msgs) producedByCreation =
     (if \<not> isCommand msg then scan_producers eventName msgs producedByCreation
      else if eventName \<notin> set (commandEvents msg) then scan_producers eventName msgs producedByCreation
      else if commandLifecycle msg = ''CREATION'' then scan_producers eventName msgs True
      else False)"

definition isCreationEvent :: "pgs_message \<Rightarrow> pgs_file \<Rightarrow> bool" where
  "isCreationEvent m f = scan_producers (m_Name m) (pf_AllMessages f) False"

section \<open>Fields\<close>

definition find_field :: "string \<Rightarrow> pgs_field list \<Rightarrow> pgs_field option" where
  "find_field n flds = find (\<lambda>f. f_Name f = n) flds"

definition aggregateHasField :: "pgs_field \<Rightarrow> pgs_message \<Rightarrow> bool" where
  "aggregateHasField eventField aggregate = (\<exists>f \<in> set (m_Fields aggregate). f_Name f = f_Name eventField)"

definition commandEventArg :: "plugin \<Rightarrow> pgs_field \<Rightarrow> pgs_message \<Rightarrow> string" where
  "commandEventArg p eventField cmd =
     (case find_field (f_Name eventField) (m_Fields cmd) of
        Some f \<Rightarrow> ''m.Get'' @ p_FieldName p f @ ''()''
      | None \<Rightarrow>
          (let t = f_Type eventField in
             if IsRepeated t \<or> IsMap t \<or> IsEmbed t \<or> ft_ProtoType t = BytesT then ''nil''
             else ''m.Get'' @ p_FieldName p eventField @ ''()''))"

definition ExcludeInternal :: "pgs_field list \<Rightarrow> pgs_field list" where
  "ExcludeInternal flds = filter (\<lambda>f. f_Name f \<notin> {''id'', ''version'', ''at''}) flds"

definition ExcludeCommandInternal :: "pgs_field list \<Rightarrow> pgs_field list" where
  "ExcludeCommandInternal flds = filter (\<lambda>f. f_Name f \<noteq> ''id'') flds"

definition CLICommandFields :: "pgs_field list \<Rightarrow> pgs_field list" where
  "CLICommandFields flds = filter (\<lambda>f. \<not> (f_Name f = ''id'' \<or> f_Name f = ''actor'')) flds"

definition commandSupportsCLI :: "pgs_message \<Rightarrow> bool" where
  "commandSupportsCLI m =
     (\<forall>f \<in> set (CLICommandFields (m_Fields m)). \<not> (IsRepeated (f_Type f) \<or> IsMap (f_Type f)))"

text \<open>\<open>aggregateFieldGoName\<close> and \<open>eventFieldGoName\<close>: the Go name of a field found by its proto name.\<close>

definition aggregateFieldGoName :: "plugin \<Rightarrow> string \<Rightarrow> pgs_message \<Rightarrow> string" where
  "aggregateFieldGoName p protoName msg =
     (case find_field protoName (m_Fields msg) of None \<Rightarrow> [] | Some f \<Rightarrow> p_FieldName p f)"

definition eventFieldGoName :: "plugin \<Rightarrow> string \<Rightarrow> pgs_message \<Rightarrow> string" where
  "eventFieldGoName p protoName evt =
     (case find_field protoName (m_Fields evt) of None \<Rightarrow> [] | Some f \<Rightarrow> p_FieldName p f)"

definition isSingularEmbedField :: "pgs_field \<Rightarrow> bool" where
  "isSingularEmbedField f =
     (let t = f_Type f in IsEmbed t \<and> \<not> IsMap t \<and> \<not> IsRepeated t)"

section \<open>Enums\<close>

text \<open>\<open>buildEnumValueIndex\<close>: a later value of the same name replaces an earlier one.\<close>

definition index_enum :: "pgs_enum \<Rightarrow> (string \<times> string) list \<Rightarrow> (string \<times> string) list" where
  "index_enum e idx =
     fold (\<lambda>v. AList.update (ev_Name v) (en_Name e @ ''_'' @ ev_Name v)) (en_Values e) idx"

definition buildEnumValueIndex :: "pgs_file \<Rightarrow> (string \<times> string) list" where
  "buildEnumValueIndex f = fold index_enum (pf_AllEnums f) []"

definition stateEnumName :: "(string \<times> string) list \<Rightarrow> string \<Rightarrow> string" where
  "stateEnumName enumValueIndex valueName =
     (case map_of enumValueIndex valueName of None \<Rightarrow> [] | Some s \<Rightarrow> s)"

section \<open>Files\<close>

text \<open>The first snapshot message decides, and a disabled one means zero.\<close>

fun snapshot_every :: "pgs_message list \<Rightarrow> uint32" where
  "snapshot_every [] = 0"
| "snapshot_every (m # ms) =
     (case messageOptions m of
        None \<Rightarrow> snapshot_every ms
      | Some opts \<Rightarrow>
          (case GetSnapshot opts of
             None \<Rightarrow> snapshot_every ms
           | Some snap \<Rightarrow> (if so_Disabled snap then 0 else so_EveryNEvents snap)))"

definition snapshotEveryN :: "pgs_file \<Rightarrow> uint32" where
  "snapshotEveryN f = snapshot_every (pf_Messages f)"

fun event_ttl :: "pgs_message list \<Rightarrow> int64" where
  "event_ttl [] = 0"
| "event_ttl (m # ms) =
     (case messageOptions m of
        None \<Rightarrow> event_ttl ms
      | Some opts \<Rightarrow>
          (case GetAggregate opts of None \<Rightarrow> event_ttl ms | Some a \<Rightarrow> ao_EventTtlSeconds a))"

definition eventTTLSeconds :: "pgs_file \<Rightarrow> int64" where
  "eventTTLSeconds f = event_ttl (pf_Messages f)"

definition eventMessage :: "string \<Rightarrow> pgs_file \<Rightarrow> pgs_message option" where
  "eventMessage n f = find (\<lambda>m. m_Name m = n) (pf_Messages f)"

definition aggregateForFile :: "pgs_file \<Rightarrow> pgs_message option" where
  "aggregateForFile f = find isAggregate (pf_Messages f)"

definition projectionsForFile :: "pgs_file \<Rightarrow> pgs_message list" where
  "projectionsForFile f = filter isProjection (pf_Messages f)"

definition routePrefix :: "pgs_file \<Rightarrow> string" where
  "routePrefix f = replace_char (CHR ''.'') (CHR ''/'') (pf_Package f)"

definition protoPackage :: "pgs_file \<Rightarrow> string" where
  "protoPackage f = pf_Package f"

section \<open>Events and collections\<close>

definition eventOptions :: "pgs_message \<Rightarrow> event_options option" where
  "eventOptions m = (case messageOptions m of None \<Rightarrow> None | Some opts \<Rightarrow> GetEvent opts)"

definition eventSetsState :: "pgs_message \<Rightarrow> string" where
  "eventSetsState m = (case eventOptions m of None \<Rightarrow> [] | Some e \<Rightarrow> eo_SetsState e)"

definition eventCollectionMapping :: "pgs_message \<Rightarrow> collection_mapping option" where
  "eventCollectionMapping m = (case eventOptions m of None \<Rightarrow> None | Some e \<Rightarrow> eo_Collection e)"

definition eventCollectionAction :: "pgs_message \<Rightarrow> string" where
  "eventCollectionAction m =
     (case eventCollectionMapping m of
        None \<Rightarrow> []
      | Some cm \<Rightarrow>
          (if cm_Action cm = ACTION_ADD then ''ADD''
           else if cm_Action cm = ACTION_REMOVE then ''REMOVE'' else []))"

definition eventCollectionTarget :: "pgs_message \<Rightarrow> string" where
  "eventCollectionTarget m = (case eventCollectionMapping m of None \<Rightarrow> [] | Some cm \<Rightarrow> cm_Target cm)"

definition eventCollectionKeyField :: "pgs_message \<Rightarrow> string" where
  "eventCollectionKeyField m = (case eventCollectionMapping m of None \<Rightarrow> [] | Some cm \<Rightarrow> cm_KeyField cm)"

text \<open>The type of the values of a map field whose values are messages.\<close>

definition map_value :: "field_type \<Rightarrow> type_ref option" where
  "map_value t = (case ft_container t of MapOf k e \<Rightarrow> el_Embed e | _ \<Rightarrow> None)"

text \<open>Whether a field's message type is the one with the given full name.\<close>

definition embeds :: "string \<Rightarrow> pgs_field \<Rightarrow> bool" where
  "embeds fqn f = (case ft_Embed (f_Type f) of None \<Rightarrow> False | Some r \<Rightarrow> tr_FQN r = fqn)"

definition eventCollectionSourceField :: "pgs_message \<Rightarrow> pgs_message \<Rightarrow> pgs_field option" where
  "eventCollectionSourceField evt agg =
     (case eventCollectionMapping evt of
        None \<Rightarrow> None
      | Some cm \<Rightarrow>
          (case find_field (cm_Target cm) (m_Fields agg) of
             None \<Rightarrow> None
           | Some targetField \<Rightarrow>
               (case map_value (f_Type targetField) of
                  None \<Rightarrow> None
                | Some elem \<Rightarrow> find (embeds (tr_FQN elem)) (m_Fields evt))))"

text \<open>The first field of the given name that is a map of messages.\<close>

definition collection_field :: "string \<Rightarrow> pgs_message \<Rightarrow> type_ref option" where
  "collection_field target agg =
     (case find (\<lambda>f. f_Name f = target \<and> map_value (f_Type f) \<noteq> None) (m_Fields agg) of
        None \<Rightarrow> None | Some f \<Rightarrow> map_value (f_Type f))"

definition collectionElementTypeName :: "plugin \<Rightarrow> string \<Rightarrow> pgs_message \<Rightarrow> string" where
  "collectionElementTypeName p target agg =
     (case collection_field target agg of None \<Rightarrow> [] | Some elem \<Rightarrow> p_TypeName p elem)"

text \<open>
  \<open>collectionKeyFieldGoName\<close> goes on to the next field of the aggregate when the element has no
  field of the name; field names of a message are distinct, so there is none.
\<close>

fun key_field_name :: "plugin \<Rightarrow> string \<Rightarrow> string \<Rightarrow> pgs_field list \<Rightarrow> string" where
  "key_field_name p keyField target [] = []"
| "key_field_name p keyField target (f # fs) =
     (case (if f_Name f = target then map_value (f_Type f) else None) of
        None \<Rightarrow> key_field_name p keyField target fs
      | Some elem \<Rightarrow>
          (case find_field keyField (p_FieldsOf p (tr_FQN elem)) of
             None \<Rightarrow> key_field_name p keyField target fs
           | Some ef \<Rightarrow> p_FieldName p ef))"

definition collectionKeyFieldGoName :: "plugin \<Rightarrow> string \<Rightarrow> string \<Rightarrow> pgs_message \<Rightarrow> string" where
  "collectionKeyFieldGoName p keyField target agg = key_field_name p keyField target (m_Fields agg)"

section \<open>Lemmas\<close>

text \<open>The oneof: a message has one role at most.\<close>

lemma roles_apart:
  "isAggregate m \<Longrightarrow> \<not> isCommand m \<and> \<not> isEvent m \<and> \<not> isProjection m \<and> \<not> isSnapshot m"
  "isCommand m \<Longrightarrow> \<not> isEvent m \<and> \<not> isProjection m \<and> \<not> isSnapshot m"
  "isEvent m \<Longrightarrow> \<not> isProjection m \<and> \<not> isSnapshot m"
  by (auto simp: isAggregate_def isCommand_def isEvent_def isProjection_def isSnapshot_def
      GetAggregate_def GetCommand_def GetEvent_def GetProjection_def GetSnapshot_def
      split: option.splits role.splits)

lemma find_fieldD: "find_field n fs = Some f \<Longrightarrow> f \<in> set fs \<and> f_Name f = n"
  by (auto simp: find_field_def find_Some_iff)

lemma find_field_None: "find_field n fs = None \<longleftrightarrow> (\<forall>f \<in> set fs. f_Name f \<noteq> n)"
  by (auto simp: find_field_def find_None_iff)

lemma find_field_distinct:
  "distinct (map f_Name fs) \<Longrightarrow> f \<in> set fs \<Longrightarrow> find_field (f_Name f) fs = Some f"
  by (induction fs) (auto simp: find_field_def)

lemma scan_producers_iff:
  "scan_producers e ms b \<longleftrightarrow>
     (b \<or> (\<exists>m \<in> set ms. isCommand m \<and> e \<in> set (commandEvents m))) \<and>
     (\<forall>m \<in> set ms. isCommand m \<and> e \<in> set (commandEvents m) \<longrightarrow> commandLifecycle m = ''CREATION'')"
  by (induction e ms b rule: scan_producers.induct) auto

lemma index_enum_get:
  "map_of (index_enum e idx) s =
     (if s \<in> ev_Name ` set (en_Values e) then Some (en_Name e @ ''_'' @ s) else map_of idx s)"
proof -
  have "map_of (fold (\<lambda>v. AList.update (ev_Name v) (en_Name e @ ''_'' @ ev_Name v)) vs idx) s =
      (if s \<in> ev_Name ` set vs then Some (en_Name e @ ''_'' @ s) else map_of idx s)" for vs
    by (induction vs arbitrary: idx) (auto simp: update_conv')
  then show ?thesis unfolding index_enum_def .
qed

lemma enum_index_get:
  "map_of (buildEnumValueIndex f) s \<noteq> None \<longleftrightarrow>
     (\<exists>e \<in> set (pf_AllEnums f). s \<in> ev_Name ` set (en_Values e))"
proof -
  have "map_of (fold index_enum es idx) s \<noteq> None \<longleftrightarrow>
      (\<exists>e \<in> set es. s \<in> ev_Name ` set (en_Values e)) \<or> map_of idx s \<noteq> None" for es idx
    by (induction es arbitrary: idx) (auto simp: index_enum_get)
  then show ?thesis by (simp add: buildEnumValueIndex_def)
qed

end
