(* ===== verification/KeySlots.thy ===== *)
theory KeySlots
  imports Annotations
begin

text \<open>
  cmd/protoc-gen-protosource/protosourceify.go, the key annotations: which fields make up each of
  the 42 key slots of a message, the indexes that its queries use, and the paths of the query
  routes. \<open>annotated\<close> is the reference for the collected map: the annotations of a slot in the
  order of the fields.
\<close>

section \<open>Collecting annotations\<close>

definition fieldOpaqueOptions :: "pgs_field \<Rightarrow> opaque_key_mapping list option" where
  "fieldOpaqueOptions f = (case f_Extension f of Inr (Some opts) \<Rightarrow> Some opts | _ \<Rightarrow> None)"

definition hasOpaqueAnnotations :: "pgs_message \<Rightarrow> bool" where
  "hasOpaqueAnnotations m =
     (if isAggregate m \<or> isProjection m then True
      else (\<exists>f \<in> set (m_Fields m).
              case fieldOpaqueOptions f of None \<Rightarrow> False | Some attrs \<Rightarrow> length attrs > 0))"

type_synonym key_mappings = "(key_type \<times> opaque_field_mapping list) list"

definition mapping_get :: "key_mappings \<Rightarrow> key_type \<Rightarrow> opaque_field_mapping list" where
  "mapping_get mappings kt = (case map_of mappings kt of None \<Rightarrow> [] | Some fms \<Rightarrow> fms)"

definition add_mapping :: "pgs_field \<Rightarrow> opaque_key_mapping \<Rightarrow> key_mappings \<Rightarrow> key_mappings" where
  "add_mapping f attr result =
     (let kt = ok_Type attr in
        if kt = 0 then result
        else AList.update kt (mapping_get result kt @ [\<lparr>fm_Field = f, fm_Order = ok_Order attr\<rparr>]) result)"

definition add_field :: "pgs_field \<Rightarrow> key_mappings \<Rightarrow> key_mappings" where
  "add_field f result =
     (case fieldOpaqueOptions f of None \<Rightarrow> result | Some attrs \<Rightarrow> fold (add_mapping f) attrs result)"

definition opaqueKeyMappings :: "plugin \<Rightarrow> pgs_message \<Rightarrow> key_mappings" where
  "opaqueKeyMappings p m =
     map (\<lambda>(kt, fms). (kt, p_sort_slice p fms)) (fold add_field (m_Fields m) [])"

section \<open>Slots\<close>

definition opaqueAllKeySlots :: "key_type list" where
  "opaqueAllKeySlots = [1..42]"

definition opaqueKeySlotName :: "key_type \<Rightarrow> string" where
  "opaqueKeySlotName kt = trim_prefix (OpaqueKeyType_String kt) ''OPAQUE_KEY_TYPE_''"

text \<open>Go divides towards zero; above 2 there is no difference.\<close>

definition opaqueKeySlotGSINum :: "key_type \<Rightarrow> int" where
  "opaqueKeySlotGSINum kt = (if kt \<le> 2 then 0 else (kt - 3) div 2 + 1)"

definition opaqueKeySlotIsSK :: "key_type \<Rightarrow> bool" where
  "opaqueKeySlotIsSK kt = (kt mod 2 = 0)"

definition opaqueReservedNames :: "string list" where
  "opaqueReservedNames = map opaqueKeySlotName opaqueAllKeySlots @ [''Hydrate'']"

definition opaqueKeyPrefix :: "pgs_message \<Rightarrow> pgs_file \<Rightarrow> string" where
  "opaqueKeyPrefix m f =
     (let pkg = replace_char (CHR ''.'') (CHR ''_'') (pf_Package f); name = to_lower (m_Name m)
      in pkg @ ''#'' @ name)"

definition opaqueFieldNameLower :: "pgs_field \<Rightarrow> string" where
  "opaqueFieldNameLower f = to_lower (f_Name f)"

definition projectionSKValue :: "pgs_message \<Rightarrow> string" where
  "projectionSKValue m = ''PROJ#'' @ m_Name m"

definition opaqueGSISKFields :: "plugin \<Rightarrow> pgs_message \<Rightarrow> int \<Rightarrow> opaque_field_mapping list" where
  "opaqueGSISKFields p m gsiNum = mapping_get (opaqueKeyMappings p m) (4 + (gsiNum - 1) * 2)"

definition opaquePKFields :: "plugin \<Rightarrow> pgs_message \<Rightarrow> opaque_field_mapping list" where
  "opaquePKFields p m =
     (if isAggregate m \<or> isProjection m then
        (case find_field ''id'' (m_Fields m) of
           None \<Rightarrow> [] | Some f \<Rightarrow> [\<lparr>fm_Field = f, fm_Order = 1\<rparr>])
      else mapping_get (opaqueKeyMappings p m) 1)"

section \<open>Indexes in use\<close>

record opaque_used_gsi =
  ug_Num :: int
  ug_HasPK :: bool
  ug_HasSK :: bool
  ug_PKType :: key_type
  ug_SKType :: key_type
  ug_PKFields :: "opaque_field_mapping list"
  ug_SKFields :: "opaque_field_mapping list"
  ug_PKOnlyDup :: bool

definition pkFieldsKey :: "plugin \<Rightarrow> opaque_field_mapping list \<Rightarrow> string" where
  "pkFieldsKey p fms = join ''+'' (map (\<lambda>fm. p_FieldName p (fm_Field fm)) fms)"

fun used_gsi_loop :: "key_mappings \<Rightarrow> int list \<Rightarrow> opaque_used_gsi list" where
  "used_gsi_loop mappings [] = []"
| "used_gsi_loop mappings (i # is) =
     (let pkType = 3 + (i - 1) * 2; skType = 4 + (i - 1) * 2;
          pkFields = mapping_get mappings pkType; skFields = mapping_get mappings skType
      in if length pkFields = 0 then used_gsi_loop mappings is
         else \<lparr>ug_Num = i, ug_HasPK = length pkFields > 0, ug_HasSK = length skFields > 0,
                ug_PKType = pkType, ug_SKType = skType, ug_PKFields = pkFields, ug_SKFields = skFields,
                ug_PKOnlyDup = False\<rparr> # used_gsi_loop mappings is)"

fun mark_dups :: "plugin \<Rightarrow> string set \<Rightarrow> opaque_used_gsi list \<Rightarrow> opaque_used_gsi list" where
  "mark_dups p seen [] = []"
| "mark_dups p seen (gsi # gsis) =
     (let key = pkFieldsKey p (ug_PKFields gsi)
      in (if key \<in> seen then gsi\<lparr>ug_PKOnlyDup := True\<rparr> else gsi) # mark_dups p (insert key seen) gsis)"

definition opaqueUsedGSIs :: "plugin \<Rightarrow> pgs_message \<Rightarrow> opaque_used_gsi list" where
  "opaqueUsedGSIs p m = mark_dups p {} (used_gsi_loop (opaqueKeyMappings p m) [1..20])"

section \<open>Query routes\<close>

definition route_part :: "opaque_field_mapping \<Rightarrow> string" where
  "route_part fm = replace_char (CHR ''_'') (CHR ''-'') (to_lower (f_Name (fm_Field fm)))"

definition queryRoutePath :: "opaque_field_mapping list \<Rightarrow> string" where
  "queryRoutePath fms = ''by-'' @ join ''-and-'' (map route_part fms)"

definition gsiQueryRoutePath :: "opaque_used_gsi \<Rightarrow> string" where
  "gsiQueryRoutePath gsi =
     (let base = queryRoutePath (ug_PKFields gsi) in
        if \<not> ug_PKOnlyDup gsi then base
        else (let skParts = map route_part (ug_SKFields gsi) in
                if length skParts > 0 then base @ ''-with-'' @ join ''-and-'' skParts else base))"

section \<open>The collected map against its reference\<close>

definition field_annotations :: "key_type \<Rightarrow> pgs_field \<Rightarrow> opaque_field_mapping list" where
  "field_annotations kt f =
     (case fieldOpaqueOptions f of
        None \<Rightarrow> []
      | Some attrs \<Rightarrow> map (\<lambda>a. \<lparr>fm_Field = f, fm_Order = ok_Order a\<rparr>) (filter (\<lambda>a. ok_Type a = kt) attrs))"

definition annotated :: "key_type \<Rightarrow> pgs_message \<Rightarrow> opaque_field_mapping list" where
  "annotated kt m = (if kt = 0 then [] else concat (map (field_annotations kt) (m_Fields m)))"

definition mappings_ok :: "key_mappings \<Rightarrow> bool" where
  "mappings_ok ms \<longleftrightarrow> distinct (map fst ms) \<and> 0 \<notin> fst ` set ms \<and> (\<forall>(kt, fms) \<in> set ms. fms \<noteq> [])"

lemma mapping_get_update:
  "mapping_get (AList.update k v ms) kt = (if k = kt then v else mapping_get ms kt)"
  by (simp add: mapping_get_def update_conv')

lemma update_not_Nil:
  "v \<noteq> [] \<Longrightarrow> (\<And>j w. (j, w) \<in> set ms \<Longrightarrow> w \<noteq> []) \<Longrightarrow> (j, w) \<in> set (AList.update k v ms) \<Longrightarrow> w \<noteq> []"
  by (induction ms) (auto split: if_splits)

lemma mappings_ok_add: "mappings_ok ms \<Longrightarrow> mappings_ok (add_mapping f a ms)"
  by (auto simp: mappings_ok_def add_mapping_def Let_def distinct_update dom_update
      dest: update_not_Nil [rotated 2])

lemma add_mappings_get:
  "kt \<noteq> 0 \<Longrightarrow> mapping_get (fold (add_mapping f) as ms) kt =
     mapping_get ms kt @ map (\<lambda>a. \<lparr>fm_Field = f, fm_Order = ok_Order a\<rparr>) (filter (\<lambda>a. ok_Type a = kt) as)"
  by (induction as arbitrary: ms) (auto simp: add_mapping_def Let_def mapping_get_update)

lemma add_mappings_ok: "mappings_ok ms \<Longrightarrow> mappings_ok (fold (add_mapping f) as ms)"
  by (induction as arbitrary: ms) (auto simp: mappings_ok_add)

lemma collected_get:
  assumes "kt \<noteq> 0"
  shows "mapping_get (fold add_field fs ms) kt = mapping_get ms kt @ concat (map (field_annotations kt) fs)"
  using assms
  by (induction fs arbitrary: ms)
    (auto simp: add_field_def field_annotations_def add_mappings_get split: option.split)

lemma collected_ok: "mappings_ok ms \<Longrightarrow> mappings_ok (fold add_field fs ms)"
  by (induction fs arbitrary: ms) (auto simp: add_field_def add_mappings_ok split: option.split)

end
