(* ===== verification/Validators.thy ===== *)
theory Validators
  imports KeySlots
begin

text \<open>
  cmd/protoc-gen-protosource/protosourceify.go, the validators that \<open>generate\<close> runs on a file before
  it writes anything. An error is the text that \<open>fmt.Errorf\<close> makes (it wraps nothing): \<open>%q\<close> is
  \<open>Quote\<close>. \<open>first_error\<close> is a loop that returns the first error of its body.
\<close>

section \<open>Errors\<close>

definition fmt_error :: "string list \<Rightarrow> goerr" where
  "fmt_error parts = Wrapped (concat parts) []"

text \<open>The dash that the messages use, in UTF-8.\<close>

definition dash :: string where
  "dash = [CHR 0x20, CHR 0xE2, CHR 0x80, CHR 0x94, CHR 0x20]"

fun first_error :: "('a \<Rightarrow> goerr option) \<Rightarrow> 'a list \<Rightarrow> goerr option" where
  "first_error check [] = None"
| "first_error check (x # xs) = (case check x of Some e \<Rightarrow> Some e | None \<Rightarrow> first_error check xs)"

lemma first_error_None [simp]: "first_error check xs = None \<longleftrightarrow> (\<forall>x \<in> set xs. check x = None)"
  by (induction xs) (auto split: option.split)

lemma first_errorD: "first_error check xs = Some e \<Longrightarrow> \<exists>x \<in> set xs. check x = Some e"
  by (induction xs) (auto split: option.splits)

section \<open>Required fields\<close>

record required_field =
  rf_name :: string
  rf_number :: int
  rf_ptype :: proto_type

definition commandFields :: "required_field list" where
  "commandFields =
     [\<lparr>rf_name = ''id'', rf_number = 1, rf_ptype = StringT\<rparr>,
      \<lparr>rf_name = ''actor'', rf_number = 2, rf_ptype = StringT\<rparr>]"

definition eventFields :: "required_field list" where
  "eventFields =
     [\<lparr>rf_name = ''id'', rf_number = 1, rf_ptype = StringT\<rparr>,
      \<lparr>rf_name = ''version'', rf_number = 2, rf_ptype = Int64T\<rparr>,
      \<lparr>rf_name = ''at'', rf_number = 3, rf_ptype = Int64T\<rparr>,
      \<lparr>rf_name = ''actor'', rf_number = 4, rf_ptype = StringT\<rparr>]"

text \<open>The map \<open>byName\<close>: a later field of the same name replaces an earlier one.\<close>

definition fields_by_name :: "pgs_message \<Rightarrow> string \<Rightarrow> pgs_field option" where
  "fields_by_name m n = map_of (rev (map (\<lambda>f. (f_Name f, f)) (m_Fields m))) n"

definition check_required :: "pgs_message \<Rightarrow> required_field \<Rightarrow> goerr option" where
  "check_required m req =
     (case fields_by_name m (rf_name req) of
        None \<Rightarrow> Some (fmt_error [''message '', m_Name m, '': missing required field '',
            Quote (rf_name req), '' (field number '', dec_int (rf_number req), '')''])
      | Some f \<Rightarrow>
          (if f_Number f \<noteq> rf_number req then
             Some (fmt_error [''message '', m_Name m, '': field '', Quote (rf_name req),
                 '' must be field number '', dec_int (rf_number req), '', got '',
                 dec_int (f_Number f)])
           else if ft_ProtoType (f_Type f) \<noteq> rf_ptype req then
             Some (fmt_error [''message '', m_Name m, '': field '', Quote (rf_name req),
                 '' must be type '', ProtoType_String (rf_ptype req), '', got '',
                 ProtoType_String (ft_ProtoType (f_Type f))])
           else None))"

definition validateFields :: "pgs_message \<Rightarrow> required_field list \<Rightarrow> goerr option" where
  "validateFields m required = first_error (check_required m) required"

section \<open>Commands and states\<close>

definition check_produced :: "pgs_message \<Rightarrow> pgs_file \<Rightarrow> string \<Rightarrow> goerr option" where
  "check_produced cmd f n =
     (case eventMessage n f of
        None \<Rightarrow> Some (fmt_error [''command '', m_Name cmd,
            '': produces_events references '', Quote n, '', but no such message exists''])
      | Some em \<Rightarrow> (if \<not> isEvent em then Some (fmt_error [''command '', m_Name cmd,
          '': produces_events references '', Quote n,
                 '', but it is not annotated as an event'']) else None))"

definition validateProducesEvents :: "pgs_message \<Rightarrow> pgs_file \<Rightarrow> goerr option" where
  "validateProducesEvents cmd f =
     (if length (commandEvents cmd) = 0 then Some (fmt_error [''command '', m_Name cmd,
         '': produces_events must list at least one event''])
      else first_error (check_produced cmd f) (commandEvents cmd))"

definition validateAllowedStates :: "(string \<times> string) list \<Rightarrow> pgs_message \<Rightarrow> goerr option" where
  "validateAllowedStates enumValueIndex cmd =
     first_error
       (\<lambda>s. if map_of enumValueIndex s = None then Some (fmt_error [''command '',
           m_Name cmd, '': allowed_states references '', Quote s,
                 '', but no such enum value exists in the file'']) else None)
       (commandAllowedStates cmd)"

definition validateSetsState :: "(string \<times> string) list \<Rightarrow> pgs_message \<Rightarrow> goerr option" where
  "validateSetsState enumValueIndex evt =
     (let state = eventSetsState evt in
        if state = [] then None
        else if map_of enumValueIndex state = None then Some (fmt_error [''event '', m_Name evt,
            '': sets_state references '', Quote state,
                 '', but no such enum value exists in the file''])
        else None)"

section \<open>Embedded messages\<close>

text \<open>
  \<open>agg_targets\<close> is \<open>aggByFQN\<close> at a type: the singular embedded fields of the aggregate of that
  type. The error lists them as the rename hint.
\<close>

definition agg_targets :: "pgs_message \<Rightarrow> string \<Rightarrow> string list" where
  "agg_targets agg fqn = map f_Name (filter (\<lambda>f. isSingularEmbedField f \<and> embeds fqn f) (m_Fields agg))"

definition rename_hint :: "string list \<Rightarrow> string" where
  "rename_hint targets =
     (case targets of
        [t] \<Rightarrow> Quote t
      | _ \<Rightarrow> ''one of '' @ join '', '' (map Quote targets))"

definition check_embed :: "pgs_message \<Rightarrow> pgs_message \<Rightarrow> pgs_field \<Rightarrow> goerr option" where
  "check_embed evt agg ef =
     (if \<not> isSingularEmbedField ef then None
      else if \<exists>f \<in> set (m_Fields agg). isSingularEmbedField f \<and> f_Name f = f_Name ef then None
      else (case ft_Embed (f_Type ef) of
              None \<Rightarrow> None
            | Some r \<Rightarrow>
                (let targets = agg_targets agg (tr_FQN r) in
                   if targets = [] then None
                   else Some (fmt_error [''event '', m_Name evt, '': embedded field '',
                       Quote (f_Name ef), '' (type '', tr_FQN r,
                       '') will not be applied to aggregate '', m_Name agg,
                       '': singular embedded fields are matched by field name and no aggregate field is named '',
                       Quote (f_Name ef), ''; rename the event field to match '',
                       rename_hint targets]))))"

definition validateSingularEmbed :: "pgs_message \<Rightarrow> pgs_message \<Rightarrow> goerr option" where
  "validateSingularEmbed evt agg =
     (if eventCollectionMapping evt \<noteq> None then None
      else first_error (check_embed evt agg) (m_Fields evt))"

section \<open>Collections\<close>

definition domain_fields :: "pgs_message \<Rightarrow> pgs_field list" where
  "domain_fields evt =
     filter (\<lambda>ef. f_Name ef \<notin> {''id'', ''version'', ''at'', ''actor''}) (m_Fields evt)"

definition validate_add :: "pgs_message \<Rightarrow> type_ref \<Rightarrow> goerr option" where
  "validate_add evt elem =
     (let matchCount = length (filter (embeds (tr_FQN elem)) (m_Fields evt)) in
        if matchCount = 0 then Some (fmt_error [''event '', m_Name evt,
            '': collection ADD requires a field of type '', tr_Name elem, '', but none found''])
        else if matchCount > 1 then Some (fmt_error [''event '', m_Name evt,
            '': collection ADD requires exactly one field of type '', tr_Name elem,
                 '', but found '', dec_nat matchCount])
        else if length (domain_fields evt) \<noteq> 1 then
          Some (fmt_error [''event '', m_Name evt,
              '': collection ADD must have exactly one domain field (the element), but has '',
              dec_nat (length (domain_fields evt))])
        else None)"

definition validate_remove :: "pgs_message \<Rightarrow> collection_mapping \<Rightarrow> goerr option" where
  "validate_remove evt cm =
     (case find_field (cm_KeyField cm) (m_Fields evt) of
        None \<Rightarrow> Some (fmt_error [''event '', m_Name evt,
            '': collection REMOVE requires a field named '', Quote (cm_KeyField cm),
            '' matching the key_field''])
      | Some evtKeyField \<Rightarrow>
          (if IsRepeated (f_Type evtKeyField) \<or> IsMap (f_Type evtKeyField) then
             Some (fmt_error [''event '', m_Name evt, '': collection REMOVE field '',
                 Quote (cm_KeyField cm), '' must be a scalar string, not repeated/map''])
           else if ft_ProtoType (f_Type evtKeyField) \<noteq> StringT then
             Some (fmt_error [''event '', m_Name evt, '': collection REMOVE field '',
                 Quote (cm_KeyField cm), '' must be a string, got '',
                 ProtoType_String (ft_ProtoType (f_Type evtKeyField))])
           else if length (domain_fields evt) \<noteq> 1 then
             Some (fmt_error [''event '', m_Name evt,
                 '': collection REMOVE must have exactly one domain field (the key), but has '',
                 dec_nat (length (domain_fields evt))])
           else None))"

text \<open>The checks on the target field: a map from strings to messages, whose type is the result.\<close>

definition collection_element ::
    "pgs_message \<Rightarrow> pgs_message \<Rightarrow> collection_mapping \<Rightarrow> goerr + type_ref" where
  "collection_element evt agg cm =
     (case find_field (cm_Target cm) (m_Fields agg) of
        None \<Rightarrow> Inl (fmt_error [''event '', m_Name evt, '': collection target '',
            Quote (cm_Target cm), '' not found on aggregate '', m_Name agg])
      | Some targetField \<Rightarrow>
          (case ft_container (f_Type targetField) of
             MapOf k e \<Rightarrow>
               (if el_ProtoType k \<noteq> StringT then
                  Inl (fmt_error [''event '', m_Name evt, '': collection target '',
                      Quote (cm_Target cm), '' on aggregate '', m_Name agg,
                      '' must have string keys''])
                else (case el_Embed e of
                        None \<Rightarrow> Inl (fmt_error [''event '', m_Name evt,
                            '': collection target '', Quote (cm_Target cm), '' on aggregate '',
                            m_Name agg, '' must have message values''])
                      | Some elem \<Rightarrow> Inr elem))
           | _ \<Rightarrow> Inl (fmt_error [''event '', m_Name evt, '': collection target '',
               Quote (cm_Target cm), '' on aggregate '', m_Name agg, '' must be a map field''])))"

definition check_key_field :: "plugin \<Rightarrow> pgs_message \<Rightarrow> collection_mapping \<Rightarrow> type_ref \<Rightarrow> goerr option" where
  "check_key_field p evt cm elem =
     (case find_field (cm_KeyField cm) (p_FieldsOf p (tr_FQN elem)) of
        None \<Rightarrow> Some (fmt_error [''event '', m_Name evt, '': key_field '',
            Quote (cm_KeyField cm), '' not found on element '', tr_Name elem])
      | Some elemKeyField \<Rightarrow>
          (if IsRepeated (f_Type elemKeyField) \<or> IsMap (f_Type elemKeyField) then
             Some (fmt_error [''event '', m_Name evt, '': key_field '', Quote (cm_KeyField cm),
                 '' on element '', tr_Name elem, '' must be a scalar string, not repeated/map''])
           else if ft_ProtoType (f_Type elemKeyField) \<noteq> StringT then
             Some (fmt_error [''event '', m_Name evt, '': key_field '', Quote (cm_KeyField cm),
                 '' on element '', tr_Name elem, '' must be a string, got '',
                 ProtoType_String (ft_ProtoType (f_Type elemKeyField))])
           else None))"

definition validateCollectionMapping ::
    "plugin \<Rightarrow> pgs_message \<Rightarrow> pgs_message \<Rightarrow> pgs_file \<Rightarrow> goerr option" where
  "validateCollectionMapping p evt agg f =
     (case eventCollectionMapping evt of
        None \<Rightarrow> None
      | Some cm \<Rightarrow>
          (if cm_Target cm = [] then Some (fmt_error [''event '', m_Name evt,
              '': collection annotation present but target is empty''])
           else if cm_Action cm = ACTION_UNSPECIFIED then Some (fmt_error [''event '', m_Name evt,
               '': collection annotation present but action is unspecified (must be ADD or REMOVE)''])
           else if cm_KeyField cm = [] then Some (fmt_error [''event '', m_Name evt,
               '': collection annotation requires key_field to be set''])
           else (case collection_element evt agg cm of
                   Inl e \<Rightarrow> Some e
                 | Inr elem \<Rightarrow>
                     (case check_key_field p evt cm elem of
                        Some e \<Rightarrow> Some e
                      | None \<Rightarrow>
                          (if cm_Action cm = ACTION_REMOVE \<and> isCreationEvent evt f then
                             Some (fmt_error [''event '', m_Name evt,
                                 '': collection REMOVE is not valid on a creation event''])
                           else if cm_Action cm = ACTION_ADD then validate_add evt elem
                           else if cm_Action cm = ACTION_REMOVE then validate_remove evt cm
                           else Some (fmt_error [''event '', m_Name evt,
                               '': collection action must be ADD or REMOVE'']))))))"

end
