(* ===== verification/FileValidators.thy ===== *)
theory FileValidators
  imports Validators
begin

text \<open>
  cmd/protoc-gen-protosource/protosourceify.go, the validators of a whole file: its structure, the
  key annotations, projections against the aggregate, and the list message.
\<close>

section \<open>The structure of a file\<close>

text \<open>The last CREATION command in the file, which is the one when there is exactly one.\<close>

definition isCreationCommand :: "pgs_message \<Rightarrow> bool" where
  "isCreationCommand m = (isCommand m \<and> commandLifecycle m = ''CREATION'')"

definition mutationEvents :: "pgs_file \<Rightarrow> string set" where
  "mutationEvents f =
     (\<Union>m \<in> set (filter (\<lambda>m. isCommand m \<and> commandLifecycle m \<noteq> ''CREATION'') (pf_Messages f)).
        set (commandEvents m))"

definition check_creation_events :: "pgs_file \<Rightarrow> pgs_message \<Rightarrow> goerr option" where
  "check_creation_events f creationCmd =
     (let events = commandEvents creationCmd in
        if length events > 1 then
          first_error
            (\<lambda>eventName.
               if eventName \<in> mutationEvents f then None
               else Some (fmt_error [''file '', pf_Name f, '': CREATION command '', m_Name creationCmd,
                   '' produces event '', Quote eventName,
                   '' which is not produced by any MUTATION command'', dash,
                   ''every non-first creation event must also be a standalone command'']))
            (tl events)
        else None)"

definition check_projection_id :: "pgs_file \<Rightarrow> pgs_message \<Rightarrow> goerr option" where
  "check_projection_id f m =
     (if \<not> isProjection m then None
      else if \<exists>fd \<in> set (m_Fields m). f_Name fd = ''id'' then None
      else Some (fmt_error [''file '', pf_Name f, '': projection '', m_Name m, '' must have an '',
          quoted ''id'', '' field (required for PK derivation)'']))"

definition validateFileStructure :: "pgs_file \<Rightarrow> goerr option" where
  "validateFileStructure f =
     (let ms = pf_Messages f;
          aggregateCount = length (filter isAggregate ms);
          creationCmds = filter isCreationCommand ms;
          snapshotCount = length (filter isSnapshot ms)
      in if aggregateCount = 0 then Some (fmt_error [''file '', pf_Name f, '': no aggregate message defined''])
         else if aggregateCount > 1 then
           Some (fmt_error [''file '', pf_Name f, '': exactly one aggregate per file, found '',
               dec_nat aggregateCount])
         else if \<not> isAggregate (ms ! 0) then
           Some (fmt_error [''file '', pf_Name f, '': aggregate must be the first message, but '',
               m_Name (ms ! 0), '' is not an aggregate''])
         else if length creationCmds \<noteq> 1 then
           Some (fmt_error [''file '', pf_Name f, '': exactly one CREATION command required, found '',
               dec_nat (length creationCmds)])
         else (case check_creation_events f (last creationCmds) of
                 Some e \<Rightarrow> Some e
               | None \<Rightarrow>
                   (if snapshotCount > 1 then
                      Some (fmt_error [''file '', pf_Name f, '': at most one snapshot per file, found '',
                          dec_nat snapshotCount])
                    else first_error (check_projection_id f) ms)))"

section \<open>Key annotations\<close>

text \<open>The orders within a composite key, with the set of those seen so far.\<close>

fun check_orders :: "pgs_message \<Rightarrow> key_type \<Rightarrow> nat \<Rightarrow> int set \<Rightarrow> opaque_field_mapping list \<Rightarrow> goerr option" where
  "check_orders m kt n seen [] = None"
| "check_orders m kt n seen (fm # fms) =
     (if fm_Order fm \<le> 0 then
        Some (fmt_error [''message '', m_Name m, '': composite key '', OpaqueKeyType_String kt, '' has '',
            dec_nat n, '' fields'', dash, ''all must have positive order values, but field '',
            f_Name (fm_Field fm), '' has order '', dec_int (fm_Order fm)])
      else if fm_Order fm \<in> seen then
        Some (fmt_error [''message '', m_Name m, '': duplicate order '', dec_int (fm_Order fm),
            '' for key type '', OpaqueKeyType_String kt])
      else check_orders m kt n (insert (fm_Order fm) seen) fms)"

definition check_slot :: "pgs_message \<Rightarrow> key_type \<Rightarrow> opaque_field_mapping list \<Rightarrow> goerr option" where
  "check_slot m kt fms =
     (case fms of
        [fm] \<Rightarrow>
          (if fm_Order fm < 0 then
             Some (fmt_error [''message '', m_Name m, '': key type '', OpaqueKeyType_String kt, '' field '',
                 f_Name (fm_Field fm), '' has negative order '', dec_int (fm_Order fm)])
           else None)
      | _ \<Rightarrow> check_orders m kt (length fms) {} fms)"

text \<open>The loop over the indexes; the numbers logged are those of the indexes with a warning.\<close>

fun check_gsis :: "pgs_message \<Rightarrow> key_mappings \<Rightarrow> int list \<Rightarrow> int list \<times> goerr option" where
  "check_gsis m mappings [] = ([], None)"
| "check_gsis m mappings (i # is) =
     (let skFields = mapping_get mappings (4 + (i - 1) * 2);
          pkFields = mapping_get mappings (3 + (i - 1) * 2)
      in if length skFields > 0 \<and> length pkFields = 0 then
           ([], Some (fmt_error [''message '', m_Name m, '': GSI'', dec_int i,
               '' has SK fields but no PK fields'', dash, ''annotate a PK for this index'']))
         else (let (logged, res) = check_gsis m mappings is in
                 (if length pkFields > 0 \<and> length skFields = 0 then i # logged else logged, res)))"

definition check_explicit_keys :: "pgs_message \<Rightarrow> key_mappings \<Rightarrow> goerr option" where
  "check_explicit_keys m mappings =
     (if isAggregate m \<or> isProjection m then
        (let kind = if isProjection m then ''projection'' else ''aggregate'' in
           if map_of mappings 1 \<noteq> None then
             Some (fmt_error [''message '', m_Name m, '': '', kind,
                 '' PK is automatic (derived from package + id)'', dash,
                 ''remove OPAQUE_KEY_TYPE_PK annotations''])
           else if map_of mappings 2 \<noteq> None then
             Some (fmt_error [''message '', m_Name m, '': '', kind, '' SK is automatic ('',
                 Quote (if isProjection m then ''PROJ#'' @ m_Name m else ''AGG''), '')'', dash,
                 ''remove OPAQUE_KEY_TYPE_SK annotations''])
           else None)
      else None)"

definition validateOpaqueAnnotations :: "plugin \<Rightarrow> pgs_message \<Rightarrow> int list \<times> goerr option" where
  "validateOpaqueAnnotations p m =
     (let mappings = opaqueKeyMappings p m in
        case check_explicit_keys m mappings of
          Some e \<Rightarrow> ([], Some e)
        | None \<Rightarrow>
            (if length mappings = 0 then ([], None)
             else if \<not> isAggregate m \<and> \<not> isProjection m \<and> map_of mappings 1 = None then
               ([], Some (fmt_error [''message '', m_Name m,
                   '': opaque annotations present but no PK field defined'']))
             else (case first_error (\<lambda>kt. check_slot m kt (mapping_get mappings kt))
                          (p_map_order p (map fst mappings)) of
                     Some e \<Rightarrow> ([], Some e)
                   | None \<Rightarrow> check_gsis m mappings [1..20])))"

definition validateMessageNamesAgainstOpaque :: "pgs_file \<Rightarrow> goerr option" where
  "validateMessageNamesAgainstOpaque f =
     first_error
       (\<lambda>m. if m_Name m \<in> set opaqueReservedNames then
              Some (fmt_error [''message '', Quote (m_Name m), '' in '', pf_Name f,
                  '' conflicts with generated AutoPKSK method name '', Quote (m_Name m),
                  ''; rename the message to avoid a compilation error''])
            else None)
       (pf_Messages f)"

section \<open>Projections\<close>

definition format_bool :: "bool \<Rightarrow> string" where
  "format_bool b = (if b then ''true'' else ''false'')"

definition projectionMatchingFields :: "pgs_message \<Rightarrow> pgs_message \<Rightarrow> (pgs_field \<times> pgs_field) list" where
  "projectionMatchingFields proj agg =
     concat (map (\<lambda>pf. case fields_by_name agg (f_Name pf) of None \<Rightarrow> [] | Some af \<Rightarrow> [(pf, af)])
                 (m_Fields proj))"

definition map_problems :: "string \<Rightarrow> field_type \<Rightarrow> field_type \<Rightarrow> string list" where
  "map_problems n pt at =
     (case (ft_container pt, ft_container at) of
        (MapOf pk pe, MapOf ak ae) \<Rightarrow>
          (if el_ProtoType pk \<noteq> el_ProtoType ak then
             [concat [''field '', Quote n, '': map key type mismatch'', dash, ''projection has '',
                ProtoType_String (el_ProtoType pk), '', aggregate has '', ProtoType_String (el_ProtoType ak)]]
           else []) @
          (if el_ProtoType pe \<noteq> el_ProtoType ae then
             [concat [''field '', Quote n, '': map value type mismatch'', dash, ''projection has '',
                ProtoType_String (el_ProtoType pe), '', aggregate has '', ProtoType_String (el_ProtoType ae)]]
           else (case (el_Embed pe, el_Embed ae) of
                   (Some pr, Some ar) \<Rightarrow>
                     (if tr_FQN pr \<noteq> tr_FQN ar then
                        [concat [''field '', Quote n, '': map value message mismatch'', dash,
                           ''projection has '', tr_FQN pr, '', aggregate has '', tr_FQN ar]]
                      else [])
                 | _ \<Rightarrow> []))
      | _ \<Rightarrow> [])"

definition named_problem :: "string \<Rightarrow> string \<Rightarrow> type_ref option \<Rightarrow> type_ref option \<Rightarrow> string list" where
  "named_problem n kind pref aref =
     (case (pref, aref) of
        (Some pr, Some ar) \<Rightarrow>
          (if tr_FQN pr \<noteq> tr_FQN ar then
             [concat [''field '', Quote n, '': '', kind, '' type mismatch'', dash, ''projection has '',
                tr_FQN pr, '', aggregate has '', tr_FQN ar]]
           else [])
      | _ \<Rightarrow> [])"

definition field_problems :: "pgs_message \<Rightarrow> pgs_field \<Rightarrow> string list" where
  "field_problems agg pf =
     (case fields_by_name agg (f_Name pf) of
        None \<Rightarrow> [concat [''field '', Quote (f_Name pf), '': not found on aggregate '', m_Name agg]]
      | Some af \<Rightarrow>
          (let n = f_Name pf; pt = f_Type pf; at = f_Type af in
             if ft_ProtoType pt \<noteq> ft_ProtoType at then
               [concat [''field '', Quote n, '': type mismatch'', dash, ''projection has '',
                  ProtoType_String (ft_ProtoType pt), '', aggregate '', m_Name agg, '' has '',
                  ProtoType_String (ft_ProtoType at)]]
             else if IsRepeated pt \<noteq> IsRepeated at then
               [concat [''field '', Quote n, '': repeated mismatch'', dash, ''projection repeated='',
                  format_bool (IsRepeated pt), '', aggregate '', m_Name agg, '' repeated='',
                  format_bool (IsRepeated at)]]
             else if IsMap pt \<noteq> IsMap at then
               [concat [''field '', Quote n, '': map mismatch'', dash, ''projection map='',
                  format_bool (IsMap pt), '', aggregate '', m_Name agg, '' map='', format_bool (IsMap at)]]
             else if IsMap pt then map_problems n pt at
             else named_problem n ''message'' (ft_Embed pt) (ft_Embed at) @
                  named_problem n ''enum'' (ft_Enum pt) (ft_Enum at)))"

definition validateProjectionFields :: "pgs_message \<Rightarrow> pgs_message \<Rightarrow> goerr option" where
  "validateProjectionFields proj agg =
     (let errs = concat (map (field_problems agg) (m_Fields proj)) in
        if length errs > 0 then Some (fmt_error [''projection '', m_Name proj, '': '', join ''; '' errs])
        else None)"

section \<open>The list message\<close>

definition validateAggregateList :: "pgs_file \<Rightarrow> pgs_message \<Rightarrow> goerr option" where
  "validateAggregateList f agg =
     (let listName = m_Name agg @ ''List'' in
        case eventMessage listName f of
          None \<Rightarrow> Some (fmt_error [''missing required message '', listName,
              '': aggregates must have a corresponding '', listName, '' message with `repeated '',
              m_Name agg, '' items = 1` for query result serialization''])
        | Some listMsg \<Rightarrow>
            (case m_Fields listMsg of
               [f0] \<Rightarrow>
                 (if f_Name f0 \<noteq> ''items'' then
                    Some (fmt_error [listName, '' field must be named '', quoted ''items'', '', got '',
                        Quote (f_Name f0)])
                  else if \<not> IsRepeated (f_Type f0) then
                    Some (fmt_error [listName, ''.items must be repeated''])
                  else if f_Number f0 \<noteq> 1 then
                    Some (fmt_error [listName, ''.items must be field number 1, got '',
                        dec_int (f_Number f0)])
                  else (case Option.bind (Element (f_Type f0)) el_Embed of
                          None \<Rightarrow> Some (fmt_error [listName, ''.items must be a message type (repeated '',
                              m_Name agg, '')''])
                        | Some elem \<Rightarrow>
                            (if tr_FQN elem \<noteq> m_FQN agg then
                               Some (fmt_error [listName, ''.items must be repeated '', m_Name agg, '', got '',
                                   tr_Name elem])
                             else None)))
             | fds \<Rightarrow> Some (fmt_error [listName, '' must have exactly 1 field, got '', dec_nat (length fds)])))"

end
