(* ===== verification/Generator.thy ===== *)
theory Generator
  imports FileValidators
begin

text \<open>
  cmd/protoc-gen-protosource/protosourceify.go, \<open>generate\<close> and \<open>Execute\<close>: a file is validated and
  one artifact is added per template, unless a validator fails, which makes the plugin exit. The
  state is the module's: the index of enum values, the artifacts, the warnings and the failure.
  protoc-gen-star renders the artifacts later, with the template functions of the same module.
\<close>

section \<open>Package path/filepath\<close>

text \<open>
  \<open>filepath.Clean\<close>, \<open>Dir\<close> and \<open>Join\<close> with slashes. \<open>clean_parts\<close> keeps the parts kept so far in
  reverse order.
\<close>

fun clean_parts :: "bool \<Rightarrow> string list \<Rightarrow> string list \<Rightarrow> string list" where
  "clean_parts rooted kept [] = rev kept"
| "clean_parts rooted kept (x # xs) =
     (if x = [] \<or> x = ''.'' then clean_parts rooted kept xs
      else if x = ''..'' then
        (case kept of
           [] \<Rightarrow> clean_parts rooted (if rooted then [] else [''..'']) xs
         | k # ks \<Rightarrow> clean_parts rooted (if k = ''..'' then ''..'' # kept else ks) xs)
      else clean_parts rooted (x # kept) xs)"

definition path_Clean :: "string \<Rightarrow> string" where
  "path_Clean path =
     (let rooted = has_prefix path ''/'';
          out = (if rooted then ''/'' else []) @ join ''/'' (clean_parts rooted [] (split_on (CHR ''/'') path))
      in if out = [] then ''.'' else out)"

definition path_Dir :: "string \<Rightarrow> string" where
  "path_Dir path = path_Clean (rev (dropWhile (\<lambda>c. c \<noteq> CHR ''/'') (rev path)))"

definition path_Join :: "string list \<Rightarrow> string" where
  "path_Join elems =
     (let es = filter (\<lambda>e. e \<noteq> []) elems in if es = [] then [] else path_Clean (join ''/'' es))"

definition lastPathComponent :: "string \<Rightarrow> string" where
  "lastPathComponent path = last (split_on (CHR ''/'') path)"

section \<open>Output paths\<close>

definition importPath :: "plugin \<Rightarrow> pgs_file \<Rightarrow> string" where
  "importPath p f = p_ImportPath p f"

definition template_suffix :: "string \<Rightarrow> string" where
  "template_suffix tplName =
     (if tplName \<noteq> ''protosource.gotext'' then ''.protosource.'' @ trim_suffix tplName ''.gotext'' @ ''.pb.go''
      else ''.protosource.pb.go'')"

definition relative_import :: "plugin \<Rightarrow> pgs_file \<Rightarrow> string" where
  "relative_import p f = trim_prefix (trim_prefix (p_ImportPath p f) (p_module p)) ''/''"

definition cliOutputPath :: "plugin \<Rightarrow> pgs_file \<Rightarrow> string" where
  "cliOutputPath p f =
     (let lowered = (case find isAggregate (pf_Messages f) of None \<Rightarrow> [] | Some m \<Rightarrow> to_lower (m_Name m));
          aggregateName = (if lowered = [] then ''cli'' else lowered);
          dir = aggregateName @ ''mgr''
      in if p_module p \<noteq> [] then relative_import p f @ ''/'' @ dir @ ''/main.go''
         else path_Join [path_Dir (p_OutputPath p f), dir, ''main.go''])"

definition outputPathForTemplate :: "plugin \<Rightarrow> pgs_file \<Rightarrow> string \<Rightarrow> string" where
  "outputPathForTemplate p f tpl =
     (if tpl = ''cli.gotext'' then cliOutputPath p f
      else if p_module p \<noteq> [] then
        relative_import p f @ ''/'' @ trim_suffix (pf_InputBase f) ''.proto'' @ template_suffix tpl
      else trim_suffix (p_OutputPath p f) ''.pb.go'' @ template_suffix tpl)"

section \<open>Generation\<close>

record artifact =
  art_path :: string
  art_template :: string
  art_file :: pgs_file

record gen_state =
  gs_enumValueIndex :: "(string \<times> string) list"
  gs_artifacts :: "artifact list"
  gs_logged :: "(string \<times> int) list"
  gs_failed :: "goerr option"

definition Fail :: "goerr \<Rightarrow> gen_state \<Rightarrow> gen_state" where
  "Fail e s = s\<lparr>gs_failed := Some e\<rparr>"

text \<open>The checks of a command and of an event, in the loop over the messages.\<close>

definition validate_command :: "(string \<times> string) list \<Rightarrow> pgs_file \<Rightarrow> pgs_message \<Rightarrow> goerr option" where
  "validate_command idx f m =
     first_error (\<lambda>check. check)
       [validateFields m commandFields, validateProducesEvents m f, validateAllowedStates idx m]"

definition validate_event ::
    "plugin \<Rightarrow> (string \<times> string) list \<Rightarrow> pgs_file \<Rightarrow> pgs_message option \<Rightarrow> pgs_message \<Rightarrow> goerr option" where
  "validate_event p idx f agg m =
     first_error (\<lambda>check. check)
       ([validateFields m eventFields, validateSetsState idx m] @
        (case agg of
           None \<Rightarrow> []
         | Some a \<Rightarrow> [validateCollectionMapping p m a f, validateSingularEmbed m a]))"

definition validate_message ::
    "plugin \<Rightarrow> (string \<times> string) list \<Rightarrow> pgs_file \<Rightarrow> pgs_message option \<Rightarrow> pgs_message \<Rightarrow> goerr option" where
  "validate_message p idx f agg m =
     (case (if isCommand m then validate_command idx f m else None) of
        Some e \<Rightarrow> Some e
      | None \<Rightarrow> (if isEvent m then validate_event p idx f agg m else None))"

text \<open>The loop over the annotated messages, with the warnings logged on the way.\<close>

fun validate_opaque :: "plugin \<Rightarrow> pgs_message list \<Rightarrow> (string \<times> int) list \<times> goerr option" where
  "validate_opaque p [] = ([], None)"
| "validate_opaque p (m # ms) =
     (if hasOpaqueAnnotations m then
        (case validateOpaqueAnnotations p m of
           (logged, Some e) \<Rightarrow> (map (Pair (m_Name m)) logged, Some e)
         | (logged, None) \<Rightarrow>
             (let (more, res) = validate_opaque p ms in (map (Pair (m_Name m)) logged @ more, res)))
      else validate_opaque p ms)"

text \<open>The checks of \<open>generate\<close> that come after the annotations.\<close>

definition validate_rest :: "pgs_file \<Rightarrow> pgs_message option \<Rightarrow> bool \<Rightarrow> goerr option" where
  "validate_rest f agg hasOpaque =
     first_error (\<lambda>check. check)
       ((case agg of
           None \<Rightarrow> []
         | Some a \<Rightarrow>
             [first_error (\<lambda>proj. validateProjectionFields proj a) (projectionsForFile f),
              validateAggregateList f a]) @
        (if hasOpaque then [validateMessageNamesAgainstOpaque f] else []))"

definition add_artifacts :: "plugin \<Rightarrow> pgs_file \<Rightarrow> gen_state \<Rightarrow> gen_state" where
  "add_artifacts p f s =
     s\<lparr>gs_artifacts := gs_artifacts s @
        map (\<lambda>tpl. \<lparr>art_path = outputPathForTemplate p f tpl, art_template = tpl, art_file = f\<rparr>)
            (p_templates p)\<rparr>"

definition file_enabled :: "pgs_file \<Rightarrow> bool" where
  "file_enabled f = (case pf_Extension f of Inr (Some enabled) \<Rightarrow> enabled | _ \<Rightarrow> False)"

definition generate :: "plugin \<Rightarrow> pgs_file \<Rightarrow> gen_state \<Rightarrow> gen_state" where
  "generate p f s =
     (if length (pf_Messages f) = 0 then s
      else if \<not> file_enabled f then s
      else (case validateFileStructure f of
              Some e \<Rightarrow> Fail e s
            | None \<Rightarrow>
                (let idx = buildEnumValueIndex f;
                     s1 = s\<lparr>gs_enumValueIndex := idx\<rparr>;
                     agg = aggregateForFile f
                 in case first_error (validate_message p idx f agg) (pf_Messages f) of
                      Some e \<Rightarrow> Fail e s1
                    | None \<Rightarrow>
                        (let (logged, res) = validate_opaque p (pf_Messages f);
                             s2 = s1\<lparr>gs_logged := gs_logged s1 @ logged\<rparr>
                         in case res of
                              Some e \<Rightarrow> Fail e s2
                            | None \<Rightarrow>
                                (case validate_rest f agg (\<exists>m \<in> set (pf_Messages f). hasOpaqueAnnotations m) of
                                   Some e \<Rightarrow> Fail e s2
                                 | None \<Rightarrow> add_artifacts p f s2)))))"

text \<open>\<open>Execute\<close> over the target files in the order in which Go ranges over them; \<open>Fail\<close> exits.\<close>

fun Execute :: "plugin \<Rightarrow> pgs_file list \<Rightarrow> gen_state \<Rightarrow> gen_state" where
  "Execute p [] s = s"
| "Execute p (t # targets) s =
     (let s' = generate p t s in if gs_failed s' \<noteq> None then s' else Execute p targets s')"

definition Protosourceify :: gen_state where
  "Protosourceify = \<lparr>gs_enumValueIndex = [], gs_artifacts = [], gs_logged = [], gs_failed = None\<rparr>"

section \<open>An example\<close>

text \<open>
  A concrete proto file for the examples: a cart with a map of lines, a creation command, commands
  that add and remove a line, a projection and the list message; and a plugin context that names
  fields as they are, sorts by insertion and ranges over maps in order.
\<close>

definition ex_scalar :: "string \<Rightarrow> int \<Rightarrow> proto_type \<Rightarrow> pgs_field" where
  "ex_scalar n i t =
     \<lparr>f_Name = n, f_FQN = n, f_Number = i,
      f_Type = \<lparr>ft_ProtoType = t, ft_container = Singular, ft_Embed = None, ft_Enum = None\<rparr>,
      f_Extension = Inr None\<rparr>"

definition ex_line_ref :: type_ref where
  "ex_line_ref = \<lparr>tr_Name = ''Line'', tr_FQN = ''.cart.v1.Line''\<rparr>"

definition ex_line_field :: pgs_field where
  "ex_line_field =
     (ex_scalar ''line'' 5 MessageT)\<lparr>f_Type :=
        \<lparr>ft_ProtoType = MessageT, ft_container = Singular, ft_Embed = Some ex_line_ref, ft_Enum = None\<rparr>\<rparr>"

definition ex_lines_field :: pgs_field where
  "ex_lines_field =
     (ex_scalar ''lines'' 6 MessageT)\<lparr>f_Type :=
        \<lparr>ft_ProtoType = MessageT,
         ft_container = MapOf \<lparr>el_ProtoType = StringT, el_Embed = None\<rparr>
                          \<lparr>el_ProtoType = MessageT, el_Embed = Some ex_line_ref\<rparr>,
         ft_Embed = None, ft_Enum = None\<rparr>\<rparr>"

definition ex_keyed :: "pgs_field \<Rightarrow> opaque_key_mapping list \<Rightarrow> pgs_field" where
  "ex_keyed f attrs = f\<lparr>f_Extension := Inr (Some attrs)\<rparr>"

definition ex_message :: "string \<Rightarrow> pgs_field list \<Rightarrow> role option \<Rightarrow> pgs_message" where
  "ex_message n fs r =
     \<lparr>m_Name = n, m_FQN = ''.cart.v1.'' @ n, m_Fields = fs,
      m_Extension = Inr (map_option (\<lambda>x. \<lparr>mo_Role = Some x\<rparr>) r)\<rparr>"

definition ex_event_fields :: "pgs_field list" where
  "ex_event_fields =
     [ex_scalar ''id'' 1 StringT, ex_scalar ''version'' 2 Int64T, ex_scalar ''at'' 3 Int64T,
      ex_scalar ''actor'' 4 StringT]"

definition ex_command_fields :: "pgs_field list" where
  "ex_command_fields = [ex_scalar ''id'' 1 StringT, ex_scalar ''actor'' 2 StringT]"

definition ex_cart :: pgs_message where
  "ex_cart =
     ex_message ''Cart''
       [ex_scalar ''id'' 1 StringT,
        ex_keyed (ex_scalar ''owner'' 2 StringT) [\<lparr>ok_Type = 3, ok_Order = 2\<rparr>, \<lparr>ok_Type = 5, ok_Order = 0\<rparr>],
        ex_keyed (ex_scalar ''shop'' 3 StringT) [\<lparr>ok_Type = 3, ok_Order = 1\<rparr>],
        ex_keyed (ex_scalar ''create_at'' 4 Int64T) [\<lparr>ok_Type = 4, ok_Order = 0\<rparr>], ex_lines_field]
       (Some (RoleAggregate \<lparr>ao_StreamPrefix = ''cart-'', ao_EventTtlSeconds = 0\<rparr>))"

definition ex_event :: "string \<Rightarrow> pgs_field list \<Rightarrow> string \<Rightarrow> collection_mapping option \<Rightarrow> pgs_message" where
  "ex_event n fs state c =
     ex_message n (ex_event_fields @ fs)
       (Some (RoleEvent \<lparr>eo_AggregateType = ''Cart'', eo_SetsState = state, eo_Collection = c\<rparr>))"

definition ex_command :: "string \<Rightarrow> pgs_field list \<Rightarrow> string list \<Rightarrow> int \<Rightarrow> string list \<Rightarrow> pgs_message" where
  "ex_command n fs events l states =
     ex_message n (ex_command_fields @ fs)
       (Some (RoleCommand \<lparr>co_ProducesEvents = events, co_Lifecycle = l, co_AllowedStates = states\<rparr>))"

definition ex_file :: pgs_file where
  "ex_file =
     (let ms =
        [ex_cart,
         ex_command ''Create'' [ex_scalar ''owner'' 3 StringT] [''Created''] 1 [],
         ex_command ''AddLine'' [ex_line_field] [''LineAdded''] 2 [''STATE_OPEN''],
         ex_command ''RemoveLine'' [ex_scalar ''line_id'' 3 StringT] [''LineRemoved''] 2 [''STATE_OPEN''],
         ex_event ''Created'' [ex_scalar ''owner'' 5 StringT] ''STATE_OPEN'' None,
         ex_event ''LineAdded'' [ex_line_field] []
           (Some \<lparr>cm_Target = ''lines'', cm_Action = 1, cm_KeyField = ''line_id''\<rparr>),
         ex_event ''LineRemoved'' [ex_scalar ''line_id'' 5 StringT] []
           (Some \<lparr>cm_Target = ''lines'', cm_Action = 2, cm_KeyField = ''line_id''\<rparr>),
         ex_message ''CartSummary'' [ex_scalar ''id'' 1 StringT, ex_scalar ''owner'' 2 StringT]
           (Some (RoleProjection \<lparr>po_SourceAggregates = [''Cart'']\<rparr>)),
         ex_message ''Line'' [ex_scalar ''line_id'' 1 StringT] None,
         ex_message ''CartList''
           [(ex_scalar ''items'' 1 MessageT)\<lparr>f_Type :=
              \<lparr>ft_ProtoType = MessageT,
               ft_container = RepeatedOf \<lparr>el_ProtoType = MessageT,
                 el_Embed = Some \<lparr>tr_Name = ''Cart'', tr_FQN = ''.cart.v1.Cart''\<rparr>\<rparr>,
               ft_Embed = None, ft_Enum = None\<rparr>\<rparr>] None]
      in \<lparr>pf_Name = ''cart.proto'', pf_InputBase = ''cart.proto'', pf_Package = ''cart.v1'',
          pf_Messages = ms, pf_AllMessages = ms,
          pf_AllEnums = [\<lparr>en_Name = ''State'', en_FQN = ''.cart.v1.State'',
            en_Values = [\<lparr>ev_Name = ''STATE_OPEN'', ev_FQN = ''.cart.v1.STATE_OPEN'', ev_Value = 0\<rparr>],
            en_Extension = Inr None\<rparr>],
          pf_Extension = Inr (Some True)\<rparr>)"

definition ex_plugin :: plugin where
  "ex_plugin =
     \<lparr>p_FieldName = f_Name, p_TypeName = tr_Name, p_EnumName = en_Name, p_ValueName = ev_Name,
      p_GoType = f_Name, p_ImportPath = (\<lambda>f. ''mod/cart/v1''), p_OutputPath = (\<lambda>f. ''cart/v1/cart.pb.go''),
      p_FieldsOf = (\<lambda>n. if n = ''.cart.v1.Line'' then [ex_scalar ''line_id'' 1 StringT] else []),
      p_module = ''mod'', p_sort_slice = sort_key fm_Order, p_map_order = (\<lambda>ks. ks),
      p_templates = [''cli.gotext'', ''client.gotext'', ''lambda.gotext'', ''protosource.gotext'', ''wire.gotext'']\<rparr>"

lemmas ex_defs = ex_scalar_def ex_line_ref_def ex_line_field_def ex_lines_field_def ex_keyed_def
  ex_message_def ex_event_fields_def ex_command_fields_def ex_cart_def ex_event_def ex_command_def
  ex_file_def ex_plugin_def

lemma ex_laws: "plugin_laws ex_plugin"
  by (simp add: plugin_laws_def ex_plugin_def)

lemma ex_passes: "gs_failed (generate ex_plugin ex_file Protosourceify) = None"
  by code_simp

end
