(* ===== verification/KeySlotFacts.thy ===== *)
theory KeySlotFacts
  imports FileValidators
begin

text \<open>
  What the key annotations mean: \<open>keys_ok\<close> says when they are accepted, over the annotations as they
  are written, without the order of Go's maps and of its sorting. Then the fields of every slot, the
  indexes and their routes do not depend on either order.
\<close>

definition slot_ok :: "opaque_field_mapping list \<Rightarrow> bool" where
  "slot_ok fms \<longleftrightarrow>
     (if length fms = 1 then \<forall>fm \<in> set fms. 0 \<le> fm_Order fm
      else (\<forall>fm \<in> set fms. 0 < fm_Order fm) \<and> distinct (map fm_Order fms))"

definition pk_slot :: "int \<Rightarrow> key_type" where "pk_slot i = 3 + (i - 1) * 2"
definition sk_slot :: "int \<Rightarrow> key_type" where "sk_slot i = 4 + (i - 1) * 2"

definition keys_ok :: "pgs_message \<Rightarrow> bool" where
  "keys_ok m \<longleftrightarrow>
     (if isAggregate m \<or> isProjection m then annotated 1 m = [] \<and> annotated 2 m = []
      else annotated 1 m = [] \<longrightarrow> (\<forall>kt. annotated kt m = [])) \<and>
     (\<forall>kt. slot_ok (annotated kt m)) \<and>
     (\<forall>i \<in> {1..20}. annotated (pk_slot i) m = [] \<longrightarrow> annotated (sk_slot i) m = [])"

section \<open>Sorting\<close>

lemma sort_slice:
  assumes "plugin_laws p"
  shows "mset (p_sort_slice p xs) = mset xs" "sorted (map fm_Order (p_sort_slice p xs))"
    "p_sort_slice p [] = []" "length (p_sort_slice p xs) = length xs" "set (p_sort_slice p xs) = set xs"
    "p_sort_slice p xs = [] \<longleftrightarrow> xs = []"
proof -
  show m: "mset (p_sort_slice p xs) = mset xs" and "sorted (map fm_Order (p_sort_slice p xs))" for xs
    using assms by (auto simp: plugin_laws_def)
  show "p_sort_slice p [] = []" using m [of "[]"] by simp
  show "length (p_sort_slice p xs) = length xs" using m by (metis size_mset)
  show "set (p_sort_slice p xs) = set xs" using m by (metis set_mset_mset)
  show "p_sort_slice p xs = [] \<longleftrightarrow> xs = []" using m by (metis mset_zero_iff)
qed

lemma sort_slice_unique:
  assumes "plugin_laws p" "distinct (map fm_Order xs)"
  shows "p_sort_slice p xs = sort_key fm_Order xs"
proof -
  have "inj_on fm_Order (set xs)" using assms(2) by (simp add: distinct_map)
  then have inj: "inj_on fm_Order (set (p_sort_slice p xs))"
    by (simp add: sort_slice(5) [OF assms(1)])
  have "sort_key fm_Order xs = p_sort_slice p xs"
  proof (rule properties_for_sort_key)
    show "mset (p_sort_slice p xs) = mset xs" by (rule sort_slice(1) [OF assms(1)])
    show "sorted (map fm_Order (p_sort_slice p xs))" by (rule sort_slice(2) [OF assms(1)])
    fix k assume k: "k \<in> set (p_sort_slice p xs)"
    have one: "filter (\<lambda>x. fm_Order k = fm_Order x) ys = [k]"
      if "distinct ys" "inj_on fm_Order (set ys)" "k \<in> set ys" for ys
    proof -
      have "filter (\<lambda>x. fm_Order k = fm_Order x) ys = filter ((=) k) ys"
        using that by (intro filter_cong) (auto dest: inj_onD)
      also have "\<dots> = [k]" using that(1,3) by (induction ys) (auto simp: filter_empty_conv)
      finally show ?thesis .
    qed
    have d: "distinct xs" "distinct (p_sort_slice p xs)"
      using assms(2) mset_eq_imp_distinct_iff [OF sort_slice(1) [OF assms(1), of xs]]
      by (auto simp: distinct_map)
    show "filter (\<lambda>x. fm_Order k = fm_Order x) (p_sort_slice p xs) = filter (\<lambda>x. fm_Order k = fm_Order x) xs"
      using one [OF d(2) inj k] one [OF d(1)] inj k by (simp add: sort_slice(5) [OF assms(1)])
  qed
  then show ?thesis by simp
qed

lemma sort_slice_single: "plugin_laws p \<Longrightarrow> length xs \<le> 1 \<Longrightarrow> p_sort_slice p xs = xs"
  using sort_slice(1) [of p xs] by (cases xs) (auto simp: sort_slice(3))

lemma slot_sorted:
  assumes "plugin_laws p" "slot_ok xs"
  shows "p_sort_slice p xs = sort_key fm_Order xs"
proof (cases "length xs = 1")
  case True
  then obtain x where "xs = [x]" by (metis One_nat_def length_0_conv length_Suc_conv)
  with sort_slice_single [OF assms(1), of xs] show ?thesis by simp
next
  case False
  with assms show ?thesis by (intro sort_slice_unique) (auto simp: slot_ok_def)
qed

section \<open>The collected map\<close>

lemma mappings_get:
  assumes "plugin_laws p"
  shows "mapping_get (opaqueKeyMappings p m) kt = p_sort_slice p (annotated kt m)"
proof -
  let ?c = "fold add_field (m_Fields m) []"
  have ok: "mappings_ok ?c" by (rule collected_ok) (simp add: mappings_ok_def)
  have get: "mapping_get ?c kt = annotated kt m"
  proof (cases "kt = 0")
    case True
    with ok have "map_of ?c kt = None"
      by (auto simp: mappings_ok_def map_of_eq_None_iff)
    with True show ?thesis by (simp add: mapping_get_def annotated_def)
  next
    case False
    then show ?thesis
      using collected_get [of kt "m_Fields m" "[]"] by (simp add: annotated_def mapping_get_def)
  qed
  have "map_of (opaqueKeyMappings p m) kt = map_option (p_sort_slice p) (map_of ?c kt)"
    by (simp add: opaqueKeyMappings_def map_of_map)
  with get show ?thesis
    by (auto simp: mapping_get_def sort_slice(3) [OF assms] split: option.splits)
qed

lemma mappings_keys:
  assumes "plugin_laws p"
  shows "kt \<in> fst ` set (opaqueKeyMappings p m) \<longleftrightarrow> annotated kt m \<noteq> []"
    and "map_of (opaqueKeyMappings p m) kt = None \<longleftrightarrow> annotated kt m = []"
proof -
  have ok: "mappings_ok (fold add_field (m_Fields m) [])"
    by (rule collected_ok) (simp add: mappings_ok_def)
  then have ne: "\<And>fms. (kt, fms) \<in> set (opaqueKeyMappings p m) \<Longrightarrow> fms \<noteq> []"
    by (auto simp: opaqueKeyMappings_def mappings_ok_def sort_slice(6) [OF assms])
  have "annotated kt m \<noteq> [] \<longleftrightarrow> mapping_get (opaqueKeyMappings p m) kt \<noteq> []"
    by (simp add: mappings_get [OF assms] sort_slice(6) [OF assms])
  also have "\<dots> \<longleftrightarrow> map_of (opaqueKeyMappings p m) kt \<noteq> None"
    using ne by (auto simp: mapping_get_def dest: map_of_SomeD split: option.splits)
  finally show none: "map_of (opaqueKeyMappings p m) kt = None \<longleftrightarrow> annotated kt m = []" by blast
  show "kt \<in> fst ` set (opaqueKeyMappings p m) \<longleftrightarrow> annotated kt m \<noteq> []"
    using none by (metis map_of_eq_None_iff)
qed

section \<open>The validator\<close>

lemma check_orders_None:
  "check_orders m kt n seen fms = None \<longleftrightarrow>
     (\<forall>fm \<in> set fms. 0 < fm_Order fm) \<and> distinct (map fm_Order fms) \<and> seen \<inter> fm_Order ` set fms = {}"
  by (induction m kt n seen fms rule: check_orders.induct) auto

lemma check_slot_None: "check_slot m kt fms = None \<longleftrightarrow> slot_ok fms"
proof (cases fms)
  case Nil
  then show ?thesis by (simp add: check_slot_def slot_ok_def)
next
  case (Cons fm rest)
  then show ?thesis by (cases rest) (auto simp: check_slot_def slot_ok_def check_orders_None)
qed

lemma slot_ok_mset: "mset xs = mset ys \<Longrightarrow> slot_ok xs = slot_ok ys"
proof -
  assume eq: "mset xs = mset ys"
  then have "set xs = set ys" "length xs = length ys"
    by (auto dest: mset_eq_setD mset_eq_length)
  moreover from eq have "mset (map fm_Order xs) = mset (map fm_Order ys)" by simp
  then have "distinct (map fm_Order xs) = distinct (map fm_Order ys)"
    by (rule mset_eq_imp_distinct_iff)
  ultimately show ?thesis by (simp add: slot_ok_def)
qed

lemma check_gsis_None:
  "snd (check_gsis m ms is) = None \<longleftrightarrow>
     (\<forall>i \<in> set is. mapping_get ms (pk_slot i) = [] \<longrightarrow> mapping_get ms (sk_slot i) = [])"
proof (induction m ms "is" rule: check_gsis.induct)
  case (1 m ms)
  then show ?case by simp
next
  case (2 m ms i "is")
  show ?case
  proof (cases "mapping_get ms (sk_slot i) \<noteq> [] \<and> mapping_get ms (pk_slot i) = []")
    case True
    then show ?thesis by (auto simp: pk_slot_def sk_slot_def Let_def)
  next
    case False
    then have "snd (check_gsis m ms (i # is)) = snd (check_gsis m ms is)"
      by (auto simp: pk_slot_def sk_slot_def Let_def split: prod.split)
    with False 2 show ?thesis by (auto simp: pk_slot_def sk_slot_def)
  qed
qed

lemma slots_None:
  assumes "plugin_laws p"
  shows "first_error (\<lambda>kt. check_slot m kt (mapping_get (opaqueKeyMappings p m) kt))
      (p_map_order p (map fst (opaqueKeyMappings p m))) = None \<longleftrightarrow> (\<forall>kt. slot_ok (annotated kt m))"
proof -
  have keys: "set (p_map_order p ks) = set ks" for ks
    using assms unfolding plugin_laws_def by (metis set_mset_mset)
  have same: "slot_ok (p_sort_slice p xs) = slot_ok xs" for xs
    by (rule slot_ok_mset) (rule sort_slice(1) [OF assms])
  have nil: "slot_ok []" by (simp add: slot_ok_def)
  have "first_error (\<lambda>kt. check_slot m kt (mapping_get (opaqueKeyMappings p m) kt))
      (p_map_order p (map fst (opaqueKeyMappings p m))) = None \<longleftrightarrow>
    (\<forall>kt \<in> fst ` set (opaqueKeyMappings p m). slot_ok (annotated kt m))"
    by (simp add: keys check_slot_None mappings_get [OF assms] same)
  also have "\<dots> \<longleftrightarrow> (\<forall>kt. slot_ok (annotated kt m))"
    using mappings_keys(1) [OF assms, of _ m] nil by metis
  finally show ?thesis .
qed

lemma no_mappings:
  assumes "plugin_laws p"
  shows "opaqueKeyMappings p m = [] \<longleftrightarrow> (\<forall>kt. annotated kt m = [])"
proof -
  have "opaqueKeyMappings p m = [] \<longleftrightarrow> fst ` set (opaqueKeyMappings p m) = {}" by simp
  also have "\<dots> \<longleftrightarrow> (\<forall>kt. annotated kt m = [])"
    using mappings_keys(1) [OF assms, of _ m] by (simp add: set_eq_iff del: image_is_empty)
  finally show ?thesis .
qed

lemma explicit_keys_None:
  assumes "plugin_laws p"
  shows "check_explicit_keys m (opaqueKeyMappings p m) = None \<longleftrightarrow>
     (isAggregate m \<or> isProjection m \<longrightarrow> annotated 1 m = [] \<and> annotated 2 m = [])"
  by (auto simp: check_explicit_keys_def Let_def mappings_keys(2) [OF assms])

lemma gsis_None:
  assumes "plugin_laws p"
  shows "snd (check_gsis m (opaqueKeyMappings p m) [1..20]) = None \<longleftrightarrow>
     (\<forall>i \<in> {1..20}. annotated (pk_slot i) m = [] \<longrightarrow> annotated (sk_slot i) m = [])"
  by (simp add: check_gsis_None mappings_get [OF assms] sort_slice(6) [OF assms])

lemma opaque_annotations_None:
  assumes "plugin_laws p"
  shows "snd (validateOpaqueAnnotations p m) = None \<longleftrightarrow> keys_ok m"
proof -
  let ?ms = "opaqueKeyMappings p m"
  let ?slots = "first_error (\<lambda>kt. check_slot m kt (mapping_get ?ms kt)) (p_map_order p (map fst ?ms))"
  have "snd (validateOpaqueAnnotations p m) = None \<longleftrightarrow>
      check_explicit_keys m ?ms = None \<and>
      (?ms = [] \<or>
       ((isAggregate m \<or> isProjection m \<or> map_of ?ms 1 \<noteq> None) \<and> ?slots = None \<and>
        snd (check_gsis m ?ms [1..20]) = None))"
    unfolding validateOpaqueAnnotations_def Let_def length_0_conv
    by (cases "check_explicit_keys m ?ms"; cases ?slots) (auto simp del: first_error_None)
  moreover have "slot_ok []" by (simp add: slot_ok_def)
  ultimately show ?thesis
    unfolding keys_ok_def explicit_keys_None [OF assms] no_mappings [OF assms] slots_None [OF assms]
      mappings_keys(2) [OF assms] gsis_None [OF assms] by (metis (full_types))
qed

end
