(* ===== verification/GeneratorFacts.thy ===== *)
theory GeneratorFacts
  imports Generator KeySlotFacts
begin

text \<open>
  What the templates may rely on when no validator has failed. The template functions return empty
  strings or nil when a lookup finds nothing, which would end up in the generated code;
  \<open>command_served\<close>, \<open>event_served\<close>, \<open>projection_served\<close> and, for the Go names of states,
  \<open>states_served\<close> say that the lookups find what they look for.
\<close>

definition names_state :: "pgs_file \<Rightarrow> (string \<times> string) list \<Rightarrow> string \<Rightarrow> bool" where
  "names_state f idx s \<longleftrightarrow>
     (\<exists>e \<in> set (pf_AllEnums f). s \<in> ev_Name ` set (en_Values e) \<and> stateEnumName idx s = en_Name e @ ''_'' @ s)"

definition states_served :: "pgs_file \<Rightarrow> (string \<times> string) list \<Rightarrow> pgs_message \<Rightarrow> bool" where
  "states_served f idx m \<longleftrightarrow>
     (isCommand m \<longrightarrow> (\<forall>s \<in> set (commandAllowedStates m). names_state f idx s)) \<and>
     (isEvent m \<and> eventSetsState m \<noteq> [] \<longrightarrow> names_state f idx (eventSetsState m))"

definition command_served :: "pgs_file \<Rightarrow> pgs_message \<Rightarrow> bool" where
  "command_served f m \<longleftrightarrow>
     commandEvents m \<noteq> [] \<and>
     (\<forall>n \<in> set (commandEvents m). \<exists>e. eventMessage n f = Some e \<and> isEvent e)"

definition add_served :: "plugin \<Rightarrow> pgs_message \<Rightarrow> pgs_message \<Rightarrow> bool" where
  "add_served p agg m \<longleftrightarrow>
     (\<exists>ef tf elem kf.
        eventCollectionSourceField m agg = Some ef \<and> filter (embeds (tr_FQN elem)) (m_Fields m) = [ef] \<and>
        find_field (eventCollectionTarget m) (m_Fields agg) = Some tf \<and> map_value (f_Type tf) = Some elem \<and>
        aggregateFieldGoName p (eventCollectionTarget m) agg = p_FieldName p tf \<and>
        collectionElementTypeName p (eventCollectionTarget m) agg = p_TypeName p elem \<and>
        kf \<in> set (p_FieldsOf p (tr_FQN elem)) \<and> ft_ProtoType (f_Type kf) = StringT \<and>
        collectionKeyFieldGoName p (eventCollectionKeyField m) (eventCollectionTarget m) agg =
          p_FieldName p kf)"

definition remove_served :: "plugin \<Rightarrow> pgs_file \<Rightarrow> pgs_message \<Rightarrow> pgs_message \<Rightarrow> bool" where
  "remove_served p f agg m \<longleftrightarrow>
     \<not> isCreationEvent m f \<and>
     (\<exists>tf kf.
        find_field (eventCollectionTarget m) (m_Fields agg) = Some tf \<and> IsMap (f_Type tf) \<and>
        aggregateFieldGoName p (eventCollectionTarget m) agg = p_FieldName p tf \<and>
        kf \<in> set (m_Fields m) \<and> ft_ProtoType (f_Type kf) = StringT \<and>
        eventFieldGoName p (eventCollectionKeyField m) m = p_FieldName p kf)"

definition event_served :: "plugin \<Rightarrow> pgs_file \<Rightarrow> pgs_message \<Rightarrow> pgs_message \<Rightarrow> bool" where
  "event_served p f agg m \<longleftrightarrow>
     (eventCollectionMapping m \<noteq> None \<longrightarrow>
        length (domain_fields m) = 1 \<and>
        (eventCollectionAction m = ''ADD'' \<and> add_served p agg m \<or>
         eventCollectionAction m = ''REMOVE'' \<and> remove_served p f agg m))"

definition projection_served :: "pgs_message \<Rightarrow> pgs_message \<Rightarrow> bool" where
  "projection_served agg proj \<longleftrightarrow>
     find_field ''id'' (m_Fields proj) \<noteq> None \<and>
     map fst (projectionMatchingFields proj agg) = m_Fields proj \<and>
     (\<forall>(pf, af) \<in> set (projectionMatchingFields proj agg).
        af \<in> set (m_Fields agg) \<and> f_Name af = f_Name pf \<and>
        ft_ProtoType (f_Type af) = ft_ProtoType (f_Type pf))"

section \<open>Commands and states\<close>

lemma enum_index_Some:
  "map_of (buildEnumValueIndex f) s = Some t \<Longrightarrow>
     \<exists>e \<in> set (pf_AllEnums f). s \<in> ev_Name ` set (en_Values e) \<and> t = en_Name e @ ''_'' @ s"
proof -
  have "map_of (fold index_enum es idx) s = Some t \<Longrightarrow>
      (\<exists>e \<in> set es. s \<in> ev_Name ` set (en_Values e) \<and> t = en_Name e @ ''_'' @ s) \<or> map_of idx s = Some t"
    for es idx
  proof (induction es arbitrary: idx)
    case (Cons e es)
    from Cons.IH [of "index_enum e idx"] Cons.prems show ?case
      by (auto simp: index_enum_get split: if_splits)
  qed simp
  then show "map_of (buildEnumValueIndex f) s = Some t \<Longrightarrow>
     \<exists>e \<in> set (pf_AllEnums f). s \<in> ev_Name ` set (en_Values e) \<and> t = en_Name e @ ''_'' @ s"
    unfolding buildEnumValueIndex_def by fastforce
qed

lemma names_stateI: "map_of (buildEnumValueIndex f) s \<noteq> None \<Longrightarrow> names_state f (buildEnumValueIndex f) s"
  using enum_index_Some [of f s] by (auto simp: names_state_def stateEnumName_def)

lemma check_produced_None:
  "check_produced cmd f n = None \<longleftrightarrow> (\<exists>e. eventMessage n f = Some e \<and> isEvent e)"
  by (auto simp: check_produced_def split: option.splits)

lemma validate_command_None:
  "validate_command idx f m = None \<longleftrightarrow>
     validateFields m commandFields = None \<and> validateProducesEvents m f = None \<and>
     validateAllowedStates idx m = None"
  unfolding validate_command_def first_error_None by simp

lemma validate_event_None:
  "validate_event p idx f (Some agg) m = None \<longleftrightarrow>
     validateFields m eventFields = None \<and> validateSetsState idx m = None \<and>
     validateCollectionMapping p m agg f = None \<and> validateSingularEmbed m agg = None"
  unfolding validate_event_def first_error_None by simp

lemma command_servedI:
  assumes "validate_command (buildEnumValueIndex f) f m = None"
  shows "command_served f m" "\<forall>s \<in> set (commandAllowedStates m). names_state f (buildEnumValueIndex f) s"
proof -
  from assms have "validateProducesEvents m f = None" "validateAllowedStates (buildEnumValueIndex f) m = None"
    by (simp_all add: validate_command_None)
  then show "command_served f m" "\<forall>s \<in> set (commandAllowedStates m). names_state f (buildEnumValueIndex f) s"
    by (auto simp: command_served_def validateProducesEvents_def check_produced_None
        validateAllowedStates_def intro!: names_stateI split: if_splits)
qed

section \<open>Events\<close>

lemma collection_elementD:
  assumes "collection_element evt agg cm = Inr elem"
  obtains tf where "find_field (cm_Target cm) (m_Fields agg) = Some tf" "map_value (f_Type tf) = Some elem"
  using assms
  by (auto simp: collection_element_def map_value_def split: option.splits container.splits if_splits)

lemma collection_field_found:
  assumes "find_field n (m_Fields agg) = Some tf" "map_value (f_Type tf) = Some elem"
  shows "collection_field n agg = Some elem"
proof -
  have "find (\<lambda>f. f_Name f = n) fs = Some tf \<Longrightarrow> find (\<lambda>f. f_Name f = n \<and> map_value (f_Type f) \<noteq> None) fs = Some tf"
    for fs using assms(2) by (induction fs) (auto dest: find_fieldD split: if_splits)
  with assms show ?thesis by (auto simp: find_field_def collection_field_def)
qed

lemma key_field_found:
  assumes "find_field n fs = Some tf" "map_value (f_Type tf) = Some elem"
    "find_field k (p_FieldsOf p (tr_FQN elem)) = Some kf"
  shows "key_field_name p k n fs = p_FieldName p kf"
  using assms(1)
proof (induction fs)
  case Nil
  then show ?case by (simp add: find_field_def)
next
  case (Cons f fs)
  then show ?case using assms(2,3) by (auto simp: find_field_def split: if_splits option.split)
qed

lemma find_of_filter: "filter P xs = y # ys \<Longrightarrow> find P xs = Some y"
  by (induction xs) (auto split: if_splits)

lemma add_servedI:
  assumes "eventCollectionMapping m = Some cm" "collection_element m agg cm = Inr elem"
    "check_key_field p m cm elem = None" "validate_add m elem = None"
  shows "add_served p agg m"
proof -
  obtain tf where tf: "find_field (cm_Target cm) (m_Fields agg) = Some tf" "map_value (f_Type tf) = Some elem"
    using assms(2) by (rule collection_elementD)
  obtain kf where kf: "find_field (cm_KeyField cm) (p_FieldsOf p (tr_FQN elem)) = Some kf"
      "ft_ProtoType (f_Type kf) = StringT"
    using assms(3) by (auto simp: check_key_field_def split: option.splits if_splits)
  have "length (filter (embeds (tr_FQN elem)) (m_Fields m)) = 1"
    using assms(4) by (simp add: validate_add_def Let_def not_less le_Suc_eq split: if_splits)
  then obtain ef where ef: "filter (embeds (tr_FQN elem)) (m_Fields m) = [ef]"
    by (metis One_nat_def length_0_conv length_Suc_conv)
  then have "find (embeds (tr_FQN elem)) (m_Fields m) = Some ef"
    by (rule find_of_filter)
  with assms(1) tf kf ef show ?thesis
    by (auto simp: add_served_def eventCollectionSourceField_def eventCollectionTarget_def
        aggregateFieldGoName_def collectionElementTypeName_def collection_field_found
        collectionKeyFieldGoName_def eventCollectionKeyField_def key_field_found dest: find_fieldD)
qed

lemma remove_servedI:
  assumes "eventCollectionMapping m = Some cm" "collection_element m agg cm = Inr elem"
    "\<not> isCreationEvent m f" "validate_remove m cm = None"
  shows "remove_served p f agg m"
proof -
  obtain tf where tf: "find_field (cm_Target cm) (m_Fields agg) = Some tf" "map_value (f_Type tf) = Some elem"
    using assms(2) by (rule collection_elementD)
  from tf(2) have "IsMap (f_Type tf)" by (auto simp: map_value_def IsMap_def split: container.splits)
  with assms(1,3,4) tf show ?thesis
    by (auto simp: remove_served_def validate_remove_def eventCollectionTarget_def
        eventCollectionKeyField_def aggregateFieldGoName_def eventFieldGoName_def
        dest: find_fieldD split: option.splits if_splits)
qed

lemma event_servedI:
  assumes "validate_event p (buildEnumValueIndex f) f (Some agg) m = None"
  shows "event_served p f agg m"
    and "eventSetsState m \<noteq> [] \<longrightarrow> names_state f (buildEnumValueIndex f) (eventSetsState m)"
proof -
  show "eventSetsState m \<noteq> [] \<longrightarrow> names_state f (buildEnumValueIndex f) (eventSetsState m)"
    using assms by (auto simp: validate_event_None validateSetsState_def Let_def intro!: names_stateI
        split: if_splits)
  have coll: "validateCollectionMapping p m agg f = None"
    using assms by (simp add: validate_event_None)
  show "event_served p f agg m"
  proof (cases "eventCollectionMapping m")
    case None
    then show ?thesis by (simp add: event_served_def)
  next
    case (Some cm)
    from coll Some obtain elem where elem: "collection_element m agg cm = Inr elem"
        "check_key_field p m cm elem = None"
        "cm_Action cm = ACTION_ADD \<and> validate_add m elem = None \<or>
         cm_Action cm = ACTION_REMOVE \<and> \<not> isCreationEvent m f \<and> validate_remove m cm = None"
      by (auto simp: validateCollectionMapping_def split: if_splits sum.splits option.splits)
    then have "length (domain_fields m) = 1"
      by (auto simp: validate_add_def validate_remove_def Let_def split: if_splits option.splits)
    moreover have "eventCollectionAction m = ''ADD'' \<and> add_served p agg m \<or>
        eventCollectionAction m = ''REMOVE'' \<and> remove_served p f agg m"
      using elem Some
      by (auto simp: eventCollectionAction_def ACTION_ADD_def ACTION_REMOVE_def
          intro: add_servedI remove_servedI)
    ultimately show ?thesis by (simp add: event_served_def)
  qed
qed

section \<open>Projections\<close>

lemma fields_by_nameD: "fields_by_name m n = Some f \<Longrightarrow> f \<in> set (m_Fields m) \<and> f_Name f = n"
  by (auto simp: fields_by_name_def dest: map_of_SomeD)

lemma projection_servedI:
  assumes "isProjection proj" "check_projection_id f proj = None" "validateProjectionFields proj agg = None"
  shows "projection_served agg proj"
proof -
  have "find_field ''id'' (m_Fields proj) \<noteq> None"
    using assms(1,2) by (auto simp: check_projection_id_def find_field_None split: if_splits)
  moreover have ok: "\<exists>af. fields_by_name agg (f_Name pf) = Some af \<and>
      ft_ProtoType (f_Type af) = ft_ProtoType (f_Type pf)" if "pf \<in> set (m_Fields proj)" for pf
  proof -
    from assms(3) that have "field_problems agg pf = []"
      by (auto simp: validateProjectionFields_def Let_def split: if_splits)
    then show ?thesis
      by (auto simp: field_problems_def Let_def split: option.splits if_splits)
  qed
  moreover have "map fst (concat (map (\<lambda>pf. case fields_by_name agg (f_Name pf) of
      None \<Rightarrow> [] | Some af \<Rightarrow> [(pf, af)]) fs)) = fs" if "set fs \<subseteq> set (m_Fields proj)" for fs
    using that by (induction fs) (auto dest: ok)
  ultimately show ?thesis
    by (fastforce simp: projection_served_def projectionMatchingFields_def dest: fields_by_nameD
        split: option.splits)
qed

section \<open>Whole files\<close>

lemma validate_opaque_None:
  "snd (validate_opaque p ms) = None \<longleftrightarrow>
     (\<forall>m \<in> set ms. hasOpaqueAnnotations m \<longrightarrow> snd (validateOpaqueAnnotations p m) = None)"
proof (induction ms)
  case (Cons m ms)
  then show ?case
    by (cases "validateOpaqueAnnotations p m"; cases "validate_opaque p ms"; cases "snd (validateOpaqueAnnotations p m)")
      auto
qed simp

lemma validate_rest_None:
  "validate_rest f (Some agg) opq = None \<Longrightarrow>
     (\<forall>proj \<in> set (projectionsForFile f). validateProjectionFields proj agg = None) \<and>
     validateAggregateList f agg = None \<and> (opq \<longrightarrow> validateMessageNamesAgainstOpaque f = None)"
  unfolding validate_rest_def first_error_None by (auto split: if_splits)

lemma file_structureD:
  assumes "validateFileStructure f = None"
  obtains agg where "aggregateForFile f = Some agg" "pf_Messages f ! 0 = agg"
    "filter isAggregate (pf_Messages f) = [agg]" "length (filter isCreationCommand (pf_Messages f)) = 1"
    "check_creation_events f (last (filter isCreationCommand (pf_Messages f))) = None"
    "\<forall>m \<in> set (pf_Messages f). check_projection_id f m = None"
proof -
  have one: "length (filter isAggregate (pf_Messages f)) = 1" "isAggregate (pf_Messages f ! 0)"
      "length (filter isCreationCommand (pf_Messages f)) = 1"
      "check_creation_events f (last (filter isCreationCommand (pf_Messages f))) = None"
      "\<forall>m \<in> set (pf_Messages f). check_projection_id f m = None"
    using assms by (auto simp: validateFileStructure_def Let_def not_less le_Suc_eq split: if_splits option.splits)
  obtain m ms where ms: "pf_Messages f = m # ms" using one(1) by (cases "pf_Messages f") auto
  with one(2) have m: "isAggregate m" by simp
  with ms one(1) have "filter isAggregate (pf_Messages f) = [m]" by simp
  with ms m one that show thesis by (simp add: aggregateForFile_def)
qed

lemma generate_passed:
  assumes "gs_failed (generate p f s) = None" "pf_Messages f \<noteq> []" "file_enabled f"
  defines "idx \<equiv> buildEnumValueIndex f" and "agg \<equiv> aggregateForFile f"
  shows "validateFileStructure f = None"
    and "\<forall>m \<in> set (pf_Messages f). validate_message p idx f agg m = None"
    and "snd (validate_opaque p (pf_Messages f)) = None"
    and "validate_rest f agg (\<exists>m \<in> set (pf_Messages f). hasOpaqueAnnotations m) = None"
    and "gs_enumValueIndex (generate p f s) = idx"
    and "gs_artifacts (generate p f s) = gs_artifacts s @
       map (\<lambda>tpl. \<lparr>art_path = outputPathForTemplate p f tpl, art_template = tpl, art_file = f\<rparr>) (p_templates p)"
proof -
  let ?msgs = "first_error (validate_message p idx f agg) (pf_Messages f)"
  let ?rest = "validate_rest f agg (\<exists>m \<in> set (pf_Messages f). hasOpaqueAnnotations m)"
  obtain logged res where opq: "validate_opaque p (pf_Messages f) = (logged, res)" by fastforce
  have struct: "validateFileStructure f = None"
    using assms(1-3) by (cases "validateFileStructure f") (simp_all add: generate_def Fail_def)
  have msgs: "?msgs = None"
    using assms(1-3) struct
    by (cases ?msgs) (simp_all add: generate_def Fail_def Let_def idx_def agg_def del: first_error_None)
  have res: "res = None"
    using assms(1-3) struct msgs opq
    by (cases res) (simp_all add: generate_def Fail_def Let_def idx_def agg_def del: first_error_None)
  have rest: "?rest = None"
    using assms(1-3) struct msgs opq res
    by (cases ?rest) (simp_all add: generate_def Fail_def Let_def idx_def agg_def del: first_error_None)
  from struct show "validateFileStructure f = None" .
  from msgs show "\<forall>m \<in> set (pf_Messages f). validate_message p idx f agg m = None" by simp
  from opq res show "snd (validate_opaque p (pf_Messages f)) = None" by simp
  from rest show "?rest = None" .
  have gen: "generate p f s =
      add_artifacts p f (s\<lparr>gs_enumValueIndex := idx, gs_logged := gs_logged s @ logged\<rparr>)"
    using assms(2,3) struct msgs opq res rest
    by (simp add: generate_def Let_def idx_def agg_def del: first_error_None)
  show "gs_enumValueIndex (generate p f s) = idx"
    "gs_artifacts (generate p f s) = gs_artifacts s @
       map (\<lambda>tpl. \<lparr>art_path = outputPathForTemplate p f tpl, art_template = tpl, art_file = f\<rparr>) (p_templates p)"
    by (simp_all add: gen add_artifacts_def)
qed

section \<open>Whole runs\<close>

text \<open>The files that \<open>generate\<close> does not skip.\<close>

definition generated :: "pgs_file \<Rightarrow> bool" where
  "generated f \<longleftrightarrow> pf_Messages f \<noteq> [] \<and> file_enabled f"

lemma generate_skipped: "\<not> generated f \<Longrightarrow> generate p f s = s"
  by (auto simp: generated_def generate_def)

text \<open>Every file has passed, and the index that is left is that of the last file generated.\<close>

lemma execute_passed:
  assumes "gs_failed (Execute p fs s) = None"
  shows "(\<forall>f \<in> set fs. generated f \<longrightarrow> (\<exists>s0. gs_failed (generate p f s0) = None))
    \<and> gs_enumValueIndex (Execute p fs s)
      = (if filter generated fs = [] then gs_enumValueIndex s else buildEnumValueIndex (last (filter generated fs)))"
  using assms
proof (induction fs arbitrary: s)
  case (Cons f fs)
  have passed: "gs_failed (generate p f s) = None" and rest: "gs_failed (Execute p fs (generate p f s)) = None"
    and step: "Execute p (f # fs) s = Execute p fs (generate p f s)"
    using Cons.prems by (simp_all add: Let_def split: if_splits)
  show ?case
  proof (cases "generated f")
    case True
    then have "gs_enumValueIndex (generate p f s) = buildEnumValueIndex f"
      using generate_passed(5) [OF passed] by (simp add: generated_def)
    with Cons.IH [OF rest] True passed show ?thesis unfolding step by auto
  next
    case False
    with Cons.IH [OF rest] generate_skipped [OF False, of p s] show ?thesis unfolding step by simp
  qed
qed simp

end
