(* ===== verification/GeneratorProperties.thy ===== *)
theory GeneratorProperties
  imports GeneratorFacts Generator
begin

text \<open>
  The properties of the code generator: what validation promises the templates, that the meaning of
  key annotations does not depend on the order of Go's maps or of its sorting, and that no file is
  written twice.
\<close>

text \<open>
  C30. After a run of the generator over any files that does not fail, when the templates are rendered,
  their lookups in every generated file succeed: there is one aggregate and it comes first, every
  event that a command names is an event message of the file, the source field, the element type
  and the key of a collection event are found, and every field of a projection is paired with one of
  the aggregate. The Go names of states are found, in an enum of the file, for the file that is
  generated last, so for all states in a run over one file.
\<close>

theorem generator_lookups_succeed:
  assumes "gs_failed (Execute p fs Protosourceify) = None" "f \<in> set fs" "generated f"
  shows "\<exists>agg. aggregateForFile f = Some agg \<and> filter isAggregate (pf_Messages f) = [agg] \<and>
     pf_Messages f ! 0 = agg \<and> length (filter isCreationCommand (pf_Messages f)) = 1 \<and>
     (\<forall>m \<in> set (pf_Messages f).
        (isCommand m \<longrightarrow> command_served f m) \<and> (isEvent m \<longrightarrow> event_served p f agg m) \<and>
        (isProjection m \<longrightarrow> projection_served agg m) \<and>
        (f = last (filter generated fs) \<longrightarrow>
           states_served f (gs_enumValueIndex (Execute p fs Protosourceify)) m))"
proof -
  note run = execute_passed [OF assms(1)]
  have "filter generated fs \<noteq> []" using assms(2,3) by (auto simp: filter_empty_conv)
  with run have idx: "f = last (filter generated fs) \<Longrightarrow>
      gs_enumValueIndex (Execute p fs Protosourceify) = buildEnumValueIndex f" by simp
  obtain s where "gs_failed (generate p f s) = None" using run assms(2,3) by blast
  note passed = generate_passed [OF this assms(3) [unfolded generated_def, THEN conjunct1]
      assms(3) [unfolded generated_def, THEN conjunct2]]
  obtain agg where agg: "aggregateForFile f = Some agg" "pf_Messages f ! 0 = agg"
      "filter isAggregate (pf_Messages f) = [agg]" "length (filter isCreationCommand (pf_Messages f)) = 1"
      "\<forall>m \<in> set (pf_Messages f). check_projection_id f m = None"
    using passed(1) by (rule file_structureD)
  have "(isCommand m \<longrightarrow> command_served f m) \<and> (isEvent m \<longrightarrow> event_served p f agg m) \<and>
      (isProjection m \<longrightarrow> projection_served agg m) \<and> states_served f (buildEnumValueIndex f) m"
    if m: "m \<in> set (pf_Messages f)" for m
  proof -
    have ok: "validate_message p (buildEnumValueIndex f) f (Some agg) m = None"
      using passed(2) m agg(1) by simp
    have c: "isCommand m \<Longrightarrow> validate_command (buildEnumValueIndex f) f m = None"
      and e: "isEvent m \<Longrightarrow> validate_event p (buildEnumValueIndex f) f (Some agg) m = None"
      using ok by (auto simp: validate_message_def split: option.splits)
    have "isProjection m \<Longrightarrow> projection_served agg m"
      using validate_rest_None passed(4) agg(1,5) m
      by (fastforce simp: projectionsForFile_def intro: projection_servedI)
    with command_servedI [OF c] event_servedI [OF e] show ?thesis by (simp add: states_served_def)
  qed
  with agg idx show ?thesis by auto
qed

theorem generator_lookups_succeed_witness:
  "\<exists>agg. aggregateForFile ex_file = Some agg \<and> m_Name agg = ''Cart'' \<and>
     (\<forall>m \<in> set (pf_Messages ex_file). (isEvent m \<longrightarrow> event_served ex_plugin ex_file agg m) \<and>
        states_served ex_file (gs_enumValueIndex (Execute ex_plugin [ex_file] Protosourceify)) m)"
proof -
  have run: "gs_failed (Execute ex_plugin [ex_file] Protosourceify) = None"
    using ex_passes by (simp add: Let_def)
  have mem: "ex_file \<in> set [ex_file]" by simp
  have cart: "generated ex_file" "m_Name (pf_Messages ex_file ! 0) = ''Cart''"
    unfolding generated_def by code_simp+
  then have last: "ex_file = last (filter generated [ex_file])" by simp
  from generator_lookups_succeed [OF run mem cart(1)] cart(2) last show ?thesis by metis
qed

lemma keys_ok_sorted:
  "plugin_laws p \<Longrightarrow> keys_ok m \<Longrightarrow>
     mapping_get (opaqueKeyMappings p m) kt = sort_key fm_Order (annotated kt m)"
  by (simp add: mappings_get keys_ok_def slot_sorted)

text \<open>
  C31. The key annotations of a message are accepted exactly when \<open>keys_ok\<close> holds of them as they are
  written: nothing depends on the order in which Go ranges over its map of slots, nor on how
  \<open>sort.Slice\<close> orders fields of equal order; and the fields of every slot are then those
  annotated for it, sorted by order.
\<close>

theorem key_annotations_exact:
  assumes "plugin_laws p"
  shows "(snd (validateOpaqueAnnotations p m) = None \<longleftrightarrow> keys_ok m) \<and>
     (keys_ok m \<longrightarrow> (\<forall>kt. mapping_get (opaqueKeyMappings p m) kt = sort_key fm_Order (annotated kt m)))"
  using opaque_annotations_None [OF assms] keys_ok_sorted [OF assms] by simp

theorem key_annotations_exact_witness:
  "keys_ok ex_cart \<and>
   map (f_Name \<circ> fm_Field) (mapping_get (opaqueKeyMappings ex_plugin ex_cart) 3) = [''shop'', ''owner'']"
proof -
  have ok: "snd (validateOpaqueAnnotations ex_plugin ex_cart) = None" by code_simp
  have shop: "map (f_Name \<circ> fm_Field) (sort_key fm_Order (annotated 3 ex_cart)) = [''shop'', ''owner'']"
    by code_simp
  from key_annotations_exact [OF ex_laws, of ex_cart] ok shop show ?thesis by simp
qed

section \<open>Indexes\<close>

lemma used_gsi_loop_nums:
  "map ug_Num (used_gsi_loop ms is) = filter (\<lambda>i. mapping_get ms (pk_slot i) \<noteq> []) is"
  by (induction ms "is" rule: used_gsi_loop.induct) (simp_all add: Let_def pk_slot_def)

lemma used_gsi_loop_spec:
  "g \<in> set (used_gsi_loop ms is) \<Longrightarrow>
     ug_PKFields g = mapping_get ms (pk_slot (ug_Num g)) \<and> ug_SKFields g = mapping_get ms (sk_slot (ug_Num g)) \<and>
     ug_HasSK g = (ug_SKFields g \<noteq> []) \<and> \<not> ug_PKOnlyDup g"
proof (induction "is")
  case (Cons i "is")
  then show ?case
    by (auto simp: Let_def pk_slot_def sk_slot_def split: if_splits)
qed simp

lemma length_mark_dups [simp]: "length (mark_dups p seen gs) = length gs"
  by (induction p seen gs rule: mark_dups.induct) (auto simp: Let_def)

lemma mark_dups_nth:
  "j < length gs \<Longrightarrow>
     mark_dups p seen gs ! j = (gs ! j)\<lparr>ug_PKOnlyDup := ug_PKOnlyDup (gs ! j) \<or>
       pkFieldsKey p (ug_PKFields (gs ! j)) \<in> seen \<or>
       (\<exists>i < j. pkFieldsKey p (ug_PKFields (gs ! i)) = pkFieldsKey p (ug_PKFields (gs ! j)))\<rparr>"
proof (induction gs arbitrary: j seen)
  case (Cons g gs)
  show ?case
  proof (cases j)
    case 0
    then show ?thesis by (cases g) (simp add: Let_def)
  next
    case (Suc k)
    let ?key = "\<lambda>g. pkFieldsKey p (ug_PKFields g)"
    have ex: "(\<exists>i < Suc k. ?key ((g # gs) ! i) = c) \<longleftrightarrow> ?key g = c \<or> (\<exists>i < k. ?key (gs ! i) = c)" for c
      by (auto simp: less_Suc_eq_0_disj)
    have "mark_dups p seen (g # gs) ! j = mark_dups p (insert (?key g) seen) gs ! k"
      by (simp add: Suc Let_def)
    also have "\<dots> = (gs ! k)\<lparr>ug_PKOnlyDup := ug_PKOnlyDup (gs ! k) \<or> ?key (gs ! k) \<in> seen \<or>
        ?key g = ?key (gs ! k) \<or> (\<exists>i < k. ?key (gs ! i) = ?key (gs ! k))\<rparr>"
      using Cons Suc by (simp add: insert_iff disj_ac eq_commute)
    finally show ?thesis by (simp only: Suc ex nth_Cons_Suc)
  qed
qed simp

text \<open>
  The indexes that the query code of a message uses are exactly those with partition key fields,
  in order; each has the fields annotated for it, sorted; and an index is marked as a duplicate
  exactly when an earlier one has the same partition key, so the methods and routes that take only
  the partition key are generated once per key.
\<close>

theorem used_indexes_exact:
  assumes "plugin_laws p" "snd (validateOpaqueAnnotations p m) = None"
  shows "map ug_Num (opaqueUsedGSIs p m) = filter (\<lambda>i. annotated (pk_slot i) m \<noteq> []) [1..20] \<and>
     (\<forall>g \<in> set (opaqueUsedGSIs p m).
        ug_PKFields g = sort_key fm_Order (annotated (pk_slot (ug_Num g)) m) \<and>
        ug_SKFields g = sort_key fm_Order (annotated (sk_slot (ug_Num g)) m) \<and>
        ug_HasSK g = (annotated (sk_slot (ug_Num g)) m \<noteq> [])) \<and>
     (\<forall>j < length (opaqueUsedGSIs p m).
        ug_PKOnlyDup (opaqueUsedGSIs p m ! j) \<longleftrightarrow>
        (\<exists>i < j. pkFieldsKey p (ug_PKFields (opaqueUsedGSIs p m ! i)) =
                  pkFieldsKey p (ug_PKFields (opaqueUsedGSIs p m ! j))))"
proof -
  let ?ms = "opaqueKeyMappings p m" and ?gs = "used_gsi_loop (opaqueKeyMappings p m) [1..20]"
  let ?us = "opaqueUsedGSIs p m"
  have keys: "keys_ok m" using assms opaque_annotations_None by blast
  note get = keys_ok_sorted [OF assms(1) keys]
  have Nil: "sort_key fm_Order xs = [] \<longleftrightarrow> xs = []" for xs :: "opaque_field_mapping list"
    by (metis length_0_conv length_sort)
  have len: "length ?us = length ?gs" by (simp add: opaqueUsedGSIs_def)
  have nth: "?us ! j = (?gs ! j)\<lparr>ug_PKOnlyDup :=
      \<exists>i < j. pkFieldsKey p (ug_PKFields (?gs ! i)) = pkFieldsKey p (ug_PKFields (?gs ! j))\<rparr>"
    if "j < length ?gs" for j
    using used_gsi_loop_spec [OF nth_mem [OF that]] that by (simp add: opaqueUsedGSIs_def mark_dups_nth)
  have "map ug_Num ?us = map ug_Num ?gs"
    by (rule nth_equalityI) (simp_all add: len nth)
  moreover have "ug_PKFields g = sort_key fm_Order (annotated (pk_slot (ug_Num g)) m) \<and>
        ug_SKFields g = sort_key fm_Order (annotated (sk_slot (ug_Num g)) m) \<and>
        ug_HasSK g = (annotated (sk_slot (ug_Num g)) m \<noteq> [])" if "g \<in> set ?us" for g
  proof -
    from that obtain j where j: "j < length ?gs" "g = ?us ! j" by (metis in_set_conv_nth len)
    with used_gsi_loop_spec [OF nth_mem [OF j(1)]] show ?thesis by (simp add: nth get Nil)
  qed
  moreover have "ug_PKOnlyDup (?us ! j) \<longleftrightarrow>
        (\<exists>i < j. pkFieldsKey p (ug_PKFields (?us ! i)) = pkFieldsKey p (ug_PKFields (?us ! j)))"
    if "j < length ?us" for j
    using that by (auto simp: nth len)
  ultimately show ?thesis by (simp add: used_gsi_loop_nums get Nil)
qed

theorem used_indexes_exact_witness:
  "map ug_Num (opaqueUsedGSIs ex_plugin ex_cart) = [1, 2]"
proof -
  have ok: "snd (validateOpaqueAnnotations ex_plugin ex_cart) = None" by code_simp
  have nums: "filter (\<lambda>i. annotated (pk_slot i) ex_cart \<noteq> []) [1..20] = [1, 2]" by code_simp
  from used_indexes_exact [OF ex_laws ok] nums show ?thesis by simp
qed

section \<open>Output files\<close>

lemma has_suffixE: "has_suffix s p \<Longrightarrow> \<exists>t. s = t @ p"
  unfolding has_suffix_def by (metis append_take_drop_id)

lemma template_suffix_inj:
  assumes "has_suffix t ''.gotext''" "has_suffix u ''.gotext''" "template_suffix t = template_suffix u"
  shows "t = u"
proof -
  obtain a b where ab: "t = a @ ''.gotext''" "u = b @ ''.gotext''"
    using assms(1,2) by (blast dest: has_suffixE)
  have plain: "''.protosource.'' @ x @ ''.pb.go'' \<noteq> ''.protosource.pb.go''" for x
    by (auto dest: arg_cong [where f = length])
  have eq: "template_suffix t = ''.protosource.'' @ a @ ''.pb.go''" if "t \<noteq> ''protosource.gotext''"
    using that ab by (simp add: template_suffix_def del: append.simps)
  have eq': "template_suffix u = ''.protosource.'' @ b @ ''.pb.go''" if "u \<noteq> ''protosource.gotext''"
    using that ab by (simp add: template_suffix_def del: append.simps)
  have std: "template_suffix ''protosource.gotext'' = ''.protosource.pb.go''"
    by (simp add: template_suffix_def)
  show ?thesis
  proof (cases "t = ''protosource.gotext''"; cases "u = ''protosource.gotext''")
    assume "t \<noteq> ''protosource.gotext''" "u \<noteq> ''protosource.gotext''"
    with assms(3) eq eq' have "''.protosource.'' @ a @ ''.pb.go'' = ''.protosource.'' @ b @ ''.pb.go''"
      by simp
    then show ?thesis using ab by (simp only: same_append_eq append_same_eq)
  next
    assume "t = ''protosource.gotext''" "u \<noteq> ''protosource.gotext''"
    with assms(3) eq' std plain [of b] show ?thesis by metis
  next
    assume "t \<noteq> ''protosource.gotext''" "u = ''protosource.gotext''"
    with assms(3) eq std plain [of a] show ?thesis by metis
  qed simp
qed

lemma template_suffix_end: "take 4 (rev (x @ template_suffix t)) = ''og.b''"
  by (auto simp: template_suffix_def)

lemma cli_path_end: "p_module p \<noteq> [] \<Longrightarrow> take 4 (rev (cliOutputPath p f)) = ''og.n''"
  by (auto simp: cliOutputPath_def Let_def)

lemma output_path_inj:
  assumes "p_module p \<noteq> []" "has_suffix t ''.gotext''" "has_suffix u ''.gotext''"
    "outputPathForTemplate p f t = outputPathForTemplate p f u"
  shows "t = u"
proof -
  let ?pre = "relative_import p f @ ''/'' @ trim_suffix (pf_InputBase f) ''.proto''"
  have path: "outputPathForTemplate p f v = (if v = ''cli.gotext'' then cliOutputPath p f
      else ?pre @ template_suffix v)" for v
    using assms(1) by (simp add: outputPathForTemplate_def)
  have ends: "cliOutputPath p f \<noteq> ?pre @ template_suffix v" for v
    using cli_path_end [OF assms(1), of f] template_suffix_end [of ?pre v] by (auto simp del: rev_append)
  show ?thesis
    using assms(4) ends [of t] ends [of u] template_suffix_inj [OF assms(2,3)]
    by (auto simp: path split: if_splits)
qed

text \<open>
  A file that passes is rendered once per template, and no two of its templates are written to
  the same path, when the plugin is given its module and the templates have distinct names that
  end in \<open>.gotext\<close>.
\<close>

theorem output_paths_distinct:
  assumes "gs_failed (generate p f Protosourceify) = None" "pf_Messages f \<noteq> []" "file_enabled f"
    and "p_module p \<noteq> []" "distinct (p_templates p)" "\<forall>t \<in> set (p_templates p). has_suffix t ''.gotext''"
  shows "map art_template (gs_artifacts (generate p f Protosourceify)) = p_templates p \<and>
     distinct (map art_path (gs_artifacts (generate p f Protosourceify)))"
proof -
  have "inj_on (outputPathForTemplate p f) (set (p_templates p))"
    using assms(4,6) by (auto intro!: inj_onI dest: output_path_inj)
  with assms(5) have "distinct (map (outputPathForTemplate p f) (p_templates p))"
    by (simp add: distinct_map)
  with generate_passed(6) [OF assms(1-3)] show ?thesis
    by (simp add: Protosourceify_def comp_def)
qed

theorem output_paths_distinct_witness:
  "length (gs_artifacts (generate ex_plugin ex_file Protosourceify)) = 5 \<and>
   distinct (map art_path (gs_artifacts (generate ex_plugin ex_file Protosourceify)))"
proof -
  have cart: "pf_Messages ex_file \<noteq> []" "file_enabled ex_file" by code_simp+
  have tpls: "p_module ex_plugin \<noteq> []" "distinct (p_templates ex_plugin)"
      "\<forall>t \<in> set (p_templates ex_plugin). has_suffix t ''.gotext''" "length (p_templates ex_plugin) = 5"
    by code_simp+
  from output_paths_distinct [OF ex_passes cart tpls(1-3)] tpls(4) show ?thesis by (metis length_map)
qed

section \<open>What does not hold\<close>

text \<open>
  The index of enum values is that of the last file generated, while the artifacts of all files are
  rendered after the last one: a state of another file gets the empty string as its Go name.
\<close>

lemma execute_append:
  "Execute p (fs @ gs) s =
     (let s' = Execute p fs s in if gs_failed s' \<noteq> None \<and> fs \<noteq> [] then s' else Execute p gs s')"
  by (induction p fs s rule: Execute.induct) (auto simp: Let_def)

theorem state_names_of_last_file:
  assumes "gs_failed (Execute p (fs @ [f]) Protosourceify) = None" "pf_Messages f \<noteq> []" "file_enabled f"
    and "\<forall>e \<in> set (pf_AllEnums f). v \<notin> ev_Name ` set (en_Values e)"
  shows "stateEnumName (gs_enumValueIndex (Execute p (fs @ [f]) Protosourceify)) v = []"
proof -
  obtain s where s: "Execute p (fs @ [f]) Protosourceify = generate p f s" "gs_failed (generate p f s) = None"
    using assms(1) by (auto simp: execute_append Let_def Protosourceify_def split: if_splits)
  have "map_of (buildEnumValueIndex f) v = None"
    using assms(4) enum_index_get [of f v] by blast
  with s generate_passed(5) [OF s(2) assms(2,3)] show ?thesis by (simp add: stateEnumName_def)
qed

text \<open>
  Two indexes over the same partition key without a sort key are accepted, although their query
  routes are the same, as are the handlers' names.
\<close>

definition ex_twice :: pgs_message where
  "ex_twice = ex_cart\<lparr>m_Fields :=
     [ex_scalar ''id'' 1 StringT,
      ex_keyed (ex_scalar ''owner'' 2 StringT) [\<lparr>ok_Type = 3, ok_Order = 0\<rparr>, \<lparr>ok_Type = 5, ok_Order = 0\<rparr>]]\<rparr>"

theorem duplicate_routes_accepted:
  "snd (validateOpaqueAnnotations ex_plugin ex_twice) = None \<and>
   map gsiQueryRoutePath (opaqueUsedGSIs ex_plugin ex_twice) = [''by-owner'', ''by-owner'']"
  by code_simp

end
