(* ===== verification/CodeExprs.thy ===== *)
theory CodeExprs
  imports Annotations
begin

text \<open>
  cmd/protoc-gen-protosource: the Go expressions that the templates put into the generated code to
  parse and print field values (protosourceify.go), and the display labels of enums
  (enum_display.go). \<open>None\<close> is the panic on an unsupported field type. Names of a proto file are
  ASCII, so \<open>unicode\<close>'s classes of letters are those of ASCII.
\<close>

section \<open>Command line arguments\<close>

definition os_arg :: "nat \<Rightarrow> string" where
  "os_arg argIdx = ''os.Args['' @ dec_nat argIdx @ '']''"

text \<open>\<open>fmt.Sprintf("fn(%s, %q)", arg, label)\<close>, and the same with an argument between the two.\<close>

definition call_labelled :: "string \<Rightarrow> string \<Rightarrow> string \<Rightarrow> string" where
  "call_labelled fn arg label = fn @ ''('' @ arg @ '', '' @ Quote label @ '')''"

definition call_sized :: "string \<Rightarrow> string \<Rightarrow> string \<Rightarrow> string \<Rightarrow> string" where
  "call_sized fn arg bits label = fn @ ''('' @ arg @ '', '' @ bits @ '', '' @ Quote label @ '')''"

definition cliParseExpr :: "pgs_field \<Rightarrow> nat \<Rightarrow> string" where
  "cliParseExpr f argIdx =
     (let arg = os_arg argIdx; name = to_lower (f_Name f); t = ft_ProtoType (f_Type f) in
        if t = StringT then arg
        else if t \<in> {Int32T, SInt32, SFixed32} then call_labelled ''mustParseInt32'' arg name
        else if t \<in> {Int64T, SInt64, SFixed64} then call_labelled ''mustParseInt64'' arg name
        else if t \<in> {UInt32T, Fixed32T} then call_labelled ''mustParseUint32'' arg name
        else if t \<in> {UInt64T, Fixed64T} then call_labelled ''mustParseUint64'' arg name
        else if t = FloatT then ''float32('' @ call_sized ''mustParseFloat'' arg ''32'' name @ '')''
        else if t = DoubleT then call_sized ''mustParseFloat'' arg ''64'' name
        else if t = BoolT then call_labelled ''mustParseBool'' arg name
        else if t = BytesT then call_labelled ''mustReadFile'' arg name
        else arg)"

definition cliParseExprFull :: "plugin \<Rightarrow> pgs_field \<Rightarrow> nat \<Rightarrow> string" where
  "cliParseExprFull p f argIdx =
     (let arg = os_arg argIdx; name = to_lower (f_Name f) in
        if IsEnum (f_Type f) then
          ''pkg.'' @ p_GoType p f @ ''('' @ call_labelled ''mustParseInt32'' arg name @ '')''
        else (case ft_Embed (f_Type f) of
                Some r \<Rightarrow> call_labelled (''mustParseJSON[*pkg.'' @ p_TypeName p r @ '']'') arg name
              | None \<Rightarrow> cliParseExpr f argIdx))"

definition cliQueryParseExpr :: "plugin \<Rightarrow> pgs_field \<Rightarrow> string \<Rightarrow> string \<Rightarrow> string" where
  "cliQueryParseExpr p f varName label =
     (let t = ft_ProtoType (f_Type f) in
        if IsEnum (f_Type f) then
          ''pkg.'' @ p_GoType p f @ ''('' @ call_labelled ''mustParseInt32'' varName label @ '')''
        else if t = StringT then varName
        else if t \<in> {Int32T, SInt32, SFixed32} then call_labelled ''mustParseInt32'' varName label
        else if t \<in> {Int64T, SInt64, SFixed64} then call_labelled ''mustParseInt64'' varName label
        else if t \<in> {UInt32T, Fixed32T} then call_labelled ''mustParseUint32'' varName label
        else if t \<in> {UInt64T, Fixed64T} then call_labelled ''mustParseUint64'' varName label
        else if t = FloatT then ''float32('' @ call_sized ''mustParseFloat'' varName ''32'' label @ '')''
        else if t = DoubleT then call_sized ''mustParseFloat'' varName ''64'' label
        else if t = BoolT then call_labelled ''mustParseBool'' varName label
        else varName)"

definition cliFieldUsageHint :: "pgs_field \<Rightarrow> string" where
  "cliFieldUsageHint f =
     (let name = to_lower (f_Name f) in
        if IsEmbed (f_Type f) then ''<'' @ name @ '':json>''
        else if IsEnum (f_Type f) then ''<'' @ name @ '':num>''
        else ''<'' @ name @ ''>'')"

section \<open>Query parameters\<close>

definition queryParseExpr :: "plugin \<Rightarrow> pgs_field \<Rightarrow> string \<Rightarrow> string option" where
  "queryParseExpr p f varName =
     (let t = ft_ProtoType (f_Type f); call = (\<lambda>fn. Some (fn @ ''('' @ varName @ '')'')) in
        if IsEnum (f_Type f) then call (''parseQueryParamEnum['' @ p_GoType p f @ '']'')
        else if t = StringT then call ''parseQueryParamString''
        else if t \<in> {Int32T, SInt32, SFixed32} then call ''parseQueryParamInt32''
        else if t \<in> {Int64T, SInt64, SFixed64} then call ''parseQueryParamInt64''
        else if t \<in> {UInt32T, Fixed32T} then call ''parseQueryParamUint32''
        else if t \<in> {UInt64T, Fixed64T} then call ''parseQueryParamUint64''
        else if t = BoolT then call ''parseQueryParamBool''
        else if t = FloatT then call ''parseQueryParamFloat32''
        else if t = DoubleT then call ''parseQueryParamFloat64''
        else None)"

text \<open>The format character as a Go rune literal, with its quotes.\<close>

definition quoted_char :: string where
  "quoted_char = [CHR 0x27, CHR ''f'', CHR 0x27]"

definition queryFormatExpr :: "pgs_field \<Rightarrow> string \<Rightarrow> string option" where
  "queryFormatExpr f varName =
     (let t = ft_ProtoType (f_Type f) in
        if IsEnum (f_Type f) then Some (''strconv.FormatInt(int64('' @ varName @ ''), 10)'')
        else if t = StringT then Some varName
        else if t \<in> {Int32T, SInt32, SFixed32} then Some (''strconv.FormatInt(int64('' @ varName @ ''), 10)'')
        else if t \<in> {Int64T, SInt64, SFixed64} then Some (''strconv.FormatInt('' @ varName @ '', 10)'')
        else if t \<in> {UInt32T, Fixed32T} then Some (''strconv.FormatUint(uint64('' @ varName @ ''), 10)'')
        else if t \<in> {UInt64T, Fixed64T} then Some (''strconv.FormatUint('' @ varName @ '', 10)'')
        else if t = BoolT then Some (''strconv.FormatBool('' @ varName @ '')'')
        else if t = FloatT then
          Some (''strconv.FormatFloat(float64('' @ varName @ ''), '' @ quoted_char @ '', -1, 32)'')
        else if t = DoubleT then
          Some (''strconv.FormatFloat('' @ varName @ '', '' @ quoted_char @ '', -1, 64)'')
        else None)"

section \<open>Identifiers\<close>

definition is_upper :: "char \<Rightarrow> bool" where
  "is_upper c = (let n = (of_char c :: nat) in 65 \<le> n \<and> n \<le> 90)"

definition is_lower :: "char \<Rightarrow> bool" where
  "is_lower c = (let n = (of_char c :: nat) in 97 \<le> n \<and> n \<le> 122)"

definition is_digit :: "char \<Rightarrow> bool" where
  "is_digit c = (let n = (of_char c :: nat) in 48 \<le> n \<and> n \<le> 57)"

definition unexport :: "string \<Rightarrow> string" where
  "unexport s = (case s of [] \<Rightarrow> s | c # cs \<Rightarrow> char_lower c # cs)"

text \<open>\<open>screamingSnake\<close>: the loop over the characters, with the one before.\<close>

fun snake_loop :: "char option \<Rightarrow> string \<Rightarrow> string" where
  "snake_loop prev [] = []"
| "snake_loop prev (r # rs) =
     (let boundary =
            (case prev of
               None \<Rightarrow> False
             | Some q \<Rightarrow>
                 is_upper r \<and>
                 (is_lower q \<or> is_digit q \<or> (is_upper q \<and> (case rs of [] \<Rightarrow> False | n # _ \<Rightarrow> is_lower n))))
      in (if boundary then ''_'' else []) @ char_upper r # snake_loop (Some r) rs)"

definition screamingSnake :: "string \<Rightarrow> string" where
  "screamingSnake s = snake_loop None s"

section \<open>Enum labels\<close>

definition title_part :: "string \<Rightarrow> string" where
  "title_part p =
     (if p = [] then p
      else (let lowered = to_lower p in to_upper (take 1 lowered) @ drop 1 lowered))"

definition enumDisplayLabel :: "string \<Rightarrow> string" where
  "enumDisplayLabel s = (if s = [] then s else join '' '' (map title_part (split_on (CHR ''_'') s)))"

definition enumDisplayEnabled :: "pgs_enum \<Rightarrow> bool" where
  "enumDisplayEnabled e = (case en_Extension e of Inr (Some disabled) \<Rightarrow> \<not> disabled | _ \<Rightarrow> True)"

record enum_display_value =
  edv_GoName :: string
  edv_Display :: string

record enum_display =
  ed_GoTypeName :: string
  ed_Values :: "enum_display_value list"

text \<open>The loop over the values: of those with the same number, the first counts.\<close>

fun display_loop :: "plugin \<Rightarrow> bool \<Rightarrow> string \<Rightarrow> int set \<Rightarrow> enum_value list \<Rightarrow> enum_display_value list" where
  "display_loop p stripPrefix pre seen [] = []"
| "display_loop p stripPrefix pre seen (v # vs) =
     (if ev_Value v \<in> seen then display_loop p stripPrefix pre seen vs
      else (let raw = (if stripPrefix then trim_prefix (ev_Name v) pre else ev_Name v) in
              \<lparr>edv_GoName = p_ValueName p v, edv_Display = enumDisplayLabel raw\<rparr> #
              display_loop p stripPrefix pre (insert (ev_Value v) seen) vs))"

definition buildEnumDisplay :: "plugin \<Rightarrow> pgs_enum \<Rightarrow> enum_display" where
  "buildEnumDisplay p e =
     (let pre = screamingSnake (en_Name e) @ ''_'';
          stripPrefix = (\<forall>v \<in> set (en_Values e). has_prefix (ev_Name v) pre)
      in \<lparr>ed_GoTypeName = p_EnumName p e, ed_Values = display_loop p stripPrefix pre {} (en_Values e)\<rparr>)"

definition enumDisplays :: "plugin \<Rightarrow> pgs_file \<Rightarrow> enum_display list" where
  "enumDisplays p f = map (buildEnumDisplay p) (filter enumDisplayEnabled (pf_AllEnums f))"

end
