(* ===== verification/TsPlugin.thy ===== *)
theory TsPlugin
  imports KeySlots CodeExprs "HOL-Library.List_Lexorder" "HOL-Library.Char_ord"
begin

text \<open>
  cmd/protoc-gen-protosource-ts: the plugin that writes TypeScript clients. It has its own copies of
  the Go plugin's functions on annotations, indexes, routes and labels; they are modelled as the
  copies they are, with names that start with \<open>ts_\<close>, so that their agreement is a theorem.
\<close>

section \<open>Annotations\<close>

definition ts_messageOptions :: "pgs_message \<Rightarrow> message_options option" where
  "ts_messageOptions m = (case m_Extension m of Inr (Some opts) \<Rightarrow> Some opts | _ \<Rightarrow> None)"

definition ts_isAggregate :: "pgs_message \<Rightarrow> bool" where
  "ts_isAggregate m = (case ts_messageOptions m of None \<Rightarrow> False | Some opts \<Rightarrow> GetAggregate opts \<noteq> None)"

definition ts_isCommand :: "pgs_message \<Rightarrow> bool" where
  "ts_isCommand m = (case ts_messageOptions m of None \<Rightarrow> False | Some opts \<Rightarrow> GetCommand opts \<noteq> None)"

definition ts_isProjection :: "pgs_message \<Rightarrow> bool" where
  "ts_isProjection m = (case ts_messageOptions m of None \<Rightarrow> False | Some opts \<Rightarrow> GetProjection opts \<noteq> None)"

definition ts_isEvent :: "pgs_message \<Rightarrow> bool" where
  "ts_isEvent m = (case ts_messageOptions m of None \<Rightarrow> False | Some opts \<Rightarrow> GetEvent opts \<noteq> None)"

definition ts_isSnapshot :: "pgs_message \<Rightarrow> bool" where
  "ts_isSnapshot m = (case ts_messageOptions m of None \<Rightarrow> False | Some opts \<Rightarrow> GetSnapshot opts \<noteq> None)"

definition ts_commandLifecycle :: "pgs_message \<Rightarrow> string" where
  "ts_commandLifecycle m =
     (case Option.bind (ts_messageOptions m) GetCommand of
        None \<Rightarrow> ''UNSPECIFIED''
      | Some c \<Rightarrow>
          (if co_Lifecycle c = LIFECYCLE_CREATION then ''CREATION''
           else if co_Lifecycle c = LIFECYCLE_MUTATION then ''MUTATION''
           else ''UNSPECIFIED''))"

definition ts_aggregateForFile :: "pgs_file \<Rightarrow> pgs_message option" where
  "ts_aggregateForFile f = find ts_isAggregate (pf_Messages f)"

definition ts_routePrefix :: "pgs_file \<Rightarrow> string" where
  "ts_routePrefix f = replace_char (CHR ''.'') (CHR ''/'') (pf_Package f)"

definition clientCommandFields :: "pgs_field list \<Rightarrow> pgs_field list" where
  "clientCommandFields flds = filter (\<lambda>f. \<not> (f_Name f = ''id'' \<or> f_Name f = ''actor'')) flds"

section \<open>Indexes and routes\<close>

definition ts_fieldOpaqueOptions :: "pgs_field \<Rightarrow> opaque_key_mapping list option" where
  "ts_fieldOpaqueOptions f = (case f_Extension f of Inr (Some opts) \<Rightarrow> Some opts | _ \<Rightarrow> None)"

definition ts_add_mapping :: "pgs_field \<Rightarrow> opaque_key_mapping \<Rightarrow> key_mappings \<Rightarrow> key_mappings" where
  "ts_add_mapping f attr result =
     (let kt = ok_Type attr in
        if kt = 0 then result
        else AList.update kt (mapping_get result kt @ [\<lparr>fm_Field = f, fm_Order = ok_Order attr\<rparr>]) result)"

definition ts_opaqueKeyMappings :: "plugin \<Rightarrow> pgs_message \<Rightarrow> key_mappings" where
  "ts_opaqueKeyMappings p m =
     map (\<lambda>(kt, fms). (kt, p_sort_slice p fms))
       (fold (\<lambda>f result. case ts_fieldOpaqueOptions f of
                None \<Rightarrow> result | Some attrs \<Rightarrow> fold (ts_add_mapping f) attrs result)
             (m_Fields m) [])"

definition ts_pkFieldsKey :: "plugin \<Rightarrow> opaque_field_mapping list \<Rightarrow> string" where
  "ts_pkFieldsKey p fms = join ''+'' (map (\<lambda>fm. p_FieldName p (fm_Field fm)) fms)"

fun ts_used_gsi_loop :: "key_mappings \<Rightarrow> int list \<Rightarrow> opaque_used_gsi list" where
  "ts_used_gsi_loop mappings [] = []"
| "ts_used_gsi_loop mappings (i # is) =
     (let pkType = 3 + (i - 1) * 2; skType = 4 + (i - 1) * 2;
          pkFields = mapping_get mappings pkType; skFields = mapping_get mappings skType
      in if length pkFields = 0 then ts_used_gsi_loop mappings is
         else \<lparr>ug_Num = i, ug_HasPK = length pkFields > 0, ug_HasSK = length skFields > 0,
                ug_PKType = pkType, ug_SKType = skType, ug_PKFields = pkFields, ug_SKFields = skFields,
                ug_PKOnlyDup = False\<rparr> # ts_used_gsi_loop mappings is)"

fun ts_mark_dups :: "plugin \<Rightarrow> string set \<Rightarrow> opaque_used_gsi list \<Rightarrow> opaque_used_gsi list" where
  "ts_mark_dups p seen [] = []"
| "ts_mark_dups p seen (gsi # gsis) =
     (let key = ts_pkFieldsKey p (ug_PKFields gsi)
      in (if key \<in> seen then gsi\<lparr>ug_PKOnlyDup := True\<rparr> else gsi) # ts_mark_dups p (insert key seen) gsis)"

definition ts_opaqueUsedGSIs :: "plugin \<Rightarrow> pgs_message \<Rightarrow> opaque_used_gsi list" where
  "ts_opaqueUsedGSIs p m = ts_mark_dups p {} (ts_used_gsi_loop (ts_opaqueKeyMappings p m) [1..20])"

definition ts_opaqueGSISKFields :: "plugin \<Rightarrow> pgs_message \<Rightarrow> int \<Rightarrow> opaque_field_mapping list" where
  "ts_opaqueGSISKFields p m gsiNum = mapping_get (ts_opaqueKeyMappings p m) (4 + (gsiNum - 1) * 2)"

definition ts_opaquePKFields :: "plugin \<Rightarrow> pgs_message \<Rightarrow> opaque_field_mapping list" where
  "ts_opaquePKFields p m =
     (if ts_isAggregate m \<or> ts_isProjection m then
        (case find (\<lambda>f. f_Name f = ''id'') (m_Fields m) of
           None \<Rightarrow> [] | Some f \<Rightarrow> [\<lparr>fm_Field = f, fm_Order = 1\<rparr>])
      else mapping_get (ts_opaqueKeyMappings p m) 1)"

definition ts_opaqueFieldNameLower :: "pgs_field \<Rightarrow> string" where
  "ts_opaqueFieldNameLower f = to_lower (f_Name f)"

definition ts_queryRoutePath :: "opaque_field_mapping list \<Rightarrow> string" where
  "ts_queryRoutePath fms =
     ''by-'' @ join ''-and-''
       (map (\<lambda>fm. replace_char (CHR ''_'') (CHR ''-'') (to_lower (f_Name (fm_Field fm)))) fms)"

definition ts_gsiQueryRoutePath :: "opaque_used_gsi \<Rightarrow> string" where
  "ts_gsiQueryRoutePath gsi =
     (let base = ts_queryRoutePath (ug_PKFields gsi) in
        if \<not> ug_PKOnlyDup gsi then base
        else (let skParts = map (\<lambda>fm. replace_char (CHR ''_'') (CHR ''-'') (to_lower (f_Name (fm_Field fm))))
                              (ug_SKFields gsi) in
                if length skParts > 0 then base @ ''-with-'' @ join ''-and-'' skParts else base))"

definition ts_unexport :: "string \<Rightarrow> string" where
  "ts_unexport s = (case s of [] \<Rightarrow> s | c # cs \<Rightarrow> char_lower c # cs)"

section \<open>Imported types\<close>

text \<open>The lists without repetition that the loops with \<open>seen\<close> build.\<close>

definition add_name :: "string \<Rightarrow> string list \<Rightarrow> string list" where
  "add_name n result = (if n \<in> set result then result else result @ [n])"

definition commandEmbeddedTypes :: "pgs_file \<Rightarrow> (pgs_message \<Rightarrow> bool) \<Rightarrow> string list" where
  "commandEmbeddedTypes f isCmd =
     fold (\<lambda>m result.
             if \<not> isCmd m then result
             else fold (\<lambda>fd res. case ft_Embed (f_Type fd) of None \<Rightarrow> res | Some r \<Rightarrow> add_name (tr_Name r) res)
                       (clientCommandFields (m_Fields m)) result)
          (pf_Messages f) []"

definition add_enum :: "pgs_field \<Rightarrow> string list \<Rightarrow> string list" where
  "add_enum fd result = (case ft_Enum (f_Type fd) of None \<Rightarrow> result | Some r \<Rightarrow> add_name (tr_Name r) result)"

definition gsiEnumTypes :: "plugin \<Rightarrow> pgs_file \<Rightarrow> string list" where
  "gsiEnumTypes p f =
     (case ts_aggregateForFile f of
        None \<Rightarrow> []
      | Some agg \<Rightarrow>
          fold (\<lambda>gsi result.
                  fold (\<lambda>fm. add_enum (fm_Field fm)) (ug_SKFields gsi)
                    (fold (\<lambda>fm. add_enum (fm_Field fm)) (ug_PKFields gsi) result))
               (ts_opaqueUsedGSIs p agg) [])"

text \<open>\<open>sort.Strings\<close> sorts by bytes.\<close>

definition clientEnumTypes :: "plugin \<Rightarrow> pgs_file \<Rightarrow> string list" where
  "clientEnumTypes p f =
     List.sort
       (fold add_name (gsiEnumTypes p f)
         (fold (\<lambda>m result.
                  if \<not> ts_isCommand m then result
                  else fold add_enum (clientCommandFields (m_Fields m)) result)
               (pf_AllMessages f) []))"

section \<open>Names and types in TypeScript\<close>

definition tsScalarType :: "pgs_field \<Rightarrow> string" where
  "tsScalarType f =
     (let t = ft_ProtoType (f_Type f) in
        if t = StringT then ''string''
        else if t = BoolT then ''boolean''
        else if t \<in> {Int32T, SInt32, SFixed32, UInt32T, Fixed32T, FloatT, DoubleT} then ''number''
        else if t \<in> {Int64T, SInt64, SFixed64, UInt64T, Fixed64T} then ''bigint''
        else if t = BytesT then ''Uint8Array''
        else ''unknown'')"

definition tsType :: "pgs_field \<Rightarrow> string" where
  "tsType f =
     (let t = f_Type f in
        if IsMap t then ''unknown''
        else if IsRepeated t then tsScalarType f @ ''[]''
        else (case ft_Embed t of
                Some r \<Rightarrow> tr_Name r
              | None \<Rightarrow> (case ft_Enum t of Some r \<Rightarrow> tr_Name r | None \<Rightarrow> tsScalarType f)))"

definition title_first :: "string \<Rightarrow> string" where
  "title_first s = (case s of [] \<Rightarrow> s | c # cs \<Rightarrow> char_upper c # cs)"

definition snakeToCamel :: "string \<Rightarrow> string" where
  "snakeToCamel s =
     (case split_on (CHR ''_'') s of [] \<Rightarrow> [] | part # parts \<Rightarrow> concat (part # map title_first parts))"

definition tsFieldName :: "pgs_field \<Rightarrow> string" where
  "tsFieldName f = snakeToCamel (f_Name f)"

definition tsReservedWords :: "string list" where
  "tsReservedWords =
     [''break'', ''case'', ''catch'', ''class'', ''const'', ''continue'',
      ''debugger'', ''default'', ''delete'', ''do'', ''else'', ''enum'',
      ''export'', ''extends'', ''false'', ''finally'', ''for'', ''function'',
      ''if'', ''import'', ''in'', ''instanceof'', ''new'', ''null'',
      ''return'', ''super'', ''switch'', ''this'', ''throw'', ''true'',
      ''try'', ''typeof'', ''var'', ''void'', ''while'', ''with'', ''yield'',
      ''implements'', ''interface'', ''let'', ''package'', ''private'',
      ''protected'', ''public'', ''static'',
      ''as'', ''async'', ''await'', ''from'',
      ''any'', ''boolean'', ''never'', ''number'', ''object'',
      ''string'', ''symbol'', ''undefined'', ''unknown'']"

definition tsParamName :: "pgs_field \<Rightarrow> string" where
  "tsParamName f =
     (let n = tsFieldName f in if n \<in> set tsReservedWords then n @ ''_'' else n)"

definition tsQueryFormatExpr :: "pgs_field \<Rightarrow> string \<Rightarrow> string" where
  "tsQueryFormatExpr f varName =
     (if ft_ProtoType (f_Type f) = StringT then varName else ''String('' @ varName @ '')'')"

definition protoFileNameFromBase :: "string \<Rightarrow> string" where
  "protoFileNameFromBase base = ''./'' @ trim_suffix base ''.proto'' @ ''_pb.js''"

definition protoFileName :: "pgs_file \<Rightarrow> string" where
  "protoFileName f = protoFileNameFromBase (pf_InputBase f)"

section \<open>Enum labels\<close>

fun ts_snake_loop :: "char option \<Rightarrow> string \<Rightarrow> string" where
  "ts_snake_loop prev [] = []"
| "ts_snake_loop prev (r # rs) =
     (let boundary =
            (case prev of
               None \<Rightarrow> False
             | Some q \<Rightarrow>
                 is_upper r \<and>
                 (is_lower q \<or> is_digit q \<or> (is_upper q \<and> (case rs of [] \<Rightarrow> False | n # _ \<Rightarrow> is_lower n))))
      in (if boundary then ''_'' else []) @ char_upper r # ts_snake_loop (Some r) rs)"

definition ts_screamingSnake :: "string \<Rightarrow> string" where
  "ts_screamingSnake s = ts_snake_loop None s"

definition ts_enumDisplayLabel :: "string \<Rightarrow> string" where
  "ts_enumDisplayLabel s =
     (if s = [] then s
      else join '' ''
        (map (\<lambda>p. if p = [] then p
                   else (let lowered = to_lower p in to_upper (take 1 lowered) @ drop 1 lowered))
             (split_on (CHR ''_'') s)))"

definition ts_enumDisplayEnabled :: "pgs_enum \<Rightarrow> bool" where
  "ts_enumDisplayEnabled e = (case en_Extension e of Inr (Some disabled) \<Rightarrow> \<not> disabled | _ \<Rightarrow> True)"

definition stripEnumValuePrefix :: "string \<Rightarrow> string list \<Rightarrow> string list" where
  "stripEnumValuePrefix enumName valueNames =
     (let pre = ts_screamingSnake enumName @ ''_'';
          stripPrefix = (length valueNames > 0 \<and> (\<forall>v \<in> set valueNames. has_prefix v pre))
      in map (\<lambda>v. if stripPrefix then trim_prefix v pre else v) valueNames)"

record ts_enum_display_value =
  tdv_MemberName :: string
  tdv_Display :: string

record ts_enum_display =
  td_TypeName :: string
  td_Values :: "ts_enum_display_value list"

text \<open>The loop over the values with their stripped names.\<close>

fun ts_display_loop :: "int set \<Rightarrow> (enum_value \<times> string) list \<Rightarrow> ts_enum_display_value list" where
  "ts_display_loop seen [] = []"
| "ts_display_loop seen ((v, member) # vs) =
     (if ev_Value v \<in> seen then ts_display_loop seen vs
      else \<lparr>tdv_MemberName = member, tdv_Display = ts_enumDisplayLabel member\<rparr> #
             ts_display_loop (insert (ev_Value v) seen) vs)"

definition ts_enum_display :: "plugin \<Rightarrow> pgs_enum \<Rightarrow> ts_enum_display" where
  "ts_enum_display p e =
     (let stripped = stripEnumValuePrefix (en_Name e) (map ev_Name (en_Values e))
      in \<lparr>td_TypeName = p_EnumName p e, td_Values = ts_display_loop {} (zip (en_Values e) stripped)\<rparr>)"

definition tsEnumDisplays :: "plugin \<Rightarrow> pgs_file \<Rightarrow> ts_enum_display list" where
  "tsEnumDisplays p f = map (ts_enum_display p) (filter ts_enumDisplayEnabled (pf_AllEnums f))"

definition fileHasDisplayableEnum :: "pgs_file \<Rightarrow> bool" where
  "fileHasDisplayableEnum f = (\<exists>e \<in> set (pf_AllEnums f). ts_enumDisplayEnabled e)"

section \<open>Generation\<close>

definition ts_outputPath :: "pgs_file \<Rightarrow> string \<Rightarrow> string" where
  "ts_outputPath f tpl =
     (let suff = (if tpl = ''enums.tstext'' then ''.protosource.enums.ts'' else ''.protosource.client.ts'');
          base = trim_suffix (pf_InputBase f) ''.proto'' @ suff
      in if pf_Package f = [] then base
         else replace_char (CHR ''.'') (CHR ''/'') (pf_Package f) @ ''/'' @ base)"

definition ts_generate :: "plugin \<Rightarrow> pgs_file \<Rightarrow> (string \<times> string \<times> pgs_file) list" where
  "ts_generate p f =
     (if length (pf_Messages f) = 0 then []
      else if \<not> (case pf_Extension f of Inr (Some enabled) \<Rightarrow> enabled | _ \<Rightarrow> False) then []
      else map (\<lambda>tpl. (ts_outputPath f tpl, tpl, f))
             (filter (\<lambda>tpl. \<not> (tpl = ''enums.tstext'' \<and> \<not> fileHasDisplayableEnum f)) (p_templates p)))"

definition ts_Execute :: "plugin \<Rightarrow> pgs_file list \<Rightarrow> (string \<times> string \<times> pgs_file) list" where
  "ts_Execute p targets = concat (map (ts_generate p) targets)"

end
