(* ===== verification/TsProperties.thy ===== *)
theory TsProperties
  imports TsPlugin Generator
begin

text \<open>
  The properties of the TypeScript plugin: it agrees with the Go plugin on everything both sides of
  the wire must share, and the parameter names it makes are usable identifiers.
\<close>

section \<open>The copies agree\<close>

lemma ts_roles [simp]:
  "ts_isAggregate = isAggregate" "ts_isCommand = isCommand" "ts_isProjection = isProjection"
  by (auto simp: fun_eq_iff ts_isAggregate_def isAggregate_def ts_isCommand_def isCommand_def
      ts_isProjection_def isProjection_def ts_messageOptions_def messageOptions_def)

lemma ts_key_mappings: "ts_opaqueKeyMappings p m = opaqueKeyMappings p m"
proof -
  have "ts_add_mapping f a ms = add_mapping f a ms" for f a ms
    by (simp add: ts_add_mapping_def add_mapping_def)
  then have eq: "ts_add_mapping f = add_mapping f" for f by (intro ext)
  have "(\<lambda>f result. case ts_fieldOpaqueOptions f of
      None \<Rightarrow> result | Some attrs \<Rightarrow> fold (ts_add_mapping f) attrs result) = add_field"
    by (intro ext) (simp add: eq add_field_def ts_fieldOpaqueOptions_def fieldOpaqueOptions_def
        split: option.split)
  then show ?thesis by (simp add: ts_opaqueKeyMappings_def opaqueKeyMappings_def)
qed

lemma ts_loops:
  "ts_used_gsi_loop ms is = used_gsi_loop ms is"
  "ts_mark_dups p seen gs = mark_dups p seen gs"
proof -
  show "ts_used_gsi_loop ms is = used_gsi_loop ms is"
    by (induction ms "is" rule: ts_used_gsi_loop.induct) (simp_all add: Let_def)
  show "ts_mark_dups p seen gs = mark_dups p seen gs"
    by (induction p seen gs rule: ts_mark_dups.induct) (simp_all add: Let_def ts_pkFieldsKey_def pkFieldsKey_def)
qed

lemma ts_labels [simp]:
  "ts_snake_loop q s = snake_loop q s"
  "ts_enumDisplayLabel s = enumDisplayLabel s"
proof -
  show "ts_snake_loop q s = snake_loop q s"
    by (induction q s rule: ts_snake_loop.induct) (simp_all add: Let_def)
  have "(\<lambda>p. if p = [] then p else (let lowered = to_lower p in to_upper (take 1 lowered) @ drop 1 lowered)) =
      title_part"
    by (simp add: fun_eq_iff title_part_def)
  then show "ts_enumDisplayLabel s = enumDisplayLabel s"
    by (simp add: ts_enumDisplayLabel_def enumDisplayLabel_def)
qed

lemma display_loops_agree:
  "map tdv_Display (ts_display_loop seen (map (\<lambda>v. (v, if b then trim_prefix (ev_Name v) pre else ev_Name v)) vs)) =
   map edv_Display (display_loop p b pre seen vs)"
  by (induction p b pre seen vs rule: display_loop.induct) (simp_all add: Let_def)

lemma enum_display_agrees:
  "map tdv_Display (td_Values (ts_enum_display p e)) = map edv_Display (ed_Values (buildEnumDisplay p e))"
proof (cases "en_Values e = []")
  case True
  then show ?thesis
    by (simp add: ts_enum_display_def buildEnumDisplay_def stripEnumValuePrefix_def Let_def)
next
  case False
  let ?pre = "screamingSnake (en_Name e) @ ''_''"
  let ?b = "\<forall>v \<in> set (en_Values e). has_prefix (ev_Name v) ?pre"
  have "ts_screamingSnake (en_Name e) @ ''_'' = ?pre"
    by (simp add: ts_screamingSnake_def screamingSnake_def)
  with False have "stripEnumValuePrefix (en_Name e) (map ev_Name (en_Values e)) =
      map (\<lambda>v. if ?b then trim_prefix (ev_Name v) ?pre else ev_Name v) (en_Values e)"
    by (simp add: stripEnumValuePrefix_def Let_def comp_def)
  moreover have "zip vs (map g vs) = map (\<lambda>v. (v, g v)) vs" for g :: "enum_value \<Rightarrow> string" and vs
    by (induction vs) simp_all
  ultimately show ?thesis
    by (simp add: ts_enum_display_def buildEnumDisplay_def Let_def display_loops_agree)
qed

text \<open>
  C32. The two plugins agree on what the server and the clients share: the route prefix of a package,
  the indexes of a message with their query routes and parameter names, the fields that a client
  sends with a command, and the labels of every enum, in order.
\<close>

theorem plugins_agree:
  "ts_routePrefix f = routePrefix f \<and>
   map ts_gsiQueryRoutePath (ts_opaqueUsedGSIs p m) = map gsiQueryRoutePath (opaqueUsedGSIs p m) \<and>
   map (map (ts_opaqueFieldNameLower \<circ> fm_Field) \<circ> ug_SKFields) (ts_opaqueUsedGSIs p m) =
     map (map (opaqueFieldNameLower \<circ> fm_Field) \<circ> ug_SKFields) (opaqueUsedGSIs p m) \<and>
   ts_opaquePKFields p m = opaquePKFields p m \<and>
   clientCommandFields (m_Fields m) = CLICommandFields (m_Fields m) \<and>
   map td_TypeName (tsEnumDisplays p f) = map ed_GoTypeName (enumDisplays p f) \<and>
   map (map tdv_Display \<circ> td_Values) (tsEnumDisplays p f) = map (map edv_Display \<circ> ed_Values) (enumDisplays p f)"
proof (intro conjI)
  have gsis: "ts_opaqueUsedGSIs p m = opaqueUsedGSIs p m"
    by (simp add: ts_opaqueUsedGSIs_def opaqueUsedGSIs_def ts_key_mappings ts_loops)
  have part: "(\<lambda>fm. replace_char (CHR ''_'') (CHR ''-'') (to_lower (f_Name (fm_Field fm)))) = route_part"
    by (simp add: fun_eq_iff route_part_def)
  have "ts_gsiQueryRoutePath g = gsiQueryRoutePath g" for g
    by (simp add: ts_gsiQueryRoutePath_def gsiQueryRoutePath_def ts_queryRoutePath_def queryRoutePath_def
        part Let_def)
  with gsis show "map ts_gsiQueryRoutePath (ts_opaqueUsedGSIs p m) = map gsiQueryRoutePath (opaqueUsedGSIs p m)"
    by simp
  have "ts_opaqueFieldNameLower = opaqueFieldNameLower"
    by (simp add: fun_eq_iff ts_opaqueFieldNameLower_def opaqueFieldNameLower_def)
  with gsis show "map (map (ts_opaqueFieldNameLower \<circ> fm_Field) \<circ> ug_SKFields) (ts_opaqueUsedGSIs p m) =
      map (map (opaqueFieldNameLower \<circ> fm_Field) \<circ> ug_SKFields) (opaqueUsedGSIs p m)"
    by simp
  have enabled: "ts_enumDisplayEnabled = enumDisplayEnabled"
    by (simp add: fun_eq_iff ts_enumDisplayEnabled_def enumDisplayEnabled_def)
  show "map (map tdv_Display \<circ> td_Values) (tsEnumDisplays p f) = map (map edv_Display \<circ> ed_Values) (enumDisplays p f)"
    by (simp add: tsEnumDisplays_def enumDisplays_def enabled enum_display_agrees comp_def)
  show "map td_TypeName (tsEnumDisplays p f) = map ed_GoTypeName (enumDisplays p f)"
    by (simp add: tsEnumDisplays_def enumDisplays_def enabled comp_def ts_enum_display_def
        buildEnumDisplay_def Let_def)
  show "ts_opaquePKFields p m = opaquePKFields p m"
    by (simp add: ts_opaquePKFields_def opaquePKFields_def ts_key_mappings find_field_def)
qed (simp_all add: ts_routePrefix_def routePrefix_def clientCommandFields_def CLICommandFields_def)

section \<open>Parameter names\<close>

lemma char_upper_underscore: "char_upper c = CHR ''_'' \<longleftrightarrow> c = CHR ''_''"
proof (cases "97 \<le> (of_char c :: nat) \<and> (of_char c :: nat) \<le> 122")
  case True
  then have "of_char c - 32 < (256 :: nat)" by linarith
  with True have "(of_char (char_upper c) :: nat) = of_char c - 32"
    by (simp add: char_upper_def take_bit_eq_mod)
  with True have "(of_char (char_upper c) :: nat) \<noteq> 95 \<and> (of_char c :: nat) \<noteq> 95" by linarith
  then show ?thesis by auto
next
  case False
  then show ?thesis by (auto simp: char_upper_def Let_def)
qed

lemma camel_no_underscore: "CHR ''_'' \<notin> set (snakeToCamel s)"
proof -
  have "CHR ''_'' \<notin> set (title_first part)" if "CHR ''_'' \<notin> set part" for part
  proof (cases part)
    case (Cons c cs)
    with that have "c \<noteq> CHR ''_''" by auto
    then have "char_upper c \<noteq> CHR ''_''" by (simp add: char_upper_underscore)
    with that Cons show ?thesis by (auto simp: title_first_def)
  qed (simp add: title_first_def)
  moreover obtain part parts where parts: "split_on (CHR ''_'') s = part # parts"
    by (cases "split_on (CHR ''_'') s") auto
  moreover have "CHR ''_'' \<notin> set q" if "q \<in> set (part # parts)" for q
    using that split_on_parts [of q "CHR ''_''" s] parts by simp
  ultimately show ?thesis by (auto simp: snakeToCamel_def)
qed

text \<open>
  The parameter names of a TypeScript method are never reserved words, and fields whose names
  differ on the wire get different parameters: escaping a reserved word cannot collide with another
  field.
\<close>

theorem ts_params_safe:
  "tsParamName f \<notin> set tsReservedWords \<and> (tsParamName f = tsParamName g \<longleftrightarrow> tsFieldName f = tsFieldName g)"
proof -
  have no: "CHR ''_'' \<notin> set (tsFieldName h)" for h
    unfolding tsFieldName_def by (rule camel_no_underscore)
  have words: "\<forall>w \<in> set tsReservedWords. CHR ''_'' \<notin> set w" by code_simp
  have "n @ ''_'' \<notin> set tsReservedWords" for n
  proof
    assume "n @ ''_'' \<in> set tsReservedWords"
    with words have "CHR ''_'' \<notin> set (n @ ''_'')" by blast
    then show False by simp
  qed
  then have safe: "tsParamName f \<notin> set tsReservedWords"
    by (auto simp: tsParamName_def Let_def)
  have apart: "n @ ''_'' \<noteq> tsFieldName h" for n h using no [of h] by (metis in_set_conv_decomp)
  show ?thesis
    using safe apart [of "tsFieldName f" g] apart [of "tsFieldName g" f]
    by (auto simp: tsParamName_def Let_def)
qed

end
