(* ===== verification/SetupTools.thy ===== *)
theory SetupTools
  imports Provisioning GoPrelude
begin

text \<open>
  The two setup tools under cmd/, first the one for DynamoDB.

  cmd/testdynamo-setup/main.go: the command line tool that creates, fixes, deletes and describes the
  two DynamoDB tables. The client of the service, the environment and the loading of the AWS
  configuration are parameters. What a run prints is a list of writes to the two streams.
\<close>

section \<open>Output\<close>

text \<open>\<open>fmt.Printf\<close> and \<open>fmt.Fprintf(os.Stderr, ...)\<close> of a line about a table.\<close>

definition about :: "stream \<Rightarrow> string \<Rightarrow> string \<Rightarrow> printed" where
  "about st tableName msg = [(st, ''  '' @ tableName @ '': '' @ msg @ line_end)]"

definition reported :: "string \<Rightarrow> string \<Rightarrow> string \<Rightarrow> 's \<times> goerr option \<Rightarrow> 's \<times> printed" where
  "reported tableName failed ok r =
     (case r of (s, Some e) \<Rightarrow> (s, about Stderr tableName (failed @ err_text e)) | (s, None) \<Rightarrow> (s, about Stdout tableName ok))"

text \<open>A loop that does the same for every table, whatever happens.\<close>

fun for_each :: "('t \<Rightarrow> 's \<Rightarrow> 's \<times> printed) \<Rightarrow> 't list \<Rightarrow> 's \<Rightarrow> 's \<times> printed" where
  "for_each f [] s = (s, [])"
| "for_each f (t # ts) s = (case f t s of (s1, p) \<Rightarrow> (case for_each f ts s1 of (s2, q) \<Rightarrow> (s2, p @ q)))"

section \<open>The service\<close>

text \<open>What the describe calls return; the two times are formatted by RFC 3339.\<close>

record table_description =
  td_TableStatus :: string
  td_ItemCount :: "int64 option"
  td_indexes :: "string list"
  td_protection :: "bool option"

record ttl_description =
  tt_status :: string
  tt_attribute :: "string option"

record pitr_description =
  pi_status :: string
  pi_earliest :: "string option"
  pi_latest :: "string option"

record 's setup_client = "'s dynamo_admin" +
  sc_update_protection :: "string \<Rightarrow> bool \<Rightarrow> 's \<Rightarrow> 's \<times> goerr option"
  sc_delete :: "string \<Rightarrow> 's \<Rightarrow> 's \<times> goerr option"
  sc_describe :: "string \<Rightarrow> 's \<Rightarrow> goerr + table_description"
  sc_describe_ttl :: "string \<Rightarrow> 's \<Rightarrow> goerr + ttl_description"
  sc_describe_backups :: "string \<Rightarrow> 's \<Rightarrow> goerr + pitr_description option"

definition setup_usage :: string where
  "setup_usage =
     ''Usage: testdynamo-setup <command>'' @ line_end @ line_end @
     ''Commands:'' @ line_end @
     ''  create              Create the DynamoDB tables (events + aggregates)'' @ line_end @
     ''  fix                 Enable TTL and PITR on existing tables (idempotent)'' @ line_end @
     ''  delete              Delete the DynamoDB tables (requires disable-protection first)'' @ line_end @
     ''  disable-protection  Disable deletion protection on both tables'' @ line_end @
     ''  status              Check table status, TTL, PITR, and deletion protection'' @ line_end @ line_end @
     ''Environment variables:'' @ line_end @
     ''  EVENTS_TABLE       Events table name        (default: events)'' @ line_end @
     ''  AGGREGATES_TABLE   Aggregates table name    (default: aggregates)'' @ line_end @
     ''  AWS_ENDPOINT_URL   Custom endpoint          (e.g. http://localhost:8000 for DynamoDB Local)''"

section \<open>The operations on a table\<close>

definition createEventsTable :: "'s setup_client \<Rightarrow> string \<Rightarrow> 's \<Rightarrow> 's \<times> printed" where
  "createEventsTable cl tableName s =
     reported tableName ''error: '' ''created (a/v, deletion protection enabled)''
       (da_create cl
         \<lparr>tb_name = tableName, tb_attrs = [(''a'', AttrS), (''v'', AttrN)],
          tb_keys = [(''a'', KeyHash), (''v'', KeyRange)], tb_gsis = [],
          tb_billing = ''PAY_PER_REQUEST'', tb_protected = True\<rparr> s)"

text \<open>The loop over the slots, with the attribute definitions and the indexes so far.\<close>

fun setup_slots :: "nat \<Rightarrow> nat \<Rightarrow> (string \<times> attr_type) list \<Rightarrow> gsi_spec list \<Rightarrow> (string \<times> attr_type) list \<times> gsi_spec list" where
  "setup_slots i 0 attrDefs gsis = (attrDefs, gsis)"
| "setup_slots i (Suc left) attrDefs gsis =
     (let pkAttr = ''gsi'' @ dec_nat i @ ''pk''; skAttr = ''gsi'' @ dec_nat i @ ''sk'';
          indexName = pkAttr @ ''-'' @ skAttr @ ''-index''
      in setup_slots (Suc i) left (attrDefs @ [(pkAttr, AttrS), (skAttr, AttrS)])
           (gsis @ [\<lparr>gs_name = indexName, gs_keys = [(pkAttr, KeyHash), (skAttr, KeyRange)], gs_projection = ''ALL''\<rparr>]))"

definition gsiCount :: nat where "gsiCount = NumGSIs"

definition createAggregatesTable :: "'s setup_client \<Rightarrow> string \<Rightarrow> 's \<Rightarrow> 's \<times> printed" where
  "createAggregatesTable cl tableName s =
     (case setup_slots 1 gsiCount [(''pk'', AttrS), (''sk'', AttrS)] [] of
        (attrDefs, gsis) \<Rightarrow>
          reported tableName ''error: ''
            (''created (pk/sk + '' @ dec_nat gsiCount @ '' GSIs, deletion protection enabled)'')
            (da_create cl
              \<lparr>tb_name = tableName, tb_attrs = attrDefs, tb_keys = [(''pk'', KeyHash), (''sk'', KeyRange)],
               tb_gsis = gsis, tb_billing = ''PAY_PER_REQUEST'', tb_protected = True\<rparr> s))"

definition waitForActive :: "'s setup_client \<Rightarrow> string list \<Rightarrow> 's \<Rightarrow> 's \<times> printed" where
  "waitForActive cl tables =
     for_each (\<lambda>table s. (s, about Stdout table ''waiting for ACTIVE...'' @
       (case da_wait cl table s of Some e \<Rightarrow> about Stderr table (''waiter error: '' @ err_text e) | None \<Rightarrow> []))) tables"

definition setup_enablePITR :: "'s setup_client \<Rightarrow> string \<Rightarrow> 's \<Rightarrow> 's \<times> printed" where
  "setup_enablePITR cl tableName s = reported tableName ''PITR error: '' ''PITR enabled'' (da_backups cl tableName s)"

definition setup_enableTTL :: "'s setup_client \<Rightarrow> string \<Rightarrow> string \<Rightarrow> 's \<Rightarrow> 's \<times> printed" where
  "setup_enableTTL cl tableName attr s =
     reported tableName ''TTL error: '' (''TTL enabled (attribute: '' @ attr @ '')'') (da_ttl cl tableName attr s)"

definition disableProtection :: "'s setup_client \<Rightarrow> string \<Rightarrow> 's \<Rightarrow> 's \<times> printed" where
  "disableProtection cl tableName s =
     reported tableName ''error: '' ''deletion protection disabled'' (sc_update_protection cl tableName False s)"

definition deleteTable :: "'s setup_client \<Rightarrow> string \<Rightarrow> 's \<Rightarrow> 's \<times> printed" where
  "deleteTable cl tableName s = reported tableName ''error: '' ''deleted'' (sc_delete cl tableName s)"

definition describe_ttl_lines :: "string \<Rightarrow> goerr + ttl_description \<Rightarrow> printed" where
  "describe_ttl_lines tableName r =
     (case r of
        Inl e \<Rightarrow> about Stderr tableName (''TTL status error: '' @ err_text e)
      | Inr ttl \<Rightarrow>
          about Stdout tableName (''ttl='' @ tt_status ttl
            @ (case tt_attribute ttl of Some a \<Rightarrow> '' (attribute: '' @ a @ '')'' | None \<Rightarrow> []))
          @ (if tt_status ttl = ''DISABLED'' \<or> tt_status ttl = ''DISABLING''
             then about Stderr tableName (''WARNING: TTL is not enabled (expected attribute '' @ quoted ''t''
               @ ''); run '' @ [CHR 0x27] @ ''fix'' @ [CHR 0x27] @ '' to enable'')
             else []))"

definition describe_backup_lines :: "string \<Rightarrow> goerr + pitr_description option \<Rightarrow> printed" where
  "describe_backup_lines tableName r =
     (case r of
        Inl e \<Rightarrow> about Stderr tableName (''PITR status error: '' @ err_text e)
      | Inr None \<Rightarrow> []
      | Inr (Some pitr) \<Rightarrow>
          about Stdout tableName (''pitr='' @ pi_status pitr
            @ (case pi_earliest pitr of Some t \<Rightarrow> '' (earliest: '' @ t @ '')'' | None \<Rightarrow> [])
            @ (case pi_latest pitr of Some t \<Rightarrow> '' (latest: '' @ t @ '')'' | None \<Rightarrow> []))
          @ (if pi_status pitr = ''DISABLED''
             then about Stderr tableName (''WARNING: PITR is not enabled; run '' @ [CHR 0x27] @ ''fix'' @ [CHR 0x27]
               @ '' to enable'')
             else []))"

definition describeTable :: "'s setup_client \<Rightarrow> string \<Rightarrow> 's \<Rightarrow> 's \<times> printed" where
  "describeTable cl tableName s =
     (case sc_describe cl tableName s of
        Inl e \<Rightarrow> (s, about Stderr tableName (''not found or error: '' @ err_text e))
      | Inr tbl \<Rightarrow>
          (let gsiInfo = (if length (td_indexes tbl) > 0 then '' gsis='' @ dec_nat (length (td_indexes tbl)) else []);
               protection = (if td_protection tbl = Some True then ''on'' else ''off'');
               items = (case td_ItemCount tbl of None \<Rightarrow> 0 | Some n \<Rightarrow> n)
           in (s, about Stdout tableName (''status='' @ td_TableStatus tbl @ '' items='' @ dec_int64 items @ gsiInfo
                    @ '' deletion_protection='' @ protection)
                  @ (if protection = ''off'' then about Stderr tableName ''WARNING: deletion protection is disabled'' else [])
                  @ describe_ttl_lines tableName (sc_describe_ttl cl tableName s)
                  @ describe_backup_lines tableName (sc_describe_backups cl tableName s))))"

section \<open>The program\<close>

definition envOrDefault :: "(string \<Rightarrow> string) \<Rightarrow> string \<Rightarrow> string \<Rightarrow> string" where
  "envOrDefault getenv key fallback = (if getenv key \<noteq> [] then getenv key else fallback)"

definition setup_fatal :: "string \<Rightarrow> ended" where
  "setup_fatal msg = (1, [(Stderr, msg @ line_end)])"

definition exits_ok :: "'s \<times> printed \<Rightarrow> 's \<times> ended" where
  "exits_ok r = (case r of (s, p) \<Rightarrow> (s, 0, p))"

definition setup_switch :: "'s setup_client \<Rightarrow> string \<Rightarrow> string \<Rightarrow> string \<Rightarrow> 's \<Rightarrow> 's \<times> ended" where
  "setup_switch cl eventsTable aggregatesTable cmd s =
     (let tables = [eventsTable, aggregatesTable] in
      if cmd = ''create'' then
        (case EnsureTables (dynamo_admin.truncate cl) eventsTable aggregatesTable s of
           (s', Some e) \<Rightarrow> (s', setup_fatal (''create: '' @ err_text e))
         | (s', None) \<Rightarrow> (s', 0, [(Stdout, ''  tables created: '' @ eventsTable @ '', '' @ aggregatesTable @ line_end)]))
      else if cmd = ''fix'' then
        exits_ok (for_each (\<lambda>table s. case setup_enablePITR cl table s of
            (s1, p) \<Rightarrow> (case setup_enableTTL cl table ''t'' s1 of (s2, q) \<Rightarrow> (s2, p @ q))) tables s)
      else if cmd = ''delete'' then exits_ok (for_each (deleteTable cl) tables s)
      else if cmd = ''disable-protection'' then exits_ok (for_each (disableProtection cl) tables s)
      else if cmd = ''status'' then exits_ok (for_each (describeTable cl) tables s)
      else (s, setup_fatal (''unknown command: '' @ cmd @ line_end @ line_end @ setup_usage)))"

text \<open>The environment: variables, the error of loading the configuration, and the client for an endpoint.\<close>

record 's setup_env =
  se_Getenv :: "string \<Rightarrow> string"
  se_config :: "goerr option"
  se_client :: "string option \<Rightarrow> 's setup_client"

definition setup_main :: "'s setup_env \<Rightarrow> string list \<Rightarrow> 's \<Rightarrow> 's \<times> ended" where
  "setup_main env args s =
     (case args of
        [] \<Rightarrow> (s, setup_fatal setup_usage)
      | cmd # _ \<Rightarrow>
          (case se_config env of
             Some e \<Rightarrow> (s, setup_fatal (''loading AWS config: '' @ err_text e))
           | None \<Rightarrow>
               (let endpoint = se_Getenv env ''AWS_ENDPOINT_URL'';
                    client = se_client env (if endpoint \<noteq> [] then Some endpoint else None)
                in setup_switch client (envOrDefault (se_Getenv env) ''EVENTS_TABLE'' ''events'')
                     (envOrDefault (se_Getenv env) ''AGGREGATES_TABLE'' ''aggregates'') cmd s)))"

section \<open>The Cosmos setup tool\<close>

text \<open>
  cmd/testcosmos-setup/main.go: the command line tool that creates, deletes and describes the two
  Cosmos containers, and how it logs in. The SDK and the environment are parameters; handles are
  the ids they are made from.
\<close>

subsection \<open>The service\<close>

text \<open>\<open>ContainerProperties\<close>: the paths of the partition key and the default time to live.\<close>

record container_properties =
  cp_paths :: "string list"
  cp_ttl :: "int option"

record 's cosmos_setup_client = "'s cosmos_admin" +
  cs_delete :: "string \<Rightarrow> string \<Rightarrow> 's \<Rightarrow> 's \<times> goerr option"
  cs_properties :: "string \<Rightarrow> string \<Rightarrow> 's \<Rightarrow> goerr + container_properties"

text \<open>How a client is made: with a key or with the default credential, for an endpoint, and whether TLS is verified.\<close>

datatype cosmos_login =
    ClientWithKey (lg_endpoint: string) (lg_key: string) (lg_insecure: bool)
  | ClientWithDefault (lg_endpoint: string) (lg_insecure: bool)

record 's cosmos_setup_env =
  cu_Getenv :: "string \<Rightarrow> string"
  cu_key_credential :: "string \<Rightarrow> goerr option"
  cu_default_credential :: "goerr option"
  cu_client :: "cosmos_login \<Rightarrow> goerr + 's cosmos_setup_client"

definition cosmos_usage :: string where
  "cosmos_usage =
     ''Usage: testcosmos-setup <command>'' @ line_end @ line_end @
     ''Commands:'' @ line_end @
     ''  create  Create the Cosmos database and events/aggregates containers'' @ line_end @
     ''  delete  Delete the events/aggregates containers (database is left intact)'' @ line_end @
     ''  status  Print database + container status'' @ line_end @ line_end @
     ''Environment variables:'' @ line_end @
     ''  COSMOS_ENDPOINT                  Account endpoint URL (required)'' @ line_end @
     ''  COSMOS_KEY                       Primary key for shared-key auth'' @ line_end @
     ''  COSMOS_USE_DEFAULT_CREDENTIAL    Use DefaultAzureCredential (Managed Identity, az login, etc) when set to 1'' @ line_end @
     ''  COSMOS_DATABASE                  Database id (default: protosource)'' @ line_end @
     ''  EVENTS_CONTAINER                 Events container id (default: events)'' @ line_end @
     ''  AGGREGATES_CONTAINER             Aggregates container id (default: aggregates)'' @ line_end @
     ''  COSMOS_INSECURE                  Skip TLS verification (emulator only)''"

subsection \<open>Logging in\<close>

definition newClient :: "'s cosmos_setup_env \<Rightarrow> goerr + 's cosmos_setup_client" where
  "newClient env =
     (let endpoint = cu_Getenv env ''COSMOS_ENDPOINT'';
          insecure = (cu_Getenv env ''COSMOS_INSECURE'' = ''1'');
          key = cu_Getenv env ''COSMOS_KEY''
      in if endpoint = [] then Inl (Foreign ''COSMOS_ENDPOINT must be set'')
         else if key \<noteq> [] then
           (case cu_key_credential env key of
              Some e \<Rightarrow> Inl (errorf ''key credential: '' e)
            | None \<Rightarrow> cu_client env (ClientWithKey endpoint key insecure))
         else if cu_Getenv env ''COSMOS_USE_DEFAULT_CREDENTIAL'' = ''1'' then
           (case cu_default_credential env of
              Some e \<Rightarrow> Inl (errorf ''default credential: '' e)
            | None \<Rightarrow> cu_client env (ClientWithDefault endpoint insecure))
         else Inl (Foreign ''no auth configured: set COSMOS_KEY or COSMOS_USE_DEFAULT_CREDENTIAL=1''))"

subsection \<open>The commands\<close>

definition print_line :: "stream \<Rightarrow> string \<Rightarrow> printed" where
  "print_line st text = [(st, ''  '' @ text @ line_end)]"

definition cosmos_create :: "'s cosmos_setup_client \<Rightarrow> string \<Rightarrow> string \<Rightarrow> string \<Rightarrow> 's \<Rightarrow> 's \<times> ended" where
  "cosmos_create cl dbID eventsID aggregatesID s =
     (case EnsureDatabase (cosmos_admin.truncate cl) dbID s of
        (s1, Inl e) \<Rightarrow> (s1, setup_fatal (''ensure database '' @ Quote dbID @ '': '' @ err_text e))
      | (s1, Inr db) \<Rightarrow>
          (case EnsureContainers (cosmos_admin.truncate cl) db eventsID aggregatesID s1 of
             (s2, Some e) \<Rightarrow> (s2, setup_fatal (''ensure containers: '' @ err_text e))
           | (s2, None) \<Rightarrow>
               (s2, 0, print_line Stdout (''database '' @ Quote dbID @ '': ready'')
                  @ print_line Stdout (''container '' @ Quote eventsID @ '': ready'')
                  @ print_line Stdout (''container '' @ Quote aggregatesID @ '': ready''))))"

text \<open>The body of the loop of \<open>delete\<close>, and of that of \<open>status\<close>.\<close>

definition delete_container :: "'s cosmos_setup_client \<Rightarrow> string \<Rightarrow> string \<Rightarrow> 's \<Rightarrow> 's \<times> printed" where
  "delete_container cl db cid s =
     (case ca_new_container cl db cid of
        Some e \<Rightarrow> (s, about Stderr cid (''handle error: '' @ err_text e))
      | None \<Rightarrow> (case cs_delete cl db cid s of
          (s1, Some e) \<Rightarrow> (s1, about Stderr cid (''delete error: '' @ err_text e))
        | (s1, None) \<Rightarrow> (s1, print_line Stdout (''container '' @ Quote cid @ '': deleted''))))"

definition container_status :: "'s cosmos_setup_client \<Rightarrow> string \<Rightarrow> string \<Rightarrow> 's \<Rightarrow> 's \<times> printed" where
  "container_status cl db cid s =
     (case ca_new_container cl db cid of
        Some e \<Rightarrow> (s, about Stderr cid (''handle error: '' @ err_text e))
      | None \<Rightarrow> (case cs_properties cl db cid s of
          Inl e \<Rightarrow> (s, print_line Stderr (''container '' @ Quote cid @ '': '' @ err_text e))
        | Inr props \<Rightarrow>
            (s, print_line Stdout (''container '' @ Quote cid @ '': partition_key=['' @ join '' '' (cp_paths props)
               @ ''] default_ttl='' @ (case cp_ttl props of None \<Rightarrow> ''off'' | Some n \<Rightarrow> dec_int n)))))"

definition cosmos_switch ::
    "'s cosmos_setup_client \<Rightarrow> string \<Rightarrow> string \<Rightarrow> string \<Rightarrow> string \<Rightarrow> 's \<Rightarrow> 's \<times> ended" where
  "cosmos_switch cl dbID eventsID aggregatesID cmd s =
     (if cmd = ''create'' then cosmos_create cl dbID eventsID aggregatesID s
      else if cmd = ''delete'' then
        (case ca_new_database cl dbID of
           Some e \<Rightarrow> (s, setup_fatal (''handle database: '' @ err_text e))
         | None \<Rightarrow> exits_ok (for_each (delete_container cl dbID) [eventsID, aggregatesID] s))
      else if cmd = ''status'' then
        (case ca_new_database cl dbID of
           Some e \<Rightarrow> (s, setup_fatal (''handle database: '' @ err_text e))
         | None \<Rightarrow>
             (let db = (case ca_read_database cl dbID s of
                 Some e \<Rightarrow> print_line Stderr (''database '' @ Quote dbID @ '': '' @ err_text e)
               | None \<Rightarrow> print_line Stdout (''database '' @ Quote dbID @ '': present''))
              in case for_each (container_status cl dbID) [eventsID, aggregatesID] s of
                   (s', p) \<Rightarrow> (s', 0, db @ p)))
      else (s, setup_fatal (''unknown command: '' @ cmd @ line_end @ line_end @ cosmos_usage)))"

definition cosmos_main :: "'s cosmos_setup_env \<Rightarrow> string list \<Rightarrow> 's \<Rightarrow> 's \<times> ended" where
  "cosmos_main env args s =
     (case args of
        [] \<Rightarrow> (s, setup_fatal cosmos_usage)
      | cmd # _ \<Rightarrow>
          (case newClient env of
             Inl e \<Rightarrow> (s, setup_fatal (''cosmos client: '' @ err_text e))
           | Inr client \<Rightarrow>
               cosmos_switch client (envOrDefault (cu_Getenv env) ''COSMOS_DATABASE'' ''protosource'')
                 (envOrDefault (cu_Getenv env) ''EVENTS_CONTAINER'' ''events'')
                 (envOrDefault (cu_Getenv env) ''AGGREGATES_CONTAINER'' ''aggregates'') cmd s))"

end
