(* ===== verification/SetupProperties.thy ===== *)
theory SetupProperties
  imports SetupTools ProvisioningProperties
begin

text \<open>
  What the setup tools do, over the documented behaviour of the services: a protected table survives
  every run but one that disables the protection, the tools' own description of the tables is the
  one that the store creates, and deleting goes on after a failure.
\<close>

section \<open>The two descriptions of the tables agree\<close>

lemma setup_slots_spec:
  "setup_slots i k attrs gsis = (attrs @ concat (map slot_attrs [i..<i + k]), gsis @ map slot_index [i..<i + k])"
proof (induction k arbitrary: i attrs gsis)
  case (Suc k)
  have "[i..<i + Suc k] = i # [Suc i..<Suc i + k]" by (simp add: upt_conv_Cons)
  with Suc show ?case by (simp add: slot_attrs_def slot_index_def Let_def)
qed simp

lemma createEventsTable_spec:
  "createEventsTable cl n s = reported n ''error: '' ''created (a/v, deletion protection enabled)'' (da_create cl (events_table n) s)"
  by (simp add: createEventsTable_def events_table_def)

lemma createAggregatesTable_spec:
  "createAggregatesTable cl n s
     = reported n ''error: '' ''created (pk/sk + 20 GSIs, deletion protection enabled)'' (da_create cl (aggregates_table n) s)"
proof -
  have "dec_nat gsiCount = ''20''" by code_simp
  then show ?thesis
    by (simp add: createAggregatesTable_def setup_slots_spec aggregates_table_def gsiCount_def NumGSIs_def del: upt_Suc)
qed

section \<open>The service\<close>

text \<open>
  \<open>tables\<close> is what exists, with its present protection. A delete of a protected table is refused; a
  delete or an update concerns its own table only.
\<close>

locale dynamo_setup_service = dynamo_tables "dynamo_admin.truncate cl" tables
  for cl :: "'s setup_client" and tables :: "'s \<Rightarrow> string \<Rightarrow> table_spec option" +
  assumes delete_done: "sc_delete cl n s = (s', None) \<Longrightarrow>
      tables s' = (tables s)(n := None) \<and> (\<forall>t. tables s n = Some t \<longrightarrow> \<not> tb_protected t)"
    and delete_failed: "sc_delete cl n s = (s', Some e) \<Longrightarrow> tables s' = tables s"
    and protect_done: "sc_update_protection cl n b s = (s', None) \<Longrightarrow>
      \<exists>t. tables s n = Some t \<and> tables s' = (tables s)(n \<mapsto> t\<lparr>tb_protected := b\<rparr>)"
    and protect_failed: "sc_update_protection cl n b s = (s', Some e) \<Longrightarrow> tables s' = tables s"
begin

text \<open>The protected tables of the first state are in the second one as they were.\<close>

definition kept :: "'s \<Rightarrow> 's \<Rightarrow> bool" where
  "kept s s' \<longleftrightarrow> (\<forall>n t. tables s n = Some t \<longrightarrow> tb_protected t \<longrightarrow> tables s' n = Some t)"

lemma kept_refl: "tables s' = tables s \<Longrightarrow> kept s s'"
  by (simp add: kept_def)

lemma kept_trans: "kept s s1 \<Longrightarrow> kept s1 s2 \<Longrightarrow> kept s s2"
  by (auto simp: kept_def)

lemma for_each_kept:
  assumes "\<And>t s. kept s (fst (f t s))"
  shows "kept s (fst (for_each f ts s))"
proof (induction ts arbitrary: s)
  case (Cons t ts)
  from kept_trans [OF assms [of s t] Cons [of "fst (f t s)"]] show ?case by (simp add: split_beta)
qed (simp add: kept_refl)

lemma reported_fst: "fst (reported n failed ok r) = fst r"
  by (simp add: reported_def split: prod.splits option.splits)

lemma da_truncate:
  "da_backups (dynamo_admin.truncate cl) = da_backups cl" "da_ttl (dynamo_admin.truncate cl) = da_ttl cl"
  by (simp_all add: dynamo_admin.truncate_def)

lemma deleteTable_kept: "kept s (fst (deleteTable cl n s))"
proof -
  obtain s' r where d: "sc_delete cl n s = (s', r)" by fastforce
  then show ?thesis
    using delete_done [of n s s'] delete_failed [of n s s']
    by (cases r) (auto simp: deleteTable_def reported_fst kept_def)
qed

lemma ensure_kept: "ensure_table (dynamo_admin.truncate cl) spec s = (s', r) \<Longrightarrow> kept s s'"
  using ensure_table_exact(1) [of spec s s' r] by (auto simp: kept_def)

lemma EnsureTables_kept: "kept s (fst (EnsureTables (dynamo_admin.truncate cl) ev ag s))"
proof -
  obtain s1 r1 where a: "ensure_table (dynamo_admin.truncate cl) (events_table ev) s = (s1, r1)" by fastforce
  obtain s2 r2 where b: "ensure_table (dynamo_admin.truncate cl) (aggregates_table ag) s1 = (s2, r2)" by fastforce
  from kept_trans [OF ensure_kept [OF a] ensure_kept [OF b]] ensure_kept [OF a] a b show ?thesis
    by (cases r1; cases r2) (simp_all add: EnsureTables_def ensureEventsTable_def ensureAggregatesTable_def)
qed

lemma setup_switch_kept:
  assumes "cmd \<noteq> ''disable-protection''"
  shows "kept s (fst (setup_switch cl ev ag cmd s))"
proof -
  have fix': "kept s (fst (case setup_enablePITR cl t s of (s1, p) \<Rightarrow> (case setup_enableTTL cl t ''t'' s1 of (s2, q) \<Rightarrow> (s2, p @ q))))" for t s
  proof -
    have "tables (fst (setup_enablePITR cl t s)) = tables s" for s
      using backups [of t s, unfolded da_truncate, OF prod.collapse [symmetric]] by (simp add: setup_enablePITR_def reported_fst)
    moreover have "tables (fst (setup_enableTTL cl t ''t'' s)) = tables s" for s
      using ttl [of t "''t''" s, unfolded da_truncate, OF prod.collapse [symmetric]] by (simp add: setup_enableTTL_def reported_fst)
    ultimately show ?thesis by (auto simp: split_beta intro: kept_refl)
  qed
  have status: "fst (describeTable cl t s) = s" for t s
    by (simp add: describeTable_def Let_def split: sum.splits)
  have ok: "fst (exits_ok r) = fst r" for r :: "'s \<times> printed" by (simp add: exits_ok_def split: prod.splits)
  consider "cmd = ''create''" | "cmd = ''fix''" | "cmd = ''delete''" | "cmd = ''status''"
    | "fst (setup_switch cl ev ag cmd s) = s"
    using assms by (fastforce simp: setup_switch_def Let_def)
  then show ?thesis
  proof cases
    case 1
    then show ?thesis using EnsureTables_kept [of s ev ag] by (auto simp: setup_switch_def split: prod.splits option.splits)
  next
    case 2
    then show ?thesis using for_each_kept [OF fix'] by (simp add: setup_switch_def ok Let_def del: for_each.simps)
  next
    case 3
    then show ?thesis using for_each_kept [OF deleteTable_kept] by (simp add: setup_switch_def ok Let_def del: for_each.simps)
  next
    case 4
    have "kept s (fst (for_each (describeTable cl) [ev, ag] s))"
      by (rule for_each_kept) (simp add: status kept_refl)
    with 4 show ?thesis by (simp add: setup_switch_def ok Let_def del: for_each.simps)
  qed (simp add: kept_refl)
qed

end

text \<open>A sequence of runs of the program, each with its environment and arguments.\<close>

fun setup_runs :: "('s setup_env \<times> string list) list \<Rightarrow> 's \<Rightarrow> 's \<times> ended list" where
  "setup_runs [] s = (s, [])"
| "setup_runs ((env, args) # runs) s =
     (case setup_main env args s of (s1, e) \<Rightarrow> (case setup_runs runs s1 of (s2, es) \<Rightarrow> (s2, e # es)))"

section \<open>Concrete services\<close>

text \<open>Tables in memory: deleting a protected table is refused.\<close>

definition plain_setup :: "(string, table_spec) fmap setup_client" where
  "plain_setup = dynamo_admin.extend plain_tables
     \<lparr>sc_update_protection = (\<lambda>n b s. case fmlookup s n of None \<Rightarrow> (s, Some table_missing)
        | Some t \<Rightarrow> (fmupd n (t\<lparr>tb_protected := b\<rparr>) s, None)),
      sc_delete = (\<lambda>n s. case fmlookup s n of None \<Rightarrow> (s, Some table_missing)
        | Some t \<Rightarrow> if tb_protected t then (s, Some (Foreign ''ValidationException'')) else (fmdrop n s, None)),
      sc_describe = (\<lambda>n s. case fmlookup s n of None \<Rightarrow> Inl table_missing
        | Some t \<Rightarrow> Inr \<lparr>td_TableStatus = ''ACTIVE'', td_ItemCount = None, td_indexes = map gs_name (tb_gsis t),
            td_protection = Some (tb_protected t)\<rparr>),
      sc_describe_ttl = (\<lambda>n s. Inr \<lparr>tt_status = ''DISABLED'', tt_attribute = None\<rparr>),
      sc_describe_backups = (\<lambda>n s. Inr None)\<rparr>"

lemma plain_setup_truncate: "dynamo_admin.truncate plain_setup = plain_tables"
  by (simp add: plain_setup_def dynamo_admin.defs plain_tables_def)

lemma plain_setup_tables: "dynamo_tables (dynamo_admin.truncate plain_setup) fmlookup"
  unfolding plain_setup_truncate by (rule pt.dynamo_tables_axioms)

interpretation ps: dynamo_setup_service plain_setup fmlookup
proof (intro dynamo_setup_service.intro plain_setup_tables dynamo_setup_service_axioms.intro)
  fix n :: string and s s' :: "(string, table_spec) fmap" and e b
  note plain = plain_setup_def dynamo_admin.defs
  show "sc_delete plain_setup n s = (s', None) \<Longrightarrow>
      fmlookup s' = (fmlookup s)(n := None) \<and> (\<forall>t. fmlookup s n = Some t \<longrightarrow> \<not> tb_protected t)"
    by (auto simp: plain fun_eq_iff split: option.splits if_splits)
  show "sc_delete plain_setup n s = (s', Some e) \<Longrightarrow> fmlookup s' = fmlookup s"
    by (auto simp: plain split: option.splits if_splits)
  show "sc_update_protection plain_setup n b s = (s', None) \<Longrightarrow>
      \<exists>t. fmlookup s n = Some t \<and> fmlookup s' = (fmlookup s)(n \<mapsto> t\<lparr>tb_protected := b\<rparr>)"
    by (auto simp: plain split: option.splits)
  show "sc_update_protection plain_setup n b s = (s', Some e) \<Longrightarrow> fmlookup s' = fmlookup s"
    by (auto simp: plain split: option.splits)
qed

section \<open>Properties\<close>

text \<open>
  C36. A protected table survives the setup tool. Over any service that refuses to delete a protected
  table, whatever sequence of runs of the tool, with whatever environments and arguments, as long as
  none is \<open>disable-protection\<close>, every table that was protected at the start is there at the end with
  the same description: attributes, keys, indexes, billing and protection (the settings that \<open>fix\<close>
  enables, TTL and point-in-time recovery, are not part of it).
\<close>

theorem setup_keeps_protected:
  assumes "\<forall>(env, args) \<in> set runs. (\<forall>endpoint. dynamo_setup_service (se_client env endpoint) tables)
      \<and> (args \<noteq> [] \<longrightarrow> hd args \<noteq> ''disable-protection'')"
    and "tables s n = Some t" "tb_protected t"
  shows "tables (fst (setup_runs runs s)) n = Some t"
  using assms
proof (induction runs arbitrary: s)
  case (Cons run runs)
  obtain env args where run: "run = (env, args)" by fastforce
  have "tables (fst (setup_main env args s)) n = Some t"
  proof (cases "args = [] \<or> se_config env \<noteq> None")
    case True
    with Cons.prems(2) show ?thesis by (cases args) (auto simp: setup_main_def)
  next
    case False
    then obtain cmd rest where args: "args = cmd # rest" "cmd \<noteq> ''disable-protection''"
      using Cons.prems(1) run by (cases args) auto
    obtain endpoint ev ag where "setup_main env args s = setup_switch (se_client env endpoint) ev ag cmd s"
      using False args(1) by (auto simp: setup_main_def Let_def)
    moreover have "dynamo_setup_service (se_client env endpoint) tables" using Cons.prems(1) run by simp
    ultimately show ?thesis
      using dynamo_setup_service.setup_switch_kept [of "se_client env endpoint" tables cmd s ev ag] args(2) Cons.prems(2,3)
      by (simp add: dynamo_setup_service.kept_def)
  qed
  with Cons show ?case by (simp add: run split_beta)
qed simp

definition ex_setup :: "(string, table_spec) fmap setup_env" where
  "ex_setup = \<lparr>se_Getenv = (\<lambda>k. if k = ''EVENTS_TABLE'' then ''ev'' else []), se_config = None, se_client = (\<lambda>_. plain_setup)\<rparr>"

theorem setup_keeps_protected_witness:
  "fmlookup (fst (setup_runs [(ex_setup, [''delete'']), (ex_setup, [''fix'']), (ex_setup, [''delete''])]
     (fst (setup_main ex_setup [''create''] fmempty)))) ''ev'' = Some (events_table ''ev'')"
proof (rule setup_keeps_protected)
  show "\<forall>(env, args) \<in> set [(ex_setup, [''delete'']), (ex_setup, [''fix'']), (ex_setup, [''delete''])].
      (\<forall>endpoint. dynamo_setup_service (se_client env endpoint) fmlookup) \<and> (args \<noteq> [] \<longrightarrow> hd args \<noteq> ''disable-protection'')"
    using ps.dynamo_setup_service_axioms by (simp add: ex_setup_def)
  show "tb_protected (events_table ''ev'')" by (simp add: events_table_def)
  have "EnsureTables plain_tables ''ev'' ''aggregates'' fmempty
      = (fmupd ''aggregates'' (aggregates_table ''aggregates'') (fmupd ''ev'' (events_table ''ev'') fmempty), None)"
    by (simp add: EnsureTables_def ensureEventsTable_def ensureAggregatesTable_def ensure_table_def tableExists_def
        plain_tables_def table_missing_def events_table_def aggregates_table_def enableTTL_def enablePITR_def)
  then show "fmlookup (fst (setup_main ex_setup [''create''] fmempty)) ''ev'' = Some (events_table ''ev'')"
    by (simp add: setup_main_def ex_setup_def setup_switch_def envOrDefault_def plain_setup_truncate)
qed

lemma reported_ok:
  "reported n failed ok r = (s', (Stdout, l) # p) \<Longrightarrow> r = (s', None) \<and> p = []"
  "reported n failed ok r = (s', p) \<Longrightarrow> length p = 1"
  by (auto simp: reported_def about_def split: prod.splits option.splits)

lemma two_ok:
  assumes "exits_ok (for_each (\<lambda>t s. reported t (f t) (g t) (op t s)) [ev, ag] s) = (s2, 0, [(Stdout, l1), (Stdout, l2)])"
  obtains s1 where "op ev s = (s1, None)" "op ag s1 = (s2, None)"
proof -
  obtain sa pa where a: "reported ev (f ev) (g ev) (op ev s) = (sa, pa)" by fastforce
  obtain sb pb where b: "reported ag (f ag) (g ag) (op ag sa) = (sb, pb)" by fastforce
  from assms a b have p: "pa @ pb = [(Stdout, l1), (Stdout, l2)]" "sb = s2" by (simp_all add: exits_ok_def)
  from reported_ok(2) [OF a] obtain x where x: "pa = [x]" by (auto simp: length_Suc_conv)
  with p have "pa = [(Stdout, l1)]" "pb = [(Stdout, l2)]" by simp_all
  with reported_ok(1) a b p(2) that show ?thesis by metis
qed

text \<open>
  Tearing down: when \<open>disable-protection\<close> and then \<open>delete\<close> report no error, both tables are gone and
  every other table is as it was.
\<close>

theorem setup_teardown:
  assumes "dynamo_setup_service cl tables" "ev \<noteq> ag"
    and "setup_switch cl ev ag ''disable-protection'' s = (s1, 0, [(Stdout, l1), (Stdout, l2)])"
    and "setup_switch cl ev ag ''delete'' s1 = (s2, 0, [(Stdout, l3), (Stdout, l4)])"
  shows "tables s2 = (tables s)(ev := None, ag := None)"
proof -
  have "exits_ok (for_each (\<lambda>t s. reported t ''error: '' ''deletion protection disabled'' (sc_update_protection cl t False s)) [ev, ag] s)
      = (s1, 0, [(Stdout, l1), (Stdout, l2)])"
    using assms(3) by (simp add: setup_switch_def disableProtection_def)
  from two_ok [OF this] obtain sa where a: "sc_update_protection cl ev False s = (sa, None)"
    "sc_update_protection cl ag False sa = (s1, None)" .
  have "exits_ok (for_each (\<lambda>t s. reported t ''error: '' ''deleted'' (sc_delete cl t s)) [ev, ag] s1)
      = (s2, 0, [(Stdout, l3), (Stdout, l4)])"
    using assms(4) by (simp add: setup_switch_def deleteTable_def)
  from two_ok [OF this] obtain sb where b: "sc_delete cl ev s1 = (sb, None)" "sc_delete cl ag sb = (s2, None)" .
  from dynamo_setup_service.protect_done [OF assms(1) a(1)] dynamo_setup_service.protect_done [OF assms(1) a(2)]
    dynamo_setup_service.delete_done [OF assms(1) b(1)] dynamo_setup_service.delete_done [OF assms(1) b(2)]
  show ?thesis by (auto simp: fun_eq_iff)
qed

section \<open>Cosmos\<close>

text \<open>
  Logging in: an endpoint is required, a key wins over the default credential, and TLS is verified
  unless \<open>COSMOS_INSECURE\<close> is exactly 1.
\<close>

theorem newClient_login:
  assumes "newClient env = Inr cl"
  shows "\<exists>login. cu_client env login = Inr cl \<and> lg_endpoint login = cu_Getenv env ''COSMOS_ENDPOINT'' \<and> lg_endpoint login \<noteq> []
    \<and> lg_insecure login = (cu_Getenv env ''COSMOS_INSECURE'' = ''1'')
    \<and> (case login of
         ClientWithKey _ key _ \<Rightarrow> key = cu_Getenv env ''COSMOS_KEY'' \<and> key \<noteq> [] \<and> cu_key_credential env key = None
       | ClientWithDefault _ _ \<Rightarrow> cu_Getenv env ''COSMOS_KEY'' = []
           \<and> cu_Getenv env ''COSMOS_USE_DEFAULT_CREDENTIAL'' = ''1'' \<and> cu_default_credential env = None)"
proof (cases "cu_Getenv env ''COSMOS_KEY'' = []")
  case True
  with assms show ?thesis
    by (intro exI [of _ "ClientWithDefault (cu_Getenv env ''COSMOS_ENDPOINT'') (cu_Getenv env ''COSMOS_INSECURE'' = ''1'')"])
      (simp add: newClient_def Let_def split: if_splits option.splits)
next
  case False
  with assms show ?thesis
    by (intro exI [of _ "ClientWithKey (cu_Getenv env ''COSMOS_ENDPOINT'') (cu_Getenv env ''COSMOS_KEY'')
        (cu_Getenv env ''COSMOS_INSECURE'' = ''1'')"])
      (simp add: newClient_def Let_def split: if_splits option.splits)
qed

text \<open>
  Deleting goes on: over a service whose delete removes its container or fails and changes nothing,
  \<open>delete\<close> tries both containers, whatever happens to the first, and changes no other; each of the two
  is gone or is reported on stderr.
\<close>

theorem cosmos_delete_tries_both:
  assumes laws: "\<And>n s s' r. cs_delete cl db n s = (s', r) \<Longrightarrow>
      containers s' = (if r = None then (containers s)(n := None) else containers s)"
    and handles: "ca_new_database cl db = None" "\<And>n. ca_new_container cl db n = None" "ev \<noteq> ag"
    and run: "cosmos_switch cl db ev ag ''delete'' s = (s', code, p)"
  shows "code = 0 \<and> (\<forall>n. n \<noteq> ev \<longrightarrow> n \<noteq> ag \<longrightarrow> containers s' n = containers s n)
    \<and> (\<forall>n \<in> {ev, ag}. containers s' n = None \<or> containers s' n = containers s n \<and> (\<exists>l. (Stderr, ''  '' @ n @ '': delete error: '' @ l) \<in> set p))"
proof -
  have one: "\<exists>r. cs_delete cl db n s = (s1, r) \<and> (case r of Some e \<Rightarrow> q = about Stderr n (''delete error: '' @ err_text e)
      | None \<Rightarrow> q = print_line Stdout (''container '' @ Quote n @ '': deleted''))"
    if "delete_container cl db n s = (s1, q)" for n s s1 q
    using that by (auto simp: delete_container_def handles split: prod.splits option.splits)
  obtain s1 q1 where a: "delete_container cl db ev s = (s1, q1)" by fastforce
  obtain s2 q2 where b: "delete_container cl db ag s1 = (s2, q2)" by fastforce
  from run a b have out: "code = 0" "s' = s2" "p = q1 @ q2" by (simp_all add: cosmos_switch_def handles exits_ok_def)
  from one [OF a] one [OF b] obtain r1 r2 where r: "cs_delete cl db ev s = (s1, r1)" "cs_delete cl db ag s1 = (s2, r2)"
    "r1 \<noteq> None \<Longrightarrow> q1 = about Stderr ev (''delete error: '' @ err_text (the r1))"
    "r2 \<noteq> None \<Longrightarrow> q2 = about Stderr ag (''delete error: '' @ err_text (the r2))"
    by (auto split: option.splits)
  from laws [OF r(1)] laws [OF r(2)] r(3,4) handles(3) show ?thesis
    unfolding out by (cases r1; cases r2) (auto simp: about_def)
qed

end
