(* ===== verification/TestDomain.thy ===== *)
theory TestDomain
  imports Contracts
begin

text \<open>
  The test example, gen/example/app/test/v1: the messages (test_v1.pb.go) and the generated
  aggregate, builder and commands (test_v1.protosource.pb.go). It has what the order example has
  not: a command that emits two events, a snapshot every three versions, a TTL on its events, and
  no hook, evaluator or projection. The validator (package protovalidate) is a parameter. Its keys
  and its client over an opaque store are not modelled; they are those of the order example with
  other fields.
\<close>

section \<open>Messages\<close>

datatype test_state =
    STATE_UNSPECIFIED | STATE_UNLOCKED | STATE_LOCKED | STATE_OTHER int32

primrec test_state_String :: "test_state \<Rightarrow> string" where
  "test_state_String STATE_UNSPECIFIED = ''STATE_UNSPECIFIED''"
| "test_state_String STATE_UNLOCKED = ''STATE_UNLOCKED''"
| "test_state_String STATE_LOCKED = ''STATE_LOCKED''"
| "test_state_String (STATE_OTHER n) = dec_int (sint n)"

primrec test_state_Display :: "test_state \<Rightarrow> string" where
  "test_state_Display STATE_UNSPECIFIED = ''Unspecified''"
| "test_state_Display STATE_UNLOCKED = ''Unlocked''"
| "test_state_Display STATE_LOCKED = ''Locked''"
| "test_state_Display (STATE_OTHER n) = ''''"

record test =
  t_id :: string
  t_version :: int64
  t_create_at :: int64
  t_create_by :: string
  t_modify_at :: int64
  t_modify_by :: string
  t_body :: string
  t_state :: test_state
  t_color :: string
  t_shape :: string
  t_number :: string
  t_shading :: string

text \<open>\<open>&Test{}\<close>.\<close>

definition empty_test :: test where
  "empty_test =
     \<lparr>t_id = [], t_version = 0, t_create_at = 0, t_create_by = [], t_modify_at = 0, t_modify_by = [],
      t_body = [], t_state = STATE_UNSPECIFIED, t_color = [], t_shape = [], t_number = [], t_shading = []\<rparr>"

text \<open>The fields that \<open>Create\<close>, \<open>Update\<close>, \<open>Created\<close> and \<open>Updated\<close> have in common.\<close>

record test_fields =
  tf_body :: string
  tf_color :: string
  tf_shape :: string
  tf_number :: string
  tf_shading :: string

datatype test_command =
    Create (tc_id: string) (tc_actor: string) test_fields
  | Update (tc_id: string) (tc_actor: string) test_fields
  | Lock (tc_id: string) (tc_actor: string)
  | Unlock (tc_id: string) (tc_actor: string)

text \<open>\<open>OtherEvent\<close> is an event of another package, of the given Go type and message name.\<close>

datatype test_event =
    Created (te_id: string) (te_version: int64) (te_at: int64) (te_actor: string) test_fields
  | Updated (te_id: string) (te_version: int64) (te_at: int64) (te_actor: string) test_fields
  | Locked (te_id: string) (te_version: int64) (te_at: int64) (te_actor: string)
  | Unlocked (te_id: string) (te_version: int64) (te_at: int64) (te_actor: string)
  | Snapshot (te_id: string) (te_version: int64) (te_at: int64) (te_actor: string) "test option"
  | OtherEvent (te_id: string) (te_version: int64) (te_at: int64) (te_actor: string) string string

text \<open>\<open>EventName\<close>, which is also the name of the message type; and \<open>%T\<close>.\<close>

fun test_EventName :: "test_event \<Rightarrow> string" where
  "test_EventName (Created _ _ _ _ _) = ''Created''"
| "test_EventName (Updated _ _ _ _ _) = ''Updated''"
| "test_EventName (Locked _ _ _ _) = ''Locked''"
| "test_EventName (Unlocked _ _ _ _) = ''Unlocked''"
| "test_EventName (Snapshot _ _ _ _ _) = ''Snapshot''"
| "test_EventName (OtherEvent _ _ _ _ _ name) = name"

definition test_event_type :: "test_event \<Rightarrow> string" where
  "test_event_type e =
     (case e of OtherEvent _ _ _ _ type_name _ \<Rightarrow> type_name | _ \<Rightarrow> ''*testv1.'' @ test_EventName e)"

definition test_events :: "test_event event_ops" where
  "test_events = \<lparr>ev_id = te_id, ev_version = te_version, ev_at = te_at, ev_actor = te_actor,
     ev_type_name = test_event_type\<rparr>"

section \<open>The aggregate\<close>

definition test_setCreated :: "test_event \<Rightarrow> test \<Rightarrow> test" where
  "test_setCreated event a = a\<lparr>t_create_at := te_at event, t_create_by := te_actor event\<rparr>"

definition test_setModified :: "test_event \<Rightarrow> test \<Rightarrow> test" where
  "test_setModified event a = a\<lparr>t_modify_at := te_at event, t_modify_by := te_actor event\<rparr>"

text \<open>The assignments of the fields of \<open>Created\<close> and \<open>Updated\<close>.\<close>

definition test_set_fields :: "test_fields \<Rightarrow> test \<Rightarrow> test" where
  "test_set_fields f a =
     a\<lparr>t_body := tf_body f, t_color := tf_color f, t_shape := tf_shape f, t_number := tf_number f,
       t_shading := tf_shading f\<rparr>"

definition test_RestoreSnapshot :: "int64 \<Rightarrow> test option \<Rightarrow> test \<Rightarrow> test" where
  "test_RestoreSnapshot version snapshot a =
     (let s = (case snapshot of None \<Rightarrow> empty_test | Some t \<Rightarrow> t)
      in a\<lparr>t_create_at := t_create_at s, t_create_by := t_create_by s, t_modify_at := t_modify_at s,
           t_modify_by := t_modify_by s, t_body := t_body s, t_state := t_state s, t_color := t_color s,
           t_shape := t_shape s, t_number := t_number s, t_shading := t_shading s, t_version := version\<rparr>)"

definition test_On :: "test \<Rightarrow> test_event \<Rightarrow> test \<times> goerr option" where
  "test_On a0 event =
     (let a = a0\<lparr>t_id := te_id event, t_version := te_version event\<rparr>; m = test_setModified event a
      in case event of
           Created _ _ _ _ f \<Rightarrow> (test_set_fields f (test_setModified event (test_setCreated event a)), None)
         | Updated _ _ _ _ f \<Rightarrow> (test_set_fields f m, None)
         | Locked _ _ _ _ \<Rightarrow> (m\<lparr>t_state := STATE_LOCKED\<rparr>, None)
         | Unlocked _ _ _ _ \<Rightarrow> (m\<lparr>t_state := STATE_UNLOCKED\<rparr>, None)
         | Snapshot _ version _ _ snapshot \<Rightarrow> (test_RestoreSnapshot version snapshot a, None)
         | OtherEvent _ _ _ _ type_name _ \<Rightarrow>
             (a, Some (errorf (type_name @ '': '') (Sentinel ErrUnhandledEvent))))"

section \<open>The builder\<close>

record test_builder =
  tb_id :: string
  tb_version :: int64
  tb_events :: "test_event list"

definition test_NewBuilder :: "string \<Rightarrow> int64 \<Rightarrow> test_builder" where
  "test_NewBuilder i version = \<lparr>tb_id = i, tb_version = version, tb_events = []\<rparr>"

definition tb_nextVersion :: "test_builder \<Rightarrow> test_builder \<times> int64" where
  "tb_nextVersion b = (let b' = b\<lparr>tb_version := tb_version b + 1\<rparr> in (b', tb_version b'))"

definition tb_append ::
    "(nat \<Rightarrow> int64) \<Rightarrow> (string \<Rightarrow> int64 \<Rightarrow> int64 \<Rightarrow> test_event) \<Rightarrow> test_builder \<Rightarrow> test_builder" where
  "tb_append now mk b =
     (case tb_nextVersion b of (b', version) \<Rightarrow>
        b'\<lparr>tb_events := tb_events b @ [mk (tb_id b) version (now (length (tb_events b)))]\<rparr>)"

definition test_SnapshotEveryNEvents :: int32 where
  "test_SnapshotEveryNEvents = 3"

definition test_EventTTLDuration :: int64 where
  "test_EventTTLDuration = 86400"

text \<open>\<open>Builder.Snapshot\<close>; the aggregate has no \<open>AfterOn\<close>.\<close>

definition tb_Snapshot :: "(nat \<Rightarrow> int64) \<Rightarrow> test \<Rightarrow> test_builder \<Rightarrow> test_builder" where
  "tb_Snapshot now a b =
     (if int64_rem (tb_version b) 3 = 0
      then tb_append now (\<lambda>i v at. Snapshot i v at ''snapshot@system'' (Some a)) b
      else b)"

definition test_Snapshot :: "int64 \<Rightarrow> test \<Rightarrow> int64 \<Rightarrow> test_event" where
  "test_Snapshot now a version = Snapshot (t_id a) (version + 1) now ''snapshot@system'' (Some a)"

text \<open>
  The builder methods that \<open>EmitEvents\<close> of a command calls, in order, and what it does after each:
  the event is applied to the clone of the aggregate, and a snapshot is made when one is due.
\<close>

definition tb_command_events :: "test_command \<Rightarrow> (string \<Rightarrow> int64 \<Rightarrow> int64 \<Rightarrow> test_event) list" where
  "tb_command_events c =
     (case c of
        Create _ actor f \<Rightarrow> [\<lambda>i v at. Created i v at actor f, \<lambda>i v at. Unlocked i v at actor]
      | Update _ actor f \<Rightarrow> [\<lambda>i v at. Updated i v at actor f]
      | Lock _ actor \<Rightarrow> [\<lambda>i v at. Locked i v at actor]
      | Unlock _ actor \<Rightarrow> [\<lambda>i v at. Unlocked i v at actor])"

definition tb_emit ::
    "(nat \<Rightarrow> int64) \<Rightarrow> (string \<Rightarrow> int64 \<Rightarrow> int64 \<Rightarrow> test_event) \<Rightarrow> test_builder \<times> test \<Rightarrow>
     test_builder \<times> test" where
  "tb_emit now mk ba =
     (let b = tb_append now mk (fst ba); a = fst (test_On (snd ba) (last (tb_events b)))
      in (tb_Snapshot now a b, a))"

definition test_EmitEvents :: "test_command \<Rightarrow> (nat \<Rightarrow> int64) \<Rightarrow> test \<Rightarrow> test_event list" where
  "test_EmitEvents c now aggregate =
     tb_events (fst (fold (tb_emit now) (tb_command_events c)
       (test_NewBuilder (tc_id c) (t_version aggregate), aggregate)))"

section \<open>Commands\<close>

fun test_CommandName :: "test_command \<Rightarrow> string" where
  "test_CommandName (Create _ _ _) = ''Create''"
| "test_CommandName (Update _ _ _) = ''Update''"
| "test_CommandName (Lock _ _) = ''Lock''"
| "test_CommandName (Unlock _ _) = ''Unlock''"

definition test_ProtoValidate ::
    "(test_command \<Rightarrow> goerr option) \<Rightarrow> test_command \<Rightarrow> goerr option" where
  "test_ProtoValidate validate c =
     (case validate c of
        None \<Rightarrow> None
      | Some e \<Rightarrow>
          Some (Wrapped (''command '' @ test_CommandName c @ '': ''
                         @ sentinel_text ErrValidationFailed @ '': '' @ err_text e)
                  [Sentinel ErrValidationFailed, e]))"

definition test_ValidateVersion :: "test_command \<Rightarrow> int64 \<Rightarrow> goerr option" where
  "test_ValidateVersion c version =
     (if is_Create c
      then (if version \<noteq> 0 then
              Some (errorf (''command '' @ test_CommandName c
                      @ '' requires a new aggregate (version 0), got version '' @ dec_int64 version @ '': '')
                      (Sentinel ErrAlreadyCreated))
            else None)
      else (if version = 0 then
              Some (errorf (''command '' @ test_CommandName c
                      @ '' requires an existing aggregate (version > 0), got version 0: '')
                      (Sentinel ErrNotCreatedYet))
            else None))"

text \<open>The state that each \<open>GuardState\<close> lets through; \<open>Create\<close> has no such method.\<close>

fun test_allowed_state :: "test_command \<Rightarrow> test_state option" where
  "test_allowed_state (Create _ _ _) = None"
| "test_allowed_state (Unlock _ _) = Some STATE_LOCKED"
| "test_allowed_state _ = Some STATE_UNLOCKED"

definition test_GuardState :: "test_command \<Rightarrow> (test \<Rightarrow> goerr option) option" where
  "test_GuardState c =
     (case test_allowed_state c of
        None \<Rightarrow> None
      | Some allowed \<Rightarrow> Some (\<lambda>a.
          if t_state a = allowed then None
          else Some (errorf (''command '' @ test_CommandName c @ '' not allowed in state ''
                       @ test_state_String (t_state a) @ '': '') (Sentinel ErrStateNotAllowed))))"

definition test_commands ::
    "(test_command \<Rightarrow> goerr option) \<Rightarrow> (test_command, test, test_event) command_ops" where
  "test_commands validate =
     \<lparr>cm_id = tc_id, cm_actor = tc_actor, cm_type_name = (\<lambda>c. ''*testv1.'' @ test_CommandName c),
      cm_validate_version = (\<lambda>c. Some (test_ValidateVersion c)),
      cm_proto_validate = (\<lambda>c. Some (\<lambda>_. test_ProtoValidate validate c)),
      cm_guard_state = test_GuardState, cm_evaluate = (\<lambda>_. None),
      cm_emit = (\<lambda>c. Some (test_EmitEvents c))\<rparr>"

definition test_aggregate :: "(test, test_event, test) aggregate_ops" where
  "test_aggregate =
     \<lparr>ag_package = ''example.app.test.v1'', ag_new = empty_test, ag_on = test_On, ag_version = t_version,
      ag_message = (\<lambda>a. a), ag_message_type = (\<lambda>_. ''*testv1.Test''), ag_after_on = None,
      ag_projections = None, ag_snapshot_interval = Some (\<lambda>_. test_SnapshotEveryNEvents),
      ag_event_ttl = Some (\<lambda>_. test_EventTTLDuration)\<rparr>"

end
