(* ===== verification/TestContract.thy ===== *)
theory TestContract
  imports TestDomain Snapshots Runs
begin

text \<open>
  The test aggregate keeps the contracts that the repository relies on, with a snapshot every three
  events: \<open>aggregate_contract\<close> and \<open>snapshot_contract\<close>, for every validator. Then what a command does
  to the state of a stream.
\<close>

definition test_known :: "test_event \<Rightarrow> bool" where
  "test_known e \<longleftrightarrow> \<not> is_OtherEvent e"

definition test_is_snapshot :: "test_event \<Rightarrow> bool" where
  "test_is_snapshot e \<longleftrightarrow> is_Snapshot e"

lemma test_aggregate_simps [simp]:
  "ag_new test_aggregate = empty_test" "ag_on test_aggregate = test_On"
  "ag_version test_aggregate = t_version" "run_after_on test_aggregate = (\<lambda>a. a)"
  "ev_version test_events = te_version" "ev_id test_events = te_id"
  "cm_id (test_commands validate) = tc_id" "cm_evaluate (test_commands validate) c = None"
  "cm_emit (test_commands validate) c = Some (test_EmitEvents c)"
  by (simp_all add: test_aggregate_def test_events_def test_commands_def run_after_on_def fun_eq_iff)

text \<open>\<open>NewRepository\<close> of the generated package.\<close>

definition test_NewRepository ::
    "('s, test) store_ops option \<Rightarrow> test_event serializer option \<Rightarrow>
     (test_command \<Rightarrow> goerr option) \<Rightarrow> gzip \<Rightarrow> repo_option list \<Rightarrow>
     string + ('s, test, test_event, test_command, test) repository" where
  "test_NewRepository store serializer validate gz opts =
     new_repository (Some test_aggregate) store serializer test_events (test_commands validate) gz opts"

section \<open>On\<close>

lemmas test_On_simps = test_On_def test_setModified_def test_setCreated_def test_set_fields_def
  test_RestoreSnapshot_def Let_def

lemma test_On_header: "t_id (fst (test_On a e)) = te_id e" "t_version (fst (test_On a e)) = te_version e"
  by (cases e; simp add: test_On_simps)+

lemma test_On_ok: "snd (test_On a e) = None \<longleftrightarrow> test_known e"
  by (cases e) (simp_all add: test_On_simps test_known_def)

lemma test_On_snapshot: "test_is_snapshot e \<Longrightarrow> test_On a e = test_On a' e"
  by (cases e) (simp_all add: test_On_simps test_is_snapshot_def)

section \<open>EmitEvents\<close>

lemma tb_append_simps [simp]:
  "tb_id (tb_append now mk b) = tb_id b" "tb_version (tb_append now mk b) = tb_version b + 1"
  "tb_events (tb_append now mk b)
     = tb_events b @ [mk (tb_id b) (tb_version b + 1) (now (length (tb_events b)))]"
  by (simp_all add: tb_append_def tb_nextVersion_def Let_def)

lemma test_NewBuilder_simps [simp]:
  "tb_id (test_NewBuilder i v) = i" "tb_version (test_NewBuilder i v) = v" "tb_events (test_NewBuilder i v) = []"
  by (simp_all add: test_NewBuilder_def)

text \<open>
  A builder that started from version \<open>v\<close>: its version counts its events, which are numbered one by
  one and carry its id.
\<close>

definition tb_ok :: "string \<Rightarrow> int64 \<Rightarrow> test_builder \<Rightarrow> bool" where
  "tb_ok i v b \<longleftrightarrow>
     tb_id b = i \<and> tb_version b = v + word_of_nat (length (tb_events b))
     \<and> map te_version (tb_events b) = map (\<lambda>j. v + word_of_nat (Suc j)) [0..<length (tb_events b)]
     \<and> (\<forall>e \<in> set (tb_events b). te_id e = i \<and> test_known e)"

lemma tb_append_ok:
  assumes "tb_ok i v b" "\<And>j w at. te_id (mk j w at) = j \<and> te_version (mk j w at) = w \<and> test_known (mk j w at)"
  shows "tb_ok i v (tb_append now mk b)"
  using assms by (auto simp: tb_ok_def algebra_simps)

lemma tb_Snapshot_ok: "tb_ok i v b \<Longrightarrow> tb_ok i v (tb_Snapshot now a b)"
  by (auto simp: tb_Snapshot_def intro: tb_append_ok [unfolded test_known_def] simp: test_known_def)

lemma tb_command_events_header:
  "mk \<in> set (tb_command_events c) \<Longrightarrow>
     te_id (mk i v at) = i \<and> te_version (mk i v at) = v \<and> te_actor (mk i v at) = tc_actor c
     \<and> test_known (mk i v at) \<and> \<not> test_is_snapshot (mk i v at)"
  by (cases c) (auto simp: tb_command_events_def test_known_def test_is_snapshot_def)

lemma tb_emit_all_ok:
  assumes "tb_ok i v (fst ba)" "set mks \<subseteq> set (tb_command_events c)"
  shows "tb_ok i v (fst (fold (tb_emit now) mks ba))"
  using assms
proof (induction mks arbitrary: ba)
  case (Cons mk mks)
  have "tb_ok i v (tb_append now mk (fst ba))"
    using Cons.prems tb_command_events_header by (intro tb_append_ok) auto
  then have "tb_ok i v (fst (tb_emit now mk ba))"
    by (simp add: tb_emit_def Let_def tb_Snapshot_ok)
  with Cons show ?case by simp
qed simp

lemma test_EmitEvents_ok: "tb_ok (tc_id c) (t_version a)
    (fst (fold (tb_emit now) (tb_command_events c) (test_NewBuilder (tc_id c) (t_version a), a)))"
  by (rule tb_emit_all_ok [OF _ subset_refl]) (simp add: tb_ok_def)

lemma test_EmitEvents_headers:
  "map te_version (test_EmitEvents c now a)
     = map (\<lambda>i. t_version a + word_of_nat (Suc i)) [0..<length (test_EmitEvents c now a)]"
  "e \<in> set (test_EmitEvents c now a) \<Longrightarrow> te_id e = tc_id c \<and> test_known e"
  using test_EmitEvents_ok [of c a now] by (auto simp: tb_ok_def test_EmitEvents_def)

lemma int64_rem_3: "n < 2 ^ 63 \<Longrightarrow> int64_rem (word_of_nat n) 3 = 0 \<longleftrightarrow> 3 dvd n"
  using int64_rem_dvd [of n 3 3] by simp

text \<open>
  A builder on a stream of \<open>n\<close> events has made a snapshot wherever one was due, and does not stop just
  before one.
\<close>

definition tb_snapped :: "nat \<Rightarrow> test_event list \<Rightarrow> bool" where
  "tb_snapped n es \<longleftrightarrow>
     (\<forall>j < length es. 0 < n + j \<longrightarrow> 3 dvd n + j \<longrightarrow> test_is_snapshot (es ! j))
     \<and> (n + length es = 0 \<or> \<not> 3 dvd n + length es)"

lemma length_fold_emit: "length (tb_events (fst ba)) \<le> length (tb_events (fst (fold (tb_emit now) mks ba)))"
proof (induction mks arbitrary: ba)
  case (Cons mk mks)
  have "length (tb_events (fst ba)) \<le> length (tb_events (fst (tb_emit now mk ba)))"
    by (simp add: tb_emit_def tb_Snapshot_def Let_def)
  with Cons [of "tb_emit now mk ba"] show ?case by simp
qed simp

lemma tb_emit_snapped:
  assumes snapped: "tb_snapped n (tb_events (fst ba))" and v: "tb_version (fst ba) = word_of_nat (n + length (tb_events (fst ba)))"
    and len: "Suc (n + length (tb_events (fst ba))) < 2 ^ 63"
  shows "tb_snapped n (tb_events (fst (tb_emit now mk ba)))
    \<and> tb_version (fst (tb_emit now mk ba)) = word_of_nat (n + length (tb_events (fst (tb_emit now mk ba))))
    \<and> n + length (tb_events (fst (tb_emit now mk ba))) \<noteq> 0"
proof -
  let ?k = "n + length (tb_events (fst ba))"
  have rem: "int64_rem (1 + word_of_nat ?k) 3 = 0 \<longleftrightarrow> 3 dvd Suc ?k"
    using int64_rem_3 [OF len] by simp
  have "3 dvd Suc ?k \<Longrightarrow> \<not> 3 dvd Suc (Suc ?k)" by presburger
  with snapped v rem show ?thesis
    by (auto simp: tb_snapped_def tb_emit_def tb_Snapshot_def Let_def nth_append less_Suc_eq test_is_snapshot_def add_ac
        split: if_splits)
qed

lemma fold_emit_snapped:
  assumes "tb_snapped n (tb_events (fst ba))" "tb_version (fst ba) = word_of_nat (n + length (tb_events (fst ba)))"
    and "n + length (tb_events (fst (fold (tb_emit now) mks ba))) < 2 ^ 63"
  shows "tb_snapped n (tb_events (fst (fold (tb_emit now) mks ba)))
    \<and> (mks \<noteq> [] \<longrightarrow> n + length (tb_events (fst (fold (tb_emit now) mks ba))) \<noteq> 0)"
  using assms
proof (induction mks arbitrary: ba)
  case (Cons mk mks)
  have "Suc (length (tb_events (fst ba))) \<le> length (tb_events (fst (tb_emit now mk ba)))"
    by (simp add: tb_emit_def tb_Snapshot_def Let_def)
  also have "\<dots> \<le> length (tb_events (fst (fold (tb_emit now) mks (tb_emit now mk ba))))" by (rule length_fold_emit)
  finally have "Suc (n + length (tb_events (fst ba))) < 2 ^ 63" using Cons.prems(3) by simp
  note step = tb_emit_snapped [OF Cons.prems(1,2) this, of now mk]
  from Cons.IH [of "tb_emit now mk ba"] step Cons.prems(3)
    length_fold_emit [of "tb_emit now mk ba" now mks] show ?case by auto
qed simp

lemma test_EmitEvents_not_Nil: "test_EmitEvents c now a \<noteq> []"
proof -
  obtain mk mks where mks: "tb_command_events c = mk # mks" by (cases c) (simp_all add: tb_command_events_def)
  have "0 < length (tb_events (fst (tb_emit now mk ba)))" for ba by (simp add: tb_emit_def tb_Snapshot_def Let_def)
  with length_fold_emit [of "tb_emit now mk ba" now mks for ba] have
    "0 < length (tb_events (fst (fold (tb_emit now) mks (tb_emit now mk ba))))" for ba
    by (meson order_less_le_trans)
  then show ?thesis by (simp add: test_EmitEvents_def mks)
qed

lemma test_EmitEvents_snapped:
  assumes "t_version a = word_of_nat n" "n + length (test_EmitEvents c now a) < 2 ^ 63" "n = 0 \<or> \<not> 3 dvd n"
  shows "tb_snapped n (test_EmitEvents c now a)"
  using fold_emit_snapped [where n = n and ba = "(test_NewBuilder (tc_id c) (t_version a), a)" and mks = "tb_command_events c"] assms
  by (simp add: test_EmitEvents_def tb_snapped_def)

interpretation tst: snapshot_contract test_aggregate test_events "test_commands validate" test_known
    test_is_snapshot 3
  for validate
proof unfold_locales
  show "ag_version test_aggregate (ag_new test_aggregate) = 0" by (simp add: empty_test_def)
next
  fix e a
  assume "test_known e"
  then show "\<exists>a'. ag_on test_aggregate a e = (a', None) \<and> ag_version test_aggregate a' = ev_version test_events e"
    using test_On_header test_On_ok by (intro exI [of _ "fst (test_On a e)"]) (simp add: prod_eq_iff)
next
  fix a
  show "ag_version test_aggregate (run_after_on test_aggregate a) = ag_version test_aggregate a" by simp
next
  fix c f e now a
  assume "cm_emit (test_commands validate) c = Some f" "e \<in> set (f now a)"
  then show "test_known e" "ev_id test_events e = cm_id (test_commands validate) c"
    using test_EmitEvents_headers(2) by auto
next
  fix c f now a
  assume "cm_emit (test_commands validate) c = Some f"
  then show "map (ev_version test_events) (f now a)
      = map (\<lambda>i. ag_version test_aggregate a + word_of_nat (Suc i)) [0..<length (f now a)]"
    using test_EmitEvents_headers(1) by auto
next
  show "\<exists>f. ag_snapshot_interval test_aggregate = Some f \<and> sint (f (ag_new test_aggregate)) = int 3 \<and> 0 < (3::nat)"
    by (simp add: test_aggregate_def test_SnapshotEveryNEvents_def)
next
  fix e a a'
  assume "test_is_snapshot e"
  then show "ag_on test_aggregate a e = ag_on test_aggregate a' e" using test_On_snapshot by simp
next
  fix c f n j now a
  assume *: "cm_emit (test_commands validate) c = Some f" "ag_version test_aggregate a = word_of_nat n"
    "n + length (f now a) < 2 ^ 63" "n = 0 \<or> \<not> 3 dvd n"
  then have s: "tb_snapped n (f now a)" "f now a \<noteq> []"
    using test_EmitEvents_snapped [of a n c now] test_EmitEvents_not_Nil by auto
  { assume "j < length (f now a)" "0 < n + j" "3 dvd n + j"
    with s(1) show "test_is_snapshot (f now a ! j)" unfolding tb_snapped_def by blast }
  { show "\<not> 3 dvd n + length (f now a)" using s by (simp add: tb_snapped_def) }
qed

section \<open>The state after a command\<close>

lemma test_On_version: "test_On (a\<lparr>t_version := v\<rparr>) e = test_On a e"
  by (cases e) (simp_all add: test_On_simps)

lemma test_On_taken: "t_id a = i \<Longrightarrow> test_On a (Snapshot i v at actor (Some a)) = (a\<lparr>t_version := v\<rparr>, None)"
  by (cases a) (simp add: test_On_simps)

text \<open>The events of a builder, replayed, give the builder's clone of the aggregate with its version.\<close>

definition tb_replays :: "test \<Rightarrow> test_builder \<times> test \<Rightarrow> bool" where
  "tb_replays a0 ba \<longleftrightarrow>
     on_all test_aggregate a0 (tb_events (fst ba)) = ((snd ba)\<lparr>t_version := tb_version (fst ba)\<rparr>, None)"

lemma tb_emit_replays:
  assumes "tb_replays a0 ba" "mk \<in> set (tb_command_events c)"
  shows "tb_replays a0 (tb_emit now mk ba)"
proof -
  let ?b = "tb_append now mk (fst ba)"
  let ?e = "mk (tb_id (fst ba)) (tb_version (fst ba) + 1) (now (length (tb_events (fst ba))))"
  obtain a1 where on: "test_On (snd ba) ?e = (a1, None)"
    using test_On_ok [of "snd ba" ?e] tb_command_events_header [OF assms(2)] by (cases "test_On (snd ba) ?e") auto
  have a1: "t_id a1 = tb_id (fst ba)" "t_version a1 = tb_version (fst ba) + 1"
    using test_On_header [of "snd ba" ?e] tb_command_events_header [OF assms(2)] on by simp_all
  have own: "on_all test_aggregate a0 (tb_events ?b) = (a1, None)"
    using assms(1) on by (simp add: tb_replays_def on_all_append test_On_version)
  have emit: "tb_emit now mk ba = (tb_Snapshot now a1 ?b, a1)" using on by (simp add: tb_emit_def Let_def)
  show ?thesis
  proof (cases "int64_rem (tb_version ?b) 3 = 0")
    case True
    with on_all_append_ok [OF own] a1 show ?thesis
      by (simp add: tb_replays_def emit tb_Snapshot_def test_On_taken)
  next
    case False
    have "a1\<lparr>t_version := tb_version ?b\<rparr> = a1" using a1(2) by (cases a1) simp
    with own False show ?thesis by (simp add: tb_replays_def emit tb_Snapshot_def)
  qed
qed

lemma fold_emit_replays:
  assumes "tb_replays a0 ba" "set mks \<subseteq> set (tb_command_events c)"
  shows "tb_replays a0 (fold (tb_emit now) mks ba)"
  using assms
proof (induction mks arbitrary: ba)
  case (Cons mk mks)
  have "mk \<in> set (tb_command_events c)" using Cons.prems(2) by simp
  from Cons.IH [OF tb_emit_replays [OF Cons.prems(1) this]] Cons.prems(2) show ?case by simp
qed simp

definition test_step :: "test_command \<Rightarrow> (nat \<Rightarrow> int64) \<Rightarrow> test \<Rightarrow> test" where
  "test_step c now a = fst (on_all test_aggregate a (test_EmitEvents c now a))"

lemma test_step_fold:
  "on_all test_aggregate a (test_EmitEvents c now a) = (test_step c now a, None)
   \<and> test_step c now a =
     (snd (fold (tb_emit now) (tb_command_events c) (test_NewBuilder (tc_id c) (t_version a), a)))
       \<lparr>t_version := t_version a + word_of_nat (length (test_EmitEvents c now a))\<rparr>"
proof -
  let ?ba = "fold (tb_emit now) (tb_command_events c) (test_NewBuilder (tc_id c) (t_version a), a)"
  have "tb_replays a ?ba" by (rule fold_emit_replays [OF _ subset_refl]) (simp add: tb_replays_def)
  moreover have "tb_version (fst ?ba) = t_version a + word_of_nat (length (tb_events (fst ?ba)))"
    using test_EmitEvents_ok [of c a now] by (simp add: tb_ok_def)
  ultimately show ?thesis by (simp add: tb_replays_def test_step_def test_EmitEvents_def)
qed

lemma test_step_fields:
  "t_version (test_step c now a) = t_version a + word_of_nat (length (test_EmitEvents c now a))"
  "t_id (test_step c now a) = tc_id c" "t_modify_by (test_step c now a) = tc_actor c"
  "t_state (test_step c now a) = (case c of Lock _ _ \<Rightarrow> STATE_LOCKED | Update _ _ _ \<Rightarrow> t_state a | _ \<Rightarrow> STATE_UNLOCKED)"
  "t_create_by (test_step c now a) = (case c of Create _ actor _ \<Rightarrow> actor | _ \<Rightarrow> t_create_by a)"
  "t_create_at (test_step c now a) = (case c of Create _ _ _ \<Rightarrow> now 0 | _ \<Rightarrow> t_create_at a)"
  "t_body (test_step c now a) = (case c of Create _ _ f \<Rightarrow> tf_body f | Update _ _ f \<Rightarrow> tf_body f | _ \<Rightarrow> t_body a)"
  "t_color (test_step c now a) = (case c of Create _ _ f \<Rightarrow> tf_color f | Update _ _ f \<Rightarrow> tf_color f | _ \<Rightarrow> t_color a)"
  "t_shape (test_step c now a) = (case c of Create _ _ f \<Rightarrow> tf_shape f | Update _ _ f \<Rightarrow> tf_shape f | _ \<Rightarrow> t_shape a)"
  "t_number (test_step c now a) = (case c of Create _ _ f \<Rightarrow> tf_number f | Update _ _ f \<Rightarrow> tf_number f | _ \<Rightarrow> t_number a)"
  "t_shading (test_step c now a) = (case c of Create _ _ f \<Rightarrow> tf_shading f | Update _ _ f \<Rightarrow> tf_shading f | _ \<Rightarrow> t_shading a)"
  by (cases c; simp add: test_step_fold [THEN conjunct2] tb_command_events_def tb_emit_def tb_Snapshot_def test_On_simps)+

lemma test_state_append:
  assumes "\<forall>e \<in> set es. test_known e"
  shows "stream_state test_aggregate (es @ test_EmitEvents c now (stream_state test_aggregate es))
           = test_step c now (stream_state test_aggregate es)"
proof -
  have state: "stream_state test_aggregate xs = fst (on_all test_aggregate empty_test xs)" for xs
    by (simp add: stream_state_def)
  obtain a where a: "on_all test_aggregate empty_test es = (a, None)"
    using tst.on_all_known [OF assms, of empty_test] by auto
  with test_step_fold [of a c now] show ?thesis by (simp add: state on_all_append)
qed

lemma test_EmitEvents_length: "length (test_EmitEvents c now a) \<le> 4"
  by (cases c) (simp_all add: test_EmitEvents_def tb_command_events_def tb_emit_def tb_Snapshot_def Let_def)

lemma test_abs_apply:
  assumes "abs_apply test_aggregate test_events (test_commands validate) now es c = (news, out)"
  shows "(\<exists>e. news = [] \<and> out = Inl e)
    \<or> (news = test_EmitEvents c now (stream_state test_aggregate es) \<and> (\<exists>v. out = Inr v))"
  using assms by (auto simp: abs_apply_def Let_def split: option.splits)

text \<open>A command is accepted on a new or an existing aggregate, and in the one state it is for.\<close>

definition test_accepts :: "(test_command \<Rightarrow> goerr option) \<Rightarrow> test_command \<Rightarrow> test \<Rightarrow> bool" where
  "test_accepts validate c a \<longleftrightarrow>
     validate c = None \<and> (t_version a = 0 \<longleftrightarrow> is_Create c)
     \<and> (case test_allowed_state c of None \<Rightarrow> True | Some st \<Rightarrow> t_state a = st)"

lemma test_abs_accepts:
  assumes "abs_apply test_aggregate test_events (test_commands validate) now es c = (news, Inr v)"
  shows "test_accepts validate c (stream_state test_aggregate es)"
  using assms by (cases c) (auto simp: abs_apply_def Let_def check_command_def test_commands_def test_accepts_def
      test_ValidateVersion_def test_ProtoValidate_def test_GuardState_def split: option.splits if_splits)

lemma test_EmitEvents_count:
  assumes "\<not> is_Create c" "t_version a = word_of_nat n" "Suc n < 2 ^ 63"
  shows "length (test_EmitEvents c now a) = (if 3 dvd Suc n then 2 else 1)"
  using assms(1,2) int64_rem_3 [OF assms(3)]
  by (cases c) (simp_all add: test_EmitEvents_def tb_command_events_def tb_emit_def tb_Snapshot_def Let_def add.commute)

lemma test_state_id:
  assumes "\<forall>e \<in> set es. test_known e \<and> te_id e = i" "es \<noteq> []"
  shows "t_id (stream_state test_aggregate es) = i"
proof -
  obtain fs e where es: "es = fs @ [e]" using assms(2) by (meson rev_exhaust)
  obtain b where b: "on_all test_aggregate empty_test fs = (b, None)"
    using tst.on_all_known [of fs empty_test] assms(1) es by auto
  obtain b' where "test_On b e = (b', None)"
    using test_On_ok [of b e] assms(1) es by (cases "test_On b e") auto
  with b test_On_header [of b e] assms(1) es show ?thesis
    by (simp add: stream_state_def on_all_append)
qed

end
