(* ===== verification/TestCli.thy ===== *)
theory TestCli
  imports TestContract BoltStore Serializers GoPrelude
begin

text \<open>
  cmd/testcli/main.go: the command line tool that runs the commands of the test aggregate on a
  repository over the Bolt store. The arguments come without the program name; the state is that
  of the database files. The user, the host, the clock, the formatting of times and package
  text/tabwriter are parameters, as are bbolt, protobuf and gzip.
\<close>

section \<open>The environment\<close>

text \<open>
  \<open>tv_clock i\<close> is the clock when the \<open>i\<close>-th command of a run is applied, \<open>tv_time\<close> formats microseconds
  by RFC 3339, and \<open>tv_tabs\<close> is what a \<open>tabwriter\<close> makes of the text it was given.
\<close>

record ('d, 'n, 'p) test_env =
  tv_user :: "goerr + string"
  tv_Hostname :: "goerr + string"
  tv_mkdir :: "goerr option"
  tv_bolt :: "'d bolt_ops"
  tv_close :: "uint32 option \<Rightarrow> goerr option"
  tv_order :: "(uint32 \<Rightarrow> bool) \<Rightarrow> uint32 list"
  tv_any :: "(test_event, 'n, 'p) any_lib"
  tv_gzip :: gzip
  tv_validate :: "test_command \<Rightarrow> goerr option"
  tv_clock :: "nat \<Rightarrow> clock"
  tv_time :: "int64 \<Rightarrow> string"
  tv_tabs :: "string \<Rightarrow> string"

definition testcli_usage :: string where
  "testcli_usage =
     ''Usage: testcli <command> [args]'' @ line_end @ line_end @
     ''Commands:'' @ line_end @
     ''  create  <id> <body>   Create a new test aggregate'' @ line_end @
     ''  update  <id> <body>   Update an existing aggregate'' @ line_end @
     ''  lock    <id>          Lock the aggregate'' @ line_end @
     ''  unlock  <id>          Unlock the aggregate'' @ line_end @
     ''  load    <id>          Load and display the aggregate'' @ line_end @
     ''  history <id>          Show event history'' @ line_end @ line_end @
     ''Actor is derived automatically from the current user and hostname.''"

definition testcli_detectActor :: "('d, 'n, 'p) test_env \<Rightarrow> string" where
  "testcli_detectActor env =
     (case tv_user env of Inl e \<Rightarrow> ''unknown'' | Inr u \<Rightarrow> u) @ ''@''
     @ (case tv_Hostname env of Inl e \<Rightarrow> ''unknown'' | Inr h \<Rightarrow> h)"

definition testcli_fatal :: "string \<Rightarrow> ended" where
  "testcli_fatal msg = (1, [(Stderr, msg @ line_end)])"

section \<open>Printing\<close>

definition formatMicros :: "('d, 'n, 'p) test_env \<Rightarrow> int64 \<Rightarrow> string" where
  "formatMicros env us = (if us = 0 then ''(none)'' else tv_time env us)"

definition printAggregate :: "('d, 'n, 'p) test_env \<Rightarrow> test \<Rightarrow> string" where
  "printAggregate env t =
     ''ID:        '' @ t_id t @ line_end @
     ''Version:   '' @ dec_int64 (t_version t) @ line_end @
     ''State:     '' @ test_state_String (t_state t) @ line_end @
     ''Body:      '' @ t_body t @ line_end @
     ''CreatedAt: '' @ formatMicros env (t_create_at t) @ line_end @
     ''CreatedBy: '' @ t_create_by t @ line_end @
     ''ModifyAt:  '' @ formatMicros env (t_modify_at t) @ line_end @
     ''ModifyBy:  '' @ t_modify_by t @ line_end"

abbreviation tab :: string where
  "tab \<equiv> [CHR 0x09]"

text \<open>The row of one record of the history.\<close>

definition history_row ::
    "('d, 'n, 'p) test_env \<Rightarrow> ('s, 'a, test_event, 'c, 'm) repository \<Rightarrow> pb_record \<Rightarrow> string" where
  "history_row env r rec =
     (case sz_unmarshal_event (rp_serializer r) rec of
        Inl e \<Rightarrow> dec_int64 (rec_version rec) @ tab @ ''(error)'' @ tab @ tab @ tab
          @ dec_nat (length (rec_data rec)) @ line_end
      | Inr event \<Rightarrow> dec_int64 (te_version event) @ tab @ test_EventName event @ tab @ te_actor event @ tab
          @ formatMicros env (te_at event) @ tab @ dec_nat (length (rec_data rec)) @ line_end)"

definition history_table ::
    "('d, 'n, 'p) test_env \<Rightarrow> ('s, 'a, test_event, 'c, 'm) repository \<Rightarrow> history \<Rightarrow> string" where
  "history_table env r recs =
     ''VERSION'' @ tab @ ''EVENT'' @ tab @ ''ACTOR'' @ tab @ ''AT'' @ tab @ ''BYTES'' @ line_end @
     ''-------'' @ tab @ ''-----'' @ tab @ ''-----'' @ tab @ ''--'' @ tab @ ''-----'' @ line_end @
     concat (map (history_row env r) recs)"

section \<open>Running commands\<close>

text \<open>The code 0 means that the program goes on.\<close>

definition applyAndPrint ::
    "('d, 'n, 'p) test_env \<Rightarrow> ('s, test, test_event, test_command, test) repository \<Rightarrow> clock \<Rightarrow>
     test_command \<Rightarrow> 's \<Rightarrow> 's \<times> ended" where
  "applyAndPrint env r clk cmd s =
     (case repo_apply r background clk s (Some cmd) of
        (s1, ws, Inl e) \<Rightarrow> (s1, testcli_fatal (''error: '' @ err_text e))
      | (s1, ws, Inr version) \<Rightarrow> (case repo_load r background s1 (tc_id cmd) of
          (s2, Inl e) \<Rightarrow> (s2, testcli_fatal (''error loading after apply: '' @ err_text e))
        | (s2, Inr agg) \<Rightarrow> (s2, 0, [(Stdout, printAggregate env agg)])))"

text \<open>Commands one after the other, until one of them ends the program.\<close>

fun apply_each ::
    "('d, 'n, 'p) test_env \<Rightarrow> ('s, test, test_event, test_command, test) repository \<Rightarrow> nat \<Rightarrow>
     test_command list \<Rightarrow> 's \<Rightarrow> 's \<times> ended" where
  "apply_each env r i [] s = (s, 0, [])"
| "apply_each env r i (cmd # cmds) s =
     (case applyAndPrint env r (tv_clock env i) cmd s of
        (s1, code, p) \<Rightarrow>
          if code \<noteq> 0 then (s1, code, p)
          else (case apply_each env r (Suc i) cmds s1 of (s2, code2, q) \<Rightarrow> (s2, code2, p @ q)))"

definition flip_commands :: "string \<Rightarrow> string \<Rightarrow> test_command list" where
  "flip_commands actor i = concat (replicate 100 [Lock i actor, Unlock i actor])"

definition body_only :: "string \<Rightarrow> test_fields" where
  "body_only body = \<lparr>tf_body = body, tf_color = [], tf_shape = [], tf_number = [], tf_shading = []\<rparr>"

text \<open>\<open>len(os.Args) != n\<close> counts the program name.\<close>

definition testcli_args ::
    "nat \<Rightarrow> string \<Rightarrow> string list \<Rightarrow> ('s \<Rightarrow> 's \<times> ended) \<Rightarrow> 's \<Rightarrow> 's \<times> ended" where
  "testcli_args n usage args k s =
     (if Suc (length args) \<noteq> n then (s, testcli_fatal (''usage: testcli '' @ usage)) else k s)"

definition testcli_switch ::
    "('d, 'n, 'p) test_env \<Rightarrow> ('s, test, test_event, test_command, test) repository \<Rightarrow> string \<Rightarrow>
     string list \<Rightarrow> 's \<Rightarrow> 's \<times> ended" where
  "testcli_switch env r actor args =
     (let subcmd = args ! 0; arg = (\<lambda>i. args ! (i - 1)) in
      if subcmd = ''create'' then
        testcli_args 4 ''create <id> <body>'' args (apply_each env r 0 [Create (arg 2) actor (body_only (arg 3))])
      else if subcmd = ''update'' then
        testcli_args 4 ''update <id> <body>'' args (apply_each env r 0 [Update (arg 2) actor (body_only (arg 3))])
      else if subcmd = ''flip'' then
        testcli_args 3 ''flip <id>'' args (apply_each env r 0 (flip_commands actor (arg 2)))
      else if subcmd = ''lock'' then
        testcli_args 3 ''lock <id>'' args (apply_each env r 0 [Lock (arg 2) actor])
      else if subcmd = ''unlock'' then
        testcli_args 3 ''unlock <id>'' args (apply_each env r 0 [Unlock (arg 2) actor])
      else if subcmd = ''load'' then
        testcli_args 3 ''load <id>'' args (\<lambda>s. case repo_load r background s (arg 2) of
            (s1, Inl e) \<Rightarrow> (s1, testcli_fatal (''error: '' @ err_text e))
          | (s1, Inr agg) \<Rightarrow> (s1, 0, [(Stdout, printAggregate env agg)]))
      else if subcmd = ''history'' then
        testcli_args 3 ''history <id>'' args (\<lambda>s. case repo_history r background s (arg 2) of
            (s1, Inl e) \<Rightarrow> (s1, testcli_fatal (''error: '' @ err_text e))
          | (s1, Inr recs) \<Rightarrow>
              (s1, 0, [(Stdout, ''History: '' @ dec_nat (length recs) @ '' record(s)'' @ line_end @ line_end),
                       (Stdout, tv_tabs env (history_table env r recs))]))
      else (\<lambda>s. (s, testcli_fatal (''unknown command: '' @ subcmd @ line_end @ line_end @ testcli_usage))))"

section \<open>The program\<close>

text \<open>The files behind a store that is open or closed.\<close>

definition left_files :: "'d bolt_store + 'd \<times> (uint32 \<Rightarrow> 'd) \<Rightarrow> 'd \<times> (uint32 \<Rightarrow> 'd)" where
  "left_files st = (case st of Inl s \<Rightarrow> (bs_index s, bs_files s) | Inr files \<Rightarrow> files)"

text \<open>
  \<open>main\<close>. The store is closed when \<open>main\<close> returns; \<open>os.Exit\<close> does not run deferred calls. A panic of
  \<open>NewRepository\<close> would end the program with the code 2.
\<close>

definition testcli_main ::
    "('d, 'n, 'p) test_env \<Rightarrow> string list \<Rightarrow> 'd \<times> (uint32 \<Rightarrow> 'd) \<Rightarrow> ('d \<times> (uint32 \<Rightarrow> 'd)) \<times> ended" where
  "testcli_main env args disk =
     (if args = [] then (disk, testcli_fatal testcli_usage)
      else (case bolt_New (tv_bolt env) (tv_mkdir env) [] (fst disk) (snd disk) of
          Inl e \<Rightarrow> (disk, testcli_fatal (''error opening store: '' @ err_text e))
        | Inr s \<Rightarrow>
            (case test_NewRepository (Some (bolt_store_ops (tv_bolt env)))
                    (Some (protobinary_NewSerializer (tv_any env) test_events)) (tv_validate env) (tv_gzip env) [] of
               Inl msg \<Rightarrow> (left_files (Inl s), 2, [(Stderr, ''panic: '' @ msg)])
             | Inr r \<Rightarrow>
                 (case testcli_switch env r (testcli_detectActor env) args s of
                    (s', code, p) \<Rightarrow>
                      (left_files (if code = 0 then fst (bolt_Close (tv_close env) (tv_order env) (Inl s')) else Inl s'),
                       code, p)))))"

end
