(* ===== verification/TestCliProperties.thy ===== *)
theory TestCliProperties
  imports BoltProperties SerializerProperties TestCli
begin

text \<open>
  The properties of testcli: a run does to the stored streams what its commands do on the abstract
  event log, as far as it got, and prints what is stored. It is the repository over the Bolt store
  with tail loading, with the protobuf serializer, for an aggregate with snapshots.
\<close>

section \<open>The repository of testcli\<close>

definition test_repo :: "('d, 'n, 'p) test_env \<Rightarrow> ('d bolt_store, test, test_event, test_command, test) repository" where
  "test_repo env =
     \<lparr>rp_aggregate = test_aggregate, rp_events = test_events, rp_commands = test_commands (tv_validate env),
      rp_store = bolt_store_ops (tv_bolt env), rp_serializer = protobinary_NewSerializer (tv_any env) test_events,
      rp_gzip = tv_gzip env, rp_compress_threshold = DefaultCompressThreshold, rp_logs = False,
      rp_key_prefix = ''example_app_test_v1#''\<rparr>"

lemma test_repo_New:
  "test_NewRepository (Some (bolt_store_ops (tv_bolt env))) (Some (protobinary_NewSerializer (tv_any env) test_events))
     (tv_validate env) (tv_gzip env) [] = Inr (test_repo env)"
  by (simp add: test_NewRepository_def new_repository_def test_repo_def key_prefix_def replace_char_def
      test_aggregate_def DefaultCompressThreshold_def)

lemma test_repo_simps [simp]:
  "rp_aggregate (test_repo env) = test_aggregate" "rp_events (test_repo env) = test_events"
  "rp_commands (test_repo env) = test_commands (tv_validate env)" "rp_store (test_repo env) = bolt_store_ops (tv_bolt env)"
  "rp_gzip (test_repo env) = tv_gzip env"
  by (simp_all add: test_repo_def)

text \<open>The libraries behave as documented, and the files can be opened and read.\<close>

definition testcli_env_ok :: "('d, 'n, 'p) test_env \<Rightarrow> bool" where
  "testcli_env_ok env \<longleftrightarrow>
     bolt_laws (tv_bolt env) \<and> (\<forall>f. bo_open (tv_bolt env) f = None) \<and> (\<forall>d. bo_view (tv_bolt env) d = None)
     \<and> any_laws (tv_any env) \<and> gzip_laws (tv_gzip env)"

lemma test_repo_ok: "testcli_env_ok env \<Longrightarrow> rp_ok (test_repo env)"
  using NewSerializer_laws [of "tv_any env\<lparr>ay_name := ''proto''\<rparr>" test_events]
  by (simp add: testcli_env_ok_def rp_ok_def test_repo_def any_laws_def protobinary_NewSerializer_def)

lemma test_repo_contract:
  "snapshot_contract (rp_aggregate (test_repo env)) (rp_events (test_repo env)) (rp_commands (test_repo env))
     test_known test_is_snapshot 3"
  by (simp add: tst.snapshot_contract_axioms)

text \<open>The streams that commands have written, in an open store and in the files of a closed one.\<close>

definition cli_store :: "('d, 'n, 'p) test_env \<Rightarrow> 'd bolt_store \<Rightarrow> (string \<Rightarrow> test_event list) \<Rightarrow> bool" where
  "cli_store env s streams \<longleftrightarrow>
     bolt_inv (tv_bolt env) s \<and> holds_streams (test_repo env) (bolt_log (tv_bolt env) s) streams
     \<and> (\<forall>i. command_stream (test_repo env) i (streams i))"

definition closed_store :: "'d \<times> (uint32 \<Rightarrow> 'd) \<Rightarrow> 'd bolt_store" where
  "closed_store disk = \<lparr>bs_maxPerShard = 0, bs_index = fst disk, bs_files = snd disk, bs_shards = (\<lambda>_. False)\<rparr>"

definition cli_disk :: "('d, 'n, 'p) test_env \<Rightarrow> 'd \<times> (uint32 \<Rightarrow> 'd) \<Rightarrow> (string \<Rightarrow> test_event list) \<Rightarrow> bool" where
  "cli_disk env disk streams \<longleftrightarrow>
     bolt_disk_ok (tv_bolt env) (fst disk) (snd disk)
     \<and> holds_streams (test_repo env) (bolt_log (tv_bolt env) (closed_store disk)) streams
     \<and> (\<forall>i. command_stream (test_repo env) i (streams i))"

lemma cli_store_opened:
  assumes "testcli_env_ok env" "cli_disk env disk streams"
    and "bolt_New (tv_bolt env) mkdir opts (fst disk) (snd disk) = Inr s"
  shows "cli_store env s streams"
  using bolt_New_inv [OF _ _ assms(3)] assms(1,2)
  by (simp add: cli_store_def cli_disk_def closed_store_def testcli_env_ok_def)

lemma cli_disk_left:
  assumes "cli_store env s streams"
  shows "cli_disk env (bs_index s, bs_files s) streams"
proof -
  have "bolt_log (tv_bolt env) (closed_store (bs_index s, bs_files s)) = bolt_log (tv_bolt env) s"
    by (rule bolt_inv_cong) (simp_all add: closed_store_def)
  with assms show ?thesis by (auto simp: cli_store_def cli_disk_def bolt_disk_ok_def)
qed

lemma left_files_simps [simp]:
  "left_files (Inl s) = (bs_index s, bs_files s)"
  "left_files (fst (bolt_Close close order (Inl s))) = (bs_index s, bs_files s)"
  by (simp_all add: left_files_def)

section \<open>Reading\<close>

lemma test_repo_agg:
  "aggregate_contract (rp_aggregate (test_repo env)) (rp_events (test_repo env)) (rp_commands (test_repo env)) test_known"
  by (rule snapshot_contract.axioms(1) [OF test_repo_contract])

lemma cli_streams_ok:
  assumes "cli_store env s streams"
  shows "streams_ok (test_repo env) test_known streams"
  using command_stream_ok [OF test_repo_agg] assms unfolding cli_store_def streams_ok_def by blast

lemma cli_tail_sound: "cli_store env s streams \<Longrightarrow> tail_sound (test_repo env) (streams i)"
  using command_stream_tail_sound [OF test_repo_contract] unfolding cli_store_def by blast

lemma bolt_load_with_total:
  assumes "testcli_env_ok env"
  shows "\<exists>s' h. bolt_load_with (tv_bolt env) what read None s k = (s', Inr h)"
  using assms by (auto simp: testcli_env_ok_def bolt_load_with_def bolt_lookupShard_def db_view_def bolt_openShard_def
      split: option.splits)

lemma cli_load_history:
  assumes "testcli_env_ok env"
  obtains s1 h where "load_history (test_repo env) background s i = (s1, Inr h)"
  using bolt_load_with_total [OF assms]
  by (fastforce simp: load_history_def Let_def bolt_store_ops_def bolt_LoadTail_def bolt_Load_def background_def
      split: option.splits)

lemma cli_event_log:
  "testcli_env_ok env \<Longrightarrow>
     event_log_store (rp_store (test_repo env)) (bolt_inv (tv_bolt env)) (bolt_log (tv_bolt env))"
  by (simp add: testcli_env_ok_def bolt_event_log_store)

lemma cli_load:
  assumes env: "testcli_env_ok env" and s: "cli_store env s streams"
  shows "\<exists>s'. cli_store env s' streams
    \<and> repo_load (test_repo env) background s i =
        (s', if streams i = []
             then Inl (errorf ''load aggregate version: ''
                        (errorf (''unable to load: '' @ i @ '': '') (Sentinel ErrAggregateNotFound)))
             else Inr (stream_state test_aggregate (streams i)))"
proof -
  obtain s1 h where load: "load_history (test_repo env) background s i = (s1, Inr h)"
    using cli_load_history [OF env] .
  have inv: "bolt_inv (tv_bolt env) s" "holds_streams (test_repo env) (bolt_log (tv_bolt env) s) streams"
    using s by (simp_all add: cli_store_def)
  have "\<forall>e \<in> set (streams i). test_known e" using cli_streams_ok [OF s] by (simp add: streams_ok_def)
  from load_aggregate_holds [OF cli_event_log [OF env] test_repo_agg inv this cli_tail_sound [OF s] load] s
  show ?thesis by (fastforce simp: cli_store_def repo_load_def)
qed

section \<open>Applying\<close>

text \<open>
  The errors with which a command can end: that of the abstract machine, or one with which storing
  its events fails on files that hold these streams.
\<close>

definition cli_fails ::
    "('d, 'n, 'p) test_env \<Rightarrow> clock \<Rightarrow> (string \<Rightarrow> test_event list) \<Rightarrow> string \<Rightarrow> test_event list \<Rightarrow>
     goerr + int64 \<Rightarrow> goerr \<Rightarrow> bool" where
  "cli_fails env clk streams i news out e \<longleftrightarrow>
     out = Inl e
     \<or> (\<exists>s. cli_store env s streams \<and> store_refusal (test_repo env) background clk i s news = Some e)"

lemma cli_apply:
  assumes env: "testcli_env_ok env" and s: "cli_store env s streams"
    and len: "length (streams (tc_id cmd)) + 4 < 2 ^ 63"
    and abs: "abs_command (test_repo env) clk streams (Some cmd) = (i, news, out)"
    and run: "repo_apply (test_repo env) background clk s (Some cmd) = (s', ws, res)"
  shows "(\<exists>v. out = Inr v \<and> res = Inr v \<and> news \<noteq> [] \<and> cli_store env s' (streams(i := streams i @ news)))
    \<or> (\<exists>e. res = Inl e \<and> cli_store env s' streams \<and> cli_fails env clk streams i news out e)"
proof (cases "tc_id cmd = []")
  case True
  with abs run s show ?thesis by (auto simp: abs_command_def Let_def repo_apply_def cli_fails_def)
next
  case False
  with abs have i: "i = tc_id cmd" and app: "abs_apply test_aggregate test_events (test_commands (tv_validate env))
      (clk_micros clk) (streams i) cmd = (news, out)"
    by (auto simp: abs_command_def Let_def)
  have n: "length news \<le> 4" using test_abs_apply [OF app] test_EmitEvents_length by auto
  with len i have len': "length (streams i @ news) < 2 ^ 63" by simp
  have inv: "bolt_inv (tv_bolt env) s" "holds_streams (test_repo env) (bolt_log (tv_bolt env) s) streams"
    "command_stream (test_repo env) i (streams i)" for i
    using s by (simp_all add: cli_store_def)
  obtain s1 h where load: "load_history (test_repo env) background s i = (s1, Inr h)"
    using cli_load_history [OF env] .
  have ctx: "ctx_err background AtEntry = None" by (simp add: background_def)
  define s2 where "s2 = fst (load_aggregate_version (test_repo env) background s i)"
  define refusal where "refusal = store_refusal (test_repo env) background clk i s2 news"
  have "\<forall>e \<in> set (streams i). test_known e" using cli_streams_ok [OF s] by (simp add: streams_ok_def)
  from load_aggregate_holds [OF cli_event_log [OF env] test_repo_agg inv(1,2) this cli_tail_sound [OF s] load]
  have "cli_store env s2 streams" using s by (auto simp: s2_def cli_store_def)
  then have refused: "refusal = Some e \<Longrightarrow> cli_fails env clk streams i news out e" for e
    unfolding cli_fails_def refusal_def by blast
  have "bolt_inv (tv_bolt env) s'
      \<and> command_outcome (test_repo env) (bolt_log (tv_bolt env) s') streams i (news, out) refusal res"
    unfolding refusal_def s2_def
    by (rule apply_outcome [OF cli_event_log [OF env] test_repo_ok [OF env] test_repo_agg inv(1,2) cli_streams_ok [OF s]
          _ _ cli_tail_sound [OF s] ctx load _ len' run]) (use i False app in simp_all)
  then have inv': "bolt_inv (tv_bolt env) s'"
    and res: "(res = out \<and> holds_streams (test_repo env) (bolt_log (tv_bolt env) s') (streams(i := streams i @ news)))
      \<or> (\<exists>e. res = Inl e \<and> news \<noteq> [] \<and> cli_fails env clk streams i news out e
            \<and> holds_streams (test_repo env) (bolt_log (tv_bolt env) s') streams)"
    using n refused by (auto simp: command_outcome_def split: option.splits)
  have "command_stream (test_repo env) i (streams i @ news)"
    using extend_stream [OF inv(3), where command = cmd] app i len' by simp
  then have cs: "\<forall>j. command_stream (test_repo env) j ((streams(i := streams i @ news)) j)" using inv(3) by simp
  from test_abs_apply [OF app] show ?thesis
  proof (elim disjE exE conjE)
    fix e assume "news = []" "out = Inl e"
    with res inv' inv(3) show ?thesis by (auto simp: cli_store_def cli_fails_def)
  next
    fix v assume news: "news = test_EmitEvents cmd (clk_micros clk) (stream_state test_aggregate (streams i))" "out = Inr v"
    with res inv' cs inv(3) test_EmitEvents_not_Nil show ?thesis by (auto simp: cli_store_def)
  qed
qed

lemma cli_applyAndPrint:
  assumes env: "testcli_env_ok env" and s: "cli_store env s streams"
    and len: "length (streams (tc_id cmd)) + 4 < 2 ^ 63"
    and abs: "abs_command (test_repo env) clk streams (Some cmd) = (i, news, out)"
    and run: "applyAndPrint env (test_repo env) clk cmd s = (s', code, p)"
  shows "(\<exists>v. out = Inr v \<and> code = 0 \<and> cli_store env s' (streams(i := streams i @ news))
      \<and> p = [(Stdout, printAggregate env (stream_state test_aggregate (streams i @ news)))])
    \<or> (\<exists>e. (code, p) = testcli_fatal (''error: '' @ err_text e) \<and> cli_store env s' streams
        \<and> cli_fails env clk streams i news out e)"
proof -
  obtain s1 ws res where ap: "repo_apply (test_repo env) background clk s (Some cmd) = (s1, ws, res)" by (metis prod_cases3)
  have i: "i = tc_id cmd" using abs by (auto simp: abs_command_def Let_def split: if_splits)
  from cli_apply [OF env s len abs ap] show ?thesis
  proof (elim disjE exE conjE)
    fix v assume v: "out = Inr v" "res = Inr v" "news \<noteq> []" and s1: "cli_store env s1 (streams(i := streams i @ news))"
    from cli_load [OF env s1, of i] v(3) obtain s2 where "cli_store env s2 (streams(i := streams i @ news))"
      "repo_load (test_repo env) background s1 i = (s2, Inr (stream_state test_aggregate (streams i @ news)))" by auto
    with run ap v i show ?thesis by (auto simp: applyAndPrint_def)
  next
    fix e assume e: "res = Inl e" "cli_store env s1 streams" "cli_fails env clk streams i news out e"
    from run ap e(1) have "s' = s1" "(code, p) = testcli_fatal (''error: '' @ err_text e)"
      by (simp_all add: applyAndPrint_def)
    with e(2,3) show ?thesis by blast
  qed
qed

text \<open>
  What a list of commands does on the abstract event log: each is accepted, its events appended and
  the state after them printed; or the program ends with the code 1, because the command is
  rejected or the store refuses its events, with that error, and leaves the streams as they are.
\<close>

inductive cli_run ::
    "('d, 'n, 'p) test_env \<Rightarrow> nat \<Rightarrow> test_command list \<Rightarrow> (string \<Rightarrow> test_event list) \<Rightarrow>
     (string \<Rightarrow> test_event list) \<Rightarrow> ended \<Rightarrow> bool"
  for env :: "('d, 'n, 'p) test_env" where
  cli_done: "cli_run env k [] streams streams (0, [])"
| cli_stopped: "abs_command (test_repo env) (tv_clock env k) streams (Some cmd) = (i, news, out) \<Longrightarrow>
    cli_fails env (tv_clock env k) streams i news out e \<Longrightarrow>
    cli_run env k (cmd # cmds) streams streams (testcli_fatal (''error: '' @ err_text e))"
| cli_applied: "abs_command (test_repo env) (tv_clock env k) streams (Some cmd) = (i, news, Inr v) \<Longrightarrow>
    cli_run env (Suc k) cmds (streams(i := streams i @ news)) streams' (code, p) \<Longrightarrow>
    cli_run env k (cmd # cmds) streams streams'
      (code, (Stdout, printAggregate env (stream_state test_aggregate (streams i @ news))) # p)"

lemma cli_apply_each:
  assumes env: "testcli_env_ok env" and "cli_store env s streams"
    and "\<forall>cmd \<in> set cmds. length (streams (tc_id cmd)) + 4 * length cmds < 2 ^ 63"
    and "apply_each env (test_repo env) k cmds s = (s', ended)"
  shows "\<exists>streams'. cli_store env s' streams' \<and> cli_run env k cmds streams streams' ended"
  using assms(2-)
proof (induction cmds arbitrary: k s streams ended)
  case Nil
  then show ?case by (auto intro: cli_done)
next
  case (Cons cmd cmds)
  obtain s1 code p where ap: "applyAndPrint env (test_repo env) (tv_clock env k) cmd s = (s1, code, p)" by (metis prod_cases3)
  obtain i news out where abs: "abs_command (test_repo env) (tv_clock env k) streams (Some cmd) = (i, news, out)"
    by (metis prod_cases3)
  have len: "length (streams (tc_id cmd)) + 4 < 2 ^ 63" using Cons.prems(2) by auto
  from cli_applyAndPrint [OF env Cons.prems(1) len abs ap] show ?case
  proof (elim disjE exE conjE)
    fix v assume v: "out = Inr v" "code = 0" "cli_store env s1 (streams(i := streams i @ news))"
      "p = [(Stdout, printAggregate env (stream_state test_aggregate (streams i @ news)))]"
    obtain code2 q where rest: "apply_each env (test_repo env) (Suc k) cmds s1 = (s', code2, q)" "ended = (code2, p @ q)"
      using Cons.prems(3) ap v(2) by (auto split: prod.splits)
    have "length news \<le> 4"
      using abs test_abs_apply test_EmitEvents_length by (fastforce simp: abs_command_def Let_def split: if_splits)
    with Cons.prems(2) have "\<forall>c \<in> set cmds. length ((streams(i := streams i @ news)) (tc_id c)) + 4 * length cmds < 2 ^ 63"
      by fastforce
    from Cons.IH [OF v(3) this rest(1)] obtain streams' where
      "cli_store env s' streams'" "cli_run env (Suc k) cmds (streams(i := streams i @ news)) streams' (code2, q)" by blast
    with cli_applied [of env k streams cmd i news v] abs v rest(2) show ?thesis by auto
  next
    fix e assume e: "(code, p) = testcli_fatal (''error: '' @ err_text e)" "cli_store env s1 streams"
      "cli_fails env (tv_clock env k) streams i news out e"
    then have "code = 1" by (simp add: testcli_fatal_def)
    with Cons.prems(3) ap have "s' = s1" "ended = (code, p)" by auto
    with e cli_stopped [OF abs e(3)] show ?thesis by auto
  qed
qed

section \<open>Runs of the program\<close>

text \<open>The command lines that run commands.\<close>

definition testcli_commands :: "string \<Rightarrow> string list \<Rightarrow> test_command list option" where
  "testcli_commands actor args =
     (case args of
        [c, i] \<Rightarrow>
          if c = ''flip'' then Some (flip_commands actor i)
          else if c = ''lock'' then Some [Lock i actor]
          else if c = ''unlock'' then Some [Unlock i actor]
          else None
      | [c, i, body] \<Rightarrow>
          if c = ''create'' then Some [Create i actor (body_only body)]
          else if c = ''update'' then Some [Update i actor (body_only body)]
          else None
      | _ \<Rightarrow> None)"

text \<open>What any command line does to the streams and how it ends.\<close>

definition testcli_run ::
    "('d, 'n, 'p) test_env \<Rightarrow> string list \<Rightarrow> (string \<Rightarrow> test_event list) \<Rightarrow> (string \<Rightarrow> test_event list) \<Rightarrow>
     ended \<Rightarrow> bool" where
  "testcli_run env args streams streams' ended \<longleftrightarrow>
     (case testcli_commands (testcli_detectActor env) args of
        Some cmds \<Rightarrow> cli_run env 0 cmds streams streams' ended
      | None \<Rightarrow>
          streams' = streams
          \<and> (if length args = 2 \<and> args ! 0 = ''load'' then
               (if streams (args ! 1) = []
                then \<exists>e. ended = testcli_fatal (''error: '' @ err_text e) \<and> err_is e ErrAggregateNotFound
                else ended = (0, [(Stdout, printAggregate env (stream_state test_aggregate (streams (args ! 1))))]))
             else if length args = 2 \<and> args ! 0 = ''history'' \<and> args ! 1 \<noteq> [] then
               (\<exists>recs. map (sz_unmarshal_event (rp_serializer (test_repo env))) recs = map Inr (streams (args ! 1))
                  \<and> ended = (0, [(Stdout, ''History: '' @ dec_nat (length (streams (args ! 1))) @ '' record(s)'' @ line_end @ line_end),
                                 (Stdout, tv_tabs env (history_table env (test_repo env) recs))]))
             else (\<exists>msg. ended = testcli_fatal msg)))"

lemma testcli_switch_at:
  "testcli_switch env r actor (''create'' # args) =
     testcli_args 4 ''create <id> <body>'' (''create'' # args) (apply_each env r 0 [Create (args ! 0) actor (body_only (args ! 1))])"
  "testcli_switch env r actor (''update'' # args) =
     testcli_args 4 ''update <id> <body>'' (''update'' # args) (apply_each env r 0 [Update (args ! 0) actor (body_only (args ! 1))])"
  "testcli_switch env r actor (''flip'' # args) =
     testcli_args 3 ''flip <id>'' (''flip'' # args) (apply_each env r 0 (flip_commands actor (args ! 0)))"
  "testcli_switch env r actor (''lock'' # args) =
     testcli_args 3 ''lock <id>'' (''lock'' # args) (apply_each env r 0 [Lock (args ! 0) actor])"
  "testcli_switch env r actor (''unlock'' # args) =
     testcli_args 3 ''unlock <id>'' (''unlock'' # args) (apply_each env r 0 [Unlock (args ! 0) actor])"
  by (simp_all add: testcli_switch_def Let_def)

lemma testcli_switch_unknown:
  assumes "c \<noteq> ''create''" "c \<noteq> ''update''" "c \<noteq> ''flip''" "c \<noteq> ''lock''" "c \<noteq> ''unlock''"
    and "c \<noteq> ''load''" "c \<noteq> ''history''"
  shows "testcli_switch env r actor (c # args) s =
     (s, testcli_fatal (''unknown command: '' @ c @ line_end @ line_end @ testcli_usage))"
  by (simp only: testcli_switch_def Let_def nth_Cons_0 assms if_False)

lemma testcli_switch_reading:
  assumes "c = ''load'' \<or> c = ''history''" "length args \<noteq> 1"
  shows "\<exists>msg. testcli_switch env r actor (c # args) s = (s, testcli_fatal msg)"
  using assms(1)
proof
  assume "c = ''load''"
  with assms(2) show ?thesis by (auto simp: testcli_switch_def testcli_args_def)
next
  assume "c = ''history''"
  with assms(2) show ?thesis by (auto simp: testcli_switch_def testcli_args_def)
qed

lemma testcli_commands_None:
  assumes "testcli_commands actor (c # args) = None"
  shows "c = ''create'' \<or> c = ''update'' \<Longrightarrow> length args \<noteq> 2"
    and "c = ''flip'' \<or> c = ''lock'' \<or> c = ''unlock'' \<Longrightarrow> length args \<noteq> 1"
  using assms by (auto simp: testcli_commands_def length_Suc_conv numeral_2_eq_2)

text \<open>A command line that neither runs commands nor reads.\<close>

lemma testcli_switch_wrong:
  assumes "testcli_commands actor (c # args) = None" "c = ''load'' \<or> c = ''history'' \<longrightarrow> length args \<noteq> 1"
  shows "\<exists>msg. testcli_switch env r actor (c # args) s = (s, testcli_fatal msg)"
proof -
  note none = testcli_commands_None [OF assms(1)]
  consider "c = ''create''" | "c = ''update''" | "c = ''flip''" | "c = ''lock''" | "c = ''unlock''"
    | "c = ''load'' \<or> c = ''history''"
    | (unknown) "c \<noteq> ''create''" "c \<noteq> ''update''" "c \<noteq> ''flip''" "c \<noteq> ''lock''" "c \<noteq> ''unlock''"
        "c \<noteq> ''load''" "c \<noteq> ''history''"
    by argo
  then show ?thesis
  proof cases
    case 6
    with assms(2) testcli_switch_reading show ?thesis by meson
  next
    case unknown
    show ?thesis by (rule exI) (rule testcli_switch_unknown [OF unknown])
  qed (use none in \<open>auto simp: testcli_switch_at testcli_args_def\<close>)
qed

lemma testcli_switch_commands:
  assumes "testcli_commands actor args = Some cmds"
  shows "testcli_switch env r actor args = apply_each env r 0 cmds" "length cmds \<le> 200" "args \<noteq> []"
proof -
  consider (two) c i where "args = [c, i]" | (three) c i body where "args = [c, i, body]"
    using assms by (auto simp: testcli_commands_def split: list.splits)
  then have "testcli_switch env r actor args = apply_each env r 0 cmds \<and> length cmds \<le> 200 \<and> args \<noteq> []"
  proof cases
    case two
    with assms show ?thesis
      by (auto simp: testcli_commands_def testcli_switch_at testcli_args_def flip_commands_def length_concat sum_list_replicate
          fun_eq_iff split: if_splits)
  next
    case three
    with assms show ?thesis
      by (auto simp: testcli_commands_def testcli_switch_at testcli_args_def fun_eq_iff split: if_splits)
  qed
  then show "testcli_switch env r actor args = apply_each env r 0 cmds" "length cmds \<le> 200" "args \<noteq> []" by simp_all
qed

lemma cli_history:
  assumes env: "testcli_env_ok env" and s: "cli_store env s streams" and i: "i \<noteq> []"
  shows "\<exists>s' recs. repo_history (test_repo env) background s i = (s', Inr recs) \<and> cli_store env s' streams
    \<and> map (sz_unmarshal_event (rp_serializer (test_repo env))) recs = map Inr (streams i)"
proof -
  have inv: "bolt_inv (tv_bolt env) s" "holds_streams (test_repo env) (bolt_log (tv_bolt env) s) streams"
    using s by (simp_all add: cli_store_def)
  obtain s1 h where "bolt_load_with (tv_bolt env) ''load'' (\<lambda>aid tx. map bolt_record (bolt_bucket_items (tv_bolt env) aid tx))
      None s (qualified_id (test_repo env) i) = (s1, Inr h)"
    using bolt_load_with_total [OF env] by blast
  then have load: "st_load (rp_store (test_repo env)) (ctx_err background AtLoad) s (qualified_id (test_repo env) i) = (s1, Inr h)"
    by (simp add: bolt_store_ops_def bolt_Load_def background_def)
  obtain s' res where run: "repo_history (test_repo env) background s i = (s', res)" by fastforce
  from repo_history_holds [OF cli_event_log [OF env] inv i load run] run s show ?thesis
    by (auto simp: cli_store_def)
qed

lemma testcli_switch_reads:
  assumes env: "testcli_env_ok env" and s: "cli_store env s streams"
    and cmds: "testcli_commands (testcli_detectActor env) args = None" "args \<noteq> []"
    and run: "testcli_switch env (test_repo env) (testcli_detectActor env) args s = (s', ended)"
  shows "cli_store env s' streams \<and> testcli_run env args streams streams ended"
proof -
  let ?r = "test_repo env"
  obtain c rest where args: "args = c # rest" using cmds(2) by (cases args) auto
  consider (load) i where "c = ''load''" "rest = [i]" | (history) i where "c = ''history''" "rest = [i]"
    | (other) "c = ''load'' \<or> c = ''history'' \<longrightarrow> length rest \<noteq> 1"
    by (cases rest; cases "tl rest") auto
  then show ?thesis
  proof cases
    case load
    define e where "e = errorf ''load aggregate version: ''
        (errorf (''unable to load: '' @ i @ '': '') (Sentinel ErrAggregateNotFound))"
    have none: "testcli_commands (testcli_detectActor env) [''load'', i] = None" by (simp add: testcli_commands_def)
    have switch: "testcli_switch env ?r (testcli_detectActor env) args s = (case repo_load ?r background s i of
            (s1, Inl e) \<Rightarrow> (s1, testcli_fatal (''error: '' @ err_text e))
          | (s1, Inr agg) \<Rightarrow> (s1, 0, [(Stdout, printAggregate env agg)]))"
      by (simp add: args load testcli_switch_def testcli_args_def split: prod.splits sum.splits)
    from cli_load [OF env s, of i] obtain s2 where s2: "cli_store env s2 streams"
      "repo_load ?r background s i = (s2, if streams i = [] then Inl e else Inr (stream_state test_aggregate (streams i)))"
      unfolding e_def by blast
    have "err_is e ErrAggregateNotFound" by (simp add: e_def)
    then have "streams i = [] \<Longrightarrow> \<exists>e. ended = testcli_fatal (''error: '' @ err_text e) \<and> err_is e ErrAggregateNotFound"
      using run switch s2(2) by (intro exI [of _ e]) simp
    with run switch s2 show ?thesis
      by (auto simp: testcli_run_def args load none split: if_splits)
  next
    case history
    show ?thesis
    proof (cases "i = []")
      case True
      with run history s show ?thesis
        by (auto simp: testcli_run_def testcli_commands_def args testcli_switch_def testcli_args_def Let_def repo_history_def)
    next
      case False
      from cli_history [OF env s this] obtain s2 recs where h: "repo_history ?r background s i = (s2, Inr recs)"
        "cli_store env s2 streams" "map (sz_unmarshal_event (rp_serializer ?r)) recs = map Inr (streams i)" by blast
      then have "length recs = length (streams i)" by (metis length_map)
      with run history False h show ?thesis
        by (auto simp: testcli_run_def testcli_commands_def args testcli_switch_def testcli_args_def Let_def)
    qed
  next
    case other
    have "\<exists>msg. testcli_switch env ?r (testcli_detectActor env) args s = (s, testcli_fatal msg)"
      unfolding args using other cmds(1) by (intro testcli_switch_wrong) (simp_all add: args)
    then obtain msg where msg: "s' = s" "ended = testcli_fatal msg" using run by auto
    from other have no: "\<not> (length args = 2 \<and> args ! 0 = ''load'')" "\<not> (length args = 2 \<and> args ! 0 = ''history'' \<and> args ! 1 \<noteq> [])"
      by (auto simp: args)
    show ?thesis unfolding testcli_run_def cmds(1) option.case(1) if_not_P [OF no(1)] if_not_P [OF no(2)] using msg s by blast
  qed
qed

lemma testcli_main_run:
  assumes env: "testcli_env_ok env" and disk: "cli_disk env disk streams" and args: "args \<noteq> []"
    and len: "\<forall>i. length (streams i) + 800 < 2 ^ 63"
    and open_store: "bolt_New (tv_bolt env) (tv_mkdir env) [] (fst disk) (snd disk) = Inr s"
    and run: "testcli_main env args disk = (disk', ended)"
  shows "\<exists>streams'. cli_disk env disk' streams' \<and> testcli_run env args streams streams' ended"
proof -
  have s: "cli_store env s streams" by (rule cli_store_opened [OF env disk open_store])
  obtain s' code p where sw: "testcli_switch env (test_repo env) (testcli_detectActor env) args s = (s', code, p)"
    by (metis prod_cases3)
  have "disk' = (bs_index s', bs_files s')" "ended = (code, p)"
    using run args sw by (auto simp: testcli_main_def open_store test_repo_New left_files_def)
  moreover have "\<exists>streams'. cli_store env s' streams' \<and> testcli_run env args streams streams' (code, p)"
  proof (cases "testcli_commands (testcli_detectActor env) args")
    case None
    from testcli_switch_reads [OF env s None args sw] show ?thesis by blast
  next
    case (Some cmds)
    note switch = testcli_switch_commands [OF Some]
    have "\<forall>cmd \<in> set cmds. length (streams (tc_id cmd)) + 4 * length cmds < 2 ^ 63"
    proof
      fix cmd
      show "length (streams (tc_id cmd)) + 4 * length cmds < 2 ^ 63" using len [rule_format, of "tc_id cmd"] switch(2) by simp
    qed
    from cli_apply_each [OF env s this sw [unfolded switch(1)]] Some show ?thesis by (simp add: testcli_run_def)
  qed
  ultimately show ?thesis using cli_disk_left by blast
qed

section \<open>Flipping\<close>

text \<open>A command that is applied, on an aggregate that exists.\<close>

lemma cli_run_ok:
  assumes "cli_run env k (cmd # cmds) streams streams' (0, p)"
  obtains news v where "abs_command (test_repo env) (tv_clock env k) streams (Some cmd) = (tc_id cmd, news, Inr v)"
    "cli_run env (Suc k) cmds (streams(tc_id cmd := streams (tc_id cmd) @ news)) streams' (0, tl p)"
    "p = (Stdout, printAggregate env (stream_state test_aggregate (streams (tc_id cmd) @ news))) # tl p"
  using assms
proof (cases rule: cli_run.cases)
  case (cli_applied i news v p')
  then have "i = tc_id cmd" by (auto simp: abs_command_def Let_def split: if_splits)
  with cli_applied that show ?thesis by simp
qed (simp add: testcli_fatal_def)

text \<open>The state of a stream after a command that is accepted, and its length.\<close>

lemma test_command_effect:
  assumes "abs_command (test_repo env) clk streams (Some cmd) = (i, news, Inr v)" "tc_id cmd = i"
    and "streams i = es" "command_stream (test_repo env) i es" "length es + 4 < 2 ^ 63"
  shows "test_accepts (tv_validate env) cmd (stream_state test_aggregate es)"
    and "news = test_EmitEvents cmd (clk_micros clk) (stream_state test_aggregate es)"
    and "stream_state test_aggregate (es @ news) = test_step cmd (clk_micros clk) (stream_state test_aggregate es)"
    and "command_stream (test_repo env) i (es @ news)" "length news \<le> 4"
proof -
  from assms(1-3) have app: "abs_apply test_aggregate test_events (test_commands (tv_validate env)) (clk_micros clk)
      es cmd = (news, Inr v)"
    by (auto simp: abs_command_def Let_def split: if_splits)
  show "test_accepts (tv_validate env) cmd (stream_state test_aggregate es)" by (rule test_abs_accepts [OF app])
  show news: "news = test_EmitEvents cmd (clk_micros clk) (stream_state test_aggregate es)"
    using test_abs_apply [OF app] by simp
  show l: "length news \<le> 4" by (simp add: news test_EmitEvents_length)
  have "\<forall>e \<in> set es. test_known e" using command_stream_ok [OF test_repo_agg assms(4)] by blast
  from test_state_append [OF this] show "stream_state test_aggregate (es @ news)
      = test_step cmd (clk_micros clk) (stream_state test_aggregate es)"
    by (simp add: news)
  have "length (es @ news) < 2 ^ 63" using assms(5) l by simp
  with extend_stream [OF assms(4), where command = cmd] app assms(2)
  show "command_stream (test_repo env) i (es @ news)" by simp
qed

lemma cli_state:
  assumes "command_stream (test_repo env) i es"
  shows "t_version (stream_state test_aggregate es) = word_of_nat (length es)"
    and "es \<noteq> [] \<Longrightarrow> t_id (stream_state test_aggregate es) = i" and "es \<noteq> [] \<Longrightarrow> \<not> 3 dvd length es"
proof -
  note ok = command_stream_ok [OF test_repo_agg assms]
  then have known: "\<forall>e \<in> set es. test_known e" by simp
  show "t_version (stream_state test_aggregate es) = word_of_nat (length es)"
    using stream_state_version [OF test_repo_agg [of env] known] gapless_stream_version [OF conjunct1 [OF ok]] by simp
  show "es \<noteq> [] \<Longrightarrow> t_id (stream_state test_aggregate es) = i"
    using test_state_id [of es i] ok by simp
  show "es \<noteq> [] \<Longrightarrow> \<not> 3 dvd length es"
    using command_stream_snapshotted [OF test_repo_contract assms] by (simp add: snapshotted_def)
qed

text \<open>One round: it costs three events and changes the version and who modified last.\<close>

lemma cli_flip_once:
  assumes run: "cli_run env k (Lock i actor # Unlock i actor # cmds) streams streams' (0, p)"
    and cs: "command_stream (test_repo env) i (streams i)" and len: "length (streams i) + 8 < 2 ^ 63"
  defines "a \<equiv> stream_state test_aggregate (streams i)"
  obtains es q at where "cli_run env (Suc (Suc k)) cmds (streams(i := es)) streams' (0, q)"
    "command_stream (test_repo env) i es" "length es = length (streams i) + 3" "t_state a = STATE_UNLOCKED"
    "stream_state test_aggregate es = a\<lparr>t_version := word_of_nat (length (streams i) + 3), t_modify_at := at, t_modify_by := actor\<rparr>"
proof -
  let ?n = "length (streams i)"
  from run obtain news1 v1 where lock: "abs_command (test_repo env) (tv_clock env k) streams (Some (Lock i actor)) = (i, news1, Inr v1)"
    and run1: "cli_run env (Suc k) (Unlock i actor # cmds) (streams(i := streams i @ news1)) streams' (0, tl p)"
    by (rule cli_run_ok) simp
  let ?s1 = "streams(i := streams i @ news1)"
  from run1 obtain news2 v2 where unlock: "abs_command (test_repo env) (tv_clock env (Suc k)) ?s1 (Some (Unlock i actor)) = (i, news2, Inr v2)"
    and run2: "cli_run env (Suc (Suc k)) cmds (?s1(i := ?s1 i @ news2)) streams' (0, tl (tl p))"
    by (rule cli_run_ok) simp
  note e1 = test_command_effect [OF lock _ refl cs, simplified, folded a_def]
  have l1: "?n + 4 < 2 ^ 63" using len by simp
  note e1 = e1 [OF l1 [simplified]]
  have l2: "length (streams i @ news1) + 4 < 2 ^ 63" using len e1(5) by simp
  have s1: "?s1 i = streams i @ news1" by simp
  note e2 = test_command_effect [OF unlock _ s1 e1(4) l2, simplified]
  let ?a1 = "stream_state test_aggregate (streams i @ news1)"
  let ?es = "streams i @ news1 @ news2"
  have state: "t_state a = STATE_UNLOCKED" and old: "t_version a \<noteq> 0" using e1(1) by (simp_all add: test_accepts_def)
  have v: "t_version a = word_of_nat ?n" "t_version ?a1 = word_of_nat (length (streams i @ news1))"
    using cli_state(1) [OF cs] cli_state(1) [OF e1(4)] by (simp_all add: a_def)
  have ne: "streams i \<noteq> []" using old v(1) by auto
  have id: "t_id a = i" and n3: "\<not> 3 dvd ?n" using cli_state(2,3) [OF cs ne] by (simp_all add: a_def)
  have news1: "length news1 = (if 3 dvd Suc ?n then 2 else 1)"
    using test_EmitEvents_count [OF _ v(1), of "Lock i actor"] len by (simp add: e1(2))
  have news2: "length news2 = (if 3 dvd Suc (length (streams i @ news1)) then 2 else 1)"
    using test_EmitEvents_count [OF _ v(2), of "Unlock i actor"] l2 by (simp add: e2(2))
  have total: "length ?es = ?n + 3"
    using news1 news2 n3 by (auto split: if_splits) presburger+
  have a2: "stream_state test_aggregate ?es = test_step (Unlock i actor) (clk_micros (tv_clock env (Suc k)))
      (test_step (Lock i actor) (clk_micros (tv_clock env k)) a)"
    using e1(3) e2(3) by simp
  have v2: "t_version (stream_state test_aggregate ?es) = word_of_nat (?n + 3)"
    by (simp only: cli_state(1) [OF e2(4)] total)
  show ?thesis
  proof (rule that)
    show "cli_run env (Suc (Suc k)) cmds (streams(i := ?es)) streams' (0, tl (tl p))" using run2 by simp
    show "command_stream (test_repo env) i ?es" using e2(4) by simp
    show "stream_state test_aggregate ?es = a\<lparr>t_version := word_of_nat (?n + 3),
        t_modify_at := t_modify_at (stream_state test_aggregate ?es), t_modify_by := actor\<rparr>"
      by (rule test.equality) (use v2 in \<open>simp_all add: a2 test_step_fields id state\<close>)
  qed (rule total, rule state)
qed

text \<open>Any number of rounds.\<close>

lemma cli_flips:
  assumes "cli_run env k (concat (replicate m [Lock i actor, Unlock i actor])) streams streams' (0, p)"
    and "command_stream (test_repo env) i (streams i)" "length (streams i) + 8 * m < 2 ^ 63"
  shows "(\<forall>j. j \<noteq> i \<longrightarrow> streams' j = streams j) \<and> length (streams' i) = length (streams i) + 3 * m
    \<and> (0 < m \<longrightarrow> t_state (stream_state test_aggregate (streams i)) = STATE_UNLOCKED
        \<and> (\<exists>at. stream_state test_aggregate (streams' i) = (stream_state test_aggregate (streams i))
             \<lparr>t_version := word_of_nat (length (streams i) + 3 * m), t_modify_at := at, t_modify_by := actor\<rparr>))"
  using assms
proof (induction m arbitrary: k streams p)
  case 0
  then have "streams' = streams" by (auto elim: cli_run.cases)
  then show ?case by simp
next
  case (Suc m)
  have run: "cli_run env k (Lock i actor # Unlock i actor # concat (replicate m [Lock i actor, Unlock i actor])) streams streams' (0, p)"
    using Suc.prems(1) by simp
  have len: "length (streams i) + 8 < 2 ^ 63" using Suc.prems(3) by simp
  obtain es q at where es: "cli_run env (Suc (Suc k)) (concat (replicate m [Lock i actor, Unlock i actor])) (streams(i := es)) streams' (0, q)"
    "command_stream (test_repo env) i es" "length es = length (streams i) + 3"
    "t_state (stream_state test_aggregate (streams i)) = STATE_UNLOCKED"
    "stream_state test_aggregate es = (stream_state test_aggregate (streams i))
       \<lparr>t_version := word_of_nat (length (streams i) + 3), t_modify_at := at, t_modify_by := actor\<rparr>"
    using cli_flip_once [OF run Suc.prems(2) len] by blast
  have "length es + 8 * m < 2 ^ 63" using es(3) Suc.prems(3) by simp
  with Suc.IH [OF es(1)] es(2) have IH: "(\<forall>j. j \<noteq> i \<longrightarrow> streams' j = streams j) \<and> length (streams' i) = length es + 3 * m
    \<and> (0 < m \<longrightarrow> (\<exists>at. stream_state test_aggregate (streams' i) = (stream_state test_aggregate es)
             \<lparr>t_version := word_of_nat (length es + 3 * m), t_modify_at := at, t_modify_by := actor\<rparr>))"
    by auto
  show ?case
  proof (cases "m = 0")
    case True
    then have "streams' = streams(i := es)" using es(1) by (auto elim: cli_run.cases)
    with True es(3,4,5) show ?thesis by auto
  next
    case False
    with IH es(3,4,5) show ?thesis by (auto simp: algebra_simps)
  qed
qed

section \<open>Properties\<close>

text \<open>What a flip that ends well leaves: the aggregate is unlocked again, and 300 events later.\<close>

definition flipped :: "string \<Rightarrow> string \<Rightarrow> (string \<Rightarrow> test_event list) \<Rightarrow> (string \<Rightarrow> test_event list) \<Rightarrow> bool" where
  "flipped actor i streams streams' \<longleftrightarrow>
     (\<forall>j. j \<noteq> i \<longrightarrow> streams' j = streams j) \<and> length (streams' i) = length (streams i) + 300
     \<and> t_state (stream_state test_aggregate (streams i)) = STATE_UNLOCKED
     \<and> (\<exists>at. stream_state test_aggregate (streams' i) = (stream_state test_aggregate (streams i))
           \<lparr>t_version := word_of_nat (length (streams i) + 300), t_modify_at := at, t_modify_by := actor\<rparr>)"

lemma testcli_flipped:
  assumes "testcli_run env [''flip'', i] streams streams' (0, p)" "command_stream (test_repo env) i (streams i)"
    and "length (streams i) + 800 < 2 ^ 63"
  shows "flipped (testcli_detectActor env) i streams streams'"
proof -
  have "cli_run env 0 (concat (replicate 100 [Lock i (testcli_detectActor env), Unlock i (testcli_detectActor env)]))
      streams streams' (0, p)"
    using assms(1) by (simp add: testcli_run_def testcli_commands_def flip_commands_def)
  from cli_flips [OF this assms(2)] assms(3) show ?thesis by (simp add: flipped_def)
qed

text \<open>
  C10. A run of testcli, over the files of a Bolt store that the repository's commands have written,
  through tail loads, snapshots, compression and the protobuf serializer. When the store opens, the
  files are again such files, and the streams in them and what was printed are what the command
  line does on the abstract event log: create, update, lock, unlock and flip apply their commands
  one by one in the name of the detected actor and print the state after each; the first that is
  rejected, or that cannot be stored, ends the run with code 1 and its error, and what was applied
  before it stays; load prints the stored state or the not-found error, history all events; any other
  command line changes nothing and ends with code 1. A flip that ends with code 0 leaves the
  aggregate as it was but for its version, 300 higher, and who modified it last and when.
\<close>

theorem testcli_refines:
  assumes env: "testcli_env_ok env" and disk: "cli_disk env disk streams" and args: "args \<noteq> []"
    and len: "\<forall>i. length (streams i) + 800 < 2 ^ 63"
    and "bolt_New (tv_bolt env) (tv_mkdir env) [] (fst disk) (snd disk) = Inr s"
    and "testcli_main env args disk = (disk', ended)"
  shows "\<exists>streams'. cli_disk env disk' streams' \<and> testcli_run env args streams streams' ended
    \<and> (args = [''flip'', i] \<and> fst ended = 0 \<longrightarrow> flipped (testcli_detectActor env) i streams streams')"
proof -
  from testcli_main_run [OF assms] obtain streams' where s': "cli_disk env disk' streams'"
    "testcli_run env args streams streams' ended" by blast
  have cs: "command_stream (test_repo env) i (streams i)" using disk by (simp add: cli_disk_def)
  have l: "length (streams i) + 800 < 2 ^ 63" using len by blast
  have "flipped (testcli_detectActor env) i streams streams'" if "args = [''flip'', i]" "fst ended = 0"
    by (rule testcli_flipped [where env = env and i = i and streams = streams and p = "snd ended", OF _ cs l]) (use s'(2) that in \<open>cases ended, simp\<close>)
  with s' show ?thesis by blast
qed

text \<open>A creation, over a new directory.\<close>

definition ex_test_fields :: test_fields where
  "ex_test_fields = body_only ''tea''"

definition ex_test_any :: "(test_event, test_event, test_event) any_lib" where
  "ex_test_any =
     (let c = Created ''t1'' 1 1000 ''ann@host'' ex_test_fields; u = Unlocked ''t1'' 2 1001 ''ann@host'' in
      \<lparr>ay_name = [], ay_new = Inr,
       ay_marshal = (\<lambda>e. if e = c then Inr [10, 1] else if e = u then Inr [10, 2] else Inl (Foreign ''unknown message'')),
       ay_unmarshal = (\<lambda>b. if b = [10, 1] then Inr c else if b = [10, 2] then Inr u else Inl (Foreign ''cannot parse'')),
       ay_unmarshal_new = Inr, ay_as_event = Some, ay_type_name = test_event_type\<rparr>)"

lemma ex_test_any_laws: "any_laws ex_test_any"
  by (auto simp: any_laws_def ex_test_any_def Let_def IsGzipped_def split: if_splits)

definition ex_test_env :: "(plain_db, test_event, test_event) test_env" where
  "ex_test_env =
     \<lparr>tv_user = Inr ''ann'', tv_Hostname = Inr ''host'', tv_mkdir = None, tv_bolt = plain_bolt,
      tv_close = (\<lambda>_. None), tv_order = (\<lambda>_. []), tv_any = ex_test_any, tv_gzip = plain_gzip,
      tv_validate = (\<lambda>_. None), tv_clock = (\<lambda>_. ex_clock), tv_time = (\<lambda>us. dec_int64 us), tv_tabs = (\<lambda>t. t)\<rparr>"

lemma ex_test_env_ok: "testcli_env_ok ex_test_env"
  using plain_bolt_laws by (simp add: testcli_env_ok_def ex_test_env_def ex_test_any_laws)

definition ex_test_files :: "plain_db \<times> (uint32 \<Rightarrow> plain_db)" where
  "ex_test_files = ((\<lambda>_. None), (\<lambda>_. \<lambda>_. None))"

lemma ex_test_disk: "cli_disk ex_test_env ex_test_files (\<lambda>_. [])"
  by (simp add: cli_disk_def ex_test_files_def closed_store_def bolt_disk_ok_def ex_test_env_def holds_streams_def
      holds_events_def bolt_log_def bolt_shard_of_def empty_stream)

definition ex_test_create :: test_command where
  "ex_test_create = Create ''t1'' ''ann@host'' ex_test_fields"

lemma ex_test_bolt: "bolt_New (tv_bolt ex_test_env) (tv_mkdir ex_test_env) [] (fst ex_test_files) (snd ex_test_files) = Inr ex_bolt"
  using ex_bolt_New by (simp add: ex_test_env_def ex_test_files_def)

lemma ex_test_emits:
  "abs_apply test_aggregate test_events (test_commands (\<lambda>_. None)) (clk_micros ex_clock) [] ex_test_create
     = ([Created ''t1'' 1 1000 ''ann@host'' ex_test_fields, Unlocked ''t1'' 2 1001 ''ann@host''], Inr 2)"
  by (simp add: abs_apply_def stream_state_def check_command_def test_commands_def test_ValidateVersion_def test_ProtoValidate_def
      test_GuardState_def ex_test_create_def test_EmitEvents_def tb_command_events_def tb_emit_def tb_Snapshot_def
      ex_clock_def empty_test_def int64_rem_def smod_int_alt_def Let_def)

lemma ex_bolt_save_two: "\<exists>s'. bolt_Save plain_bolt None ex_bolt k [r1, r2] = (s', None)"
proof -
  have "\<exists>d n. bolt_assign_tx plain_bolt (bytes_of_string k) (bs_index ex_bolt) = Inr (d, n)"
    by (simp add: bolt_assign_tx_def ex_bolt_def Let_def split: if_split)
  then obtain d n where "bolt_assign_tx plain_bolt (bytes_of_string k) (bs_index ex_bolt) = Inr (d, n)"
    by blast
  moreover have "bs_files ex_bolt = (\<lambda>_ _. None)" by (simp add: ex_bolt_def)
  ultimately show ?thesis
    by (simp add: bolt_Save_def bolt_assignShard_def db_update_def bolt_openShard_def bolt_save_tx_def split: prod.splits)
qed

lemma ex_test_repo [simp]:
  "tv_bolt ex_test_env = plain_bolt" "tv_validate ex_test_env = (\<lambda>_. None)" "tv_gzip ex_test_env = plain_gzip"
  "tv_clock ex_test_env k = ex_clock" "testcli_detectActor ex_test_env = ''ann@host''"
  by (simp_all add: ex_test_env_def testcli_detectActor_def)

lemma ex_test_empty: "load_aggregate_version (test_repo ex_test_env) background ex_bolt ''t1''
    = (ex_bolt, Inl (errorf ''unable to load: t1: '' (Sentinel ErrAggregateNotFound)))"
  by (simp add: load_aggregate_version_def load_history_def bolt_store_ops_def background_def test_aggregate_def
      test_SnapshotEveryNEvents_def bolt_LoadTail_def bolt_load_with_def bolt_lookupShard_def db_view_def ex_bolt_def)

lemma ex_test_marshals: "\<exists>r1 r2. marshal_records (test_repo ex_test_env)
    [Created ''t1'' 1 1000 ''ann@host'' ex_test_fields, Unlocked ''t1'' 2 1001 ''ann@host''] = Inr [r1, r2]"
  by (simp add: marshal_record_def test_repo_def ex_test_env_def protobinary_NewSerializer_def NewSerializer_def
      serializer_MarshalEvent_def MarshalEvent_def ex_test_any_def Let_def MaybeCompress_def DefaultCompressThreshold_def)

lemma ex_test_applies:
  "\<exists>s'. repo_apply (test_repo ex_test_env) background ex_clock ex_bolt (Some ex_test_create) = (s', [], Inr 2)"
proof -
  let ?r = "test_repo ex_test_env"
  let ?es = "[Created ''t1'' 1 1000 ''ann@host'' ex_test_fields, Unlocked ''t1'' 2 1001 ''ann@host'']"
  obtain r1 r2 where m: "marshal_records ?r ?es = Inr [r1, r2]" using ex_test_marshals by blast
  have "\<exists>r1' r2'. stamp_ttl ?r ex_clock [r1, r2] = [r1', r2']"
    by (simp add: stamp_ttl_def split: option.splits)
  then obtain r1' r2' where t: "stamp_ttl ?r ex_clock [r1, r2] = [r1', r2']" by blast
  obtain s' where b: "bolt_Save plain_bolt None ex_bolt (qualified_id ?r ''t1'') [r1', r2'] = (s', None)"
    using ex_bolt_save_two by blast
  have save: "repo_save ?r background ex_clock ex_bolt ?es = (s', None)"
    by (simp add: repo_save_def m t b bolt_store_ops_def background_def del: marshal_records.simps)
  have mat: "materialize ?r background i s' a ?es = (s', [])" for i a
    by (simp add: materialize_def bolt_store_ops_def)
  have emit: "check_command (test_commands (\<lambda>_. None)) 0 ex_test_create empty_test = None"
    "test_EmitEvents ex_test_create (clk_micros ex_clock) empty_test = ?es"
    using ex_test_emits by (auto simp: abs_apply_def stream_state_def empty_test_def Let_def split: option.splits)
  have "repo_apply ?r background ex_clock ex_bolt (Some ex_test_create) = (s', [], Inr 2)"
    using ex_test_empty save mat emit
    by (simp add: repo_apply_def run_command_def persist_events_def Let_def empty_test_def background_def)
      (simp add: ex_test_create_def)
  then show ?thesis by blast
qed

definition ex_test_screen :: printed where
  "ex_test_screen =
     [(Stdout, ''ID:        t1'' @ line_end @ ''Version:   2'' @ line_end @ ''State:     STATE_UNLOCKED'' @ line_end
        @ ''Body:      tea'' @ line_end @ ''CreatedAt: 1000'' @ line_end @ ''CreatedBy: ann@host'' @ line_end
        @ ''ModifyAt:  1001'' @ line_end @ ''ModifyBy:  ann@host'' @ line_end)]"

lemma ex_test_digits: "dec_nat 2 = ''2''" "dec_nat 1000 = ''1000''" "dec_nat 1001 = ''1001''"
  by code_simp+

lemma ex_test_prints: "printAggregate ex_test_env (stream_state test_aggregate
      [Created ''t1'' 1 1000 ''ann@host'' ex_test_fields, Unlocked ''t1'' 2 1001 ''ann@host''])
    = snd (hd ex_test_screen)"
  by (simp add: ex_test_screen_def stream_state_def test_On_simps printAggregate_def formatMicros_def ex_test_env_def
      ex_test_fields_def body_only_def dec_int64_def dec_int_def ex_test_digits)

theorem testcli_refines_witness:
  "\<exists>disk' streams'. testcli_main ex_test_env [''create'', ''t1'', ''tea''] ex_test_files = (disk', 0, ex_test_screen)
     \<and> cli_disk ex_test_env disk' streams' \<and> testcli_run ex_test_env [''create'', ''t1'', ''tea''] (\<lambda>_. []) streams' (0, ex_test_screen)"
proof -
  let ?args = "[''create'', ''t1'', ''tea'']" and ?r = "test_repo ex_test_env"
  obtain disk' ended where run: "testcli_main ex_test_env ?args ex_test_files = (disk', ended)" by (rule prod.exhaust)
  have store: "cli_store ex_test_env ex_bolt (\<lambda>_. [])"
    by (rule cli_store_opened [OF ex_test_env_ok ex_test_disk ex_test_bolt])
  obtain s1 code p where ap: "applyAndPrint ex_test_env ?r ex_clock ex_test_create ex_bolt = (s1, code, p)" by (metis prod_cases3)
  have abs: "abs_command ?r ex_clock (\<lambda>_. []) (Some ex_test_create)
      = (''t1'', [Created ''t1'' 1 1000 ''ann@host'' ex_test_fields, Unlocked ''t1'' 2 1001 ''ann@host''], Inr 2)"
    using ex_test_emits by (simp add: abs_command_def Let_def) (simp add: ex_test_create_def)
  from cli_applyAndPrint [OF ex_test_env_ok store _ abs ap] ex_test_applies ap have "code = 0" "p = ex_test_screen"
    by (auto simp: applyAndPrint_def ex_test_prints testcli_fatal_def ex_test_screen_def split: prod.splits sum.splits)
  then have "ended = (0, ex_test_screen)"
    using run ap ex_test_bolt test_repo_New [of ex_test_env] by (simp add: testcli_main_def testcli_switch_at testcli_args_def
        ex_test_create_def ex_test_fields_def)
  moreover from testcli_refines [OF ex_test_env_ok ex_test_disk _ _ ex_test_bolt run]
  obtain streams' where "cli_disk ex_test_env disk' streams'" "testcli_run ex_test_env ?args (\<lambda>_. []) streams' ended"
    by auto
  ultimately show ?thesis using run by blast
qed

end
