(* ===== verification/Handlers.thy ===== *)
theory Handlers
  imports HttpClient Router OrderClient Repository Strconv
begin

text \<open>
  The HTTP handlers that the generator writes for the order aggregate
  (gen/example/app/order/v1/order_v1.protosource.lambda.pb.go). The repository is the interface
  \<open>Repo\<close>, whose methods act on the state \<open>'s\<close> that it shares with the client of the materialized
  rows; the protobuf and protojson codecs of the messages and the authorizer are parameters. The
  ten command handlers are the template \<open>handle_command\<close> at their command.
\<close>

section \<open>What a handler holds\<close>

record ('s, 'a, 'c) repo_iface =
  ri_apply :: "ctx \<Rightarrow> 's \<Rightarrow> 'c \<Rightarrow> 's \<times> (goerr + int64)"
  ri_load :: "ctx \<Rightarrow> 's \<Rightarrow> string \<Rightarrow> 's \<times> (goerr + 'a)"
  ri_history :: "ctx \<Rightarrow> 's \<Rightarrow> string \<Rightarrow> 's \<times> (goerr + history)"

text \<open>\<open>*protosource.Repository\<close> as a \<open>Repo\<close>; the warnings it logs do not reach the handler.\<close>

definition repository_iface ::
    "('s, 'a, 'e, 'c, 'm) repository \<Rightarrow> clock \<Rightarrow> ('s, 'a, 'c) repo_iface" where
  "repository_iface r clk =
     \<lparr>ri_apply = (\<lambda>c s cmd. case repo_apply r c clk s (Some cmd) of (s', ws, res) \<Rightarrow> (s', res)),
      ri_load = repo_load r, ri_history = repo_history r\<rparr>"

text \<open>\<open>responsev1.CommandResponse\<close>, and the codecs of the messages; a command's by its name.\<close>

record command_response =
  cr_id :: string
  cr_version :: int64

record order_codecs =
  cd_command :: "string \<Rightarrow> order_command codec"
  cd_response :: "command_response codec"
  cd_order :: "order codec"
  cd_list :: "order list codec"
  cd_history :: "history codec"
  cd_error :: "wire_error codec"

record 's order_handler =
  oh_repo :: "('s, order, order_command) repo_iface"
  oh_client :: "'s order_client"
  oh_authorizer :: authorizer
  oh_codecs :: order_codecs

text \<open>\<open>NewHandler\<close> panics (\<open>None\<close>) when the authorizer is nil.\<close>

definition NewHandler ::
    "order_codecs \<Rightarrow> ('s, order, order_command) repo_iface \<Rightarrow> 's order_client \<Rightarrow> authorizer option
     \<Rightarrow> 's order_handler option" where
  "NewHandler cds repo client auth =
     map_option (\<lambda>a. \<lparr>oh_repo = repo, oh_client = client, oh_authorizer = a, oh_codecs = cds\<rparr>) auth"

section \<open>Content negotiation\<close>

definition header_or :: "request \<Rightarrow> string \<Rightarrow> string \<Rightarrow> string" where
  "header_or rq name other =
     (let v = get_or_empty (rq_headers rq) name
      in if v = [] then get_or_empty (rq_headers rq) other else v)"

definition protobuf_wins :: "string \<Rightarrow> bool" where
  "protobuf_wins v =
     (if contains_str v ''application/protobuf'' then True
      else if contains_str v ''application/json'' then False else True)"

definition acceptsProtobuf :: "request \<Rightarrow> bool" where
  "acceptsProtobuf rq = protobuf_wins (header_or rq ''Accept'' ''accept'')"

definition isProtobufContent :: "request \<Rightarrow> bool" where
  "isProtobufContent rq = protobuf_wins (header_or rq ''Content-Type'' ''content-type'')"

definition unmarshalCommand :: "request \<Rightarrow> 'q codec \<Rightarrow> goerr + 'q" where
  "unmarshalCommand rq cd =
     (if isProtobufContent rq then co_from_proto cd (bytes_of_string (rq_body rq))
      else co_from_json cd (bytes_of_string (rq_body rq)))"

definition marshalResponse :: "request \<Rightarrow> 'q codec \<Rightarrow> 'q \<Rightarrow> goerr + bytes \<times> string" where
  "marshalResponse rq cd m =
     (if acceptsProtobuf rq
      then (case co_proto cd m of Inl e \<Rightarrow> Inl e | Inr b \<Rightarrow> Inr (b, ''application/protobuf''))
      else (case co_json cd m of Inl e \<Rightarrow> Inl e | Inr b \<Rightarrow> Inr (b, ''application/json'')))"

section \<open>Responses\<close>

definition content_response :: "int \<Rightarrow> string \<Rightarrow> string \<Rightarrow> 'k response" where
  "content_response status body contentType =
     \<lparr>rs_status = status, rs_body = body, rs_headers = [''Content-Type'' \<mapsto> contentType], rs_cookies = []\<rparr>"

definition errorResponse ::
    "wire_error codec \<Rightarrow> request \<Rightarrow> int \<Rightarrow> string \<Rightarrow> string \<Rightarrow> goerr option \<Rightarrow> 'k response" where
  "errorResponse cd rq status code message cause =
     (let apiErr = \<lparr>we_code = code, we_message = message,
                    we_detail = (case cause of None \<Rightarrow> [] | Some e \<Rightarrow> err_text e)\<rparr>
      in case marshalResponse rq cd apiErr of
           Inl e \<Rightarrow> content_response status (code @ '': '' @ message) ''text/plain; charset=utf-8''
         | Inr (body, ct) \<Rightarrow> content_response status (string_of_bytes body) ct)"

text \<open>What every handler does with the message it answers with: 200, or 500 and the code given.\<close>

definition respond ::
    "wire_error codec \<Rightarrow> request \<Rightarrow> 'q codec \<Rightarrow> string \<Rightarrow> string \<Rightarrow> 'q \<Rightarrow> 'k response" where
  "respond ecd rq cd code message m =
     (case marshalResponse rq cd m of
        Inl e \<Rightarrow> errorResponse ecd rq 500 code message (Some e)
      | Inr (body, ct) \<Rightarrow> content_response 200 (string_of_bytes body) ct)"

definition authzErrorResponse :: "wire_error codec \<Rightarrow> request \<Rightarrow> goerr \<Rightarrow> 'k response" where
  "authzErrorResponse cd rq e =
     (if err_is e ErrUnauthenticated
      then errorResponse cd rq 401 ''AUTHZ_UNAUTHENTICATED'' ''unauthenticated'' None
      else if err_is e ErrForbidden
      then errorResponse cd rq 403 ''AUTHZ_FORBIDDEN'' ''forbidden'' None
      else errorResponse cd rq 503 ''AUTHZ_UNAVAILABLE'' ''authorization service unavailable'' None)"

definition commandErrorResponse :: "wire_error codec \<Rightarrow> request \<Rightarrow> goerr \<Rightarrow> 'k response" where
  "commandErrorResponse cd rq e =
     (if err_is e ErrValidationFailed
      then errorResponse cd rq 400 ''CMD_VALIDATION'' (err_text e) None
      else if err_is e ErrEmptyAggregateId
      then errorResponse cd rq 400 ''CMD_EMPTY_ID'' ''aggregate id is required'' None
      else if err_is e ErrAlreadyCreated
      then errorResponse cd rq 409 ''CMD_ALREADY_CREATED'' ''aggregate already exists'' None
      else if err_is e ErrNotCreatedYet
      then errorResponse cd rq 404 ''CMD_NOT_CREATED'' ''aggregate not found'' None
      else if err_is e ErrAggregateNotFound
      then errorResponse cd rq 404 ''CMD_NOT_FOUND'' ''aggregate not found'' None
      else if err_is e ErrStateNotAllowed
      then errorResponse cd rq 409 ''CMD_STATE_VIOLATION'' ''command not allowed in current aggregate state'' None
      else errorResponse cd rq 500 ''CMD_INTERNAL'' (''internal error: '' @ err_text e) None)"

section \<open>Parameters\<close>

definition extractID :: "request \<Rightarrow> string" where
  "extractID rq =
     (case rq_path_parameters rq ''id'' of
        Some i \<Rightarrow> if i \<noteq> [] then i else get_or_empty (rq_query_parameters rq) ''id''
      | None \<Rightarrow> get_or_empty (rq_query_parameters rq) ''id'')"

definition parseSortOperator :: "string \<Rightarrow> sort_operator option" where
  "parseSortOperator s =
     map_of [(''eq'', Equal), (''lt'', Lt), (''le'', Le), (''gt'', Gt), (''ge'', Ge),
             (''begins_with'', BeginsWith), (''between'', Between)] (to_lower s)"

definition parseQueryParamString :: "string \<Rightarrow> goerr + string" where
  "parseQueryParamString s = Inr s"

definition parseQueryParamInt64 :: "string \<Rightarrow> goerr + int64" where
  "parseQueryParamInt64 s =
     (case ParseInt64 s of Inl e \<Rightarrow> Inl (errorf ''invalid int64: '' e) | Inr v \<Rightarrow> Inr v)"

section \<open>Commands\<close>

definition order_with_actor :: "string \<Rightarrow> order_command \<Rightarrow> order_command" where
  "order_with_actor actor c =
     (case c of
        Create i _ customer_id customer_name \<Rightarrow> Create i actor customer_id customer_name
      | AddItem i _ item \<Rightarrow> AddItem i actor item
      | RemoveItem i _ item_id \<Rightarrow> RemoveItem i actor item_id
      | AddTag i _ tag \<Rightarrow> AddTag i actor tag
      | RemoveTag i _ key \<Rightarrow> RemoveTag i actor key
      | SetShipping i _ address \<Rightarrow> SetShipping i actor address
      | SetBilling i _ billing \<Rightarrow> SetBilling i actor billing
      | ClearBilling i _ \<Rightarrow> ClearBilling i actor
      | Place i _ placed_at \<Rightarrow> Place i actor placed_at
      | Cancel i _ reason \<Rightarrow> Cancel i actor reason)"

definition order_function :: "string \<Rightarrow> string" where
  "order_function operation = ''example.app.order.v1.'' @ operation"

definition handle_command :: "'s order_handler \<Rightarrow> string \<Rightarrow> ('s, 'k) handler_func" where
  "handle_command h message c rq s =
     (let cds = oh_codecs h; err = errorResponse (cd_error cds) rq
      in case oh_authorizer h c rq (order_function message) of
           Inl e \<Rightarrow> (s, authzErrorResponse (cd_error cds) rq e)
         | Inr c' \<Rightarrow>
             (let actor = UserIDFromContext c'
              in if actor = [] then (s, err 401 ''CMD_NO_ACTOR'' ''no actor identity found'' None)
                 else (case unmarshalCommand rq (cd_command cds message) of
                     Inl e \<Rightarrow> (s, err 400 ''CMD_UNMARSHAL'' ''invalid request body'' (Some e))
                   | Inr cmd0 \<Rightarrow>
                       (let cmd = order_with_actor actor cmd0
                        in case ri_apply (oh_repo h) c' s cmd of
                             (s', Inl e) \<Rightarrow> (s', commandErrorResponse (cd_error cds) rq e)
                           | (s', Inr version) \<Rightarrow>
                               (s', respond (cd_error cds) rq (cd_response cds)
                                      ''CMD_MARSHAL'' ''failed to serialize response''
                                      \<lparr>cr_id = oc_id cmd, cr_version = version\<rparr>)))))"

definition HandleCreate :: "'s order_handler \<Rightarrow> ('s, 'k) handler_func" where
  "HandleCreate h = handle_command h ''Create''"

definition HandleAddItem :: "'s order_handler \<Rightarrow> ('s, 'k) handler_func" where
  "HandleAddItem h = handle_command h ''AddItem''"

definition HandleRemoveItem :: "'s order_handler \<Rightarrow> ('s, 'k) handler_func" where
  "HandleRemoveItem h = handle_command h ''RemoveItem''"

definition HandleAddTag :: "'s order_handler \<Rightarrow> ('s, 'k) handler_func" where
  "HandleAddTag h = handle_command h ''AddTag''"

definition HandleRemoveTag :: "'s order_handler \<Rightarrow> ('s, 'k) handler_func" where
  "HandleRemoveTag h = handle_command h ''RemoveTag''"

definition HandleSetShipping :: "'s order_handler \<Rightarrow> ('s, 'k) handler_func" where
  "HandleSetShipping h = handle_command h ''SetShipping''"

definition HandleSetBilling :: "'s order_handler \<Rightarrow> ('s, 'k) handler_func" where
  "HandleSetBilling h = handle_command h ''SetBilling''"

definition HandleClearBilling :: "'s order_handler \<Rightarrow> ('s, 'k) handler_func" where
  "HandleClearBilling h = handle_command h ''ClearBilling''"

definition HandlePlace :: "'s order_handler \<Rightarrow> ('s, 'k) handler_func" where
  "HandlePlace h = handle_command h ''Place''"

definition HandleCancel :: "'s order_handler \<Rightarrow> ('s, 'k) handler_func" where
  "HandleCancel h = handle_command h ''Cancel''"

section \<open>Reads\<close>

text \<open>
  What the three reads by id share: the function they ask for, the prefix of their error codes
  and suffixes of the code and texts of a failure, and the read itself with its not-found error.
\<close>

definition handle_read ::
    "'s order_handler \<Rightarrow> string \<Rightarrow> string \<Rightarrow> string \<Rightarrow> string \<Rightarrow> string \<Rightarrow> sentinel \<Rightarrow> 'q codec
     \<Rightarrow> (ctx \<Rightarrow> 's \<Rightarrow> string \<Rightarrow> 's \<times> (goerr + 'q)) \<Rightarrow> ('s, 'k) handler_func" where
  "handle_read h operation pre failed failed_text marshal_text missing cd read c rq s =
     (let ecd = cd_error (oh_codecs h); err = errorResponse ecd rq
      in case oh_authorizer h c rq (order_function operation) of
           Inl e \<Rightarrow> (s, authzErrorResponse ecd rq e)
         | Inr c' \<Rightarrow>
             (let i = extractID rq
              in if i = [] then (s, err 400 (pre @ ''_NO_ID'') ''missing required parameter: id'' None)
                 else (case read c' s i of
                     (s', Inl e) \<Rightarrow>
                       (s', if err_is e missing then err 404 (pre @ ''_NOT_FOUND'') ''aggregate not found'' None
                            else err 500 (pre @ failed) failed_text (Some e))
                   | (s', Inr m) \<Rightarrow> (s', respond ecd rq cd (pre @ ''_MARSHAL'') marshal_text m))))"

definition HandleLoad :: "'s order_handler \<Rightarrow> ('s, 'k) handler_func" where
  "HandleLoad h =
     handle_read h ''LoadOrder'' ''LOAD'' ''_FAILED'' ''failed to load aggregate'' ''failed to serialize aggregate''
       ErrAggregateNotFound (cd_order (oh_codecs h)) (ri_load (oh_repo h))"

definition HandleGet :: "'s order_handler \<Rightarrow> ('s, 'k) handler_func" where
  "HandleGet h =
     handle_read h ''GetOrder'' ''GET'' ''_FAILED'' ''failed to load aggregate'' ''failed to serialize aggregate''
       ErrNotFound (cd_order (oh_codecs h)) (\<lambda>c s i. (s, GetOrder (oh_client h) c s i))"

definition HandleHistory :: "'s order_handler \<Rightarrow> ('s, 'k) handler_func" where
  "HandleHistory h =
     handle_read h ''HistoryOrder'' ''HIST'' ''_LOAD'' ''failed to load history'' ''failed to serialize history''
       ErrAggregateNotFound (cd_history (oh_codecs h)) (ri_history (oh_repo h))"

section \<open>Queries\<close>

definition queryResponse :: "order_codecs \<Rightarrow> request \<Rightarrow> order list \<Rightarrow> 'k response" where
  "queryResponse cds rq results =
     respond (cd_error cds) rq (cd_list cds) ''QUERY_MARSHAL'' ''failed to serialize results'' results"

text \<open>The answer to a query that the client ran; a query that does not return gives no answer.\<close>

definition query_answer ::
    "order_codecs \<Rightarrow> request \<Rightarrow> (goerr + order list) option \<Rightarrow> 'k response option" where
  "query_answer cds rq r =
     map_option (\<lambda>res. case res of
         Inl e \<Rightarrow> errorResponse (cd_error cds) rq 500 ''QUERY_EXEC'' ''query failed'' (Some e)
       | Inr results \<Rightarrow> queryResponse cds rq results) r"

text \<open>A sort value: the parameter \<open>name\<close> must be there (\<open>note\<close> says when) and be an int64.\<close>

definition sort_value :: "wire_error codec \<Rightarrow> request \<Rightarrow> string \<Rightarrow> string \<Rightarrow> 'k response + int64" where
  "sort_value ecd rq name note =
     (let raw = get_or_empty (rq_query_parameters rq) name
      in if raw = []
         then Inl (errorResponse ecd rq 400 ''QUERY_MISSING_SK'' (''missing required parameter: '' @ name @ note) None)
         else (case parseQueryParamInt64 raw of
             Inl e \<Rightarrow> Inl (errorResponse ecd rq 400 ''QUERY_BAD_PARAM''
                         (''invalid value for '' @ name @ '': '' @ err_text e) None)
           | Inr v \<Rightarrow> Inr v))"

definition HandleQueryByCustomerId ::
    "'s order_handler \<Rightarrow> ctx \<Rightarrow> request \<Rightarrow> 's \<Rightarrow> ('s \<times> 'k response) option" where
  "HandleQueryByCustomerId h c rq s =
     map_option (Pair s)
       (let cds = oh_codecs h; ecd = cd_error cds; err = errorResponse ecd rq; params = rq_query_parameters rq
        in case oh_authorizer h c rq (order_function ''QueryByCustomerId'') of
             Inl e \<Rightarrow> Some (authzErrorResponse ecd rq e)
           | Inr c' \<Rightarrow>
               (let raw = get_or_empty params ''customer_id''
                in if raw = []
                   then Some (err 400 ''QUERY_MISSING_PK'' ''missing required parameter: customer_id'' None)
                   else (case parseQueryParamString raw of
                       Inl e \<Rightarrow> Some (err 400 ''QUERY_BAD_PARAM'' (''invalid value for customer_id: '' @ err_text e) None)
                     | Inr customer_id \<Rightarrow>
                         (let skOp = get_or_empty params ''sk_op''
                          in if skOp = []
                             then query_answer cds rq (SelectOrderByCustomerId (oh_client h) c' s customer_id)
                             else (case parseSortOperator skOp of
                                 None \<Rightarrow> Some (err 400 ''QUERY_BAD_OP'' (''invalid sort operator: '' @ skOp) None)
                               | Some op \<Rightarrow> (case sort_value ecd rq ''create_at'' [] of
                                     Inl resp \<Rightarrow> Some resp
                                   | Inr v \<Rightarrow>
                                       if op = Between
                                       then (case sort_value ecd rq ''create_at2'' '' (required for between)'' of
                                           Inl resp \<Rightarrow> Some resp
                                         | Inr v2 \<Rightarrow> query_answer cds rq
                                             (SelectOrderByCustomerIdWithCreateAt (oh_client h) c' s customer_id op [v, v2]))
                                       else query_answer cds rq
                                             (SelectOrderByCustomerIdWithCreateAt (oh_client h) c' s customer_id op [v])))))))"

section \<open>Routes\<close>

text \<open>
  The router runs handlers that return; the query handler returns when its query does, and is
  unspecified otherwise.
\<close>

definition returning :: "(ctx \<Rightarrow> request \<Rightarrow> 's \<Rightarrow> ('s \<times> 'k response) option) \<Rightarrow> ('s, 'k) handler_func" where
  "returning f c rq s = the (f c rq s)"

definition RegisterRoutes :: "'s order_handler \<Rightarrow> ('s, 'k) router \<Rightarrow> ('s, 'k) router" where
  "RegisterRoutes h r =
     fold (\<lambda>(m, p, f). router_Handle m p f)
       [(''POST'', ''example/app/order/v1/create'', HandleCreate h),
        (''POST'', ''example/app/order/v1/additem'', HandleAddItem h),
        (''POST'', ''example/app/order/v1/removeitem'', HandleRemoveItem h),
        (''POST'', ''example/app/order/v1/addtag'', HandleAddTag h),
        (''POST'', ''example/app/order/v1/removetag'', HandleRemoveTag h),
        (''POST'', ''example/app/order/v1/setshipping'', HandleSetShipping h),
        (''POST'', ''example/app/order/v1/setbilling'', HandleSetBilling h),
        (''POST'', ''example/app/order/v1/clearbilling'', HandleClearBilling h),
        (''POST'', ''example/app/order/v1/place'', HandlePlace h),
        (''POST'', ''example/app/order/v1/cancel'', HandleCancel h),
        (''GET'', ''example/app/order/v1/load/{id}'', HandleLoad h),
        (''GET'', ''example/app/order/v1/{id}'', HandleGet h),
        (''GET'', ''example/app/order/v1/{id}/history'', HandleHistory h),
        (''GET'', ''example/app/order/v1/query/by-customer-id'', returning (HandleQueryByCustomerId h))] r"

end
