(* ===== verification/HandlerFacts.thy ===== *)
theory HandlerFacts
  imports Handlers RouterProperties OrderMachine
begin

text \<open>
  Lemmas on the generated handlers: which handler a request reaches, what a handler can do to the
  state, and what a run of requests writes to the event streams of the orders.
\<close>

section \<open>Routes\<close>

definition order_messages :: "string list" where
  "order_messages = [''Create'', ''AddItem'', ''RemoveItem'', ''AddTag'', ''RemoveTag'', ''SetShipping'',
     ''SetBilling'', ''ClearBilling'', ''Place'', ''Cancel'']"

definition order_path :: "string list \<Rightarrow> string list" where
  "order_path segs = [''example'', ''app'', ''order'', ''v1''] @ segs"

definition command_route :: "'s order_handler \<Rightarrow> string \<Rightarrow> ('s, 'k) route" where
  "command_route h m =
     \<lparr>rt_method = ''POST'', rt_segments = order_path [to_lower m], rt_handler = handle_command h m\<rparr>"

definition read_routes :: "'s order_handler \<Rightarrow> ('s, 'k) route list" where
  "read_routes h =
     [\<lparr>rt_method = ''GET'', rt_segments = order_path [''load'', ''{id}''], rt_handler = HandleLoad h\<rparr>,
      \<lparr>rt_method = ''GET'', rt_segments = order_path [''{id}''], rt_handler = HandleGet h\<rparr>,
      \<lparr>rt_method = ''GET'', rt_segments = order_path [''{id}'', ''history''], rt_handler = HandleHistory h\<rparr>,
      \<lparr>rt_method = ''GET'', rt_segments = order_path [''query'', ''by-customer-id''],
       rt_handler = returning (HandleQueryByCustomerId h)\<rparr>]"

lemmas command_handlers = HandleCreate_def HandleAddItem_def HandleRemoveItem_def HandleAddTag_def
  HandleRemoveTag_def HandleSetShipping_def HandleSetBilling_def HandleClearBilling_def HandlePlace_def
  HandleCancel_def

lemma lower_messages:
  "map to_lower order_messages = [''create'', ''additem'', ''removeitem'', ''addtag'', ''removetag'',
     ''setshipping'', ''setbilling'', ''clearbilling'', ''place'', ''cancel'']"
  by code_simp

lemma route_segments:
  "splitPath ''example/app/order/v1/load/{id}'' = order_path [''load'', ''{id}'']"
  "splitPath ''example/app/order/v1/{id}'' = order_path [''{id}'']"
  "splitPath ''example/app/order/v1/{id}/history'' = order_path [''{id}'', ''history'']"
  "splitPath ''example/app/order/v1/query/by-customer-id'' = order_path [''query'', ''by-customer-id'']"
  by code_simp+

lemma command_segments:
  "splitPath (''example/app/order/v1/'' @ p) = order_path (splitPath p)"
  by (simp add: splitPath_def order_path_def)

lemma order_routes:
  "ro_routes (NewRouter [RegisterRoutes h]) = map (command_route h) order_messages @ read_routes h"
proof -
  have seg: "splitPath (''example/app/order/v1/'' @ p) = order_path [p]" if "p \<in> to_lower ` set order_messages" for p
    using that unfolding command_segments
    by (auto simp: set_map [symmetric] lower_messages splitPath_def)
  note segs = seg [of "''create''"] seg [of "''additem''"] seg [of "''removeitem''"] seg [of "''addtag''"]
    seg [of "''removetag''"] seg [of "''setshipping''"] seg [of "''setbilling''"] seg [of "''clearbilling''"]
    seg [of "''place''"] seg [of "''cancel''"]
  show ?thesis
    using segs lower_messages
    by (simp add: RegisterRoutes_def NewRouter_def router_Handle_def command_handlers order_messages_def
        command_route_def read_routes_def route_segments flip: set_map)
qed

lemma path_no_params:
  assumes "\<forall>seg \<in> set segs. \<not> is_param seg"
  shows "list_all2 seg_matches segs ps \<longleftrightarrow> segs = ps" "bindings segs ps = []"
proof -
  show "list_all2 seg_matches segs ps \<longleftrightarrow> segs = ps"
    using assms by (induction segs arbitrary: ps) (auto simp: list_all2_Cons1 seg_matches_def)
  show "bindings segs ps = []"
    using assms by (auto simp: bindings_def filter_empty_conv dest: set_zip_leftD)
qed

lemma command_path_no_params: "m \<in> set order_messages \<Longrightarrow> \<forall>seg \<in> set (order_path [to_lower m]). \<not> is_param seg"
proof -
  assume "m \<in> set order_messages"
  then have "to_lower m \<in> set (map to_lower order_messages)" by simp
  then show ?thesis
    unfolding lower_messages by (auto simp: order_path_def is_param_def)
qed

text \<open>The route a request reaches, if any, with the request its handler gets.\<close>

lemma dispatch_cases:
  assumes "router_Dispatch router c meth path rq s = (s', resp)"
  obtains "s' = s"
    "ro_cors router \<noteq> None \<and> meth = ''OPTIONS'' \<or> first_route router meth (splitPath path) = None"
  | rt params resp0 where "rt \<in> set (ro_routes router)" "rt_method rt = meth" "path_match (splitPath path) rt"
    "params = map_of (rev (bindings (rt_segments rt) (splitPath path)))"
    "rt_handler rt c (rq\<lparr>rq_path_parameters := rq_path_parameters rq ++ params\<rparr>) s = (s', resp0)"
    "resp = router_applyCORS router (get_or_empty (rq_headers rq) ''origin'') resp0"
proof (cases "ro_cors router \<noteq> None \<and> meth = ''OPTIONS''")
  case True
  with assms that(1) show ?thesis by (auto simp: router_Dispatch_def Let_def)
next
  case False
  show ?thesis
  proof (cases "first_route router meth (splitPath path)")
    case None
    with assms False that(1) show ?thesis
      by (auto simp: router_Dispatch_def dispatch_loop_spec first_route_def Let_def split: bool.splits)
  next
    case (Some rt)
    then have rt: "rt \<in> set (ro_routes router)" "rt_method rt = meth" "path_match (splitPath path) rt"
      by (auto simp: first_route_def find_Some_iff)
    obtain s1 resp0 where handled: "rt_handler rt c (rq\<lparr>rq_path_parameters := rq_path_parameters rq
        ++ map_of (rev (bindings (rt_segments rt) (splitPath path)))\<rparr>) s = (s1, resp0)" by fastforce
    with Some False assms have "s1 = s'" "resp = router_applyCORS router (get_or_empty (rq_headers rq) ''origin'') resp0"
      by (auto simp: router_Dispatch_def dispatch_loop_spec first_route_def Let_def)
    with handled show ?thesis by (intro that(2) [OF rt refl]) simp_all
  qed
qed

section \<open>What handlers do to the state\<close>

text \<open>A command handler changes the state through one call of \<open>Apply\<close> only.\<close>

lemma handle_command_state:
  assumes "handle_command h m c rq s = (s', resp)" "s' \<noteq> s"
  obtains c' cmd where "oh_authorizer h c rq (order_function m) = Inr c'" "UserIDFromContext c' \<noteq> []"
    "unmarshalCommand rq (cd_command (oh_codecs h) m) = Inr cmd"
    "s' = fst (ri_apply (oh_repo h) c' s (order_with_actor (UserIDFromContext c') cmd))"
  using assms by (auto simp: handle_command_def Let_def split: sum.splits if_splits prod.splits)

lemma handle_read_state:
  assumes "handle_read h operation pre failed ft mt missing cd read c rq s = (s', resp)" "s' \<noteq> s"
  obtains c' where "oh_authorizer h c rq (order_function operation) = Inr c'"
    "s' = fst (read c' s (extractID rq))"
  using assms by (auto simp: handle_read_def Let_def split: sum.splits if_splits prod.splits)

text \<open>The queries of the client return, and so does their handler.\<close>

definition queries_return :: "'s order_client \<Rightarrow> bool" where
  "queries_return cl \<longleftrightarrow>
     (\<forall>c s i. SelectOrderByCustomerId cl c s i \<noteq> None)
     \<and> (\<forall>c s i op vals. SelectOrderByCustomerIdWithCreateAt cl c s i op vals \<noteq> None)"

lemma query_returns: "queries_return (oh_client h) \<Longrightarrow> \<exists>resp. HandleQueryByCustomerId h c rq s = Some (s, resp)"
  by (auto simp: HandleQueryByCustomerId_def queries_return_def query_answer_def Let_def
      split: sum.split option.split)

lemma query_state:
  assumes "queries_return (oh_client h)" "returning (HandleQueryByCustomerId h) c rq s = (s', resp :: 'k response)"
  shows "s' = s"
proof -
  from query_returns [OF assms(1), of c rq s] obtain out :: "'k response" where
    "HandleQueryByCustomerId h c rq s = Some (s, out)" by blast
  with assms(2) show ?thesis by (simp add: returning_def)
qed

text \<open>
  All that a request to the order routes can do to the state: a command or a read that the
  authorizer granted, run with what it put in the context.
\<close>

lemma command_routes_state:
  assumes "m \<in> set order_messages" "path_match segs (command_route h m)"
    and "rt_handler (command_route h m) c
           (rq\<lparr>rq_path_parameters := rq_path_parameters rq ++ map_of (rev (bindings (rt_segments (command_route h m)) segs))\<rparr>) s
         = (s', resp)"
  shows "segs = order_path [to_lower m]" "handle_command h m c rq s = (s', resp)"
  using assms path_no_params [OF command_path_no_params [OF assms(1)]]
  by (simp_all add: command_route_def path_match_def)

lemma order_request_state:
  assumes routes: "ro_routes router = ro_routes (NewRouter [RegisterRoutes h])" and q: "queries_return (oh_client h)"
    and run: "router_Dispatch router c meth path rq s = (s', resp)" and "s' \<noteq> s"
  obtains (Command) m c' cmd where "m \<in> set order_messages" "meth = ''POST''"
    "splitPath path = order_path [to_lower m]"
    "oh_authorizer h c rq (order_function m) = Inr c'" "UserIDFromContext c' \<noteq> []"
    "unmarshalCommand rq (cd_command (oh_codecs h) m) = Inr cmd"
    "s' = fst (ri_apply (oh_repo h) c' s (order_with_actor (UserIDFromContext c') cmd))"
  | (Read) rq' c' operation i where "meth = ''GET''" "oh_authorizer h c rq' (order_function operation) = Inr c'"
    "operation = ''LoadOrder'' \<and> s' = fst (ri_load (oh_repo h) c' s i)
     \<or> operation = ''HistoryOrder'' \<and> s' = fst (ri_history (oh_repo h) c' s i)"
  using run
proof (cases rule: dispatch_cases)
  case 1
  with assms(4) show ?thesis by simp
next
  case (2 rt params resp0)
  from 2(1) routes consider m where "m \<in> set order_messages" "rt = command_route h m" | "rt \<in> set (read_routes h)"
    by (auto simp: order_routes)
  then show ?thesis
  proof cases
    case (1 m)
    from command_routes_state [OF 1(1), of "splitPath path" h c rq s s' resp0] 2 1(2)
    have "splitPath path = order_path [to_lower m]" "handle_command h m c rq s = (s', resp0)" by simp_all
    note path = this
    have "meth = ''POST''" using 1(2) 2(2) by (simp add: command_route_def)
    from handle_command_state [OF path(2) assms(4)] Command [OF 1(1) this path(1)] show ?thesis by blast
  next
    case 2
    have get: "meth = ''GET''" using 2 \<open>rt_method rt = meth\<close> by (auto simp: read_routes_def)
    let ?rq = "rq\<lparr>rq_path_parameters := rq_path_parameters rq ++ params\<rparr>"
    from 2 \<open>rt_handler rt c ?rq s = (s', resp0)\<close>
    consider "HandleLoad h c ?rq s = (s', resp0)" | "HandleGet h c ?rq s = (s', resp0)"
      | "HandleHistory h c ?rq s = (s', resp0)" | "returning (HandleQueryByCustomerId h) c ?rq s = (s', resp0)"
      by (auto simp: read_routes_def)
    then show ?thesis
    proof cases
      case 1
      from handle_read_state [OF this [unfolded HandleLoad_def] assms(4)] get show ?thesis
        by (metis Read)
    next
      case 2
      from handle_read_state [OF this [unfolded HandleGet_def] assms(4)] assms(4) show ?thesis by auto
    next
      case 3
      from handle_read_state [OF this [unfolded HandleHistory_def] assms(4)] get show ?thesis
        by (metis Read)
    next
      case 4
      from query_state [OF q this] assms(4) show ?thesis by simp
    qed
  qed
qed

text \<open>A POST to the path of a command reaches its handler.\<close>

lemma lower_inj: "m \<in> set order_messages \<Longrightarrow> m' \<in> set order_messages \<Longrightarrow> to_lower m = to_lower m' \<Longrightarrow> m = m'"
proof -
  have "distinct (map to_lower order_messages)" by (simp add: lower_messages)
  then show "m \<in> set order_messages \<Longrightarrow> m' \<in> set order_messages \<Longrightarrow> to_lower m = to_lower m' \<Longrightarrow> m = m'"
    by (simp add: distinct_map inj_on_def)
qed

lemma read_routes_get: "rt \<in> set (read_routes h) \<Longrightarrow> rt_method rt = ''GET''"
  by (auto simp: read_routes_def)

lemma dispatch_command:
  assumes routes: "ro_routes router = ro_routes (NewRouter [RegisterRoutes h])" and m: "m \<in> set order_messages"
    and path: "splitPath path = order_path [to_lower m]"
  shows "router_Dispatch router c ''POST'' path rq s
    = map_prod id (router_applyCORS router (get_or_empty (rq_headers rq) ''origin'')) (handle_command h m c rq s)"
proof -
  obtain s' resp where d: "router_Dispatch router c ''POST'' path rq s = (s', resp)" by fastforce
  have seg: "rt_segments (command_route h m) = splitPath path" "rt_method (command_route h m) = ''POST''"
    by (simp_all add: command_route_def path)
  have self: "path_match (splitPath path) (command_route h m)"
    unfolding path_match_def seg path path_no_params(1) [OF command_path_no_params [OF m]] by (rule refl)
  have mem: "command_route h m \<in> set (ro_routes router)"
    unfolding routes order_routes using m by simp
  show ?thesis
    using d
  proof (cases rule: dispatch_cases)
    case 1
    then have "\<not> (\<exists>rt. rt \<in> set (ro_routes router) \<and> path_match (splitPath path) rt \<and> rt_method rt = ''POST'')"
      unfolding first_route_def find_None_iff by simp
    with self mem seg(2) show ?thesis by blast
  next
    case (2 rt params resp0)
    from 2(1) read_routes_get [of rt h] 2(2) have "rt \<in> command_route h ` set order_messages"
      unfolding routes order_routes by auto
    then obtain m' where m': "m' \<in> set order_messages" "rt = command_route h m'" by blast
    from command_routes_state [OF m'(1) 2(3) [unfolded m'(2)] 2(5) [unfolded 2(4) m'(2)]]
    have reached: "splitPath path = order_path [to_lower m']" "handle_command h m' c rq s = (s', resp0)" .
    have "to_lower m = to_lower m'" using path unfolding reached(1) order_path_def by simp
    with lower_inj [OF m m'(1)] have "m' = m" by blast
    with reached(2) d 2(6) show ?thesis by simp
  qed
qed

end
