(* ===== verification/Service.thy ===== *)
theory Service
  imports HandlerFacts
begin

text \<open>
  The order service: the generated handlers on the repository of the orders, over any store that
  keeps the log contract, behind a router. A run of requests keeps the streams that commands
  write, and every event in them is the work of a request that was authorized.
\<close>

section \<open>Reads keep the streams\<close>

lemma repo_load_keeps:
  assumes "event_log_store (rp_store r) sinv slog"
    and "aggregate_contract (rp_aggregate r) (rp_events r) (rp_commands r) known"
    and "sinv s" "holds_streams r (slog s) streams" "\<forall>e \<in> set (streams i). known e" "tail_sound r (streams i)"
    and "load_history r c s i = (s1, Inr h)"
  shows "sinv (fst (repo_load r c s i)) \<and> holds_streams r (slog (fst (repo_load r c s i))) streams"
  using load_aggregate_holds [OF assms] by (auto simp: repo_load_def split: if_splits)

lemma repo_history_keeps:
  assumes store: "event_log_store (rp_store r) sinv slog"
    and s: "sinv s" "holds_streams r (slog s) streams"
  shows "sinv (fst (repo_history r c s i)) \<and> holds_streams r (slog (fst (repo_history r c s i))) streams"
proof -
  obtain s1 res where load: "st_load (rp_store r) (ctx_err c AtLoad) s (qualified_id r i) = (s1, res)" by fastforce
  note log = event_log_store.load_log [OF store s(1) load]
  show ?thesis
  proof (cases res)
    case (Inl e)
    with load log s show ?thesis by (simp add: repo_history_def)
  next
    case (Inr h)
    with log s(2) have holds: "holds_events r (map rec_vd h) (streams i)" by (auto simp: holds_streams_def)
    from decompress_records_holds [OF holds] obtain h' where h':
        "decompress_records (rp_gzip r) h = (h', None)" "holds_events r (map rec_vd h') (streams i)"
        "map rec_version h' = map rec_version h" by blast
    from writeback_holds [OF store s load [unfolded Inr] h'(3,2)] load Inr h'(1) s show ?thesis
      by (simp add: repo_history_def)
  qed
qed

section \<open>Commands\<close>

lemma order_with_actor_simps [simp]:
  "oc_id (order_with_actor u c) = oc_id c" "oc_actor (order_with_actor u c) = u"
  "order_CommandName (order_with_actor u c) = order_CommandName c"
  by (cases c; simp add: order_with_actor_def)+

text \<open>The command that an event comes from; a snapshot comes from none of its own.\<close>

fun order_event_command :: "order_event \<Rightarrow> string" where
  "order_event_command (Created _ _ _ _ _ _) = ''Create''"
| "order_event_command (ItemAdded _ _ _ _ _) = ''AddItem''"
| "order_event_command (ItemRemoved _ _ _ _ _) = ''RemoveItem''"
| "order_event_command (TagAdded _ _ _ _ _) = ''AddTag''"
| "order_event_command (TagRemoved _ _ _ _ _) = ''RemoveTag''"
| "order_event_command (ShippingSet _ _ _ _ _) = ''SetShipping''"
| "order_event_command (BillingSet _ _ _ _ _) = ''SetBilling''"
| "order_event_command (BillingCleared _ _ _ _ _) = ''ClearBilling''"
| "order_event_command (Placed _ _ _ _ _) = ''Place''"
| "order_event_command (Cancelled _ _ _ _ _) = ''Cancel''"
| "order_event_command (Snapshot _ _ _ _ _) = ''Snapshot''"
| "order_event_command (OtherEvent _ _ _ _ t) = t"

lemma own_event_command [simp]: "order_event_command (order_own_event c now a) = order_CommandName c"
  by (cases c) (simp_all add: order_own_event_def ob_command_event_def)

lemma order_emitted:
  assumes "abs_apply order_aggregate order_events (order_commands validate) now es c = (news, out)" "e \<in> set news"
  shows "order_is_snapshot e \<or> oe_actor e = oc_actor c \<and> order_event_command e = order_CommandName c"
  using order_abs_apply [OF assms(1)] assms(2) by (auto simp: EmitEvents_eq split: if_splits)

section \<open>Runs of requests\<close>

record http_call =
  ca_clock :: clock
  ca_ctx :: ctx
  ca_method :: string
  ca_path :: string
  ca_request :: request

fun serve_all :: "(clock \<Rightarrow> ('s, 'k) router) \<Rightarrow> http_call list \<Rightarrow> 's \<Rightarrow> 's \<times> 'k response list" where
  "serve_all mk [] s = (s, [])"
| "serve_all mk (q # qs) s =
     (case router_Dispatch (mk (ca_clock q)) (ca_ctx q) (ca_method q) (ca_path q) (ca_request q) s of
        (s1, resp) \<Rightarrow> (case serve_all mk qs s1 of (s2, resps) \<Rightarrow> (s2, resp # resps)))"

text \<open>
  A service: \<open>mk clk\<close> is a router with the order routes, of a handler that is \<open>h\<close> on the
  repository \<open>r\<close>; its authorizer grants requests whose context is live a context that is live, as one
  does that extends the context it is given, loads with a live context succeed, and decoding a
  command message gives a command of that message.
\<close>

definition order_service ::
    "(order_command \<Rightarrow> goerr option) \<Rightarrow> ('s, order, order_event, order_command, order_message) repository \<Rightarrow>
     ('s \<Rightarrow> bool) \<Rightarrow> ('s \<Rightarrow> string \<Rightarrow> (int64 \<times> bytes) list) \<Rightarrow> 's order_handler \<Rightarrow> (clock \<Rightarrow> ('s, 'k) router) \<Rightarrow> bool" where
  "order_service validate r sinv slog h mk \<longleftrightarrow>
     event_log_store (rp_store r) sinv slog \<and> rp_ok r \<and> is_order_repository validate r
     \<and> (\<forall>clk. ro_routes (mk clk) = ro_routes (NewRouter [RegisterRoutes (h\<lparr>oh_repo := repository_iface r clk\<rparr>)]))
     \<and> queries_return (oh_client h)
     \<and> (\<forall>c rq f c'. live c \<longrightarrow> oh_authorizer h c rq f = Inr c' \<longrightarrow> live c')
     \<and> (\<forall>s c i. sinv s \<longrightarrow> live c \<longrightarrow> (\<exists>s1 hs. load_history r c s i = (s1, Inr hs)))
     \<and> (\<forall>m rq cmd. unmarshalCommand rq (cd_command (oh_codecs h) m) = Inr cmd \<longrightarrow> order_CommandName cmd = m)"

text \<open>The event comes from a request of the list, by a user whom the authorizer granted its command.\<close>

definition attributed :: "'s order_handler \<Rightarrow> http_call list \<Rightarrow> order_event \<Rightarrow> bool" where
  "attributed h qs e \<longleftrightarrow>
     (\<exists>q \<in> set qs. \<exists>c'. ca_method q = ''POST''
        \<and> splitPath (ca_path q) = order_path [to_lower (order_event_command e)]
        \<and> oh_authorizer h (ca_ctx q) (ca_request q) (order_function (order_event_command e)) = Inr c'
        \<and> UserIDFromContext c' = oe_actor e \<and> oe_actor e \<noteq> [])"

definition service_streams ::
    "('s, order, order_event, order_command, order_message) repository \<Rightarrow> 's order_handler \<Rightarrow> http_call list \<Rightarrow>
     (string \<Rightarrow> order_event list) \<Rightarrow> bool" where
  "service_streams r h qs streams \<longleftrightarrow>
     (\<forall>i. command_stream r i (streams i) \<and> length (streams i) \<le> 2 * length qs
        \<and> (\<forall>e \<in> set (streams i). order_is_snapshot e \<or> attributed h qs e))"

lemma allowall_keeps_live: "live c \<Longrightarrow> allowall_Authorize c rq f = Inr c' \<Longrightarrow> live c'"
  by (auto simp: allowall_Authorize_def WithUserID_def live_def)

lemma attributed_mono: "attributed h qs e \<Longrightarrow> set qs \<subseteq> set qs' \<Longrightarrow> attributed h qs' e"
  by (auto simp: attributed_def)

lemma service_streams_later: "service_streams r h qs streams \<Longrightarrow> service_streams r h (qs @ [q]) streams"
  using attributed_mono [of h qs _ "qs @ [q]"] by (simp add: service_streams_def le_SucI) blast

lemma service_step:
  assumes svc: "order_service validate r sinv slog h mk"
    and s: "sinv s" "holds_streams r (slog s) streams" "service_streams r h qs streams"
    and len: "2 * length qs + 2 < 2 ^ 63" and ctx: "live (ca_ctx q)"
    and run: "router_Dispatch (mk (ca_clock q)) (ca_ctx q) (ca_method q) (ca_path q) (ca_request q) s = (s', resp)"
  shows "\<exists>streams'. sinv s' \<and> holds_streams r (slog s') streams' \<and> service_streams r h (qs @ [q]) streams'"
proof (cases "s' = s")
  case True
  with s service_streams_later show ?thesis by blast
next
  case False
  note svc' = svc [unfolded order_service_def]
  have store: "event_log_store (rp_store r) sinv slog" and ok: "rp_ok r" and order: "is_order_repository validate r"
    using svc' by simp_all
  let ?h = "h\<lparr>oh_repo := repository_iface r (ca_clock q)\<rparr>"
  have routes: "ro_routes (mk (ca_clock q)) = ro_routes (NewRouter [RegisterRoutes ?h])"
    and queries: "queries_return (oh_client ?h)" using svc' by simp_all
  have cs: "\<forall>i. command_stream r i (streams i)" using s(3) by (simp add: service_streams_def)
  have snap: "snapshot_contract (rp_aggregate r) (rp_events r) (rp_commands r) order_known order_is_snapshot 50"
    using svc' ord.snapshot_contract_axioms by (simp add: is_order_repository_def)
  from routes queries run False show ?thesis
  proof (cases rule: order_request_state)
    case (Command m c' cmd0)
    define cmd where "cmd = order_with_actor (UserIDFromContext c') cmd0"
    have live: "live c'" and name: "order_CommandName cmd = m"
      using svc' ctx Command(4,6) by (auto simp: cmd_def)
    obtain s1 ws res where ap: "repo_apply r c' (ca_clock q) s (Some cmd) = (s1, ws, res)" by (metis prod_cases3)
    with Command(7) have s1: "s1 = s'" by (simp add: repository_iface_def cmd_def)
    have id: "oc_id cmd \<noteq> []"
      using ap s1 False svc' by (auto simp: repo_apply_def is_order_repository_def order_commands_def)
    obtain s2 hs where load: "load_history r c' s (oc_id cmd) = (s2, Inr hs)" using svc' s(1) live by blast
    obtain news out where abs: "abs_apply order_aggregate order_events (order_commands validate)
        (clk_micros (ca_clock q)) (streams (oc_id cmd)) cmd = (news, out)" by fastforce
    have bound: "length (streams (oc_id cmd)) \<le> 2 * length qs" using s(3) by (simp add: service_streams_def)
    with len have "length (streams (oc_id cmd)) + 2 < 2 ^ 63" by simp
    from order_apply_streams [OF store ok order s(1,2) cs _ load this abs ap id] live
    have step: "sinv s'" "holds_streams r (slog s') (streams(oc_id cmd := streams (oc_id cmd) @ news))
        \<or> holds_streams r (slog s') streams"
      "\<forall>i. command_stream r i ((streams(oc_id cmd := streams (oc_id cmd) @ news)) i)"
      by (auto simp: s1 live_def split: option.splits)
    have "attributed h (qs @ [q]) e" if "e \<in> set news" "\<not> order_is_snapshot e" for e
      using order_emitted [OF abs that(1)] that(2) Command(2-5) name
      by (auto simp: attributed_def cmd_def)
    moreover have "length news \<le> 2" using order_abs_apply [OF abs] length_EmitEvents by auto
    with bound have "length (streams (oc_id cmd)) + length news \<le> 2 * length qs + 2" by simp
    ultimately have "service_streams r h (qs @ [q]) (streams(oc_id cmd := streams (oc_id cmd) @ news))"
      using service_streams_later [OF s(3), of q] s(3) step(3) by (auto simp: service_streams_def)
    with step service_streams_later [OF s(3), of q] show ?thesis by blast
  next
    case (Read rq' c' operation i)
    have live: "live c'" using svc' ctx Read(2) by auto
    then obtain s2 hs where load: "load_history r c' s i = (s2, Inr hs)" using svc' s(1) by blast
    have "\<forall>e \<in> set (streams i). order_known e"
      using command_stream_ok [OF snapshot_contract.axioms(1) [OF snap]] cs by blast
    note repo_load_keeps [OF store snapshot_contract.axioms(1) [OF snap] s(1,2) this
        command_stream_tail_sound [OF snap cs [rule_format]] load]
    with Read(3) repo_history_keeps [OF store s(1,2), of c' i]
    have "sinv s' \<and> holds_streams r (slog s') streams"
      by (auto simp: repository_iface_def)
    with service_streams_later [OF s(3), of q] show ?thesis by blast
  qed
qed

lemma service_run:
  assumes svc: "order_service validate r sinv slog h mk"
    and "sinv s" "holds_streams r (slog s) streams" "service_streams r h qs0 streams"
    and "2 * length (qs0 @ qs) < 2 ^ 63" and "\<forall>q \<in> set qs. live (ca_ctx q)" and "serve_all mk qs s = (s', resps)"
  shows "\<exists>streams'. sinv s' \<and> holds_streams r (slog s') streams' \<and> service_streams r h (qs0 @ qs) streams'"
  using assms(2-)
proof (induction qs arbitrary: s streams "qs0" resps)
  case Nil
  then show ?case by auto
next
  case (Cons q qs)
  obtain s1 resp where d: "router_Dispatch (mk (ca_clock q)) (ca_ctx q) (ca_method q) (ca_path q) (ca_request q) s = (s1, resp)"
    by fastforce
  have "2 * length qs0 + 2 < 2 ^ 63" using Cons.prems(4) by simp
  moreover have "live (ca_ctx q)" using Cons.prems(5) by simp
  ultimately obtain streams1 where
    "sinv s1" "holds_streams r (slog s1) streams1" "service_streams r h (qs0 @ [q]) streams1"
    using service_step [OF svc Cons.prems(1-3) _ _ d] by blast
  from Cons.IH [OF this] Cons.prems(4-6) d show ?case by (auto split: prod.splits)
qed

section \<open>Statuses\<close>

lemma error_status [simp]: "rs_status (errorResponse cd rq status code message cause) = status"
  by (simp add: errorResponse_def content_response_def Let_def split: sum.split prod.split)

lemma cors_status [simp]: "rs_status (router_applyCORS r origin resp) = rs_status resp"
  by (simp add: router_applyCORS_def Let_def split: option.split)

definition encodes :: "'q codec \<Rightarrow> bool" where
  "encodes cd \<longleftrightarrow> (\<forall>m. (\<exists>b. co_json cd m = Inr b) \<and> (\<exists>b. co_proto cd m = Inr b))"

lemma respond_status: "encodes cd \<Longrightarrow> rs_status (respond ecd rq cd code text m) = 200"
  by (auto simp: respond_def marshalResponse_def encodes_def content_response_def split: sum.splits if_splits)
    (metis Inl_Inr_False)+

text \<open>
  The status that a command deserves, by the stream of its order: creation needs an order without
  events and every other command one with events, the validator must accept it, the state must
  allow it, and an item must not be there yet.
\<close>

definition order_http_status :: "(order_command \<Rightarrow> goerr option) \<Rightarrow> order_command \<Rightarrow> order_event list \<Rightarrow> int" where
  "order_http_status validate cmd es =
     (let a = stream_state order_aggregate es
      in if order_CommandName cmd = ''Create'' \<and> es \<noteq> [] then 409
         else if order_CommandName cmd \<noteq> ''Create'' \<and> es = [] then 404
         else if validate cmd \<noteq> None then 400
         else if (case order_allowed_states cmd of None \<Rightarrow> False | Some ss \<Rightarrow> o_state a \<notin> set ss) then 409
         else if (case cmd of AddItem _ _ item \<Rightarrow> fmlookup (o_items a) (order_item_id item) \<noteq> None | _ \<Rightarrow> False) then 500
         else 200)"

definition error_code :: "goerr \<Rightarrow> int" where
  "error_code e =
     (if err_is e ErrValidationFailed \<or> err_is e ErrEmptyAggregateId then 400
      else if err_is e ErrAlreadyCreated then 409
      else if err_is e ErrNotCreatedYet \<or> err_is e ErrAggregateNotFound then 404
      else if err_is e ErrStateNotAllowed then 409 else 500)"

lemma command_error_status: "rs_status (commandErrorResponse cd rq e) = error_code e"
  by (simp add: commandErrorResponse_def error_code_def)

lemma order_abs_status:
  assumes order: "is_order_repository validate r" and es: "command_stream r i es"
    and abs: "abs_apply order_aggregate order_events (order_commands validate) now es cmd = (news, out)"
  shows "(case out of Inl e \<Rightarrow> error_code e | Inr v \<Rightarrow> 200) = order_http_status validate cmd es"
proof -
  have v: "o_version (stream_state order_aggregate es) = 0 \<longleftrightarrow> es = []"
    using order_stream_version [OF order es] by (auto simp: stream_state_def empty_order_def)
  from abs v show ?thesis
    by (cases cmd; cases "validate cmd")
      (auto simp: abs_apply_def error_code_def order_http_status_def order_commands_def check_command_def
        order_ValidateVersion_def order_ProtoValidate_def order_GuardState_def Let_def
        split: if_splits)
qed

end
