(* ===== verification/Network.thy ===== *)
theory Network
  imports Service HttpClientProperties AdapterProperties NetURL
begin

text \<open>
  The network between the HTTP client and the router behind the net/http adapter: what is carried,
  how headers and queries arrive, and what the client makes of the answers of the handlers.
\<close>

section \<open>Header keys\<close>

lemma of_char_lower: "(of_char (char_lower c) :: nat) = (if 65 \<le> (of_char c :: nat) \<and> (of_char c :: nat) \<le> 90 then of_char c + 32 else of_char c)"
  by (simp add: char_lower_def Let_def)

lemma of_char_upper: "(of_char (char_upper c) :: nat) = (if 97 \<le> (of_char c :: nat) \<and> (of_char c :: nat) \<le> 122 then of_char c - 32 else of_char c)"
  by (auto simp: char_upper_def Let_def intro!: mod_less)

lemma char_eq_code: "c = d \<longleftrightarrow> (of_char c :: nat) = of_char d" for c d :: char
  by simp

lemma char_upper_lower [simp]: "char_upper (char_lower c) = char_upper c" "char_lower (char_lower c) = char_lower c"
  "char_lower c = CHR ''-'' \<longleftrightarrow> c = CHR ''-''"
  unfolding char_eq_code of_char_lower of_char_upper by auto

lemma token_char_lower [simp]: "token_char (char_lower c) \<longleftrightarrow> token_char c"
  by (auto simp: token_char_def of_char_lower Let_def)

lemma canonical_chars_lower: "canonical_chars up (to_lower k) = canonical_chars up k"
  by (induction k arbitrary: up) (auto simp: to_lower_def)

lemma canonical_key_lower:
  assumes "list_all token_char (to_lower k)"
  shows "canonical_key k = canonical_key (to_lower k)"
proof -
  have "list_all token_char k" using assms by (simp add: to_lower_def list_all_iff)
  with assms show ?thesis by (simp add: canonical_key_def canonical_chars_lower)
qed

lemma to_lower_fixed: "to_lower k = x \<Longrightarrow> to_lower x = x"
  by (auto simp: to_lower_def)

lemma fold_headers:
  "\<forall>(k, v) \<in> set hs. to_lower k = x \<longrightarrow> g k = y \<Longrightarrow>
     fold (\<lambda>(k, v) m. m(to_lower k \<mapsto> g k)) hs m x = (if \<exists>(k, v) \<in> set hs. to_lower k = x then Some y else m x)"
  by (induction hs arbitrary: m) (auto split: prod.splits)

text \<open>The adapter gives a header under its lower-case name, and only there.\<close>

lemma http_headers_lower:
  assumes "map_of (hr_header hr) (canonical_key x) = Some (v # vs)" "list_all token_char x"
    and "to_lower (canonical_key x) = x" "x \<noteq> ''host''"
  shows "http_headers hr x = Some v"
proof -
  have "header_get (hr_header hr) k = v" if "to_lower k = x" for k
    using canonical_key_lower [of k] that assms(1,2) by (simp add: header_get_def)
  moreover have "\<exists>(k, v) \<in> set (hr_header hr). to_lower k = x"
    using map_of_SomeD [OF assms(1)] assms(3) by blast
  ultimately show ?thesis
    using fold_headers [of "hr_header hr" x "header_get (hr_header hr)" v "\<lambda>_. None"] assms(4)
    by (auto simp: http_headers_def)
qed

lemma http_headers_upper: "to_lower x \<noteq> x \<Longrightarrow> x \<noteq> ''host'' \<Longrightarrow> http_headers hr x = None"
  using fold_headers [of "hr_header hr" x "header_get (hr_header hr)" v "\<lambda>_. None" for v] to_lower_fixed [of _ x]
  by (fastforce simp: http_headers_def)

lemma header_names:
  "canonical_key ''accept'' = ''Accept''" "canonical_key ''content-type'' = ''Content-Type''"
  "canonical_key ''authorization'' = ''Authorization''" "canonical_key ''Accept'' = ''Accept''"
  "canonical_key ''Content-Type'' = ''Content-Type''" "canonical_key ''Authorization'' = ''Authorization''"
  "to_lower ''Accept'' = ''accept''" "to_lower ''Content-Type'' = ''content-type''"
  "to_lower ''Authorization'' = ''authorization''"
  "list_all token_char ''accept''" "list_all token_char ''content-type''" "list_all token_char ''authorization''"
  by code_simp+

section \<open>The network\<close>

text \<open>
  What net/http carries: the request that the server reads has the method, the decoded path, the
  parsed query, the body and the header fields of the client's, and the client reads the status, the content type
  and the body that the server wrote.
\<close>

definition transmits :: "string \<Rightarrow> out_request \<Rightarrow> http_request \<Rightarrow> bool" where
  "transmits base out hr \<longleftrightarrow>
     hr_method hr = ou_method out \<and> path_unescape (before_query (drop (length base) (ou_url out))) = Some (hr_path hr)
     \<and> hr_query hr = ParseQuery (after_query (drop (length base) (ou_url out))) \<and> hr_body hr = Inr (ou_body out)
     \<and> (\<forall>k v vs. ou_header out k = v # vs \<longrightarrow> map_of (hr_header hr) k = Some (v # vs))"

definition received :: "http_written \<Rightarrow> in_response" where
  "received w = \<lparr>in_status = hw_status w,
     in_content_type = (case hw_header w ''Content-Type'' of [] \<Rightarrow> [] | v # vs \<Rightarrow> v),
     in_body = Inr (bytes_of_string (hw_body w))\<rparr>"

definition connected ::
    "'s http_env \<Rightarrow> string \<Rightarrow> (out_request \<Rightarrow> http_request) \<Rightarrow> (string_map \<Rightarrow> string list) \<Rightarrow> ('k \<Rightarrow> string) \<Rightarrow>
     ('s, 'k) router \<Rightarrow> ctx \<Rightarrow> out_request \<Rightarrow> bool" where
  "connected env base wire order ck router c out \<longleftrightarrow>
     he_new_request env (ou_method out) (ou_url out) = None \<and> transmits base out (wire out)
     \<and> (\<forall>s. he_do env out s = map_prod id (Inr \<circ> received) (http_WrapRouter order ck router c (wire out) s))
     \<and> (\<forall>ct. visits_keys order [''Content-Type'' \<mapsto> ct])"

definition faithful :: "'q set \<Rightarrow> 'q codec \<Rightarrow> bool" where
  "faithful Q cd \<longleftrightarrow> encodes cd \<and> (\<forall>m \<in> Q. \<forall>b. (co_json cd m = Inr b \<longrightarrow> co_from_json cd b = Inr m)
     \<and> (co_proto cd m = Inr b \<longrightarrow> co_from_proto cd b = Inr m))"

text \<open>Responses with a content type only, as the client receives them.\<close>

lemma received_content:
  assumes "\<And>ct. visits_keys order [''Content-Type'' \<mapsto> ct]"
  shows "received (write_response order ck (content_response status body ct :: 'k response))
    = \<lparr>in_status = status, in_content_type = ct, in_body = Inr (bytes_of_string body)\<rparr>"
  using write_response_header(1) [of order "content_response status body ct" "''Content-Type''" ct ck] assms
  by (simp add: received_def content_response_def write_response_def header_names Let_def)

text \<open>A message that the server marshals for a request is the message that the client reads.\<close>

definition content_name :: "bool \<Rightarrow> string" where
  "content_name json = (if json then ''application/json'' else ''application/protobuf'')"

lemma content_names:
  "protobuf_wins (content_name json) = (\<not> json)" "contains_str (content_name json) ''json'' = json"
proof -
  have "protobuf_wins ''application/protobuf''" "\<not> protobuf_wins ''application/json''"
    "contains_str ''application/json'' ''json''" "\<not> contains_str ''application/protobuf'' ''json''"
    by code_simp+
  then show "protobuf_wins (content_name json) = (\<not> json)" "contains_str (content_name json) ''json'' = json"
    by (simp_all add: content_name_def)
qed

lemma marshal_for_client:
  assumes "faithful Q cd" "msg \<in> Q" "acceptsProtobuf rq = (\<not> json)"
  shows "\<exists>b. marshalResponse rq cd msg = Inr (b, content_name json)
    \<and> (if json then co_from_json cd b else co_from_proto cd b) = Inr msg"
proof -
  obtain b1 b2 where "co_json cd msg = Inr b1" "co_proto cd msg = Inr b2"
    using assms(1) unfolding faithful_def encodes_def by blast
  with assms show ?thesis by (cases json) (simp_all add: faithful_def marshalResponse_def content_name_def)
qed

definition error_name :: "goerr \<Rightarrow> string" where
  "error_name e =
     (if err_is e ErrValidationFailed then ''CMD_VALIDATION'' else if err_is e ErrEmptyAggregateId then ''CMD_EMPTY_ID''
      else if err_is e ErrAlreadyCreated then ''CMD_ALREADY_CREATED'' else if err_is e ErrNotCreatedYet then ''CMD_NOT_CREATED''
      else if err_is e ErrAggregateNotFound then ''CMD_NOT_FOUND''
      else if err_is e ErrStateNotAllowed then ''CMD_STATE_VIOLATION'' else ''CMD_INTERNAL'')"

definition error_message :: "goerr \<Rightarrow> string" where
  "error_message e =
     (if err_is e ErrValidationFailed then err_text e else if err_is e ErrEmptyAggregateId then ''aggregate id is required''
      else if err_is e ErrAlreadyCreated then ''aggregate already exists''
      else if err_is e ErrNotCreatedYet \<or> err_is e ErrAggregateNotFound then ''aggregate not found''
      else if err_is e ErrStateNotAllowed then ''command not allowed in current aggregate state''
      else ''internal error: '' @ err_text e)"

lemma command_error_eq:
  "commandErrorResponse cd rq e = errorResponse cd rq (error_code e) (error_name e) (error_message e) None"
  unfolding commandErrorResponse_def error_code_def error_name_def error_message_def by presburger

lemma error_name_coded: "error_name e \<noteq> []"
  by (simp add: error_name_def)

text \<open>
  What the client makes of the two kinds of response: the message of the handler, and an
  \<open>APIError\<close> with the status, code, message and detail of the handler's error.
\<close>

definition error_answer :: "int \<Rightarrow> string \<Rightarrow> string \<Rightarrow> goerr option \<Rightarrow> goerr" where
  "error_answer status code message cause =
     APIError \<lparr>ae_status = status, ae_code = code, ae_message = message,
       ae_detail = (case cause of None \<Rightarrow> [] | Some e \<Rightarrow> err_text e)\<rparr>"

definition client_reads :: "'s http_client \<Rightarrow> wire_error codec \<Rightarrow> 'q codec \<Rightarrow> 'k response \<Rightarrow> (goerr + 'q) \<Rightarrow> bool" where
  "client_reads cl ecd cd resp v \<longleftrightarrow>
     (\<exists>status b ct. resp = content_response status (string_of_bytes b) ct
      \<and> (if 400 \<le> status then Inl (APIError (parseAPIError ecd status ct b)) else client_unmarshal cd b ct) = v)"

lemma reads_error:
  assumes "faithful UNIV ecd" "acceptsProtobuf rq = (\<not> json)" "400 \<le> status" "code \<noteq> []"
  shows "client_reads cl ecd cd (errorResponse ecd rq status code message cause) (Inl (error_answer status code message cause))"
proof -
  let ?w = "\<lparr>we_code = code, we_message = message, we_detail = (case cause of None \<Rightarrow> [] | Some e \<Rightarrow> err_text e)\<rparr>"
  from marshal_for_client [OF assms(1) UNIV_I assms(2), of ?w] obtain b where
    b: "marshalResponse rq ecd ?w = Inr (b, content_name json)" "(if json then co_from_json ecd b else co_from_proto ecd b) = Inr ?w"
    by blast
  with assms(3,4) show ?thesis
    unfolding client_reads_def
    by (intro exI [of _ status] exI [of _ b] exI [of _ "content_name json"])
      (simp add: errorResponse_def parseAPIError_def content_names error_answer_def)
qed

lemma reads_response:
  assumes "faithful Q cd" "msg \<in> Q" "acceptsProtobuf rq = (\<not> json)"
  shows "client_reads cl ecd cd (respond ecd rq cd code text msg) (Inr msg)"
proof -
  from marshal_for_client [OF assms] obtain b where
    b: "marshalResponse rq cd msg = Inr (b, content_name json)" "(if json then co_from_json cd b else co_from_proto cd b) = Inr msg"
    by blast
  then show ?thesis
    unfolding client_reads_def
    by (intro exI [of _ 200] exI [of _ b] exI [of _ "content_name json"])
      (auto simp: respond_def client_unmarshal_def content_names)
qed

section \<open>A call of the client\<close>

text \<open>Authentication adds header fields at most, and does not fail.\<close>

definition keeps_request :: "auth_provider \<Rightarrow> bool" where
  "keeps_request au \<longleftrightarrow>
     (\<forall>rq. snd (au_authenticate au rq) = None \<and> ou_method (fst (au_authenticate au rq)) = ou_method rq
       \<and> ou_url (fst (au_authenticate au rq)) = ou_url rq \<and> ou_body (fst (au_authenticate au rq)) = ou_body rq
       \<and> (\<forall>k \<in> {''Accept'', ''Content-Type''}. ou_header (fst (au_authenticate au rq)) k = ou_header rq k))"

lemma providers_keep_request: "keeps_request (NewNoAuth actor)" "keeps_request (NewBearerTokenAuth token actor)"
  by (auto simp: keeps_request_def NewNoAuth_def NewBearerTokenAuth_def header_set_def header_names)

definition sent :: "'s http_client \<Rightarrow> out_request \<Rightarrow> out_request" where
  "sent cl rq = fst (au_authenticate (hc_auth cl) rq)"

text \<open>The request as the router gets it behind the net/http adapter.\<close>

definition server_request :: "out_request \<Rightarrow> http_request \<Rightarrow> request" where
  "server_request out hr =
     \<lparr>rq_body = string_of_bytes (ou_body out), rq_path_parameters = (\<lambda>_. None),
      rq_query_parameters = http_queryParams (hr_query hr), rq_headers = http_headers hr\<rparr>"

text \<open>A request with the fields that \<open>Apply\<close> and \<open>getInto\<close> set.\<close>

definition client_request :: "'s http_client \<Rightarrow> string \<Rightarrow> string \<Rightarrow> bytes \<Rightarrow> out_request" where
  "client_request cl meth url body =
     \<lparr>ou_method = meth, ou_url = url,
      ou_header = header_set ''Accept'' (content_name (hc_useJSON cl))
        (if meth = ''POST'' then header_set ''Content-Type'' (content_name (hc_useJSON cl)) (\<lambda>_. []) else (\<lambda>_. [])),
      ou_body = body\<rparr>"

lemma wire_headers:
  assumes "transmits base out hr" "ou_header out (canonical_key x) = [v]" "list_all token_char x"
    "to_lower (canonical_key x) = x" "x \<noteq> ''host''"
  shows "http_headers hr x = Some v"
  using assms by (intro http_headers_lower [of _ _ v "[]"]) (auto simp: transmits_def)

lemma wire_content:
  assumes "keeps_request (hc_auth cl)" "transmits base (sent cl (client_request cl meth url body)) hr"
  shows "acceptsProtobuf (server_request out hr) = (\<not> hc_useJSON cl)"
    "meth = ''POST'' \<Longrightarrow> isProtobufContent (server_request out hr) = (\<not> hc_useJSON cl)"
proof -
  let ?req = "client_request cl meth url body"
  have h: "ou_header (sent cl ?req) ''Accept'' = [content_name (hc_useJSON cl)]"
    "meth = ''POST'' \<Longrightarrow> ou_header (sent cl ?req) ''Content-Type'' = [content_name (hc_useJSON cl)]"
    using assms(1) by (simp_all add: keeps_request_def sent_def client_request_def header_set_def header_names)
  have upper: "http_headers hr ''Accept'' = None" "http_headers hr ''Content-Type'' = None"
    using http_headers_upper [of "''Accept''" hr] http_headers_upper [of "''Content-Type''" hr] by (simp_all add: header_names)
  have "http_headers hr ''accept'' = Some (content_name (hc_useJSON cl))"
    by (rule wire_headers [OF assms(2) _ header_names(10)]) (simp_all add: header_names h)
  with upper show "acceptsProtobuf (server_request out hr) = (\<not> hc_useJSON cl)"
    by (simp add: server_request_def acceptsProtobuf_def header_or_def get_or_empty_def content_names)
  assume "meth = ''POST''"
  from h(2) [OF this] have "http_headers hr ''content-type'' = Some (content_name (hc_useJSON cl))"
    by (intro wire_headers [OF assms(2) _ header_names(11)]) (simp_all add: header_names)
  with upper show "isProtobufContent (server_request out hr) = (\<not> hc_useJSON cl)"
    by (simp add: server_request_def isProtobufContent_def header_or_def get_or_empty_def content_names)
qed

lemma client_call:
  fixes router :: "('s, 'k) router"
  assumes auth: "keeps_request (hc_auth cl)"
    and net: "connected (hc_http cl) base wire order ck router c (sent cl req)"
    and answer: "router_Dispatch router c (ou_method req) (hr_path (wire (sent cl req)))
        (server_request (sent cl req) (wire (sent cl req))) s = (s', resp)"
      "client_reads cl ecd cd resp v"
  shows "client_roundtrip cl ecd cd req s = (s', v)"
proof -
  let ?out = "sent cl req"
  have out: "au_authenticate (hc_auth cl) req = (?out, None)" "ou_method ?out = ou_method req" "ou_url ?out = ou_url req"
    using auth by (simp_all add: keeps_request_def sent_def prod_eq_iff)
  from answer(2) obtain status b ct where resp: "resp = content_response status (string_of_bytes b) ct"
    "(if 400 \<le> status then Inl (APIError (parseAPIError ecd status ct b)) else client_unmarshal cd b ct) = v"
    unfolding client_reads_def by blast
  have net': "he_new_request (hc_http cl) (ou_method req) (ou_url req) = None" "transmits base ?out (wire ?out)"
    "he_do (hc_http cl) ?out s = map_prod id (Inr \<circ> received) (http_WrapRouter order ck router c (wire ?out) s)"
    and keys: "\<And>ct. visits_keys order [''Content-Type'' \<mapsto> ct]"
    using net out by (simp_all add: connected_def)
  have "hr_method (wire ?out) = ou_method req" "hr_body (wire ?out) = Inr (ou_body ?out)"
    using net'(2) out by (simp_all add: transmits_def)
  then have "http_WrapRouter order ck router c (wire ?out) s = (s', write_response order ck resp)"
    using answer(1) by (simp add: http_WrapRouter_def server_request_def)
  with net'(3) have "he_do (hc_http cl) ?out s = (s', Inr (received (write_response order ck resp)))" by simp
  with net'(1) out(1) show ?thesis
    unfolding resp(2) [symmetric] by (simp add: client_roundtrip_def resp(1) received_content [OF keys])
qed

end
