(* ===== verification/OrderHttpClient.thy ===== *)
theory OrderHttpClient
  imports Handlers
begin

text \<open>
  The typed HTTP client that the generator writes for the order aggregate
  (gen/example/app/order/v1/order_v1.protosource.client.pb.go), over the generic client of package
  httpclient; the codecs of the messages are parameters.
\<close>

definition order_routePath :: string where
  "order_routePath = ''example/app/order/v1''"

text \<open>What the generic client learns of an order command by reflection: field 2 is its actor.\<close>

definition order_reflection :: "order_command reflection" where
  "order_reflection = \<lparr>rf_name = order_CommandName, rf_string_field2 = (\<lambda>_. True),
     rf_set_field2 = (\<lambda>c actor. order_with_actor actor c)\<rparr>"

text \<open>\<open>c.c.Apply(ctx, routePath, cmd)\<close>.\<close>

definition order_http_apply ::
    "'s http_client \<Rightarrow> order_codecs \<Rightarrow> order_command \<Rightarrow> 's \<Rightarrow> 's \<times> (goerr + command_response)" where
  "order_http_apply cl cds cmd s =
     client_Apply cl (cd_error cds) order_reflection (cd_command cds (order_CommandName cmd)) (cd_response cds)
       order_routePath cmd s"

definition http_Create ::
    "'s http_client \<Rightarrow> order_codecs \<Rightarrow> string \<Rightarrow> string \<Rightarrow> string \<Rightarrow> 's \<Rightarrow> 's \<times> (goerr + command_response)" where
  "http_Create cl cds i customerId customerName = order_http_apply cl cds (Create i [] customerId customerName)"

definition http_AddItem ::
    "'s http_client \<Rightarrow> order_codecs \<Rightarrow> string \<Rightarrow> line_item option \<Rightarrow> 's \<Rightarrow> 's \<times> (goerr + command_response)" where
  "http_AddItem cl cds i item = order_http_apply cl cds (AddItem i [] item)"

definition http_RemoveItem ::
    "'s http_client \<Rightarrow> order_codecs \<Rightarrow> string \<Rightarrow> string \<Rightarrow> 's \<Rightarrow> 's \<times> (goerr + command_response)" where
  "http_RemoveItem cl cds i itemId = order_http_apply cl cds (RemoveItem i [] itemId)"

definition http_AddTag ::
    "'s http_client \<Rightarrow> order_codecs \<Rightarrow> string \<Rightarrow> tag option \<Rightarrow> 's \<Rightarrow> 's \<times> (goerr + command_response)" where
  "http_AddTag cl cds i tag = order_http_apply cl cds (AddTag i [] tag)"

definition http_RemoveTag ::
    "'s http_client \<Rightarrow> order_codecs \<Rightarrow> string \<Rightarrow> string \<Rightarrow> 's \<Rightarrow> 's \<times> (goerr + command_response)" where
  "http_RemoveTag cl cds i key = order_http_apply cl cds (RemoveTag i [] key)"

definition http_SetShipping ::
    "'s http_client \<Rightarrow> order_codecs \<Rightarrow> string \<Rightarrow> string \<Rightarrow> 's \<Rightarrow> 's \<times> (goerr + command_response)" where
  "http_SetShipping cl cds i shippingAddress = order_http_apply cl cds (SetShipping i [] shippingAddress)"

definition http_SetBilling ::
    "'s http_client \<Rightarrow> order_codecs \<Rightarrow> string \<Rightarrow> billing option \<Rightarrow> 's \<Rightarrow> 's \<times> (goerr + command_response)" where
  "http_SetBilling cl cds i billing = order_http_apply cl cds (SetBilling i [] billing)"

definition http_ClearBilling ::
    "'s http_client \<Rightarrow> order_codecs \<Rightarrow> string \<Rightarrow> 's \<Rightarrow> 's \<times> (goerr + command_response)" where
  "http_ClearBilling cl cds i = order_http_apply cl cds (ClearBilling i [])"

definition http_Place ::
    "'s http_client \<Rightarrow> order_codecs \<Rightarrow> string \<Rightarrow> int64 \<Rightarrow> 's \<Rightarrow> 's \<times> (goerr + command_response)" where
  "http_Place cl cds i placedAt = order_http_apply cl cds (Place i [] placedAt)"

definition http_Cancel ::
    "'s http_client \<Rightarrow> order_codecs \<Rightarrow> string \<Rightarrow> string \<Rightarrow> 's \<Rightarrow> 's \<times> (goerr + command_response)" where
  "http_Cancel cl cds i reason = order_http_apply cl cds (Cancel i [] reason)"

definition http_Load :: "'s http_client \<Rightarrow> order_codecs \<Rightarrow> string \<Rightarrow> 's \<Rightarrow> 's \<times> (goerr + order)" where
  "http_Load cl cds i = client_Load cl (cd_error cds) (cd_order cds) order_routePath i"

definition http_Get :: "'s http_client \<Rightarrow> order_codecs \<Rightarrow> string \<Rightarrow> 's \<Rightarrow> 's \<times> (goerr + order)" where
  "http_Get cl cds i = client_Get cl (cd_error cds) (cd_order cds) order_routePath i"

definition http_History :: "'s http_client \<Rightarrow> order_codecs \<Rightarrow> string \<Rightarrow> 's \<Rightarrow> 's \<times> (goerr + history)" where
  "http_History cl cds i = client_History cl (cd_error cds) (cd_history cds) order_routePath i"

text \<open>The queries; the parameters are listed in the order of \<open>url.Values.Encode\<close>, by their names.\<close>

definition order_http_query ::
    "'s http_client \<Rightarrow> order_codecs \<Rightarrow> (string \<times> string) list \<Rightarrow> 's \<Rightarrow> 's \<times> (goerr + order list)" where
  "order_http_query cl cds params =
     client_Query cl (cd_error cds) (cd_list cds) order_routePath ''by-customer-id'' params"

definition http_QueryByCustomerId ::
    "'s http_client \<Rightarrow> order_codecs \<Rightarrow> string \<Rightarrow> 's \<Rightarrow> 's \<times> (goerr + order list)" where
  "http_QueryByCustomerId cl cds customerId = order_http_query cl cds [(''customer_id'', customerId)]"

definition http_QueryByCustomerIdWithCreateAt ::
    "'s http_client \<Rightarrow> order_codecs \<Rightarrow> string \<Rightarrow> string \<Rightarrow> int64 \<Rightarrow> 's \<Rightarrow> 's \<times> (goerr + order list)" where
  "http_QueryByCustomerIdWithCreateAt cl cds customerId skOp createAt s =
     (if skOp = ''between''
      then (s, Inl (Foreign ''use QueryByCustomerIdBetweenCreateAt for between queries''))
      else order_http_query cl cds
             [(''create_at'', dec_int64 createAt), (''customer_id'', customerId), (''sk_op'', skOp)] s)"

definition http_QueryByCustomerIdBetweenCreateAt ::
    "'s http_client \<Rightarrow> order_codecs \<Rightarrow> string \<Rightarrow> int64 \<Rightarrow> int64 \<Rightarrow> 's \<Rightarrow> 's \<times> (goerr + order list)" where
  "http_QueryByCustomerIdBetweenCreateAt cl cds customerId createAtFrom createAtTo =
     order_http_query cl cds
       [(''create_at'', dec_int64 createAtFrom), (''create_at2'', dec_int64 createAtTo),
        (''customer_id'', customerId), (''sk_op'', ''between'')]"

end
