(* ===== verification/ServiceProperties.thy ===== *)
theory ServiceProperties
  imports Service Examples
begin

text \<open>
  The properties of the order service: nothing is written that was not authorized and attributed,
  and the status of a command's response tells what the command did.
\<close>

section \<open>A concrete service\<close>

text \<open>
  The repository of \<open>Examples\<close> behind a handler: a codec that knows two commands, in which the
  client claims to be eve, an authorizer that takes the user from a header, and an opaque store without rows.
\<close>

definition no_rows :: "'s opaque_ops" where
  "no_rows = \<lparr>op_put = (\<lambda>c s d. (s, None)), op_get = (\<lambda>c s pk sk. Inl (Sentinel ErrNotFound)),
     op_delete = (\<lambda>c s pk sk. (s, None)), op_query = (\<lambda>c s pa pk sa srt opts. Some (Inr []))\<rparr>"

definition fixed_codec :: "'q list \<Rightarrow> 'q codec" where
  "fixed_codec msgs = \<lparr>co_json = (\<lambda>_. Inr [0]), co_proto = (\<lambda>_. Inr [1]),
     co_from_json = (\<lambda>b. Inl (Foreign ''syntax error'')),
     co_from_proto = (\<lambda>b. case b of [x] \<Rightarrow> if unat x < length msgs then Inr (msgs ! unat x) else Inl (Foreign ''bad message'')
                           | _ \<Rightarrow> Inl (Foreign ''bad message''))\<rparr>"

definition ex_codecs :: order_codecs where
  "ex_codecs = \<lparr>cd_command = (\<lambda>m. fixed_codec (filter (\<lambda>c. order_CommandName c = m)
       (map (order_with_actor ''eve'') [ex_create, ex_add]))),
     cd_response = fixed_codec [], cd_order = fixed_codec [], cd_list = fixed_codec [], cd_history = fixed_codec [],
     cd_error = fixed_codec []\<rparr>"

definition ex_authorizer :: authorizer where
  "ex_authorizer c rq f =
     (if get_or_empty (rq_headers rq) ''user'' = [] then Inl (Sentinel ErrUnauthenticated)
      else Inr (WithUserID c (get_or_empty (rq_headers rq) ''user'')))"

definition ex_order_client :: "memory_store order_client" where
  "ex_order_client = NewOrderClient no_rows plain_gzip (\<lambda>_. Inr []) (\<lambda>_. Inr empty_order)"

definition ex_handler :: "clock \<Rightarrow> memory_store order_handler" where
  "ex_handler clk = \<lparr>oh_repo = repository_iface ex_repo clk, oh_client = ex_order_client,
     oh_authorizer = ex_authorizer, oh_codecs = ex_codecs\<rparr>"

lemma ex_handler_New:
  "NewHandler ex_codecs (repository_iface ex_repo clk) ex_order_client (Some ex_authorizer) = Some (ex_handler clk)"
  by (simp add: NewHandler_def ex_handler_def)

definition ex_service :: "clock \<Rightarrow> (memory_store, unit) router" where
  "ex_service clk = NewRouter [RegisterRoutes (ex_handler clk)]"

lemma ex_queries_return: "queries_return ex_order_client"
  by (auto simp: queries_return_def ex_order_client_def NewOrderClient_def SelectOrderByCustomerId_def
      SelectOrderByCustomerIdWithCreateAt_def client_select_def client_select_sorted_def no_rows_def split: sum.split)

lemma fixed_codec_decodes: "unmarshalCommand rq (fixed_codec msgs) = Inr q \<Longrightarrow> q \<in> set msgs"
  by (auto simp: unmarshalCommand_def fixed_codec_def split: list.splits if_splits)

lemma ex_order_service: "order_service (\<lambda>_. None) ex_repo (\<lambda>_. True) ms_log (ex_handler clk0) ex_service"
  using memory_load_history [of ex_repo] ex_event_log ex_queries_return fixed_codec_decodes
  by (fastforce simp: order_service_def ex_service_def ex_handler_def ex_authorizer_def ex_codecs_def live_def
      WithUserID_def split: if_splits)

definition ex_call :: "string \<Rightarrow> string \<Rightarrow> http_call" where
  "ex_call user path = \<lparr>ca_clock = ex_clock, ca_ctx = background, ca_method = ''POST'',
     ca_path = ''/example/app/order/v1/'' @ path,
     ca_request = \<lparr>rq_body = string_of_bytes [0], rq_path_parameters = (\<lambda>_. None), rq_query_parameters = (\<lambda>_. None),
       rq_headers = [''user'' \<mapsto> user]\<rparr>\<rparr>"

section \<open>Properties\<close>

text \<open>
  C11. Nothing is written that was not authorized. In an order service (\<open>order_service\<close>: the handler
  behind a router, on the repository of the orders, with a store whose loads succeed, codecs that
  decode a message as a command of its type, and queries that return) without orders, after any run
  of HTTP requests, of any methods, paths and bodies, whose contexts are not cancelled while they
  are served (the authorizer may extend them), the store holds exactly streams that commands write,
  and every event in them but snapshots comes from a POST request to the path of its command for
  which the authorizer granted the command's function, and carries as actor the user that the
  authorizer put in the context, who is not empty, whatever the body claimed.
\<close>

theorem service_events_attributed:
  assumes "order_service validate r sinv slog h mk"
    and "sinv s" "holds_streams r (slog s) (\<lambda>_. [])"
    and "2 * length qs < 2 ^ 63" "\<forall>q \<in> set qs. live (ca_ctx q)" and "serve_all mk qs s = (s', resps)"
  shows "\<exists>streams. holds_streams r (slog s') streams \<and> (\<forall>i. command_stream r i (streams i))
    \<and> (\<forall>i. \<forall>e \<in> set (streams i). order_is_snapshot e \<or>
        (\<exists>q \<in> set qs. \<exists>c'. ca_method q = ''POST''
           \<and> splitPath (ca_path q) = order_path [to_lower (order_event_command e)]
           \<and> oh_authorizer h (ca_ctx q) (ca_request q) (order_function (order_event_command e)) = Inr c'
           \<and> UserIDFromContext c' = oe_actor e \<and> oe_actor e \<noteq> []))"
proof -
  have "service_streams r h [] (\<lambda>_. [])" by (simp add: service_streams_def empty_stream)
  from service_run [OF assms(1-3) this, of qs] assms(4-6) show ?thesis
    by (fastforce simp: service_streams_def attributed_def)
qed

definition ex_calls :: "http_call list" where
  "ex_calls = [ex_call ''ann'' ''create'', ex_call ''ann'' ''additem'', ex_call '''' ''place'']"

lemma ex_serve:
  "map rs_status (snd (serve_all ex_service ex_calls (memorystore_New 50))) = [200, 200, 401]"
  by code_simp

theorem service_events_attributed_witness:
  "\<exists>streams. holds_streams ex_repo (ms_log (fst (serve_all ex_service ex_calls (memorystore_New 50)))) streams
     \<and> (\<forall>i. \<forall>e \<in> set (streams i). order_is_snapshot e \<or> oe_actor e = ''ann'')
     \<and> map rs_status (snd (serve_all ex_service ex_calls (memorystore_New 50))) = [200, 200, 401]"
proof -
  have start: "holds_streams ex_repo (ms_log (memorystore_New 50)) (\<lambda>_. [])"
    by (simp add: holds_streams_def holds_events_def)
  have len: "2 * length ex_calls < 2 ^ 63" "\<forall>q \<in> set ex_calls. live (ca_ctx q)"
    by (simp_all add: ex_calls_def ex_call_def)
  have ann: "oe_actor e = ''ann''" if "q \<in> set ex_calls" "oe_actor e \<noteq> []"
    "oh_authorizer (ex_handler ex_clock) (ca_ctx q) (ca_request q) f = Inr c'" "UserIDFromContext c' = oe_actor e" for q c' f e
    using that by (auto simp: ex_calls_def ex_call_def ex_handler_def ex_authorizer_def get_or_empty_def split: if_splits)
  from service_events_attributed [OF ex_order_service TrueI start len prod.collapse [symmetric]] ann ex_serve
  show ?thesis by meson
qed

text \<open>
  C12. No route runs without authorization. When the authorizer refuses, every request to a route of
  the orders, command or read, leaves the state as it was, whatever it carries, and its response is
  an error that does not depend on the state, so nothing of it shows: 401 for \<open>ErrUnauthenticated\<close>
  and 403 for \<open>ErrForbidden\<close>. (For other errors the status is one of an error too; the comments of
  the repository do not agree on which.)
\<close>

theorem every_route_authorizes:
  assumes "ro_routes router = ro_routes (NewRouter [RegisterRoutes h])" "\<forall>rq f. oh_authorizer h c rq f = Inl e"
    and "ro_cors router = None \<or> meth \<noteq> ''OPTIONS''" "first_route router meth (splitPath path) \<noteq> None"
  shows "\<exists>resp. (\<forall>s. router_Dispatch router c meth path rq s = (s, resp))
    \<and> 400 \<le> rs_status resp
    \<and> (err_is e ErrUnauthenticated \<longrightarrow> rs_status resp = 401)
    \<and> (err_is e ErrForbidden \<and> \<not> err_is e ErrUnauthenticated \<longrightarrow> rs_status resp = 403)"
proof -
  obtain rt where rt: "first_route router meth (splitPath path) = Some rt" using assms(4) by blast
  then have "rt \<in> set (ro_routes router)" by (auto simp: first_route_def find_Some_iff)
  then have "rt \<in> set (map (command_route h) order_messages @ read_routes h)"
    unfolding assms(1) order_routes .
  then have refused: "rt_handler rt c rq' s = (s, authzErrorResponse (cd_error (oh_codecs h)) rq' e)" for rq' s
    using assms(2) by (auto simp: command_route_def read_routes_def handle_command_def HandleLoad_def HandleGet_def
        HandleHistory_def handle_read_def returning_def HandleQueryByCustomerId_def)
  have "\<exists>rq'. \<forall>s. router_Dispatch router c meth path rq s
      = (s, router_applyCORS router (get_or_empty (rq_headers rq) ''origin'')
              (authzErrorResponse (cd_error (oh_codecs h)) rq' e))"
    using assms(3) rt by (auto simp: router_Dispatch_def Let_def dispatch_loop_spec first_route_def refused)
  then obtain rq' where "\<forall>s. router_Dispatch router c meth path rq s
      = (s, router_applyCORS router (get_or_empty (rq_headers rq) ''origin'')
              (authzErrorResponse (cd_error (oh_codecs h)) rq' e))" ..
  then show ?thesis by (auto simp: authzErrorResponse_def)
qed

definition ex_closed :: "(memory_store, unit) router" where
  "ex_closed = NewRouter [RegisterRoutes ((ex_handler ex_clock)\<lparr>oh_authorizer := (\<lambda>_ _ _. Inl (Sentinel ErrForbidden))\<rparr>)]"

theorem every_route_authorizes_witness:
  "fst (router_Dispatch ex_closed background ''GET'' ''/example/app/order/v1/o1/history'' ex_request ex_store) = ex_store
   \<and> rs_status (snd (router_Dispatch ex_closed background ''GET'' ''/example/app/order/v1/o1/history'' ex_request ex_store)) = 403"
proof -
  let ?h = "(ex_handler ex_clock)\<lparr>oh_authorizer := (\<lambda>_ _ _. Inl (Sentinel ErrForbidden))\<rparr>"
  have r: "ro_routes ex_closed = ro_routes (NewRouter [RegisterRoutes ?h])" by (simp add: ex_closed_def)
  have a: "\<forall>rq f. oh_authorizer ?h background rq f = Inl (Sentinel ErrForbidden)" by simp
  have cors: "ro_cors ex_closed = None \<or> ''GET'' \<noteq> ''OPTIONS''" by simp
  have route: "first_route ex_closed ''GET'' (splitPath ''/example/app/order/v1/o1/history'') \<noteq> None"
    by code_simp
  from every_route_authorizes [OF r a cors route, of ex_request] show ?thesis by auto
qed

text \<open>
  C13. The status of a command tells what it did. For a POST to the path of a command by an authorized
  user with a body that decodes, in a context that is not cancelled and over a store that loads: if
  the serializer and the store refuse none of the events of the command, the streams are extended
  as the abstract machine extends them and the status is that of the table \<open>order_http_status\<close>,
  which is 200 exactly for the commands that the order accepts or that have nothing to do; if one of
  them refuses, nothing is written and the status is that of its error, which is at least 400.
\<close>

theorem command_status_exact:
  assumes svc: "order_service validate r sinv slog h mk"
    and s: "sinv s" "holds_streams r (slog s) streams" "\<forall>i. command_stream r i (streams i)"
    and ctx: "live c" and path: "m \<in> set order_messages" "splitPath path = order_path [to_lower m]"
    and auth: "oh_authorizer h c rq (order_function m) = Inr c'" "UserIDFromContext c' \<noteq> []"
    and body: "unmarshalCommand rq (cd_command (oh_codecs h) m) = Inr cmd0" "oc_id cmd0 \<noteq> []"
    and cmd: "cmd = order_with_actor (UserIDFromContext c') cmd0" and enc: "encodes (cd_response (oh_codecs h))"
    and len: "length (streams (oc_id cmd)) + 2 < 2 ^ 63"
    and abs: "abs_apply order_aggregate order_events (order_commands validate) (clk_micros clk) (streams (oc_id cmd)) cmd
              = (news, out)"
    and run: "router_Dispatch (mk clk) c ''POST'' path rq s = (s', resp :: 'k response)"
  shows "case store_refusal r c' clk (oc_id cmd) (fst (load_aggregate_version r c' s (oc_id cmd))) news of
      None \<Rightarrow> holds_streams r (slog s') (streams(oc_id cmd := streams (oc_id cmd) @ news))
        \<and> rs_status resp = order_http_status validate cmd (streams (oc_id cmd))
    | Some e \<Rightarrow> news \<noteq> [] \<and> holds_streams r (slog s') streams
        \<and> rs_status resp = error_code e \<and> 400 \<le> rs_status resp"
proof -
  note svc' = svc [unfolded order_service_def]
  let ?h = "h\<lparr>oh_repo := repository_iface r clk\<rparr>"
  have store: "event_log_store (rp_store r) sinv slog" and ok: "rp_ok r" and order: "is_order_repository validate r"
    and routes: "ro_routes (mk clk) = ro_routes (NewRouter [RegisterRoutes ?h])" and live: "live c'"
    using svc' auth(1) ctx by blast+
  obtain s1 hs where load: "load_history r c' s (oc_id cmd) = (s1, Inr hs)" using svc' s(1) live by blast
  obtain s2 ws res where ap: "repo_apply r c' clk s (Some cmd) = (s2, ws, res)" by (metis prod_cases3)
  have "ctx_err c' AtEntry = None" "oc_id cmd \<noteq> []" using live body(2) by (simp_all add: live_def cmd)
  from order_apply_streams [OF store ok order s this(1) load len abs ap this(2)]
  have step: "case store_refusal r c' clk (oc_id cmd) (fst (load_aggregate_version r c' s (oc_id cmd))) news of
      None \<Rightarrow> res = out \<and> holds_streams r (slog s2) (streams(oc_id cmd := streams (oc_id cmd) @ news))
    | Some e \<Rightarrow> res = Inl e \<and> news \<noteq> [] \<and> holds_streams r (slog s2) streams" by blast
  obtain resp0 :: "'k response" where "handle_command ?h m c rq s = (s2, resp0)"
      "rs_status resp0 = (case res of Inl e \<Rightarrow> error_code e | Inr v \<Rightarrow> 200)"
    using auth body ap
    by (cases res) (simp_all add: handle_command_def repository_iface_def command_error_status respond_status [OF enc]
        Let_def flip: cmd)
  with run dispatch_command [OF routes path, of c rq s]
  have "s' = s2" "rs_status resp = (case res of Inl e \<Rightarrow> error_code e | Inr v \<Rightarrow> 200)" by auto
  moreover have "400 \<le> error_code e" for e by (simp add: error_code_def)
  ultimately show ?thesis
    using step order_abs_status [OF order s(3) [rule_format] abs] by (auto split: option.splits)
qed

theorem command_status_exact_witness:
  "rs_status (snd (router_Dispatch (ex_service ex_clock) background ''POST'' ''/example/app/order/v1/create''
       (ca_request (ex_call ''ann'' ''create'')) (memorystore_New 50))) = 200
   \<and> holds_streams ex_repo (ms_log (fst (router_Dispatch (ex_service ex_clock) background ''POST''
       ''/example/app/order/v1/create'' (ca_request (ex_call ''ann'' ''create'')) (memorystore_New 50))))
       ((\<lambda>_. [])(''o1'' := [ex_created]))"
proof -
  let ?s = "memorystore_New 50" and ?rq = "ca_request (ex_call ''ann'' ''create'')"
  let ?out = "router_Dispatch (ex_service ex_clock) background ''POST'' ''/example/app/order/v1/create'' ?rq ?s"
  have streams: "holds_streams ex_repo (ms_log ?s) (\<lambda>_. [])" "\<forall>i. command_stream ex_repo i []"
    by (simp_all add: holds_streams_def holds_events_def empty_stream)
  have m: "''Create'' \<in> set order_messages" "splitPath ''/example/app/order/v1/create'' = order_path [to_lower ''Create'']"
    by code_simp+
  have auth: "oh_authorizer (ex_handler ex_clock) background ?rq (order_function ''Create'') = Inr (WithUserID background ''ann'')"
    by (simp add: ex_handler_def ex_authorizer_def ex_call_def get_or_empty_def)
  have body: "unmarshalCommand ?rq (cd_command (oh_codecs (ex_handler ex_clock)) ''Create'') = Inr (order_with_actor ''eve'' ex_create)"
    by code_simp
  have cmd: "ex_create = order_with_actor (UserIDFromContext (WithUserID background ''ann'')) (order_with_actor ''eve'' ex_create)"
    by (simp add: ex_create_def order_with_actor_def)
  have enc: "encodes (cd_response (oh_codecs (ex_handler ex_clock)))"
    by (simp add: encodes_def ex_handler_def ex_codecs_def fixed_codec_def)
  have status: "order_http_status (\<lambda>_. None) ex_create [] = 200" "oc_id ex_create = ''o1''"
    by (simp_all add: order_http_status_def ex_create_def)
  have "marshals ex_repo [ex_created]" using ex_marshals by (simp add: marshals_def)
  then have stored: "store_refusal ex_repo (WithUserID background ''ann'') ex_clock i s [ex_created] = None" for i s
    by (rule memory_refuses_none [OF ex_repo_simps(4) ex_repo_ok]) (simp add: WithUserID_def live_def background_def)
  have id: "oc_id (order_with_actor ''eve'' ex_create) \<noteq> []" "UserIDFromContext (WithUserID background ''ann'') \<noteq> []"
    by (simp_all add: ex_create_def)
  have len: "length ((\<lambda>_. []) (oc_id ex_create)) + 2 < (2 :: nat) ^ 63" by simp
  from command_status_exact [OF ex_order_service TrueI streams live_background m auth id(2) body id(1) cmd enc len
      ex_apply_create prod.collapse [symmetric]]
  show ?thesis by (simp add: stored status)
qed

end
