(* ===== verification/EndToEnd.thy ===== *)
theory EndToEnd
  imports Network OrderHttpClient ServiceProperties
begin

text \<open>
  The client, the network, the adapter, the router, the handler and the repository together: what
  the generic HTTP client's \<open>Apply\<close> returns is what the repository's \<open>Apply\<close> returns.
\<close>

section \<open>Commands\<close>

definition command_url :: "'s http_client \<Rightarrow> order_command \<Rightarrow> string" where
  "command_url cl cmd = hc_baseURL cl @ ''/'' @ order_routePath @ ''/'' @ to_lower (order_CommandName cmd)"

lemma order_routePath_plain: "CHR ''%'' \<notin> set order_routePath" "CHR ''?'' \<notin> set order_routePath"
  by (simp_all add: order_routePath_def)

lemma no_query: "CHR ''?'' \<notin> set s \<Longrightarrow> before_query s = s" "CHR ''?'' \<notin> set s \<Longrightarrow> after_query s = []"
proof -
  assume "CHR ''?'' \<notin> set s"
  then have all: "\<forall>x \<in> set s. x \<noteq> CHR ''?''" by auto
  then show "before_query s = s" by (simp add: before_query_def takeWhile_eq_all_conv)
  from all have "dropWhile (\<lambda>c. c \<noteq> CHR ''?'') s = []" by (simp add: dropWhile_eq_Nil_conv)
  then show "after_query s = []" by (simp only: after_query_def list.sel)
qed

text \<open>What \<open>Apply\<close> sends, and where it arrives.\<close>

lemma client_Apply_call:
  assumes "faithful Q qc" "order_with_actor (au_actor (hc_auth cl)) cmd \<in> Q"
  shows "\<exists>b. (if hc_useJSON cl then co_from_json qc b else co_from_proto qc b) = Inr (order_with_actor (au_actor (hc_auth cl)) cmd)
    \<and> client_Apply cl we order_reflection qc rc order_routePath cmd s
        = client_roundtrip cl we rc (client_request cl ''POST'' (command_url cl cmd) b) s"
proof -
  let ?c = "order_with_actor (au_actor (hc_auth cl)) cmd"
  obtain b1 b2 where b: "co_json qc ?c = Inr b1" "co_proto qc ?c = Inr b2"
    using assms(1) unfolding faithful_def encodes_def by blast
  with assms have "co_from_json qc b1 = Inr ?c" "co_from_proto qc b2 = Inr ?c" by (simp_all add: faithful_def)
  with b show ?thesis
    by (intro exI [of _ "if hc_useJSON cl then b1 else b2"])
      (simp add: client_Apply_def setActorField_def order_reflection_def client_marshal_def client_request_def
        command_url_def content_name_def Let_def)
qed

lemma command_arrives:
  assumes m: "order_CommandName cmd \<in> set order_messages"
    and tr: "transmits (hc_baseURL cl) out hr" "ou_url out = command_url cl cmd"
  shows "splitPath (hr_path hr) = order_path [to_lower (order_CommandName cmd)]"
proof -
  let ?m = "to_lower (order_CommandName cmd)" and ?p = "''/'' @ ''example/app/order/v1'' @ ''/''"
  have "?m \<in> set (map to_lower order_messages)" using m by simp
  then have m: "CHR ''?'' \<notin> set ?m" "CHR ''%'' \<notin> set ?m" "splitPath (?p @ ?m) = order_path [?m]"
    unfolding lower_messages by (auto simp: splitPath_def order_path_def)
  have plain: "CHR ''%'' \<notin> set (?p @ ?m)" "CHR ''?'' \<notin> set (?p @ ?m)" using m by simp_all
  have "path_unescape (before_query (?p @ ?m)) = Some (hr_path hr)"
    using tr by (simp add: transmits_def command_url_def order_routePath_def)
  with path_unescape_no_percent [OF plain(1), of "[]"] no_query(1) [OF plain(2)]
  have "hr_path hr = ?p @ ?m" by simp
  with m(3) show ?thesis by simp
qed

lemma command_end_to_end:
  fixes router :: "('s, 'k) router" and cl :: "'s http_client" and cmd :: order_command
  defines "out \<equiv> \<lambda>b. sent cl (client_request cl ''POST'' (command_url cl cmd) b)"
  assumes routes: "ro_routes router = ro_routes (NewRouter [RegisterRoutes h])" "ro_cors router = None"
    and repo: "oh_repo h = repository_iface r clk"
    and net: "keeps_request (hc_auth cl)" "\<And>b. connected (hc_http cl) (hc_baseURL cl) wire order ck router c (out b)"
    and auth: "\<And>b. oh_authorizer h c (server_request (out b) (wire (out b))) (order_function (order_CommandName cmd)) = Inr c'"
      "UserIDFromContext c' \<noteq> []"
    and codecs: "faithful {q. order_CommandName q = order_CommandName cmd} (cd_command (oh_codecs h) (order_CommandName cmd))"
      "faithful UNIV (cd_response (oh_codecs h))" "faithful UNIV (cd_error (oh_codecs h))"
    and run: "repo_apply r c' clk s (Some (order_with_actor (UserIDFromContext c') cmd)) = (s', ws, res)"
  shows "order_http_apply cl (oh_codecs h) cmd s
    = (s', case res of
        Inr v \<Rightarrow> Inr \<lparr>cr_id = oc_id cmd, cr_version = v\<rparr>
      | Inl e \<Rightarrow> Inl (error_answer (error_code e) (error_name e) (error_message e) None))"
proof -
  let ?cds = "oh_codecs h" and ?m = "order_CommandName cmd" and ?json = "hc_useJSON cl"
  let ?sent = "order_with_actor (au_actor (hc_auth cl)) cmd"
  have m: "?m \<in> set order_messages" by (cases cmd) (simp_all add: order_messages_def)
  have named: "?sent \<in> {q. order_CommandName q = ?m}" by (cases cmd) (simp_all add: order_with_actor_def)
  from client_Apply_call [OF codecs(1) named, where we = "cd_error ?cds" and rc = "cd_response ?cds" and s = s]
  obtain b where b: "(if ?json then co_from_json (cd_command ?cds ?m) b else co_from_proto (cd_command ?cds ?m) b) = Inr ?sent"
    and call: "order_http_apply cl ?cds cmd s
        = client_roundtrip cl (cd_error ?cds) (cd_response ?cds) (client_request cl ''POST'' (command_url cl cmd) b) s"
    unfolding order_http_apply_def by blast
  let ?rq = "server_request (out b) (wire (out b))"
  have out: "ou_body (out b) = b" "ou_url (out b) = command_url cl cmd"
    using net(1) by (simp_all add: keeps_request_def out_def sent_def client_request_def)
  have tr: "transmits (hc_baseURL cl) (out b) (wire (out b))" using net(2) by (simp add: connected_def)
  have o: "out b = sent cl (client_request cl ''POST'' (command_url cl cmd) b)" by (simp add: out_def)
  note content = wire_content [OF net(1) tr [unfolded o], of "out b", folded o]
  have cmd0: "unmarshalCommand ?rq (cd_command ?cds ?m) = Inr ?sent"
    using b content(2) by (cases ?json) (simp_all add: unmarshalCommand_def server_request_def out)
  have actor: "order_with_actor u ?sent = order_with_actor u cmd" "oc_id (order_with_actor u cmd) = oc_id cmd" for u
    by (cases cmd; simp add: order_with_actor_def)+
  let ?resp = "(case res of Inl e \<Rightarrow> commandErrorResponse (cd_error ?cds) ?rq e
      | Inr v \<Rightarrow> respond (cd_error ?cds) ?rq (cd_response ?cds) ''CMD_MARSHAL'' ''failed to serialize response''
          \<lparr>cr_id = oc_id cmd, cr_version = v\<rparr>) :: 'k response"
  have "handle_command h ?m c ?rq s = (s', ?resp)"
    using auth cmd0 run by (cases res) (simp_all add: handle_command_def repository_iface_def repo actor Let_def)
  with dispatch_command [OF routes(1) m command_arrives [OF m tr out(2)], of c ?rq s] routes(2)
  have dispatched: "router_Dispatch router c ''POST'' (hr_path (wire (out b))) ?rq s = (s', ?resp)"
    by (simp add: router_applyCORS_def)
  have "client_reads cl (cd_error ?cds) (cd_response ?cds) ?resp (case res of
        Inr v \<Rightarrow> Inr \<lparr>cr_id = oc_id cmd, cr_version = v\<rparr>
      | Inl e \<Rightarrow> Inl (error_answer (error_code e) (error_name e) (error_message e) None))"
  proof (cases res)
    case (Inl e)
    have "400 \<le> error_code e" by (simp add: error_code_def)
    from reads_error [OF codecs(3) content(1) this error_name_coded] show ?thesis
      unfolding Inl sum.case command_error_eq [of "cd_error ?cds" ?rq e] .
  qed (simp add: reads_response [OF codecs(2) UNIV_I content(1)])
  from client_call [OF net(1) net(2) [of b, unfolded o] _ this, of s s'] dispatched call
  show ?thesis by (simp add: client_request_def o)
qed

text \<open>The bearer token as the authorizer finds it.\<close>

lemma bearer_arrives:
  assumes "hc_auth cl = NewBearerTokenAuth token actor" "transmits base (sent cl rq) hr"
  shows "rq_headers (server_request out hr) ''authorization'' = Some (''Bearer '' @ token)"
proof -
  have "ou_header (sent cl rq) ''Authorization'' = [''Bearer '' @ token]"
    using assms(1) by (simp add: sent_def NewBearerTokenAuth_def header_set_def header_names)
  then have "http_headers hr ''authorization'' = Some (''Bearer '' @ token)"
    by (intro wire_headers [OF assms(2) _ header_names(12)]) (simp_all add: header_names)
  then show ?thesis by (simp add: server_request_def)
qed

section \<open>Property\<close>

text \<open>
  C5. The HTTP client's \<open>Apply\<close> is the repository's. Over a network that carries requests and
  responses as net/http does, a client with a bearer token that the server's authorizer accepts for
  the command, with protobuf or with JSON, does to the state exactly what the repository's \<open>Apply\<close>
  does for the command in the name of the user that the authorizer put in the context, whatever
  actor the client claims; it returns the id and the version when \<open>Apply\<close> succeeds, and an
  \<open>APIError\<close> with the status, code and message of the error when it fails.
\<close>

theorem client_apply_end_to_end:
  fixes router :: "('s, 'k) router"
  assumes routes: "ro_routes router = ro_routes (NewRouter [RegisterRoutes h])" "ro_cors router = None"
    and repo: "oh_repo h = repository_iface r clk"
    and net: "hc_auth cl = NewBearerTokenAuth token actor"
      "\<forall>b. connected (hc_http cl) (hc_baseURL cl) wire order ck router c
             (sent cl (client_request cl ''POST'' (command_url cl cmd) b))"
    and auth: "\<forall>rq. rq_headers rq ''authorization'' = Some (''Bearer '' @ token) \<longrightarrow>
                 oh_authorizer h c rq (order_function (order_CommandName cmd)) = Inr c'" "UserIDFromContext c' \<noteq> []"
    and codecs: "faithful {q. order_CommandName q = order_CommandName cmd} (cd_command (oh_codecs h) (order_CommandName cmd))"
      "faithful UNIV (cd_response (oh_codecs h))" "faithful UNIV (cd_error (oh_codecs h))"
    and run: "repo_apply r c' clk s (Some (order_with_actor (UserIDFromContext c') cmd)) = (s', ws, res)"
  shows "client_Apply cl (cd_error (oh_codecs h)) order_reflection (cd_command (oh_codecs h) (order_CommandName cmd))
      (cd_response (oh_codecs h)) ''example/app/order/v1'' cmd s
    = (s', case res of
        Inr v \<Rightarrow> Inr \<lparr>cr_id = oc_id cmd, cr_version = v\<rparr>
      | Inl e \<Rightarrow> Inl (APIError \<lparr>ae_status = error_code e, ae_code = error_name e, ae_message = error_message e, ae_detail = []\<rparr>))"
proof -
  note keep = providers_keep_request(2) [of token actor, folded net(1)]
  have "oh_authorizer h c (server_request out (wire out)) (order_function (order_CommandName cmd)) = Inr c'"
    if "out = sent cl (client_request cl ''POST'' (command_url cl cmd) b)" for out b
  proof -
    have "transmits (hc_baseURL cl) out (wire out)" using net(2) that by (simp add: connected_def)
    from bearer_arrives [OF net(1) this [unfolded that]] auth(1) that show ?thesis by blast
  qed
  note this [OF refl]
  from command_end_to_end [OF routes repo keep net(2) [rule_format] this auth(2) codecs run] show ?thesis
    by (cases res) (simp_all add: order_http_apply_def order_routePath_def error_answer_def)
qed

section \<open>A concrete network\<close>

text \<open>An encoding of strings: a mark and a byte for each character, and another mark at the end.\<close>

fun put_string :: "string \<Rightarrow> bytes" where
  "put_string [] = [0]"
| "put_string (c # s) = 1 # word_of_nat (of_char c) # put_string s"

fun get_string :: "bytes \<Rightarrow> (string \<times> bytes) option" where
  "get_string (m # b # bs) =
     (if m = 0 then Some ([], b # bs) else map_option (\<lambda>(s, r). (char_of (unat b) # s, r)) (get_string bs))"
| "get_string [m] = (if m = 0 then Some ([], []) else None)"
| "get_string [] = None"

lemma get_put_string: "get_string (put_string s @ bs) = Some (s, bs)"
proof (induction s)
  case Nil
  then show ?case by (cases bs) simp_all
next
  case (Cons c s)
  have "char_of (unat (word_of_nat (of_char c) :: byte)) = c"
    using string_bytes_roundtrip [of "[c]"] by (simp add: string_of_bytes_def bytes_of_string_def)
  with Cons show ?case by simp
qed

fun get_strings :: "nat \<Rightarrow> bytes \<Rightarrow> string list option" where
  "get_strings 0 b = Some []"
| "get_strings (Suc n) b =
     (case get_string b of None \<Rightarrow> None | Some (s, r) \<Rightarrow> map_option ((#) s) (get_strings n r))"

lemma get_put_strings: "get_strings (length ss) (concat (map put_string ss)) = Some ss"
  by (induction ss) (simp_all add: get_put_string)

definition strings_codec :: "nat \<Rightarrow> ('q \<Rightarrow> string list) \<Rightarrow> (string list \<Rightarrow> 'q) \<Rightarrow> 'q codec" where
  "strings_codec n f g =
     (let enc = (\<lambda>m. Inr (concat (map put_string (f m))));
          dec = (\<lambda>b. case get_strings n b of None \<Rightarrow> Inl (Foreign ''bad message'') | Some ss \<Rightarrow> Inr (g ss))
      in \<lparr>co_json = enc, co_proto = enc, co_from_json = dec, co_from_proto = dec\<rparr>)"

lemma strings_codec_faithful:
  assumes "\<And>m. m \<in> Q \<Longrightarrow> length (f m) = n \<and> g (f m) = m"
  shows "faithful Q (strings_codec n f g)"
proof -
  have "get_strings n (concat (map put_string (f m))) = Some (f m)" if "m \<in> Q" for m
    using assms [OF that] get_put_strings [of "f m"] by simp
  with assms show ?thesis by (auto simp: faithful_def encodes_def strings_codec_def Let_def)
qed

text \<open>
  Codecs for the messages of the examples: orders that differ in id and name only, lists of one
  order, and the history of the order \<open>o1\<close>.
\<close>

definition net_order :: order where
  "net_order = empty_order\<lparr>o_id := ''o1'', o_customer_id := ''c1''\<rparr>"

definition string_codecs :: order_codecs where
  "string_codecs = ex_codecs
     \<lparr>cd_command := (\<lambda>m. strings_codec 4
        (\<lambda>q. case q of Create i a c n \<Rightarrow> [i, a, c, n] | _ \<Rightarrow> []) (\<lambda>ss. Create (ss ! 0) (ss ! 1) (ss ! 2) (ss ! 3))),
      cd_response := strings_codec 2 (\<lambda>m. [cr_id m, replicate (unat (cr_version m)) CHR ''x''])
        (\<lambda>ss. \<lparr>cr_id = ss ! 0, cr_version = word_of_nat (length (ss ! 1))\<rparr>),
      cd_error := strings_codec 3 (\<lambda>m. [we_code m, we_message m, we_detail m])
        (\<lambda>ss. \<lparr>we_code = ss ! 0, we_message = ss ! 1, we_detail = ss ! 2\<rparr>),
      cd_order := strings_codec 2 (\<lambda>a. [o_id a, o_customer_name a])
        (\<lambda>ss. ex_order2\<lparr>o_id := ss ! 0, o_customer_name := ss ! 1\<rparr>),
      cd_list := strings_codec 1 (\<lambda>os. [replicate (length os) CHR ''x'']) (\<lambda>ss. replicate (length (ss ! 0)) net_order),
      cd_history := strings_codec 1 (\<lambda>hs. [replicate (length hs) CHR ''x''])
        (\<lambda>ss. take (length (ss ! 0)) (the (ms_events ex_store (qualified_id ex_repo ''o1''))))\<rparr>"

lemma string_codecs_faithful:
  "faithful {q. order_CommandName q = ''Create''} (cd_command string_codecs ''Create'')"
  "faithful UNIV (cd_response string_codecs)" "faithful UNIV (cd_error string_codecs)"
proof -
  have "order_CommandName q = ''Create'' \<Longrightarrow> \<exists>i a c n. q = Create i a c n" for q by (cases q) simp_all
  then show "faithful {q. order_CommandName q = ''Create''} (cd_command string_codecs ''Create'')"
    by (fastforce simp: string_codecs_def intro!: strings_codec_faithful)
  show "faithful UNIV (cd_response string_codecs)" "faithful UNIV (cd_error string_codecs)"
    by (auto simp: string_codecs_def intro!: strings_codec_faithful)
qed

text \<open>An authorizer that knows one token, and a client that has it and claims to be eve.\<close>

definition token_authorizer :: authorizer where
  "token_authorizer c rq f =
     (if rq_headers rq ''authorization'' = Some ''Bearer secret'' then Inr (WithUserID background ''ann'')
      else Inl (Sentinel ErrUnauthenticated))"

definition net_handler :: "memory_store order_handler" where
  "net_handler = (ex_handler ex_clock)\<lparr>oh_authorizer := token_authorizer, oh_codecs := string_codecs,
     oh_client := NewOrderClient (no_rows\<lparr>op_query := (\<lambda>c s pa pk sa srt opts. Some (Inr [empty_opaque]))\<rparr>) plain_gzip
       (\<lambda>_. Inr []) (\<lambda>_. Inr net_order)\<rparr>"

definition net_router :: "(memory_store, unit) router" where
  "net_router = NewRouter [RegisterRoutes net_handler]"

definition net_wire :: "out_request \<Rightarrow> http_request" where
  "net_wire out = \<lparr>hr_method = ou_method out, hr_path = the (path_unescape (before_query (drop (length ''https://h'') (ou_url out)))),
     hr_header = map (\<lambda>k. (k, ou_header out k)) [''Accept'', ''Content-Type'', ''Authorization''],
     hr_host = ''h'', hr_query = ParseQuery (after_query (drop (length ''https://h'') (ou_url out))), hr_path_value = (\<lambda>_. []), hr_body = Inr (ou_body out)\<rparr>"

definition net_http :: "('s, 'k) router \<Rightarrow> 's http_env" where
  "net_http router = \<lparr>he_new_request = (\<lambda>_ _. None),
     he_do = (\<lambda>out s. map_prod id (Inr \<circ> received)
       (http_WrapRouter (\<lambda>_. [''Content-Type'']) (\<lambda>_. []) router background (net_wire out) s))\<rparr>"

definition net_client :: "memory_store http_client" where
  "net_client = \<lparr>hc_http = net_http net_router, hc_baseURL = ''https://h'', hc_useJSON = True,
     hc_auth = NewBearerTokenAuth ''secret'' ''eve''\<rparr>"

lemma net_http_connected:
  assumes "path_unescape (before_query (drop (length ''https://h'') url)) \<noteq> None"
    and "hc_auth cl \<in> {NewBearerTokenAuth token actor, NewNoAuth actor}"
  shows "connected (net_http router) ''https://h'' net_wire (\<lambda>_. [''Content-Type'']) (\<lambda>_. []) router background
     (sent cl (client_request cl meth url body))"
proof -
  have "canonical_key ''Accept'' = ''Accept''" "canonical_key ''Content-Type'' = ''Content-Type''"
    "canonical_key ''Authorization'' = ''Authorization''" by (rule header_names)+
  with assms show ?thesis
    by (auto simp: connected_def net_http_def transmits_def net_wire_def client_request_def sent_def NewBearerTokenAuth_def
        NewNoAuth_def header_set_def visits_keys_def map_of_eq_None_iff split: if_splits)
qed

lemma net_connected:
  assumes "path_unescape (before_query (drop (length ''https://h'') url)) \<noteq> None"
  shows "connected (hc_http net_client) (hc_baseURL net_client) net_wire (\<lambda>_. [''Content-Type'']) (\<lambda>_. []) net_router background
     (sent net_client (client_request net_client meth url body))"
  using net_http_connected [OF assms, of net_client "''secret''" "''eve''"] by (simp add: net_client_def)

lemma net_handler_simps [simp]:
  "oh_repo net_handler = repository_iface ex_repo ex_clock" "oh_authorizer net_handler = token_authorizer"
  "oh_codecs net_handler = string_codecs"
  by (simp_all add: net_handler_def ex_handler_def)

lemma net_routes:
  "ro_routes net_router = ro_routes (NewRouter [RegisterRoutes net_handler])" "ro_cors net_router = None"
  by (simp_all add: net_router_def NewRouter_def RegisterRoutes_def router_Handle_def)

lemma net_auth: "hc_auth net_client = NewBearerTokenAuth ''secret'' ''eve''"
  by (simp add: net_client_def)

lemma net_url: "hc_baseURL net_client = ''https://h''"
  by (simp add: net_client_def)

lemma net_granted: "rq_headers rq ''authorization'' = Some (''Bearer '' @ ''secret'') \<Longrightarrow>
    token_authorizer c rq f = Inr (WithUserID background ''ann'')"
  by (simp add: token_authorizer_def)

theorem client_apply_end_to_end_witness:
  "snd (client_Apply net_client (cd_error string_codecs) order_reflection (cd_command string_codecs ''Create'')
     (cd_response string_codecs) ''example/app/order/v1'' (order_with_actor ''eve'' ex_create) (memorystore_New 50))
   = Inr \<lparr>cr_id = ''o1'', cr_version = 1\<rparr>"
proof -
  let ?h = net_handler
  let ?c = "WithUserID background ''ann''" and ?cmd = "order_with_actor ''eve'' ex_create"
  have name: "order_CommandName ?cmd = ''Create''" by (simp add: ex_create_def)
  have "path_unescape (before_query (drop (length ''https://h'') (command_url net_client ?cmd))) \<noteq> None" by code_simp
  with net_connected have net: "\<forall>b. connected (hc_http net_client) (hc_baseURL net_client) net_wire (\<lambda>_. [''Content-Type''])
      (\<lambda>_. []) net_router background (sent net_client (client_request net_client ''POST'' (command_url net_client ?cmd) b))"
    by blast
  have auth: "\<forall>rq. rq_headers rq ''authorization'' = Some (''Bearer '' @ ''secret'') \<longrightarrow>
      oh_authorizer ?h background rq (order_function (order_CommandName ?cmd)) = Inr ?c" "UserIDFromContext ?c \<noteq> []"
    using net_granted by simp_all
  have codecs: "faithful {q. order_CommandName q = order_CommandName ?cmd} (cd_command (oh_codecs ?h) (order_CommandName ?cmd))"
      "faithful UNIV (cd_response (oh_codecs ?h))" "faithful UNIV (cd_error (oh_codecs ?h))"
    unfolding name using string_codecs_faithful by simp_all
  have res: "snd (snd (repo_apply ex_repo ?c ex_clock (memorystore_New 50) (Some (order_with_actor (UserIDFromContext ?c) ?cmd)))) = Inr 1"
    by code_simp
  let ?out = "repo_apply ex_repo ?c ex_clock (memorystore_New 50) (Some (order_with_actor (UserIDFromContext ?c) ?cmd))"
  have run: "?out = (fst ?out, fst (snd ?out), snd (snd ?out))" by simp
  from client_apply_end_to_end [OF net_routes net_handler_simps(1) net_auth net auth codecs run] res name show ?thesis
    by (simp add: ex_create_def)
qed

end
