(* ===== verification/ReadsEndToEnd.thy ===== *)
theory ReadsEndToEnd
  imports EndToEnd
begin

text \<open>
  The typed client's reads and queries over the network, the adapter, the router and the handlers:
  they return what the repository and the client of the materialized rows return on the server.
\<close>

section \<open>Dispatch of reads\<close>

lemma dispatch_read:
  assumes routes: "ro_routes router = ro_routes (NewRouter [RegisterRoutes h])" "ro_cors router = None"
    and path: "splitPath path = segs" and found: "find (path_match segs) (read_routes h) = Some rt"
  shows "router_Dispatch router c ''GET'' path rq s
    = rt_handler rt c (rq\<lparr>rq_path_parameters := rq_path_parameters rq ++ map_of (rev (bindings (rt_segments rt) segs))\<rparr>) s"
proof -
  have "find (\<lambda>rt. path_match segs rt \<and> rt_method rt = ''GET'') (map (command_route h) ms @ rts)
      = find (\<lambda>rt. path_match segs rt \<and> rt_method rt = ''GET'') rts" for ms rts
    by (induction ms) (simp_all add: command_route_def)
  moreover have "find (\<lambda>rt. path_match segs rt \<and> rt_method rt = ''GET'') (read_routes h) = find (path_match segs) (read_routes h)"
    by (rule find_cong) (auto dest: read_routes_get)
  ultimately have "find (\<lambda>rt. path_match segs rt \<and> rt_method rt = ''GET'') (ro_routes router) = Some rt"
    unfolding routes(1) order_routes using found by metis
  with path routes(2) show ?thesis
    by (simp add: router_Dispatch_def dispatch_loop_spec router_applyCORS_def Let_def split: prod.splits)
qed

lemma read_segments:
  "path_match (order_path us) \<lparr>rt_method = m, rt_segments = order_path vs, rt_handler = f\<rparr> \<longleftrightarrow> list_all2 seg_matches vs us"
  "bindings (order_path vs) (order_path us) = bindings vs us"
  by (simp_all add: path_match_def order_path_def seg_matches_def is_param_def bindings_def)

lemma id_segments:
  "seg_matches ''{id}'' i" "seg_matches ''load'' i = (i = ''load'')" "seg_matches ''history'' i = (i = ''history'')"
  "seg_matches ''query'' i = (i = ''query'')" "seg_matches ''by-customer-id'' i = (i = ''by-customer-id'')"
  by (auto simp: seg_matches_def is_param_def)

lemma find_reads:
  "find (path_match (order_path [''load'', i])) (read_routes h) = Some (read_routes h ! 0)"
  "find (path_match (order_path [i])) (read_routes h) = Some (read_routes h ! 1)"
  "i \<noteq> ''load'' \<Longrightarrow> find (path_match (order_path [i, ''history''])) (read_routes h) = Some (read_routes h ! 2)"
  "find (path_match (order_path [''query'', ''by-customer-id''])) (read_routes h) = Some (read_routes h ! 3)"
  by (auto simp: read_routes_def read_segments id_segments numeral_eq_Suc)

lemma dispatch_reads:
  assumes routes: "ro_routes router = ro_routes (NewRouter [RegisterRoutes h])" "ro_cors router = None"
  shows "splitPath path = order_path [''load'', i] \<Longrightarrow>
      router_Dispatch router c ''GET'' path rq s = HandleLoad h c (rq\<lparr>rq_path_parameters := rq_path_parameters rq ++ [''id'' \<mapsto> i]\<rparr>) s"
    and "splitPath path = order_path [i] \<Longrightarrow>
      router_Dispatch router c ''GET'' path rq s = HandleGet h c (rq\<lparr>rq_path_parameters := rq_path_parameters rq ++ [''id'' \<mapsto> i]\<rparr>) s"
    and "i \<noteq> ''load'' \<Longrightarrow> splitPath path = order_path [i, ''history''] \<Longrightarrow>
      router_Dispatch router c ''GET'' path rq s = HandleHistory h c (rq\<lparr>rq_path_parameters := rq_path_parameters rq ++ [''id'' \<mapsto> i]\<rparr>) s"
    and "splitPath path = order_path [''query'', ''by-customer-id''] \<Longrightarrow>
      router_Dispatch router c ''GET'' path rq s = returning (HandleQueryByCustomerId h) c rq s"
proof -
  have b: "bindings [''load'', ''{id}''] [''load'', i] = [(''id'', i)]" "bindings [''{id}''] [i] = [(''id'', i)]"
    "bindings [''{id}'', ''history''] [i, ''history''] = [(''id'', i)]"
    "bindings [''query'', ''by-customer-id''] [''query'', ''by-customer-id''] = []"
    by (simp_all add: bindings_def is_param_def param_name_def)
  note rt = read_routes_def numeral_eq_Suc read_segments b
  show "splitPath path = order_path [''load'', i] \<Longrightarrow>
      router_Dispatch router c ''GET'' path rq s = HandleLoad h c (rq\<lparr>rq_path_parameters := rq_path_parameters rq ++ [''id'' \<mapsto> i]\<rparr>) s"
    using dispatch_read [OF routes _ find_reads(1)] by (simp add: rt)
  show "splitPath path = order_path [i] \<Longrightarrow>
      router_Dispatch router c ''GET'' path rq s = HandleGet h c (rq\<lparr>rq_path_parameters := rq_path_parameters rq ++ [''id'' \<mapsto> i]\<rparr>) s"
    using dispatch_read [OF routes _ find_reads(2)] by (simp add: rt)
  show "i \<noteq> ''load'' \<Longrightarrow> splitPath path = order_path [i, ''history''] \<Longrightarrow>
      router_Dispatch router c ''GET'' path rq s = HandleHistory h c (rq\<lparr>rq_path_parameters := rq_path_parameters rq ++ [''id'' \<mapsto> i]\<rparr>) s"
    using dispatch_read [OF routes _ find_reads(3)] by (simp add: rt)
  show "splitPath path = order_path [''query'', ''by-customer-id''] \<Longrightarrow>
      router_Dispatch router c ''GET'' path rq s = returning (HandleQueryByCustomerId h) c rq s"
    using dispatch_read [OF routes _ find_reads(4)] by (simp add: rt)
qed

section \<open>Reads by id\<close>

definition read_error :: "string \<Rightarrow> string \<Rightarrow> string \<Rightarrow> sentinel \<Rightarrow> goerr \<Rightarrow> goerr" where
  "read_error pre failed failed_text missing e =
     (if err_is e missing then error_answer 404 (pre @ ''_NOT_FOUND'') ''aggregate not found'' None
      else error_answer 500 (pre @ failed) failed_text (Some e))"

lemma client_getInto_call:
  "client_getInto cl we cd url s = client_roundtrip cl we cd (client_request cl ''GET'' url []) s"
  by (simp add: client_getInto_def client_request_def client_acceptHeader_def content_name_def)

lemma accepts_params: "acceptsProtobuf (rq\<lparr>rq_path_parameters := ps\<rparr>) = acceptsProtobuf rq"
  by (simp add: acceptsProtobuf_def header_or_def Let_def)

lemma read_end_to_end:
  fixes router :: "('s, 'k) router" and cl :: "'s http_client" and url :: string
  defines "out \<equiv> sent cl (client_request cl ''GET'' url [])"
  assumes net: "keeps_request (hc_auth cl)" "connected (hc_http cl) (hc_baseURL cl) wire order ck router c out"
    and dispatched: "\<And>rq. router_Dispatch router c ''GET'' (hr_path (wire out)) rq s
        = handle_read h operation pre failed ft mt missing cd read c
            (rq\<lparr>rq_path_parameters := rq_path_parameters rq ++ [''id'' \<mapsto> i]\<rparr>) s" "pre \<noteq> []" "i \<noteq> []"
    and auth: "\<And>rq. rq_headers rq = http_headers (wire out) \<Longrightarrow> oh_authorizer h c rq (order_function operation) = Inr c'"
    and codecs: "faithful Q cd" "faithful UNIV (cd_error (oh_codecs h))"
    and run: "read c' s i = (s', res)" "\<And>m. res = Inr m \<Longrightarrow> m \<in> Q"
  shows "client_getInto cl (cd_error (oh_codecs h)) cd url s
    = (s', case res of Inl e \<Rightarrow> Inl (read_error pre failed ft missing e) | Inr m \<Rightarrow> Inr m)"
proof -
  let ?ecd = "cd_error (oh_codecs h)"
  define rq where "rq = (server_request out (wire out))\<lparr>rq_path_parameters := [''id'' \<mapsto> i]\<rparr>"
  have "transmits (hc_baseURL cl) out (wire out)" using net(2) by (simp add: connected_def)
  from wire_content(1) [OF net(1) this [unfolded out_def], of out, folded out_def]
  have acc: "acceptsProtobuf rq = (\<not> hc_useJSON cl)" unfolding rq_def accepts_params .
  have i: "extractID rq = i" using dispatched(3) by (simp add: rq_def extractID_def)
  have "rq_headers rq = http_headers (wire out)" by (simp add: rq_def server_request_def)
  note granted = auth [OF this]
  let ?resp = "(case res of
      Inl e \<Rightarrow> if err_is e missing then errorResponse ?ecd rq 404 (pre @ ''_NOT_FOUND'') ''aggregate not found'' None
        else errorResponse ?ecd rq 500 (pre @ failed) ft (Some e)
    | Inr m \<Rightarrow> respond ?ecd rq cd (pre @ ''_MARSHAL'') mt m) :: 'k response"
  have "handle_read h operation pre failed ft mt missing cd read c rq s = (s', ?resp)"
    using granted run(1) dispatched(3) by (cases res) (simp_all add: handle_read_def i Let_def)
  then have handled: "router_Dispatch router c ''GET'' (hr_path (wire out)) (server_request out (wire out)) s = (s', ?resp)"
    unfolding dispatched(1) rq_def by (simp add: server_request_def)
  have "client_reads cl ?ecd cd ?resp (case res of Inl e \<Rightarrow> Inl (read_error pre failed ft missing e) | Inr m \<Rightarrow> Inr m)"
    using dispatched(2) run(2)
    by (cases res) (auto simp: read_error_def intro!: reads_error [OF codecs(2) acc] reads_response [OF codecs(1) _ acc])
  from client_call [OF net(1) net(2) [unfolded out_def] _ this, of s s'] handled show ?thesis
    by (simp add: client_getInto_call client_request_def out_def)
qed

text \<open>The paths at which the reads arrive.\<close>

lemma order_route_split: "splitPath (''/'' @ order_routePath @ ''/'' @ t) = order_path (splitPath t)"
proof -
  have "splitPath order_routePath = order_path []" by code_simp
  then show ?thesis
    using splitPath_append [of order_routePath t] splitPath_slash [of "order_routePath @ ''/'' @ t"] by (simp add: order_path_def)
qed

lemma arrives:
  assumes "transmits base out hr" "ou_url out = base @ ''/'' @ order_routePath @ pre @ PathEscape i @ suf"
    and "CHR ''%'' \<notin> set pre \<union> set suf" "CHR ''?'' \<notin> set pre \<union> set suf"
  shows "hr_path hr = ''/'' @ order_routePath @ pre @ i @ suf"
proof -
  have "CHR ''?'' \<notin> set (''/'' @ order_routePath @ pre @ PathEscape i @ suf)"
    using assms(4) order_routePath_plain(2) PathEscape_no_query by auto
  from no_query(1) [OF this] server_path_decodes [OF order_routePath_plain(1), of pre suf base i] assms(1-3)
  show ?thesis by (simp add: transmits_def server_path_def)
qed

lemma read_paths:
  assumes "transmits base out hr" "i \<noteq> []" "CHR ''/'' \<notin> set i"
  shows "ou_url out = load_url base order_routePath i \<Longrightarrow> splitPath (hr_path hr) = order_path [''load'', i]"
    and "ou_url out = get_url base order_routePath i \<Longrightarrow> splitPath (hr_path hr) = order_path [i]"
    and "ou_url out = history_url base order_routePath i \<Longrightarrow> splitPath (hr_path hr) = order_path [i, ''history'']"
proof -
  have i: "splitPath i = [i]" using assms(2,3) by (rule segments_one)
  have "splitPath (''load/'' @ i) = [''load'', i]" "splitPath (i @ ''/history'') = [i, ''history'']"
    using splitPath_append [of "''load''" i] splitPath_append [of i "''history''"] i by (simp_all add: segments_one)
  note split = this i
  show "ou_url out = load_url base order_routePath i \<Longrightarrow> splitPath (hr_path hr) = order_path [''load'', i]"
    using arrives [OF assms(1), of "''/load/''" i "[]"] order_route_split [of "''load/'' @ i"] split by (simp add: load_url_def)
  show "ou_url out = get_url base order_routePath i \<Longrightarrow> splitPath (hr_path hr) = order_path [i]"
    using arrives [OF assms(1), of "''/''" i "[]"] order_route_split [of i] split by (simp add: get_url_def)
  show "ou_url out = history_url base order_routePath i \<Longrightarrow> splitPath (hr_path hr) = order_path [i, ''history'']"
    using arrives [OF assms(1), of "''/''" i "''/history''"] order_route_split [of "i @ ''/history''"] split
    by (simp add: history_url_def)
qed

lemma typed_reads:
  fixes router :: "('s, 'k) router"
  assumes routes: "ro_routes router = ro_routes (NewRouter [RegisterRoutes h])" "ro_cors router = None"
    and repo: "oh_repo h = repository_iface r clk"
    and net: "hc_auth cl = NewBearerTokenAuth token actor"
      "\<forall>url \<in> {load_url (hc_baseURL cl) order_routePath i, get_url (hc_baseURL cl) order_routePath i,
          history_url (hc_baseURL cl) order_routePath i}.
        connected (hc_http cl) (hc_baseURL cl) wire order ck router c (sent cl (client_request cl ''GET'' url []))"
    and auth: "\<forall>rq. rq_headers rq ''authorization'' = Some (''Bearer '' @ token) \<longrightarrow>
        (\<forall>operation \<in> {''LoadOrder'', ''GetOrder'', ''HistoryOrder''}. oh_authorizer h c rq (order_function operation) = Inr c')"
    and i: "i \<noteq> []" "CHR ''/'' \<notin> set i"
    and codecs: "faithful ({a. snd (repo_load r c' s i) = Inr a} \<union> {a. GetOrder (oh_client h) c' s i = Inr a}) (cd_order (oh_codecs h))"
      "faithful {hs. snd (repo_history r c' s i) = Inr hs} (cd_history (oh_codecs h))" "faithful UNIV (cd_error (oh_codecs h))"
  shows "http_Load cl (oh_codecs h) i s
      = (case repo_load r c' s i of (s', res) \<Rightarrow> (s', case res of Inr a \<Rightarrow> Inr a
          | Inl e \<Rightarrow> Inl (read_error ''LOAD'' ''_FAILED'' ''failed to load aggregate'' ErrAggregateNotFound e)))"
    "http_Get cl (oh_codecs h) i s
      = (s, case GetOrder (oh_client h) c' s i of Inr a \<Rightarrow> Inr a
          | Inl e \<Rightarrow> Inl (read_error ''GET'' ''_FAILED'' ''failed to load aggregate'' ErrNotFound e))"
    "i \<noteq> ''load'' \<Longrightarrow> http_History cl (oh_codecs h) i s
      = (case repo_history r c' s i of (s', res) \<Rightarrow> (s', case res of Inr hs \<Rightarrow> Inr hs
          | Inl e \<Rightarrow> Inl (read_error ''HIST'' ''_LOAD'' ''failed to load history'' ErrAggregateNotFound e)))"
proof -
  note keep = providers_keep_request(2) [of token actor, folded net(1)]
  let ?url = "\<lambda>f. f (hc_baseURL cl) order_routePath i"
  let ?out = "\<lambda>f. sent cl (client_request cl ''GET'' (?url f) [])"
  have ou: "ou_url (sent cl (client_request cl ''GET'' url [])) = url" for url using keep by (simp add: keeps_request_def sent_def client_request_def)
  have n: "connected (hc_http cl) (hc_baseURL cl) wire order ck router c (?out f)"
    "transmits (hc_baseURL cl) (?out f) (wire (?out f))" if "f \<in> {load_url, get_url, history_url}" for f
    using net(2) that by (auto simp: connected_def)
  have granted: "oh_authorizer h c rq (order_function operation) = Inr c'"
    if "f \<in> {load_url, get_url, history_url}" "operation \<in> {''LoadOrder'', ''GetOrder'', ''HistoryOrder''}"
      "rq_headers rq = http_headers (wire (?out f))" for f operation rq
  proof -
    have "rq_headers rq ''authorization'' = Some (''Bearer '' @ token)"
      using bearer_arrives [OF net(1) n(2) [OF that(1)], of undefined] that(3) by (simp add: server_request_def)
    with auth that(2) show ?thesis by blast
  qed
  obtain sl rl sh rh where run: "repo_load r c' s i = (sl, rl)" "repo_history r c' s i = (sh, rh)" by fastforce
  have f: "load_url \<in> {load_url, get_url, history_url}" "get_url \<in> {load_url, get_url, history_url}"
    "history_url \<in> {load_url, get_url, history_url}" by blast+
  have dl: "router_Dispatch router c ''GET'' (hr_path (wire (?out load_url))) rq s
      = HandleLoad h c (rq\<lparr>rq_path_parameters := rq_path_parameters rq ++ [''id'' \<mapsto> i]\<rparr>) s" for rq
    by (rule dispatch_reads(1) [OF routes read_paths(1) [OF n(2) [OF f(1)] i ou]])
  show "http_Load cl (oh_codecs h) i s
      = (case repo_load r c' s i of (s', res) \<Rightarrow> (s', case res of Inr a \<Rightarrow> Inr a
          | Inl e \<Rightarrow> Inl (read_error ''LOAD'' ''_FAILED'' ''failed to load aggregate'' ErrAggregateNotFound e)))"
    using read_end_to_end [OF keep n(1) [OF f(1)] dl [unfolded HandleLoad_def] _ i(1) granted [OF f(1)] codecs(1,3), where s' = sl and res = rl] run
    by (auto simp: http_Load_def client_Load_def repo repository_iface_def split: sum.splits)
  have dg: "router_Dispatch router c ''GET'' (hr_path (wire (?out get_url))) rq s
      = HandleGet h c (rq\<lparr>rq_path_parameters := rq_path_parameters rq ++ [''id'' \<mapsto> i]\<rparr>) s" for rq
    by (rule dispatch_reads(2) [OF routes read_paths(2) [OF n(2) [OF f(2)] i ou]])
  show "http_Get cl (oh_codecs h) i s
      = (s, case GetOrder (oh_client h) c' s i of Inr a \<Rightarrow> Inr a
          | Inl e \<Rightarrow> Inl (read_error ''GET'' ''_FAILED'' ''failed to load aggregate'' ErrNotFound e))"
    using read_end_to_end [OF keep n(1) [OF f(2)] dg [unfolded HandleGet_def] _ i(1) granted [OF f(2)] codecs(1,3), where s' = s and res = "GetOrder (oh_client h) c' s i"]
    by (auto simp: http_Get_def client_Get_def split: sum.splits)
  assume l: "i \<noteq> ''load''"
  have dh: "router_Dispatch router c ''GET'' (hr_path (wire (?out history_url))) rq s
      = HandleHistory h c (rq\<lparr>rq_path_parameters := rq_path_parameters rq ++ [''id'' \<mapsto> i]\<rparr>) s" for rq
    by (rule dispatch_reads(3) [OF routes l read_paths(3) [OF n(2) [OF f(3)] i ou]])
  show "http_History cl (oh_codecs h) i s
      = (case repo_history r c' s i of (s', res) \<Rightarrow> (s', case res of Inr hs \<Rightarrow> Inr hs
          | Inl e \<Rightarrow> Inl (read_error ''HIST'' ''_LOAD'' ''failed to load history'' ErrAggregateNotFound e)))"
    using read_end_to_end [OF keep n(1) [OF f(3)] dh [unfolded HandleHistory_def] _ i(1) granted [OF f(3)] codecs(2,3), where s' = sh and res = rh] run
    by (auto simp: http_History_def client_History_def repo repository_iface_def split: sum.splits)
qed

text \<open>
  C6. The HTTP client's reads are the server's. For every id that is not empty and has no slash,
  \<open>Load\<close>, \<open>Get\<close> and \<open>History\<close> of the typed client (\<open>History\<close> unless the id is \<open>load\<close>) leave the
  state and return the value that the repository's \<open>Load\<close>, the client of the materialized rows
  and the repository's \<open>History\<close> do on the server in the context of the authorizer; a missing
  aggregate is an \<open>APIError\<close> with status 404, any other failure one with status 500 and the error's
  text as its detail.
\<close>

theorem client_reads_end_to_end:
  fixes router :: "('s, 'k) router"
  assumes routes: "ro_routes router = ro_routes (NewRouter [RegisterRoutes h])" "ro_cors router = None"
    and repo: "oh_repo h = repository_iface r clk"
    and net: "hc_auth cl = NewBearerTokenAuth token actor"
      "\<forall>url \<in> {load_url (hc_baseURL cl) order_routePath i, get_url (hc_baseURL cl) order_routePath i,
          history_url (hc_baseURL cl) order_routePath i}.
        connected (hc_http cl) (hc_baseURL cl) wire order ck router c (sent cl (client_request cl ''GET'' url []))"
    and auth: "\<forall>rq. rq_headers rq ''authorization'' = Some (''Bearer '' @ token) \<longrightarrow>
        (\<forall>operation \<in> {''LoadOrder'', ''GetOrder'', ''HistoryOrder''}. oh_authorizer h c rq (order_function operation) = Inr c')"
    and i: "i \<noteq> []" "CHR ''/'' \<notin> set i"
    and codecs: "faithful ({a. snd (repo_load r c' s i) = Inr a} \<union> {a. GetOrder (oh_client h) c' s i = Inr a}) (cd_order (oh_codecs h))"
      "faithful {hs. snd (repo_history r c' s i) = Inr hs} (cd_history (oh_codecs h))" "faithful UNIV (cd_error (oh_codecs h))"
  shows "(http_Load cl (oh_codecs h) i s
      = (case repo_load r c' s i of (s', res) \<Rightarrow> (s', case res of Inr a \<Rightarrow> Inr a
          | Inl e \<Rightarrow> Inl (read_error ''LOAD'' ''_FAILED'' ''failed to load aggregate'' ErrAggregateNotFound e))))
    \<and> (http_Get cl (oh_codecs h) i s
      = (s, case GetOrder (oh_client h) c' s i of Inr a \<Rightarrow> Inr a
          | Inl e \<Rightarrow> Inl (read_error ''GET'' ''_FAILED'' ''failed to load aggregate'' ErrNotFound e)))
    \<and> (i \<noteq> ''load'' \<longrightarrow> http_History cl (oh_codecs h) i s
      = (case repo_history r c' s i of (s', res) \<Rightarrow> (s', case res of Inr hs \<Rightarrow> Inr hs
          | Inl e \<Rightarrow> Inl (read_error ''HIST'' ''_LOAD'' ''failed to load history'' ErrAggregateNotFound e))))"
  by (intro conjI impI typed_reads [OF assms])

section \<open>Queries\<close>

lemma query_params:
  assumes "distinct (map fst vs)"
  shows "http_queryParams (ParseQuery (values_Encode vs)) = map_of vs"
proof -
  have fold: "fold (\<lambda>(k, v) m. if length v > 0 then m(k \<mapsto> v ! 0) else m) (map (\<lambda>(k, v). (k, [v])) us) m = m ++ map_of us"
    if "distinct (map fst us)" for us :: "(string \<times> string) list" and m
    using that
  proof (induction us arbitrary: m)
    case (Cons u us)
    obtain k v where u: "u = (k, v)" by fastforce
    with Cons.prems have "map_of us k = None" by (simp add: map_of_eq_None_iff)
    then have "m(k \<mapsto> v) ++ map_of us = m ++ map_of (u # us)"
      by (auto simp: u map_add_def fun_eq_iff split: option.splits)
    with Cons u show ?case by (simp del: map_of.simps)
  qed simp
  have sorted: "distinct (map fst (sort_key fst vs))" using assms by (simp add: distinct_map)
  then have "http_queryParams (ParseQuery (values_Encode vs)) = map_of (sort_key fst vs)"
    using fold [OF sorted, of "\<lambda>_. None"] unfolding http_queryParams_def ParseQuery_Encode [OF assms] by simp
  also have "\<dots> = map_of vs"
    using assms sorted by (intro map_of_inject_set [THEN iffD2]) auto
  finally show ?thesis .
qed

abbreviation by_customer :: string where
  "by_customer \<equiv> ''by-customer-id''"

lemma query_arrives:
  assumes "transmits base out hr" "ou_url out = query_url base order_routePath by_customer ps" "ps \<noteq> []" "distinct (map fst ps)"
  shows "splitPath (hr_path hr) = order_path [''query'', by_customer]"
    and "http_queryParams (hr_query hr) = map_of ps"
proof -
  have esc: "PathEscape by_customer = by_customer" by code_simp
  let ?p = "''/'' @ order_routePath @ ''/query/'' @ by_customer"
  have url: "drop (length base) (ou_url out) = ?p @ ''?'' @ values_Encode ps"
    using assms(2,3) by (simp add: query_url_def esc)
  have all: "\<forall>c \<in> set ?p. c \<noteq> CHR ''?''" by (auto simp: order_routePath_def)
  have "before_query (?p @ ''?'' @ u) = ?p" "after_query (?p @ ''?'' @ u) = u" for u
    using takeWhile_append2 [of ?p "\<lambda>c. c \<noteq> CHR ''?''" "''?'' @ u"] dropWhile_append2 [of ?p "\<lambda>c. c \<noteq> CHR ''?''" "''?'' @ u"] all
    unfolding before_query_def after_query_def by simp_all
  note cut = this
  have "path_unescape ?p = Some ?p"
    using path_unescape_no_percent [of ?p "[]"] by (simp add: order_routePath_def)
  then have "hr_path hr = ?p" using assms(1) unfolding transmits_def url cut by simp
  moreover have "splitPath ?p = order_path [''query'', by_customer]" by code_simp
  ultimately show "splitPath (hr_path hr) = order_path [''query'', by_customer]" by simp
  have "hr_query hr = ParseQuery (values_Encode ps)" using assms(1) unfolding transmits_def url cut by simp
  with query_params [OF assms(4)] show "http_queryParams (hr_query hr) = map_of ps" by simp
qed

lemma query_end_to_end:
  fixes router :: "('s, 'k) router" and cl :: "'s http_client" and ps :: "(string \<times> string) list"
  defines "out \<equiv> sent cl (client_request cl ''GET'' (query_url (hc_baseURL cl) order_routePath by_customer ps) [])"
  assumes routes: "ro_routes router = ro_routes (NewRouter [RegisterRoutes h])" "ro_cors router = None"
    and net: "keeps_request (hc_auth cl)" "connected (hc_http cl) (hc_baseURL cl) wire order ck router c out"
    and ps: "ps \<noteq> []" "distinct (map fst ps)"
    and handled: "\<And>rq. rq_query_parameters rq = map_of ps \<Longrightarrow> rq_headers rq = http_headers (wire out) \<Longrightarrow>
        acceptsProtobuf rq = (\<not> hc_useJSON cl) \<Longrightarrow>
        \<exists>resp :: 'k response. HandleQueryByCustomerId h c rq s = Some (s, resp)
          \<and> client_reads cl (cd_error (oh_codecs h)) (cd_list (oh_codecs h)) resp v"
  shows "order_http_query cl (oh_codecs h) ps s = (s, v)"
proof -
  have tr: "transmits (hc_baseURL cl) out (wire out)" using net(2) by (simp add: connected_def)
  have url: "ou_url out = query_url (hc_baseURL cl) order_routePath by_customer ps"
    using net(1) by (simp add: keeps_request_def out_def sent_def client_request_def)
  note at = query_arrives [OF tr url ps]
  let ?rq = "server_request out (wire out)"
  have "rq_query_parameters ?rq = map_of ps" "rq_headers ?rq = http_headers (wire out)"
    by (simp_all add: server_request_def at(2))
  moreover have "acceptsProtobuf ?rq = (\<not> hc_useJSON cl)"
    using wire_content(1) [OF net(1) tr [unfolded out_def], of out] by (simp add: out_def)
  ultimately obtain resp :: "'k response" where resp: "HandleQueryByCustomerId h c ?rq s = Some (s, resp)"
    "client_reads cl (cd_error (oh_codecs h)) (cd_list (oh_codecs h)) resp v" using handled by blast
  have "router_Dispatch router c ''GET'' (hr_path (wire out)) ?rq s = (s, resp)"
    unfolding dispatch_reads(4) [OF routes at(1)] returning_def resp(1) by simp
  from client_call [OF net(1) net(2) [unfolded out_def] _ resp(2), of s s] this show ?thesis
    by (simp add: order_http_query_def client_Query_def client_getInto_call client_request_def out_def)
qed

text \<open>What the handler answers when the query that it runs returns \<open>res\<close>.\<close>

definition query_outcome :: "goerr + order list \<Rightarrow> goerr + order list" where
  "query_outcome res =
     (case res of Inl e \<Rightarrow> Inl (error_answer 500 ''QUERY_EXEC'' ''query failed'' (Some e)) | Inr os \<Rightarrow> Inr os)"

lemma query_answer_reads:
  assumes "faithful Q (cd_list cds)" "faithful UNIV (cd_error cds)" "\<And>os. res = Inr os \<Longrightarrow> os \<in> Q"
    and "acceptsProtobuf rq = (\<not> hc_useJSON cl)"
  shows "\<exists>resp. query_answer cds rq (Some res) = Some resp
    \<and> client_reads cl (cd_error cds) (cd_list cds) resp (query_outcome res)"
  using assms(3)
  by (cases res) (auto simp: query_answer_def queryResponse_def query_outcome_def
      intro!: reads_error [OF assms(2,4)] reads_response [OF assms(1) _ assms(4)])

lemma dec_int64_not_Nil: "dec_int64 v \<noteq> []"
  by (simp add: dec_int64_def dec_int_def)

lemma typed_queries:
  fixes router :: "('s, 'k) router"
  assumes routes: "ro_routes router = ro_routes (NewRouter [RegisterRoutes h])" "ro_cors router = None"
    and net: "hc_auth cl = NewBearerTokenAuth token actor"
      "\<forall>ps. connected (hc_http cl) (hc_baseURL cl) wire order ck router c
         (sent cl (client_request cl ''GET'' (query_url (hc_baseURL cl) order_routePath ''by-customer-id'' ps) []))"
    and auth: "\<forall>rq. rq_headers rq ''authorization'' = Some (''Bearer '' @ token) \<longrightarrow>
        oh_authorizer h c rq (order_function ''QueryByCustomerId'') = Inr c'"
    and codecs: "faithful Q (cd_list (oh_codecs h))" "\<forall>os. res = Inr os \<longrightarrow> os \<in> Q" "faithful UNIV (cd_error (oh_codecs h))"
    and customer: "customer \<noteq> []"
  shows "SelectOrderByCustomerId (oh_client h) c' s customer = Some res \<Longrightarrow>
      http_QueryByCustomerId cl (oh_codecs h) customer s = (s, query_outcome res)"
    "parseSortOperator skOp = Some op \<Longrightarrow> op \<noteq> Between \<Longrightarrow>
      SelectOrderByCustomerIdWithCreateAt (oh_client h) c' s customer op [t] = Some res \<Longrightarrow>
      http_QueryByCustomerIdWithCreateAt cl (oh_codecs h) customer skOp t s = (s, query_outcome res)"
    "SelectOrderByCustomerIdWithCreateAt (oh_client h) c' s customer Between [t, t'] = Some res \<Longrightarrow>
      http_QueryByCustomerIdBetweenCreateAt cl (oh_codecs h) customer t t' s = (s, query_outcome res)"
    "parseSortOperator skOp = None \<Longrightarrow> skOp \<noteq> [] \<Longrightarrow>
      http_QueryByCustomerIdWithCreateAt cl (oh_codecs h) customer skOp t s
        = (s, Inl (error_answer 400 ''QUERY_BAD_OP'' (''invalid sort operator: '' @ skOp) None))"
proof -
  note keep = providers_keep_request(2) [of token actor, folded net(1)]
  have granted: "oh_authorizer h c rq (order_function ''QueryByCustomerId'') = Inr c'"
    if "rq_headers rq = http_headers (wire (sent cl (client_request cl ''GET'' (query_url (hc_baseURL cl) order_routePath by_customer ps) [])))"
    for rq ps
  proof -
    from net(2) have "transmits (hc_baseURL cl) (sent cl (client_request cl ''GET'' (query_url (hc_baseURL cl) order_routePath by_customer ps) []))
        (wire (sent cl (client_request cl ''GET'' (query_url (hc_baseURL cl) order_routePath by_customer ps) [])))"
      unfolding connected_def by blast
    from bearer_arrives [OF net(1) this, of undefined] that show ?thesis by (intro auth [rule_format]) (simp add: server_request_def)
  qed
  note call = query_end_to_end [OF routes keep net(2) [rule_format]]
  note answer = query_answer_reads [OF codecs(1,3) codecs(2) [rule_format]]
  have op: "parseSortOperator ''between'' = Some Between" by (simp add: parseSortOperator_def to_lower_def char_lower_def)
  have some_op: "parseSortOperator o' = Some op' \<Longrightarrow> o' \<noteq> []" for o' op' by (auto simp: parseSortOperator_def to_lower_def)
  note handler = HandleQueryByCustomerId_def sort_value_def parseQueryParamString_def parseQueryParamInt64_def get_or_empty_def
    dec_int64_not_Nil customer granted
  show "http_QueryByCustomerId cl (oh_codecs h) customer s = (s, query_outcome res)"
    if "SelectOrderByCustomerId (oh_client h) c' s customer = Some res"
    unfolding http_QueryByCustomerId_def by (rule call) (use that answer in \<open>simp_all add: handler\<close>)
  show "http_QueryByCustomerIdWithCreateAt cl (oh_codecs h) customer skOp t s = (s, query_outcome res)"
    if "parseSortOperator skOp = Some op" "op \<noteq> Between"
      "SelectOrderByCustomerIdWithCreateAt (oh_client h) c' s customer op [t] = Some res"
  proof -
    from that(1,2) op have "skOp \<noteq> ''between''" by auto
    then show ?thesis unfolding http_QueryByCustomerIdWithCreateAt_def
      by (simp, intro call) (use that answer some_op [OF that(1)] in \<open>simp_all add: handler\<close>)
  qed
  show "http_QueryByCustomerIdBetweenCreateAt cl (oh_codecs h) customer t t' s = (s, query_outcome res)"
    if "SelectOrderByCustomerIdWithCreateAt (oh_client h) c' s customer Between [t, t'] = Some res"
    unfolding http_QueryByCustomerIdBetweenCreateAt_def by (rule call) (use that answer op in \<open>simp_all add: handler\<close>)
  show "http_QueryByCustomerIdWithCreateAt cl (oh_codecs h) customer skOp t s
        = (s, Inl (error_answer 400 ''QUERY_BAD_OP'' (''invalid sort operator: '' @ skOp) None))"
    if "parseSortOperator skOp = None" "skOp \<noteq> []"
  proof -
    from that(1) op have "skOp \<noteq> ''between''" by auto
    then show ?thesis unfolding http_QueryByCustomerIdWithCreateAt_def
      by (simp, intro call) (use that in \<open>simp_all add: handler reads_error [OF codecs(3), where json = "hc_useJSON cl"]\<close>)
  qed
qed

text \<open>
  C7. The HTTP client's queries are the server's. For every customer that is not empty, the three
  calls of the typed client leave the state and return the orders that the client of the
  materialized rows selects on the server for the same customer, operator and timestamps (every
  int64), a failure of the select as an \<open>APIError\<close> with status 500; an operator that the server
  does not know is an \<open>APIError\<close> with status 400.
\<close>

theorem client_queries_end_to_end:
  fixes router :: "('s, 'k) router"
  assumes routes: "ro_routes router = ro_routes (NewRouter [RegisterRoutes h])" "ro_cors router = None"
    and net: "hc_auth cl = NewBearerTokenAuth token actor"
      "\<forall>ps. connected (hc_http cl) (hc_baseURL cl) wire order ck router c
         (sent cl (client_request cl ''GET'' (query_url (hc_baseURL cl) order_routePath ''by-customer-id'' ps) []))"
    and auth: "\<forall>rq. rq_headers rq ''authorization'' = Some (''Bearer '' @ token) \<longrightarrow>
        oh_authorizer h c rq (order_function ''QueryByCustomerId'') = Inr c'"
    and codecs: "faithful Q (cd_list (oh_codecs h))" "\<forall>os. res = Inr os \<longrightarrow> os \<in> Q" "faithful UNIV (cd_error (oh_codecs h))"
    and customer: "customer \<noteq> []"
  shows "(SelectOrderByCustomerId (oh_client h) c' s customer = Some res \<longrightarrow>
        http_QueryByCustomerId cl (oh_codecs h) customer s = (s, query_outcome res))
    \<and> (parseSortOperator skOp = Some op \<and> op \<noteq> Between
          \<and> SelectOrderByCustomerIdWithCreateAt (oh_client h) c' s customer op [t] = Some res \<longrightarrow>
        http_QueryByCustomerIdWithCreateAt cl (oh_codecs h) customer skOp t s = (s, query_outcome res))
    \<and> (SelectOrderByCustomerIdWithCreateAt (oh_client h) c' s customer Between [t, t'] = Some res \<longrightarrow>
        http_QueryByCustomerIdBetweenCreateAt cl (oh_codecs h) customer t t' s = (s, query_outcome res))
    \<and> (parseSortOperator skOp = None \<and> skOp \<noteq> [] \<longrightarrow>
        http_QueryByCustomerIdWithCreateAt cl (oh_codecs h) customer skOp t s
          = (s, Inl (error_answer 400 ''QUERY_BAD_OP'' (''invalid sort operator: '' @ skOp) None)))"
  using typed_queries [OF assms] by blast

section \<open>A concrete network\<close>

lemma net_read_urls:
  "\<forall>url \<in> {load_url (hc_baseURL net_client) order_routePath ''o1'', get_url (hc_baseURL net_client) order_routePath ''o1'',
      history_url (hc_baseURL net_client) order_routePath ''o1''}.
    connected (hc_http net_client) (hc_baseURL net_client) net_wire (\<lambda>_. [''Content-Type'']) (\<lambda>_. []) net_router background
      (sent net_client (client_request net_client ''GET'' url []))"
proof -
  have "path_unescape (before_query (drop (length ''https://h'') (load_url ''https://h'' order_routePath ''o1''))) \<noteq> None"
    "path_unescape (before_query (drop (length ''https://h'') (get_url ''https://h'' order_routePath ''o1''))) \<noteq> None"
    "path_unescape (before_query (drop (length ''https://h'') (history_url ''https://h'' order_routePath ''o1''))) \<noteq> None"
    by code_simp+
  then show ?thesis unfolding net_url using net_connected [unfolded net_url] by blast
qed

lemma net_reads:
  "snd (repo_load ex_repo (WithUserID background ''ann'') ex_store ''o1'') = Inr (stream_state order_aggregate [ex_created, ex_added])"
  "snd (repo_history ex_repo (WithUserID background ''ann'') ex_store ''o1'') = Inr (the (ms_events ex_store (qualified_id ex_repo ''o1'')))"
  "GetOrder (oh_client net_handler) (WithUserID background ''ann'') ex_store ''o1''
     = Inl (Wrapped ''OrderClient.GetOrder: opaquedata: not found'' [Sentinel ErrNotFound])"
  by code_simp+

lemma net_selects:
  "SelectOrderByCustomerId (oh_client net_handler) (WithUserID background ''ann'') ex_store ''c1'' = Some (Inr [net_order])"
  "SelectOrderByCustomerIdWithCreateAt (oh_client net_handler) (WithUserID background ''ann'') ex_store ''c1'' Ge [- 5]
     = Some (Inr [net_order])"
  "SelectOrderByCustomerIdWithCreateAt (oh_client net_handler) (WithUserID background ''ann'') ex_store ''c1'' Between [10, 20]
     = Some (Inr [net_order])"
  by code_simp+

theorem client_reads_end_to_end_witness:
  "snd (http_Load net_client string_codecs ''o1'' ex_store) = Inr ex_order2
   \<and> (\<exists>hs. snd (http_History net_client string_codecs ''o1'' ex_store) = Inr hs \<and> length hs = 2)
   \<and> snd (http_Get net_client string_codecs ''o1'' ex_store) = Inl (error_answer 404 ''GET_NOT_FOUND'' ''aggregate not found'' None)"
proof -
  let ?c = "WithUserID background ''ann''" and ?hs = "the (ms_events ex_store (qualified_id ex_repo ''o1''))"
  have auth: "\<forall>rq. rq_headers rq ''authorization'' = Some (''Bearer '' @ ''secret'') \<longrightarrow>
      (\<forall>operation \<in> {''LoadOrder'', ''GetOrder'', ''HistoryOrder''}.
        oh_authorizer net_handler background rq (order_function operation) = Inr ?c)"
    using net_granted by simp
  have i: "''o1'' \<noteq> []" "CHR ''/'' \<notin> set ''o1''" "''o1'' \<noteq> ''load''" by simp_all
  have codecs: "faithful ({a. snd (repo_load ex_repo ?c ex_store ''o1'') = Inr a}
        \<union> {a. GetOrder (oh_client net_handler) ?c ex_store ''o1'' = Inr a}) (cd_order (oh_codecs net_handler))"
      "faithful {hs. snd (repo_history ex_repo ?c ex_store ''o1'') = Inr hs} (cd_history (oh_codecs net_handler))"
      "faithful UNIV (cd_error (oh_codecs net_handler))"
    unfolding net_reads using string_codecs_faithful(3)
    by (auto simp: string_codecs_def ex_order2_def intro!: strings_codec_faithful)
  have len: "length ?hs = 2" by (simp add: ex_store_def ex_repo_def qualified_id_def)
  from client_reads_end_to_end [OF net_routes net_handler_simps(1) net_auth net_read_urls auth i(1,2) codecs] i(3) len
  show ?thesis
    by (simp add: prod_eq_iff net_reads ex_order2_def read_error_def split: prod.split)
qed

lemma net_query_url:
  "path_unescape (before_query (drop (length ''https://h'') (query_url ''https://h'' order_routePath ''by-customer-id'' ps))) \<noteq> None"
proof -
  let ?p = "''/'' @ order_routePath @ ''/query/'' @ PathEscape ''by-customer-id''"
  have "before_query (?p @ u) = ?p @ before_query u" for u
    unfolding before_query_def
    by (rule takeWhile_append2) (use PathEscape_no_query order_routePath_plain(2) in auto)
  then have "before_query (drop (length ''https://h'') (query_url ''https://h'' order_routePath ''by-customer-id'' ps))
      = ?p @ before_query (if length ps > 0 then ''?'' @ values_Encode ps else [])"
    by (simp add: query_url_def)
  also have "\<dots> = ?p" by (simp add: before_query_def)
  finally have cut: "before_query (drop (length ''https://h'') (query_url ''https://h'' order_routePath ''by-customer-id'' ps)) = ?p" .
  have "path_unescape ?p \<noteq> None" by code_simp
  with cut show ?thesis by simp
qed

theorem client_queries_end_to_end_witness:
  "http_QueryByCustomerId net_client string_codecs ''c1'' ex_store = (ex_store, Inr [net_order])
   \<and> http_QueryByCustomerIdWithCreateAt net_client string_codecs ''c1'' ''GE'' (- 5) ex_store = (ex_store, Inr [net_order])
   \<and> http_QueryByCustomerIdBetweenCreateAt net_client string_codecs ''c1'' 10 20 ex_store = (ex_store, Inr [net_order])
   \<and> (\<exists>e. http_QueryByCustomerIdWithCreateAt net_client string_codecs ''c1'' ''like'' 7 ex_store = (ex_store, Inl e))"
proof -
  let ?c = "WithUserID background ''ann''"
  have net: "\<forall>ps. connected (hc_http net_client) (hc_baseURL net_client) net_wire (\<lambda>_. [''Content-Type'']) (\<lambda>_. []) net_router
      background (sent net_client (client_request net_client ''GET'' (query_url (hc_baseURL net_client) order_routePath ''by-customer-id'' ps) []))"
    using net_query_url net_connected [unfolded net_url] unfolding net_url by blast
  have auth: "\<forall>rq. rq_headers rq ''authorization'' = Some (''Bearer '' @ ''secret'') \<longrightarrow>
      oh_authorizer net_handler background rq (order_function ''QueryByCustomerId'') = Inr ?c"
    using net_granted by simp
  have codecs: "faithful {os. set os \<subseteq> {net_order}} (cd_list (oh_codecs net_handler))"
    "\<forall>os. Inr [net_order] = (Inr os :: goerr + order list) \<longrightarrow> os \<in> {os. set os \<subseteq> {net_order}}"
    "faithful UNIV (cd_error (oh_codecs net_handler))"
    using string_codecs_faithful(3)
    by (auto simp: string_codecs_def intro!: strings_codec_faithful replicate_length_same)
  have op: "parseSortOperator ''GE'' = Some Ge" "parseSortOperator ''like'' = None" by code_simp+
  have customer: "''c1'' \<noteq> []" by simp
  note call = client_queries_end_to_end [OF net_routes net_auth net auth codecs customer]
  show ?thesis
    using call [THEN conjunct1, rule_format, OF net_selects(1)]
      call [THEN conjunct2, THEN conjunct1, rule_format, OF conjI [OF op(1) conjI [OF _ net_selects(2)]]]
      call [THEN conjunct2, THEN conjunct2, THEN conjunct1, rule_format, OF net_selects(3)]
      call [THEN conjunct2, THEN conjunct2, THEN conjunct2, rule_format, OF conjI [OF op(2)], of 7]
    by (simp add: query_outcome_def)
qed

end
