(* ===== verification/OrderMgr.thy ===== *)
theory OrderMgr
  imports OrderHttpClient
begin

text \<open>
  ordermgr, the command line tool that the generator writes for the order aggregate
  (gen/example/app/order/v1/ordermgr/main.go). The arguments come without the program name. A
  helper that may end the program by \<open>fatal\<close> returns its message in an \<open>Inl\<close>; a run of the
  program gives the exit code and what was written to the two streams. The environment, the
  default HTTP client and protojson are parameters.
\<close>

section \<open>What a run gives\<close>

record cli_out =
  co_exit :: int
  co_stdout :: string
  co_stderr :: string

abbreviation nl :: string where
  "nl \<equiv> [CHR 0x0A]"

definition fatal :: "string \<Rightarrow> cli_out" where
  "fatal msg = \<lparr>co_exit = 1, co_stdout = [], co_stderr = msg @ nl\<rparr>"

definition prints :: "string \<Rightarrow> cli_out" where
  "prints out = \<lparr>co_exit = 0, co_stdout = out, co_stderr = []\<rparr>"

section \<open>The environment\<close>

text \<open>\<open>any\<close> is \<open>anypb.Any\<close>: its type URL, and what \<open>UnmarshalNew\<close> and the formatter make of it.\<close>

record any_msg =
  an_TypeUrl :: string
  an_format :: "goerr + (goerr + string)"

record 's cli_env =
  ce_Getenv :: "string \<Rightarrow> string"
  ce_user :: "goerr + string"
  ce_Hostname :: "goerr + string"
  ce_http :: "'s http_env"
  ce_codecs :: order_codecs
  ce_item :: "string \<Rightarrow> goerr + line_item"
  ce_tag :: "string \<Rightarrow> goerr + tag"
  ce_billing :: "string \<Rightarrow> goerr + billing"
  ce_format :: "order \<Rightarrow> goerr + string"
  ce_any :: "bytes \<Rightarrow> goerr + any_msg"

definition cli_usage :: string where
  "cli_usage =
     ''Usage: ordermgr [-json] <command> [args]'' @ nl @ nl @ ''Flags:'' @ nl @
     ''  -json              Use JSON serialization (default: protobuf)'' @ nl @ nl @
     ''Commands:'' @ nl @
     ''  create  <id>  <customer_id>  <customer_name>'' @ nl @
     ''  additem  <id>  <item:json>'' @ nl @
     ''  removeitem  <id>  <item_id>'' @ nl @
     ''  addtag  <id>  <tag:json>'' @ nl @
     ''  removetag  <id>  <key>'' @ nl @
     ''  setshipping  <id>  <shipping_address>'' @ nl @
     ''  setbilling  <id>  <billing:json>'' @ nl @
     ''  clearbilling  <id>'' @ nl @
     ''  place  <id>  <placed_at>'' @ nl @
     ''  cancel  <id>  <reason>'' @ nl @
     ''  get      <id>'' @ nl @
     ''  load     <id>'' @ nl @
     ''  history  <id>'' @ nl @
     ''  query by-customer-id <customer_id> [--sk-op=OP --create_at=VAL [--create_at2=VAL]]'' @ nl @
     nl @ ''Actor is derived automatically from the current user and hostname.'' @ nl @ nl @
     ''Environment variables:'' @ nl @
     ''  API_DOMAIN      Base domain for API endpoint (pattern: order-v1.API_DOMAIN)'' @ nl @
     ''  API_ENDPOINT    Full API endpoint URL (fallback if API_DOMAIN not set)'' @ nl"

definition detectActor :: "'s cli_env \<Rightarrow> string" where
  "detectActor env =
     (case ce_user env of Inl e \<Rightarrow> ''unknown'' | Inr u \<Rightarrow> u) @ ''@''
     @ (case ce_Hostname env of Inl e \<Rightarrow> ''unknown'' | Inr h \<Rightarrow> h)"

section \<open>Parsing of arguments\<close>

definition invalid_value :: "string \<Rightarrow> string \<Rightarrow> goerr \<Rightarrow> string" where
  "invalid_value what field e = what @ field @ '': '' @ err_text e"

definition mustParseInt64 :: "string \<Rightarrow> string \<Rightarrow> string + int64" where
  "mustParseInt64 s field =
     (case ParseInt64 s of Inl e \<Rightarrow> Inl (invalid_value ''invalid value for '' field e) | Inr v \<Rightarrow> Inr v)"

definition mustParseJSON :: "(string \<Rightarrow> goerr + 'm) \<Rightarrow> string \<Rightarrow> string \<Rightarrow> string + 'm" where
  "mustParseJSON unmarshal s field =
     (case unmarshal s of Inl e \<Rightarrow> Inl (invalid_value ''invalid JSON for '' field e) | Inr v \<Rightarrow> Inr v)"

record cliFlags =
  fl_positionals :: "string list"
  fl_named :: "string \<Rightarrow> string option"

text \<open>\<open>strings.IndexByte(kv, '=')\<close> and the two parts around it.\<close>

fun cut_at :: "char \<Rightarrow> string \<Rightarrow> (string \<times> string) option" where
  "cut_at c [] = None"
| "cut_at c (x # xs) = (if x = c then Some ([], xs) else map_option (\<lambda>(a, b). (x # a, b)) (cut_at c xs))"

fun parseFlags_loop :: "string list \<Rightarrow> cliFlags \<Rightarrow> string + cliFlags" where
  "parseFlags_loop [] f = Inr f"
| "parseFlags_loop (arg # args) f =
     (if has_prefix arg ''--''
      then (let kv = trim_prefix arg ''--''
            in case cut_at CHR ''='' kv of
                 None \<Rightarrow> Inl (''flag --'' @ kv @ '' requires a value (use --'' @ kv @ ''=VALUE)'')
               | Some (k, v) \<Rightarrow> parseFlags_loop args (f\<lparr>fl_named := (fl_named f)(k \<mapsto> v)\<rparr>))
      else parseFlags_loop args (f\<lparr>fl_positionals := fl_positionals f @ [arg]\<rparr>))"

definition parseFlags :: "string list \<Rightarrow> string + cliFlags" where
  "parseFlags args = parseFlags_loop args \<lparr>fl_positionals = [], fl_named = (\<lambda>_. None)\<rparr>"

definition fl_positional :: "cliFlags \<Rightarrow> nat \<Rightarrow> string \<Rightarrow> string + string" where
  "fl_positional f i name =
     (if i \<ge> length (fl_positionals f) then Inl (''missing required positional argument: '' @ name)
      else Inr (fl_positionals f ! i))"

definition fl_get :: "cliFlags \<Rightarrow> string \<Rightarrow> string" where
  "fl_get f key = (case fl_named f key of None \<Rightarrow> [] | Some v \<Rightarrow> v)"

definition fl_has :: "cliFlags \<Rightarrow> string \<Rightarrow> bool" where
  "fl_has f key \<longleftrightarrow> fl_named f key \<noteq> None"

definition fl_require :: "cliFlags \<Rightarrow> string \<Rightarrow> string + string" where
  "fl_require f key =
     (case fl_named f key of
        None \<Rightarrow> Inl (''missing required flag: --'' @ key)
      | Some v \<Rightarrow> if v = [] then Inl (''missing required flag: --'' @ key) else Inr v)"

section \<open>Printing\<close>

definition printProto :: "'s cli_env \<Rightarrow> order \<Rightarrow> cli_out" where
  "printProto env msg =
     (case ce_format env msg of
        Inl e \<Rightarrow> fatal (''error formatting: '' @ err_text e)
      | Inr b \<Rightarrow> prints (b @ nl))"

text \<open>The part of the type URL after its last dot.\<close>

definition after_last_dot :: "string \<Rightarrow> string" where
  "after_last_dot s = rev (takeWhile (\<lambda>c. c \<noteq> CHR ''.'') (rev s))"

text \<open>The line of one record: on stdout, or an error on stderr.\<close>

definition history_line :: "'s cli_env \<Rightarrow> pb_record \<Rightarrow> string + string" where
  "history_line env rec =
     (let v = ''v'' @ dec_int64 (rec_version rec)
      in case ce_any env (rec_data rec) of
           Inl e \<Rightarrow> Inl (v @ '': error unmarshaling record: '' @ err_text e @ nl)
         | Inr a \<Rightarrow>
             (let typeName = after_last_dot (an_TypeUrl a)
              in case an_format a of
                   Inl e \<Rightarrow> Inl (v @ '' '' @ typeName @ '': error unpacking: '' @ err_text e @ nl)
                 | Inr (Inl e) \<Rightarrow> Inl (v @ '' '' @ typeName @ '': error formatting: '' @ err_text e @ nl)
                 | Inr (Inr b) \<Rightarrow> Inr (v @ '' '' @ typeName @ nl @ b @ nl @ nl)))"

fun history_lines :: "'s cli_env \<Rightarrow> history \<Rightarrow> string \<times> string" where
  "history_lines env [] = ([], [])"
| "history_lines env (rec # recs) =
     (case history_lines env recs of (out, err) \<Rightarrow>
        (case history_line env rec of
           Inl l \<Rightarrow> (out, l @ err)
         | Inr l \<Rightarrow> (l @ out, err)))"

definition printHistory :: "'s cli_env \<Rightarrow> history \<Rightarrow> cli_out" where
  "printHistory env hs =
     (case history_lines env hs of (out, err) \<Rightarrow> \<lparr>co_exit = 0, co_stdout = out, co_stderr = err\<rparr>)"

text \<open>The results, each followed by a comma but the last; what was printed before an error stays.\<close>

fun result_lines :: "'s cli_env \<Rightarrow> order list \<Rightarrow> string \<times> string option" where
  "result_lines env [] = ([], None)"
| "result_lines env (r # rs) =
     (case ce_format env r of
        Inl e \<Rightarrow> ([], Some (''error formatting result: '' @ err_text e))
      | Inr b \<Rightarrow> (case result_lines env rs of
          (out, err) \<Rightarrow> (''  '' @ b @ (if rs \<noteq> [] then '','' else []) @ nl @ out, err)))"

definition printResults :: "'s cli_env \<Rightarrow> order list \<Rightarrow> cli_out" where
  "printResults env results =
     (case result_lines env results of
        (out, Some msg) \<Rightarrow> \<lparr>co_exit = 1, co_stdout = ''['' @ nl @ out, co_stderr = msg @ nl\<rparr>
      | (out, None) \<Rightarrow> prints (''['' @ nl @ out @ '']'' @ nl))"

section \<open>The commands\<close>

text \<open>What is done with the answer of a call: its error is fatal, its value is printed.\<close>

definition finish :: "('v \<Rightarrow> cli_out) \<Rightarrow> 's \<times> (goerr + 'v) \<Rightarrow> 's \<times> cli_out" where
  "finish print answer =
     (case answer of
        (s, Inl e) \<Rightarrow> (s, fatal (''error: '' @ err_text e))
      | (s, Inr v) \<Rightarrow> (s, print v))"

text \<open>\<open>{"id":%q,"version":%d}\<close>.\<close>

definition printResponse :: "command_response \<Rightarrow> cli_out" where
  "printResponse r =
     prints (''{'' @ quoted ''id'' @ '':'' @ Quote (cr_id r) @ '','' @ quoted ''version'' @ '':'' @ dec_int64 (cr_version r)
       @ ''}'' @ nl)"

text \<open>A call whose argument may be bad: then the program ends before the call.\<close>

definition with_arg :: "string + 'v \<Rightarrow> ('v \<Rightarrow> 's \<Rightarrow> 's \<times> cli_out) \<Rightarrow> 's \<Rightarrow> 's \<times> cli_out" where
  "with_arg v k s = (case v of Inl msg \<Rightarrow> (s, fatal msg) | Inr x \<Rightarrow> k x s)"

text \<open>\<open>len(os.Args) != n\<close> counts the program name.\<close>

definition with_args :: "nat \<Rightarrow> string \<Rightarrow> string list \<Rightarrow> ('s \<Rightarrow> 's \<times> cli_out) \<Rightarrow> 's \<Rightarrow> 's \<times> cli_out" where
  "with_args n usage args k s =
     (if Suc (length args) \<noteq> n then (s, fatal (''usage: ordermgr '' @ usage)) else k s)"

definition query_by_customer ::
    "'s cli_env \<Rightarrow> 's http_client \<Rightarrow> cliFlags \<Rightarrow> 's \<Rightarrow> 's \<times> cli_out" where
  "query_by_customer env cl flags =
     with_arg (fl_positional flags 0 ''customer_id'') (\<lambda>customer_id.
       let skOp = fl_get flags ''sk-op'' in
       if skOp = [] then
         (\<lambda>s. if fl_has flags ''create_at'' \<or> fl_has flags ''create_at2''
              then (s, fatal ''--create_at requires --sk-op to be set'')
              else finish (printResults env) (http_QueryByCustomerId cl (ce_codecs env) customer_id s))
       else if skOp = ''between'' then
         with_arg (fl_require flags ''create_at'') (\<lambda>v1. with_arg (fl_require flags ''create_at2'') (\<lambda>v2.
         with_arg (mustParseInt64 v1 ''create_at'') (\<lambda>t1. with_arg (mustParseInt64 v2 ''create_at2'') (\<lambda>t2.
           (\<lambda>s. finish (printResults env)
             (http_QueryByCustomerIdBetweenCreateAt cl (ce_codecs env) customer_id t1 t2 s))))))
       else
         with_arg (fl_require flags ''create_at'') (\<lambda>v1. with_arg (mustParseInt64 v1 ''create_at'') (\<lambda>t1.
           (\<lambda>s. finish (printResults env)
             (http_QueryByCustomerIdWithCreateAt cl (ce_codecs env) customer_id skOp t1 s)))))"

text \<open>The switch on the command.\<close>

definition ordermgr_switch :: "'s cli_env \<Rightarrow> 's http_client \<Rightarrow> string list \<Rightarrow> 's \<Rightarrow> 's \<times> cli_out" where
  "ordermgr_switch env cl args =
     (let cds = ce_codecs env; subcmd = args ! 0; arg = (\<lambda>i. args ! (i - 1)); respond = finish printResponse in
      if subcmd = ''create'' then
        with_args 5 ''create <id> <customer_id> <customer_name>'' args
          (\<lambda>s. respond (http_Create cl cds (arg 2) (arg 3) (arg 4) s))
      else if subcmd = ''additem'' then
        with_args 4 ''additem <id> <item:json>'' args
          (with_arg (mustParseJSON (ce_item env) (arg 3) ''item'')
            (\<lambda>item s. respond (http_AddItem cl cds (arg 2) (Some item) s)))
      else if subcmd = ''removeitem'' then
        with_args 4 ''removeitem <id> <item_id>'' args
          (\<lambda>s. respond (http_RemoveItem cl cds (arg 2) (arg 3) s))
      else if subcmd = ''addtag'' then
        with_args 4 ''addtag <id> <tag:json>'' args
          (with_arg (mustParseJSON (ce_tag env) (arg 3) ''tag'')
            (\<lambda>tag s. respond (http_AddTag cl cds (arg 2) (Some tag) s)))
      else if subcmd = ''removetag'' then
        with_args 4 ''removetag <id> <key>'' args
          (\<lambda>s. respond (http_RemoveTag cl cds (arg 2) (arg 3) s))
      else if subcmd = ''setshipping'' then
        with_args 4 ''setshipping <id> <shipping_address>'' args
          (\<lambda>s. respond (http_SetShipping cl cds (arg 2) (arg 3) s))
      else if subcmd = ''setbilling'' then
        with_args 4 ''setbilling <id> <billing:json>'' args
          (with_arg (mustParseJSON (ce_billing env) (arg 3) ''billing'')
            (\<lambda>billing s. respond (http_SetBilling cl cds (arg 2) (Some billing) s)))
      else if subcmd = ''clearbilling'' then
        with_args 3 ''clearbilling <id>'' args
          (\<lambda>s. respond (http_ClearBilling cl cds (arg 2) s))
      else if subcmd = ''place'' then
        with_args 4 ''place <id> <placed_at>'' args
          (with_arg (mustParseInt64 (arg 3) ''placed_at'')
            (\<lambda>placed_at s. respond (http_Place cl cds (arg 2) placed_at s)))
      else if subcmd = ''cancel'' then
        with_args 4 ''cancel <id> <reason>'' args
          (\<lambda>s. respond (http_Cancel cl cds (arg 2) (arg 3) s))
      else if subcmd = ''get'' then
        with_args 3 ''get <id>'' args (\<lambda>s. finish (printProto env) (http_Get cl cds (arg 2) s))
      else if subcmd = ''load'' then
        with_args 3 ''load <id>'' args (\<lambda>s. finish (printProto env) (http_Load cl cds (arg 2) s))
      else if subcmd = ''history'' then
        with_args 3 ''history <id>'' args (\<lambda>s. finish (printHistory env) (http_History cl cds (arg 2) s))
      else if subcmd = ''query'' then
        (\<lambda>s. if Suc (length args) < 3
             then (s, fatal ''usage: ordermgr query <query-name> <pk-values...> [--sk-op=OP --field=VAL]'')
             else with_arg (parseFlags (drop 2 args)) (\<lambda>flags.
               if arg 2 = ''by-customer-id'' then query_by_customer env cl flags
               else (\<lambda>s. (s, fatal (''unknown query: '' @ arg 2)))) s)
      else (\<lambda>s. (s, fatal (''unknown command: '' @ subcmd @ nl @ nl @ cli_usage))))"

section \<open>The program\<close>

text \<open>The loop over the flags before the command; \<open>None\<close> for an unknown one.\<close>

fun ordermgr_flags :: "bool \<Rightarrow> string list \<Rightarrow> (bool \<times> string list) option" where
  "ordermgr_flags useJSON [] = Some (useJSON, [])"
| "ordermgr_flags useJSON (arg # args) =
     (if has_prefix arg ''-''
      then (if arg = ''-json'' then ordermgr_flags True args else None)
      else Some (useJSON, arg # args))"

definition api_endpoint :: "'s cli_env \<Rightarrow> string option" where
  "api_endpoint env =
     (if ce_Getenv env ''API_DOMAIN'' \<noteq> [] then Some (''https://order-v1.'' @ ce_Getenv env ''API_DOMAIN'')
      else if ce_Getenv env ''API_ENDPOINT'' \<noteq> [] then Some (ce_Getenv env ''API_ENDPOINT'')
      else None)"

definition ordermgr_main :: "'s cli_env \<Rightarrow> string list \<Rightarrow> 's \<Rightarrow> 's \<times> cli_out" where
  "ordermgr_main env osArgs s =
     (case ordermgr_flags False osArgs of
        None \<Rightarrow> (s, fatal cli_usage)
      | Some (useJSON, args) \<Rightarrow>
          if args = [] then (s, fatal cli_usage)
          else (case api_endpoint env of
              None \<Rightarrow> (s, fatal ''Neither API_DOMAIN nor API_ENDPOINT is defined'')
            | Some apiEndpoint \<Rightarrow>
                (case httpclient_New (ce_http env) apiEndpoint (Some (NewNoAuth (detectActor env)))
                        (if useJSON then [WithJSON] else []) of
                   None \<Rightarrow> (s, fatal [])
                 | Some cl \<Rightarrow> ordermgr_switch env cl args s)))"

end
