(* ===== verification/OrderMgrProperties.thy ===== *)
theory OrderMgrProperties
  imports EndToEnd OrderMgr
begin

text \<open>
  The properties of ordermgr: a correct command line does on the server exactly the command it
  names, a wrong one sends nothing, and flags may come in any order.
\<close>

section \<open>The commands of the program\<close>

text \<open>The table of the usage text: the command that the arguments stand for.\<close>

definition cli_command :: "'s cli_env \<Rightarrow> string list \<Rightarrow> order_command option" where
  "cli_command env args =
     (case args of
        [n, i] \<Rightarrow> if n = ''clearbilling'' then Some (ClearBilling i []) else None
      | [n, i, a] \<Rightarrow>
          if n = ''additem'' then (case ce_item env a of Inl e \<Rightarrow> None | Inr v \<Rightarrow> Some (AddItem i [] (Some v)))
          else if n = ''removeitem'' then Some (RemoveItem i [] a)
          else if n = ''addtag'' then (case ce_tag env a of Inl e \<Rightarrow> None | Inr v \<Rightarrow> Some (AddTag i [] (Some v)))
          else if n = ''removetag'' then Some (RemoveTag i [] a)
          else if n = ''setshipping'' then Some (SetShipping i [] a)
          else if n = ''setbilling'' then (case ce_billing env a of Inl e \<Rightarrow> None | Inr v \<Rightarrow> Some (SetBilling i [] (Some v)))
          else if n = ''place'' then (case ParseInt64 a of Inl e \<Rightarrow> None | Inr v \<Rightarrow> Some (Place i [] v))
          else if n = ''cancel'' then Some (Cancel i [] a)
          else None
      | [n, i, a, b] \<Rightarrow> if n = ''create'' then Some (Create i [] a b) else None
      | _ \<Rightarrow> None)"

definition cli_reads :: "string list" where
  "cli_reads = [''get'', ''load'', ''history'', ''query'']"

lemmas http_commands = http_Create_def http_AddItem_def http_RemoveItem_def http_AddTag_def http_RemoveTag_def
  http_SetShipping_def http_SetBilling_def http_ClearBilling_def http_Place_def http_Cancel_def

lemmas cli_arguments = with_args_def with_arg_def mustParseJSON_def mustParseInt64_def

text \<open>The switch at each of its names.\<close>

lemma switch_at:
  "ordermgr_switch env cl (''create'' # as) = with_args 5 ''create <id> <customer_id> <customer_name>'' (''create'' # as)
     (\<lambda>s. finish printResponse (http_Create cl (ce_codecs env) (as ! 0) (as ! 1) (as ! 2) s))"
  "ordermgr_switch env cl (''additem'' # as) = with_args 4 ''additem <id> <item:json>'' (''additem'' # as)
     (with_arg (mustParseJSON (ce_item env) (as ! 1) ''item'')
       (\<lambda>item s. finish printResponse (http_AddItem cl (ce_codecs env) (as ! 0) (Some item) s)))"
  "ordermgr_switch env cl (''removeitem'' # as) = with_args 4 ''removeitem <id> <item_id>'' (''removeitem'' # as)
     (\<lambda>s. finish printResponse (http_RemoveItem cl (ce_codecs env) (as ! 0) (as ! 1) s))"
  "ordermgr_switch env cl (''addtag'' # as) = with_args 4 ''addtag <id> <tag:json>'' (''addtag'' # as)
     (with_arg (mustParseJSON (ce_tag env) (as ! 1) ''tag'')
       (\<lambda>tag s. finish printResponse (http_AddTag cl (ce_codecs env) (as ! 0) (Some tag) s)))"
  "ordermgr_switch env cl (''removetag'' # as) = with_args 4 ''removetag <id> <key>'' (''removetag'' # as)
     (\<lambda>s. finish printResponse (http_RemoveTag cl (ce_codecs env) (as ! 0) (as ! 1) s))"
  "ordermgr_switch env cl (''setshipping'' # as) = with_args 4 ''setshipping <id> <shipping_address>'' (''setshipping'' # as)
     (\<lambda>s. finish printResponse (http_SetShipping cl (ce_codecs env) (as ! 0) (as ! 1) s))"
  "ordermgr_switch env cl (''setbilling'' # as) = with_args 4 ''setbilling <id> <billing:json>'' (''setbilling'' # as)
     (with_arg (mustParseJSON (ce_billing env) (as ! 1) ''billing'')
       (\<lambda>billing s. finish printResponse (http_SetBilling cl (ce_codecs env) (as ! 0) (Some billing) s)))"
  "ordermgr_switch env cl (''clearbilling'' # as) = with_args 3 ''clearbilling <id>'' (''clearbilling'' # as)
     (\<lambda>s. finish printResponse (http_ClearBilling cl (ce_codecs env) (as ! 0) s))"
  "ordermgr_switch env cl (''place'' # as) = with_args 4 ''place <id> <placed_at>'' (''place'' # as)
     (with_arg (mustParseInt64 (as ! 1) ''placed_at'')
       (\<lambda>placed_at s. finish printResponse (http_Place cl (ce_codecs env) (as ! 0) placed_at s)))"
  "ordermgr_switch env cl (''cancel'' # as) = with_args 4 ''cancel <id> <reason>'' (''cancel'' # as)
     (\<lambda>s. finish printResponse (http_Cancel cl (ce_codecs env) (as ! 0) (as ! 1) s))"
  by (simp_all add: ordermgr_switch_def numeral_eq_Suc)

lemma cli_at:
  "cli_command env [''additem'', i, a] = (case ce_item env a of Inl e \<Rightarrow> None | Inr v \<Rightarrow> Some (AddItem i [] (Some v)))"
  "cli_command env [''removeitem'', i, a] = Some (RemoveItem i [] a)"
  "cli_command env [''addtag'', i, a] = (case ce_tag env a of Inl e \<Rightarrow> None | Inr v \<Rightarrow> Some (AddTag i [] (Some v)))"
  "cli_command env [''removetag'', i, a] = Some (RemoveTag i [] a)"
  "cli_command env [''setshipping'', i, a] = Some (SetShipping i [] a)"
  "cli_command env [''setbilling'', i, a] = (case ce_billing env a of Inl e \<Rightarrow> None | Inr v \<Rightarrow> Some (SetBilling i [] (Some v)))"
  "cli_command env [''place'', i, a] = (case ParseInt64 a of Inl e \<Rightarrow> None | Inr v \<Rightarrow> Some (Place i [] v))"
  "cli_command env [''cancel'', i, a] = Some (Cancel i [] a)"
  by (simp_all add: cli_command_def)

lemma switch_command:
  assumes "cli_command env args = Some cmd"
  shows "ordermgr_switch env cl args s = finish printResponse (order_http_apply cl (ce_codecs env) cmd s)"
proof -
  note arguments = with_args_def with_arg_def mustParseJSON_def mustParseInt64_def http_commands
  consider i where "args = [''clearbilling'', i]" "cmd = ClearBilling i []"
    | i a b where "args = [''create'', i, a, b]" "cmd = Create i [] a b"
    | n i a where "args = [n, i, a]"
    using assms by (auto simp: cli_command_def split: list.splits if_splits)
  then show ?thesis
  proof cases
    case 1
    then show ?thesis by (simp add: switch_at arguments)
  next
    case 2
    then show ?thesis by (simp add: switch_at arguments)
  next
    case (3 n i a)
    have "n \<in> {''additem'', ''removeitem'', ''addtag'', ''removetag'', ''setshipping'', ''setbilling'', ''place'', ''cancel''}"
      using assms unfolding 3 cli_command_def by (simp split: if_splits)
    then have "n = ''additem'' \<or> n = ''removeitem'' \<or> n = ''addtag'' \<or> n = ''removetag'' \<or> n = ''setshipping''
        \<or> n = ''setbilling'' \<or> n = ''place'' \<or> n = ''cancel''"
      unfolding insert_iff empty_iff simp_thms .
    then show ?thesis
      using assms unfolding 3
      by (elim disjE; hypsubst; simp add: cli_at switch_at arguments split: sum.splits)
  qed
qed

definition cli_commands :: "string list" where
  "cli_commands = [''create'', ''additem'', ''removeitem'', ''addtag'', ''removetag'', ''setshipping'', ''setbilling'',
     ''clearbilling'', ''place'', ''cancel'']"

lemma switch_unknown:
  "n \<notin> set cli_commands \<union> set cli_reads \<Longrightarrow>
     ordermgr_switch env cl (n # as) s = (s, fatal (''unknown command: '' @ n @ nl @ nl @ cli_usage))"
  by (simp add: ordermgr_switch_def cli_commands_def cli_reads_def)

lemma cli_one:
  "cli_command env [''clearbilling'', i] = Some (ClearBilling i [])"
  "cli_command env [''create'', i, a, b] = Some (Create i [] a b)"
  by (simp_all add: cli_command_def)

text \<open>A run that sends nothing, prints nothing to stdout and fails.\<close>

definition refuses :: "'s \<Rightarrow> 's \<times> cli_out \<Rightarrow> bool" where
  "refuses s r \<longleftrightarrow> fst r = s \<and> co_exit (snd r) = 1 \<and> co_stdout (snd r) = []"

lemma refused: "refuses s (s, fatal msg)"
  by (simp add: refuses_def fatal_def)

lemma length_cases:
  "length as = 1 \<Longrightarrow> \<exists>i. as = [i]" "length as = 2 \<Longrightarrow> \<exists>i a. as = [i, a]" "length as = 3 \<Longrightarrow> \<exists>i a b. as = [i, a, b]"
  by (auto simp: length_Suc_conv numeral_eq_Suc)

lemma switch_no_command:
  assumes "cli_command env (n # as) = None" "n \<notin> set cli_reads"
  shows "refuses s (ordermgr_switch env cl (n # as) s)"
proof (cases "n \<in> set cli_commands")
  case False
  with assms(2) switch_unknown [of n env cl as s] show ?thesis by (simp add: refused)
next
  case True
  note bad = refused with_args_def with_arg_def mustParseJSON_def mustParseInt64_def
  consider "length as \<noteq> 1" "length as \<noteq> 2" "length as \<noteq> 3" | i where "as = [i]" | i a b where "as = [i, a, b]"
    | i a where "as = [i, a]" using length_cases [of as] by blast
  then show ?thesis
    using True [unfolded cli_commands_def list.set insert_iff empty_iff simp_thms] assms(1)
    by cases (elim disjE; hypsubst; simp add: cli_one cli_at switch_at bad split: sum.splits)+
qed

section \<open>The program\<close>

definition mgr_client :: "'s cli_env \<Rightarrow> string \<Rightarrow> bool \<Rightarrow> 's http_client" where
  "mgr_client env url json =
     \<lparr>hc_http = ce_http env, hc_baseURL = trim_right_slashes url, hc_useJSON = json, hc_auth = NewNoAuth (detectActor env)\<rparr>"

lemma main_switch:
  assumes "ordermgr_flags False osArgs = Some (json, args)" "args \<noteq> []" "api_endpoint env = Some url"
  shows "ordermgr_main env osArgs s = ordermgr_switch env (mgr_client env url json) args s"
  using assms by (simp add: ordermgr_main_def mgr_client_def httpclient_New_def WithJSON_def)

lemma flags_plain: "hd args \<in> set cli_commands \<Longrightarrow> args \<noteq> [] \<Longrightarrow> ordermgr_flags json args = Some (json, args)"
  by (cases args) (auto simp: cli_commands_def has_prefix_def)

lemma cli_command_name:
  assumes "cli_command env args = Some cmd"
  shows "args \<noteq> [] \<and> hd args \<in> set cli_commands"
proof (cases args)
  case (Cons n as)
  have "n \<in> set cli_commands"
  proof (rule ccontr)
    assume "n \<notin> set cli_commands"
    with assms Cons show False by (auto simp: cli_commands_def cli_command_def split: list.splits)
  qed
  with Cons show ?thesis by simp
qed (use assms in \<open>simp add: cli_command_def\<close>)

section \<open>The queries of the program\<close>

datatype cli_query =
    ByCustomer string
  | ByCustomerAt string string int64
  | ByCustomerBetween string int64 int64

definition int_flag :: "cliFlags \<Rightarrow> string \<Rightarrow> int64 option" where
  "int_flag f key = (case fl_named f key of None \<Rightarrow> None | Some v \<Rightarrow> (case ParseInt64 v of Inl e \<Rightarrow> None | Inr t \<Rightarrow> Some t))"

text \<open>The query that parsed flags stand for.\<close>

definition query_of :: "cliFlags \<Rightarrow> cli_query option" where
  "query_of f =
     (case fl_positionals f of
        [] \<Rightarrow> None
      | customer # _ \<Rightarrow>
          let op = fl_get f ''sk-op'' in
          if op = [] then (if fl_has f ''create_at'' \<or> fl_has f ''create_at2'' then None else Some (ByCustomer customer))
          else if op = ''between''
          then (case (int_flag f ''create_at'', int_flag f ''create_at2'') of
              (Some t, Some t') \<Rightarrow> Some (ByCustomerBetween customer t t') | _ \<Rightarrow> None)
          else map_option (ByCustomerAt customer op) (int_flag f ''create_at''))"

definition cli_query :: "string list \<Rightarrow> cli_query option" where
  "cli_query args =
     (case args of
        n # q # qs \<Rightarrow>
          if n = ''query'' \<and> q = ''by-customer-id''
          then (case parseFlags qs of Inl e \<Rightarrow> None | Inr f \<Rightarrow> query_of f) else None
      | _ \<Rightarrow> None)"

definition run_query :: "'s http_client \<Rightarrow> order_codecs \<Rightarrow> cli_query \<Rightarrow> 's \<Rightarrow> 's \<times> (goerr + order list)" where
  "run_query cl cds q =
     (case q of
        ByCustomer customer \<Rightarrow> http_QueryByCustomerId cl cds customer
      | ByCustomerAt customer op t \<Rightarrow> http_QueryByCustomerIdWithCreateAt cl cds customer op t
      | ByCustomerBetween customer t t' \<Rightarrow> http_QueryByCustomerIdBetweenCreateAt cl cds customer t t')"

lemma ParseInt64_Nil: "\<exists>e. ParseInt64 [] = Inl e"
  by (simp add: ParseInt64_def split_sign_def all_digits_def)

lemma int_flag_cases:
  obtains v t where "fl_require f key = Inr v" "mustParseInt64 v key = Inr t" "int_flag f key = Some t"
  | msg where "fl_require f key = Inl msg" "int_flag f key = None"
  | v msg where "fl_require f key = Inr v" "mustParseInt64 v key = Inl msg" "int_flag f key = None"
proof (cases "fl_named f key")
  case None
  with that(2) show ?thesis by (simp add: fl_require_def int_flag_def)
next
  case (Some v)
  show ?thesis
  proof (cases "v = []")
    case True
    with Some that(2) ParseInt64_Nil show ?thesis by (auto simp: fl_require_def int_flag_def)
  next
    case False
    with Some have "fl_require f key = Inr v" by (simp add: fl_require_def)
    with Some that(1,3) show ?thesis by (cases "ParseInt64 v") (simp_all add: int_flag_def mustParseInt64_def)
  qed
qed

lemma query_by_customer_spec:
  "case query_of f of
     Some q \<Rightarrow> query_by_customer env cl f s = finish (printResults env) (run_query cl (ce_codecs env) q s)
   | None \<Rightarrow> refuses s (query_by_customer env cl f s)"
proof (cases "fl_positionals f")
  case Nil
  then show ?thesis by (simp add: query_of_def query_by_customer_def fl_positional_def with_arg_def refused)
next
  case (Cons customer rest)
  define op where "op = fl_get f ''sk-op''"
  have pos: "fl_positional f 0 ''customer_id'' = Inr customer" by (simp add: fl_positional_def Cons)
  note unfold = query_of_def query_by_customer_def pos Cons with_arg_def refused run_query_def op_def [symmetric]
  consider "op = []" | "op = ''between''" | "op \<noteq> []" "op \<noteq> ''between''" by blast
  then show ?thesis
  proof cases
    case 1
    then show ?thesis by (simp add: unfold)
  next
    case 2
    then show ?thesis
      by (cases f "''create_at''" rule: int_flag_cases; cases f "''create_at2''" rule: int_flag_cases) (simp_all add: unfold)
  next
    case 3
    then show ?thesis
      by (cases f "''create_at''" rule: int_flag_cases) (simp_all add: unfold)
  qed
qed

lemma switch_query:
  "case cli_query (''query'' # as) of
     Some q \<Rightarrow> ordermgr_switch env cl (''query'' # as) s = finish (printResults env) (run_query cl (ce_codecs env) q s)
   | None \<Rightarrow> refuses s (ordermgr_switch env cl (''query'' # as) s)"
proof (cases as)
  case Nil
  then show ?thesis by (simp add: cli_query_def ordermgr_switch_def refused)
next
  case (Cons q qs)
  have sw: "ordermgr_switch env cl (''query'' # q # qs) s
      = with_arg (parseFlags qs) (\<lambda>flags. if q = ''by-customer-id'' then query_by_customer env cl flags
          else (\<lambda>s. (s, fatal (''unknown query: '' @ q)))) s"
    by (simp add: ordermgr_switch_def cong: if_cong)
  show ?thesis
  proof (cases "parseFlags qs")
    case (Inr f)
    with query_by_customer_spec [where f = f and env = env and cl = cl and s = s] show ?thesis
      unfolding Cons sw by (auto simp: cli_query_def with_arg_def refused split: option.splits)
  next
    case (Inl msg)
    then show ?thesis unfolding Cons sw by (simp add: cli_query_def with_arg_def refused)
  qed
qed

text \<open>Flags and positional arguments in any order.\<close>

fun cli_word :: "string + string \<times> string \<Rightarrow> string" where
  "cli_word (Inl p) = p"
| "cli_word (Inr (k, v)) = ''--'' @ k @ ''='' @ v"

definition plain_word :: "string + string \<times> string \<Rightarrow> bool" where
  "plain_word w \<longleftrightarrow> (case w of Inl p \<Rightarrow> \<not> has_prefix p ''--'' | Inr (k, v) \<Rightarrow> CHR ''='' \<notin> set k)"

lemma cut_at_first: "c \<notin> set k \<Longrightarrow> cut_at c (k @ c # v) = Some (k, v)"
  by (induction k) auto

lemma parseFlags_loop_words:
  "\<forall>w \<in> set ws. plain_word w \<Longrightarrow> parseFlags_loop (map cli_word ws) f = Inr
     \<lparr>fl_positionals = fl_positionals f @ [p. Inl p \<leftarrow> ws], fl_named = fl_named f ++ map_of (rev [kv. Inr kv \<leftarrow> ws])\<rparr>"
proof (induction ws arbitrary: f)
  case (Cons w ws)
  show ?case
  proof (cases w)
    case (Inl p)
    with Cons show ?thesis by (simp add: plain_word_def)
  next
    case (Inr kv)
    obtain k v where kv: "kv = (k, v)" by fastforce
    with Cons.prems Inr have "CHR ''='' \<notin> set k" by (simp add: plain_word_def)
    from cut_at_first [OF this] Inr kv Cons show ?thesis
      by (simp add: trim_prefix_def has_prefix_def)
  qed
qed simp

lemma parseFlags_words:
  "\<forall>w \<in> set ws. plain_word w \<Longrightarrow> parseFlags (map cli_word ws) = Inr
     \<lparr>fl_positionals = [p. Inl p \<leftarrow> ws], fl_named = map_of (rev [kv. Inr kv \<leftarrow> ws])\<rparr>"
  by (simp add: parseFlags_def parseFlags_loop_words)

section \<open>Properties\<close>

text \<open>
  C8. A correct command line is a command of the repository. With the optional flag \<open>-json\<close>, one
  of the ten commands with its arguments and an endpoint whose network carries requests as net/http
  does, ordermgr does to the server's state exactly what the repository's \<open>Apply\<close> does for the
  command of the usage table in the name of the user that the authorizer found (not of the
  local user and host, which is the actor it sends); it prints the id and the version and exits with
  0 when \<open>Apply\<close> succeeds, and otherwise prints the status, code and message of the error to stderr
  and exits with 1.
\<close>

theorem ordermgr_end_to_end:
  fixes router :: "('s, 'k) router" and env :: "'s cli_env"
  assumes args: "cli_command env args = Some cmd" "api_endpoint env = Some url"
    and routes: "ro_routes router = ro_routes (NewRouter [RegisterRoutes h])" "ro_cors router = None"
    and repo: "oh_repo h = repository_iface r clk"
    and net: "\<forall>b. connected (ce_http env) (trim_right_slashes url) wire order ck router c
                 (client_request (mgr_client env url json) ''POST'' (command_url (mgr_client env url json) cmd) b)"
    and auth: "\<forall>rq. oh_authorizer h c rq (order_function (order_CommandName cmd)) = Inr c'" "UserIDFromContext c' \<noteq> []"
    and codecs: "oh_codecs h = ce_codecs env"
      "faithful {q. order_CommandName q = order_CommandName cmd} (cd_command (ce_codecs env) (order_CommandName cmd))"
      "faithful UNIV (cd_response (ce_codecs env))" "faithful UNIV (cd_error (ce_codecs env))"
    and run: "repo_apply r c' clk s (Some (order_with_actor (UserIDFromContext c') cmd)) = (s', ws, res)"
  shows "ordermgr_main env ((if json then [''-json''] else []) @ args) s
    = (s', case res of
        Inr v \<Rightarrow> \<lparr>co_exit = 0, co_stdout = ''{'' @ quoted ''id'' @ '':'' @ Quote (oc_id cmd)
            @ '','' @ quoted ''version'' @ '':'' @ dec_int64 v @ ''}'' @ nl, co_stderr = []\<rparr>
      | Inl e \<Rightarrow> \<lparr>co_exit = 1, co_stdout = [], co_stderr = ''error: httpclient: '' @ dec_int (error_code e) @ '' ''
            @ error_name e @ '': '' @ error_message e @ nl\<rparr>)"
proof -
  let ?cl = "mgr_client env url json"
  note name = cli_command_name [OF args(1)]
  have "ordermgr_flags False ((if json then [''-json''] else []) @ args) = Some (json, args)"
    using flags_plain [of args json] name by (cases json) (simp_all add: has_prefix_def)
  from main_switch [OF this _ args(2)] name
  have main: "ordermgr_main env ((if json then [''-json''] else []) @ args) s
      = finish printResponse (order_http_apply ?cl (ce_codecs env) cmd s)"
    using switch_command [OF args(1)] by simp
  have keep: "keeps_request (hc_auth ?cl)" using providers_keep_request(1) by (simp add: mgr_client_def)
  have sent: "sent ?cl rq = rq" for rq by (simp add: sent_def mgr_client_def NewNoAuth_def)
  have net': "connected (hc_http ?cl) (hc_baseURL ?cl) wire order ck router c (sent ?cl (client_request ?cl ''POST'' (command_url ?cl cmd) b))" for b
    unfolding sent using net by (simp add: mgr_client_def)
  note sends = command_end_to_end [OF routes repo keep net' auth(1) [rule_format] auth(2) codecs(2-4) [folded codecs(1)] run]
  show ?thesis
    unfolding main using sends
    by (cases res) (simp_all add: codecs(1) finish_def printResponse_def prints_def fatal_def error_answer_def APIError_def
        api_error_text_def)
qed

text \<open>The arguments for which the program calls the server.\<close>

definition cli_sends :: "'s cli_env \<Rightarrow> string list \<Rightarrow> bool" where
  "cli_sends env args \<longleftrightarrow> cli_command env args \<noteq> None \<or> cli_query args \<noteq> None
     \<or> length args = 2 \<and> hd args \<in> {''get'', ''load'', ''history''}"

lemma switch_read:
  assumes "n \<in> {''get'', ''load'', ''history''}" "length as \<noteq> 1"
  shows "refuses s (ordermgr_switch env cl (n # as) s)"
  using assms by (auto simp: ordermgr_switch_def with_args_def refused)

lemma switch_refuses:
  assumes "\<not> cli_sends env (n # as)"
  shows "refuses s (ordermgr_switch env cl (n # as) s)"
proof (cases "n \<in> set cli_reads")
  case False
  with assms switch_no_command [where env = env and n = n and as = as] show ?thesis by (simp add: cli_sends_def)
next
  case True
  then consider "n = ''query''" | "n \<in> {''get'', ''load'', ''history''}" by (auto simp: cli_reads_def)
  then show ?thesis
  proof cases
    case 1
    with assms switch_query [where as = as and env = env and cl = cl and s = s] show ?thesis by (auto simp: cli_sends_def split: option.splits)
  next
    case 2
    have "length as \<noteq> 1" using assms 2 by (auto simp: cli_sends_def)
    with 2 show ?thesis by (rule switch_read)
  qed
qed

text \<open>
  C9. A wrong command line sends nothing. When a flag before the command is unknown, the command is
  missing, no endpoint is set, or the arguments are neither a command of the usage table with
  values that parse, nor a read of one id, nor a query with a customer and either no operator
  and no timestamps or an operator with the int64 timestamps it needs, the program leaves the
  server's state as it is, prints nothing to stdout and exits with 1.
\<close>

theorem ordermgr_refuses:
  assumes "case ordermgr_flags False osArgs of
      None \<Rightarrow> True
    | Some (json, args) \<Rightarrow> args = [] \<or> api_endpoint env = None \<or> \<not> cli_sends env args"
  shows "refuses s (ordermgr_main env osArgs s)"
proof (cases "ordermgr_flags False osArgs")
  case None
  then show ?thesis by (simp add: ordermgr_main_def refused)
next
  case (Some fa)
  obtain json args where fa: "fa = (json, args)" by fastforce
  show ?thesis
  proof (cases "args = [] \<or> api_endpoint env = None")
    case True
    with Some fa show ?thesis by (auto simp: ordermgr_main_def refused)
  next
    case False
    then obtain url n as where u: "api_endpoint env = Some url" "args = n # as" by (cases args) auto
    with assms Some fa have "\<not> cli_sends env (n # as)" by simp
    from switch_refuses [OF this] main_switch [OF Some [unfolded fa] _ u(1)] u(2) show ?thesis by simp
  qed
qed

text \<open>
  A query's flags may come in any order. With the query \<open>by-customer-id\<close>, positional words that
  do not start with two hyphens and flags whose names have no equals sign, in any order, the
  program runs the query that the first positional word and the last value of each flag stand for,
  once, and prints its results.
\<close>

theorem ordermgr_queries:
  assumes "\<forall>w \<in> set ws. plain_word w" "api_endpoint env = Some url"
    and "query_of \<lparr>fl_positionals = [p. Inl p \<leftarrow> ws], fl_named = map_of (rev [kv. Inr kv \<leftarrow> ws])\<rparr> = Some q"
  shows "ordermgr_main env ((if json then [''-json''] else []) @ [''query'', ''by-customer-id''] @ map cli_word ws) s
    = finish (printResults env) (run_query (mgr_client env url json) (ce_codecs env) q s)"
proof -
  let ?as = "''query'' # ''by-customer-id'' # map cli_word ws"
  have "cli_query ?as = Some q" using assms(3) parseFlags_words [OF assms(1)] by (simp add: cli_query_def)
  with switch_query [where as = "''by-customer-id'' # map cli_word ws" and env = env and cl = "mgr_client env url json" and s = s]
  have switch: "ordermgr_switch env (mgr_client env url json) ?as s
      = finish (printResults env) (run_query (mgr_client env url json) (ce_codecs env) q s)" by simp
  have "ordermgr_flags False ((if json then [''-json''] else []) @ ?as) = Some (json, ?as)"
    by (cases json) (simp_all add: has_prefix_def)
  from main_switch [OF this _ assms(2)] switch show ?thesis by simp
qed

section \<open>Examples\<close>

text \<open>The orders behind a server that lets everything through as ann, called from a shell.\<close>

definition open_handler :: "memory_store order_handler" where
  "open_handler = net_handler\<lparr>oh_authorizer := (\<lambda>c rq f. Inr (WithUserID c ''ann''))\<rparr>"

definition open_router :: "(memory_store, unit) router" where
  "open_router = NewRouter [RegisterRoutes open_handler]"

definition ex_cli :: "memory_store cli_env" where
  "ex_cli = \<lparr>ce_Getenv = (\<lambda>k. if k = ''API_ENDPOINT'' then ''https://h/'' else []), ce_user = Inr ''me'',
     ce_Hostname = Inr ''box'', ce_http = net_http open_router, ce_codecs = string_codecs,
     ce_item = (\<lambda>_. Inr ex_item), ce_tag = (\<lambda>_. Inl (Foreign ''syntax error'')),
     ce_billing = (\<lambda>_. Inl (Foreign ''syntax error'')), ce_format = (\<lambda>a. Inr (o_id a)),
     ce_any = (\<lambda>_. Inl (Foreign ''no such type''))\<rparr>"

theorem ordermgr_end_to_end_witness:
  "snd (ordermgr_main ex_cli [''-json'', ''create'', ''o1'', ''c1'', ''Bob''] (memorystore_New 50))
   = \<lparr>co_exit = 0, co_stdout = ''{'' @ quoted ''id'' @ '':'' @ quoted ''o1'' @ '','' @ quoted ''version'' @ '':1}'' @ nl, co_stderr = []\<rparr>"
proof -
  let ?c = "WithUserID background ''ann''" and ?cmd = "Create ''o1'' [] ''c1'' ''Bob''" and ?url = "''https://h/''"
  have args: "cli_command ex_cli [''create'', ''o1'', ''c1'', ''Bob''] = Some ?cmd" "api_endpoint ex_cli = Some ?url"
    by (simp_all add: cli_one api_endpoint_def ex_cli_def)
  have routes: "ro_routes open_router = ro_routes (NewRouter [RegisterRoutes open_handler])" "ro_cors open_router = None"
    by (simp_all add: open_router_def NewRouter_def RegisterRoutes_def router_Handle_def)
  have repo: "oh_repo open_handler = repository_iface ex_repo ex_clock" by (simp add: open_handler_def)
  have base: "trim_right_slashes ?url = ''https://h''" by (simp add: trim_right_slashes_def)
  have url: "path_unescape (before_query (drop (length ''https://h'') (''https://h'' @ ''/'' @ order_routePath @ ''/create''))) \<noteq> None"
    by code_simp
  have cmd_url: "command_url (mgr_client ex_cli ?url True) ?cmd = ''https://h'' @ ''/'' @ order_routePath @ ''/create''"
  proof -
    have "to_lower (order_CommandName ?cmd) = ''create''" by code_simp
    then show ?thesis by (simp add: command_url_def mgr_client_def base)
  qed
  have "hc_auth (mgr_client ex_cli ?url True) \<in> {NewBearerTokenAuth [] (detectActor ex_cli), NewNoAuth (detectActor ex_cli)}"
    by (simp add: mgr_client_def)
  from net_http_connected [OF url this, of open_router "''POST''"]
  have net: "\<forall>b. connected (ce_http ex_cli) (trim_right_slashes ?url) net_wire (\<lambda>_. [''Content-Type'']) (\<lambda>_. []) open_router
      background (client_request (mgr_client ex_cli ?url True) ''POST'' (command_url (mgr_client ex_cli ?url True) ?cmd) b)"
    unfolding base cmd_url by (simp add: sent_def ex_cli_def mgr_client_def NewNoAuth_def)
  have auth: "\<forall>rq. oh_authorizer open_handler background rq (order_function (order_CommandName ?cmd)) = Inr ?c"
      "UserIDFromContext ?c \<noteq> []" by (simp_all add: open_handler_def)
  have codecs: "oh_codecs open_handler = ce_codecs ex_cli"
      "faithful {q. order_CommandName q = order_CommandName ?cmd} (cd_command (ce_codecs ex_cli) (order_CommandName ?cmd))"
      "faithful UNIV (cd_response (ce_codecs ex_cli))" "faithful UNIV (cd_error (ce_codecs ex_cli))"
    using string_codecs_faithful by (simp_all add: open_handler_def ex_cli_def)
  let ?out = "repo_apply ex_repo ?c ex_clock (memorystore_New 50) (Some (order_with_actor (UserIDFromContext ?c) ?cmd))"
  have res: "snd (snd ?out) = Inr 1" by code_simp
  have run: "?out = (fst ?out, fst (snd ?out), snd (snd ?out))" by simp
  have printed: "Quote ''o1'' = quoted ''o1''" "dec_int64 1 = ''1''" by code_simp+
  from ordermgr_end_to_end [where json = True, OF args routes repo net auth codecs run] res printed show ?thesis by simp
qed

theorem ordermgr_refuses_witness:
  "refuses (7 :: nat) (ordermgr_main \<lparr>ce_Getenv = (\<lambda>_. ''h''), ce_user = Inr ''me'', ce_Hostname = Inr ''box'',
     ce_http = ex_env, ce_codecs = string_codecs, ce_item = (\<lambda>_. Inr ex_item), ce_tag = (\<lambda>_. Inl (Foreign ''syntax error'')),
     ce_billing = (\<lambda>_. Inl (Foreign ''syntax error'')), ce_format = (\<lambda>a. Inr (o_id a)),
     ce_any = (\<lambda>_. Inl (Foreign ''no such type''))\<rparr> [''place'', ''o1'', ''soon''] 7)"
  by (rule ordermgr_refuses) code_simp

theorem ordermgr_queries_witness:
  "ordermgr_main ex_cli [''query'', ''by-customer-id'', ''--create_at=-3'', ''c1'', ''--sk-op=le'', ''--sk-op=ge''] (memorystore_New 50)
   = finish (printResults ex_cli) (http_QueryByCustomerIdWithCreateAt (mgr_client ex_cli ''https://h/'' False) string_codecs
       ''c1'' ''ge'' (- 3) (memorystore_New 50))"
proof -
  let ?ws = "[Inr (''create_at'', ''-3''), Inl ''c1'', Inr (''sk-op'', ''le''), Inr (''sk-op'', ''ge'')]"
  have ws: "\<forall>w \<in> set ?ws. plain_word w" by (simp add: plain_word_def has_prefix_def)
  have ep: "api_endpoint ex_cli = Some ''https://h/''" by (simp add: api_endpoint_def ex_cli_def)
  have q: "query_of \<lparr>fl_positionals = [p. Inl p \<leftarrow> ?ws], fl_named = map_of (rev [kv. Inr kv \<leftarrow> ?ws])\<rparr>
      = Some (ByCustomerAt ''c1'' ''ge'' (- 3))" by code_simp
  from ordermgr_queries [OF ws ep q, of False "memorystore_New 50"] show ?thesis
    by (simp add: run_query_def ex_cli_def)
qed

end
