(* ===== verification/Spec2Isabelle.thy ===== *)
theory Spec2Isabelle
  imports RepositoryProperties OrderProperties BoltProperties RouterProperties OrderClientProperties
    CosmosProperties DynamoStoreProperties CosmosStoreProperties ProvisioningProperties
    AdapterProperties HttpClientProperties SerializerProperties MysqlStore GeneratorProperties
    TsProperties SetupProperties TestCliProperties ReadsEndToEnd OrderMgrProperties
begin

text \<open>
  A verification library for protosource, an event-sourcing framework in Go: protobuf messages with
  annotations describe an aggregate, its commands and its events; a code generator writes the Go
  and TypeScript code of the domain; a repository turns commands into events of a log, over one of
  several stores; handlers, a router and adapters serve it over HTTP to generated clients and command
  line tools; and materialized aggregates and projections are kept as opaque rows in a document
  database.

  \<^bold>\<open>Parts and how they interact.\<close> \<open>Repository.Apply\<close> loads the events of an aggregate from a
  \<open>Store\<close>, replays them on a new aggregate, runs the checks and the evaluator of the command, and
  saves the events it emits, compressed and encoded by a \<open>Serializer\<close>; an \<open>AggregateStore\<close> gets
  the new state. Each of these is an interface of protosource.go, which is a record of operations
  in the model; what its implementations promise is a contract, and each implementation under src/
  is proved to keep it:

  \<^item> \<open>event_log_store\<close> (Contracts): the store is a map of streams of records. Met by the memory
    store (MemoryStore), the Bolt store (BoltContract), the DynamoDB store (DynamoStoreContract) and
    the Cosmos store (CosmosStoreContract). \<open>batch_writer\<close> (Batches) is what the last two share.
  \<^item> \<open>serializer_laws\<close> (Contracts): a serializer has a left inverse. Met by both serializers
    (SerializerProperties).
  \<^item> \<open>aggregate_contract\<close> and, for aggregates with snapshots, \<open>snapshot_contract\<close> (Contracts,
    Snapshots): events number a stream, and snapshots are where tail loading expects them. Met by the
    order (OrderContract, every 50 events) and the test aggregate (TestContract, every 3).
  \<^item> \<open>opaque_store\<close> (OpaqueData): exact maps of rows with queries that end with the live matching
    rows in order. Met by the DynamoDB and the Cosmos opaque store (DynamoContract, CosmosContract);
    used by the order clients (OrderShelf).

  A request of the typed HTTP client goes through the generic client, a network that carries messages
  as net/http does, an adapter, the router, a generated handler and the authorizer to the repository
  or to the client of the opaque rows, and back (Network, EndToEnd, ReadsEndToEnd).

  \<^bold>\<open>Which theory models what.\<close>
  \<^item> GoPrelude: Go's values, errors with wrapping and \<open>errors.Is\<close>/\<open>As\<close>, contexts, strings, console
    output. Strconv (strconv, encoding/base64), NetURL (net/url): what the code uses of them.
  \<^item> Compress (compress.go), Repository (protosource.go: construction, Load, History, Save, Apply and
    their helpers), EventLog (the abstract log), Refinement (the simulation), Snapshots (snapshot
    events and tail loading), Runs (sequences of commands), RepositoryProperties.
  \<^item> MemoryStore (stores/memorystore), BoltDB and BoltStore (stores/boltdbstore, bbolt as a
    parameter), DynamoStore (stores/dynamodbstore), CosmosStore and CosmosClient
    (stores/cosmosdbstore, azure/cosmosclient), MysqlStore (stores/mysqlstore), Provisioning
    (tables.go, containers.go), Batches, each with a theory of its contract and one of its properties.
  \<^item> OrderDomain (gen/example/app/order/v1: messages, generated aggregate, builder and commands,
    derived fields, evaluators), OrderContract, OrderMachine, OrderProperties. TestDomain and
    TestContract (gen/example/app/test/v1: the same for an aggregate whose creation emits two events).
  \<^item> OpaqueData (gen/opaquedata), DynamoOpaque (gen/opaquedata/dynamo), CosmosOpaque
    (gen/opaquedata/cosmos), OrderClient, OrderShelf, OrderClientProperties (the generated clients).
  \<^item> Router (router.go, authz/), Adapters (adapters/awslambda, adapters/httpstandard), HttpClient
    (httpclient/), Serializers (serializers/), with their properties. Handlers (the generated
    order_v1.protosource.lambda.pb.go), HandlerFacts, Service and ServiceProperties (runs of
    requests). OrderHttpClient (order_v1.protosource.client.pb.go), Network, EndToEnd, ReadsEndToEnd.
  \<^item> OrderMgr and OrderMgrProperties (ordermgr/main.go), TestCli and TestCliProperties
    (cmd/testcli), SetupTools and SetupProperties (cmd/testdynamo-setup, cmd/testcosmos-setup).
  \<^item> The generator plugins under cmd/: ProtoAst (the syntax tree they are given), Annotations,
    KeySlots, Validators, FileValidators, CodeExprs and Generator (protoc-gen-protosource), TsPlugin
    (protoc-gen-protosource-ts); KeySlotFacts, GeneratorFacts, GeneratorProperties, TsProperties.
  \<^item> Examples, and the last sections of Generator, DynamoContract and CosmosContract: concrete
    instances of the parameters for the witnesses.

  \<^bold>\<open>State and effects.\<close> An operation takes the state of what it changes and returns the new one with
  its result; errors are values of \<open>goerr\<close> in a sum or an option. Fixed-width integers are words. A
  store's state is the contents of the service behind it; the mutexes make operations atomic, so
  concurrent use is an order of whole operations. Records that the memory store hands out are
  aliased: \<open>ms_writeback\<close> is what the repository's decompression in place does to them. A command
  line tool gives its exit code and what it wrote to the two streams.

  \<^bold>\<open>What the lemmas show.\<close> The repository refines the abstract log over every store, serializer and
  aggregate with the contracts above (\<open>apply_refines\<close>, \<open>load_replays\<close>, \<open>history_complete\<close>,
  \<open>save_appends\<close>, \<open>memory_run_refines\<close>), provided that the history can be loaded: \<open>Apply\<close> takes
  an aggregate that cannot be loaded for a new one. A command fails to be stored exactly when the
  serializer or the store refuses one of its events (\<open>store_refusal\<close>), and then with their error. Tail loading from snapshots agrees
  with a full replay (\<open>order_tail_load_exact\<close>, \<open>order_snapshots_transparent\<close>). Orders keep their
  invariant, move by their transition table and never get stuck. Each store keeps the log contract
  over every service with the documented behaviour, and refuses versions that are taken. Rows that
  the order clients write are found by their queries. The typed client's calls do on the server what
  the repository does, and return what it returns (\<open>client_apply_end_to_end\<close>,
  \<open>client_reads_end_to_end\<close>, \<open>client_queries_end_to_end\<close>); nothing is written that was not authorized
  and attributed to the authenticated user (\<open>service_events_attributed\<close>). ordermgr and testcli do
  what their command lines say (\<open>ordermgr_end_to_end\<close>, \<open>testcli_refines\<close>), the setup tools leave
  protected tables alone. A file that the generator's validators accept answers the lookups of the
  templates, those of the Go names of states when it is the last file of the run
  (\<open>generator_lookups_succeed\<close>), key annotations mean the same whatever the order of Go's maps, and both plugins agree
  on what the two sides of the wire share.

  \<^bold>\<open>Parameters and their laws.\<close> compress/gzip, protobuf, bbolt, the DynamoDB and Cosmos SDKs, the SQL
  driver, net/http, \<open>http.Cookie\<close>, protoc-gen-star and the validator are not under src/: they are
  arguments of the definitions. Their documented behaviour is stated by predicates (\<open>gzip_laws\<close>,
  \<open>any_laws\<close>, \<open>proto_laws\<close>, \<open>bolt_laws\<close>, \<open>plugin_laws\<close>, \<open>connected\<close> and \<open>faithful\<close> of a network) or
  locales (\<open>dynamo_service\<close>, \<open>dynamo_events\<close>, \<open>cosmos_service\<close>, \<open>cosmos_events\<close>, \<open>mysql_server\<close>,
  \<open>dynamo_tables\<close>, \<open>cosmos_containers\<close>, \<open>dynamo_setup_service\<close>, \<open>byte_writer\<close>). Each has a concrete
  instance in the witnesses. \<open>cosmos_service\<close> is stated at the code's own interface \<open>ContainerClient\<close>;
  that the wrapper of azure/cosmosclient provides it over the SDK is \<open>wrapped_container\<close>. The laws of
  the event tables and containers count a call that returns an error as one that wrote nothing, so
  a response that is lost after the service has committed is outside them. \<open>order_service\<close>, the
  setting of the properties of the handlers, asks that loads succeed, that contexts are not
  cancelled while a request is served (an authorizer may extend them, as authz/allowall does), and
  that decoding a command message gives a command of its type.

  \<^bold>\<open>Loops and bounds.\<close> Loops over a list are structural recursion. The paging loops of DynamoDB and
  Cosmos run until the service says that there is no more: they are partial functions whose value
  is \<open>None\<close> when they do not return, and they are proved to return (\<open>dynamodb_loads_return\<close>, and
  the query laws of the opaque stores). A query handler that runs such a loop is registered through
  \<open>returning\<close>, unspecified for a query that does not return; its properties assume or prove that it
  does. Batches hold a hundred records, sort keys made of timestamps are in numeric order for
  sixteen digits, and streams are shorter than \<open>2 ^ 63\<close> events. No fuel is used.

  \<^bold>\<open>Not modelled.\<close> The example servers under cmd/ (sample, testdynamo, testcosmos), which construct
  the parts and listen, with the wire providers; the sample examples, the keys, client and manager
  of the test example and the managers of the samples, which are the generator's output for other
  messages; in the generated handlers and in ordermgr, the parsers of value types that no order
  query or command has; in the plugins, the loading and execution of the templates, the
  debugging dump and the call of go/format; protobuf's generated reflection code; and logging.
\<close>

end
